(* ===== verification/Prelude.thy ===== *)
theory Prelude
  imports Main "HOL-Library.Finite_Map" "HOL-Library.Char_ord" "HOL-Library.List_Lexorder"
begin

text \<open>
  What the components share: Go's fixed-width integers, Go's maps and the loops that range
  over them, removal of the first occurrence from a slice, and \<open>fmt.Sprintf\<close> of integers.

  An \<^verbatim>\<open>int64\<close> (and, on the 64-bit platforms the simulator is built for, an \<^verbatim>\<open>int\<close>) is an
  \<^typ>\<open>int\<close> on which every sum, difference and product is wrapped by \<open>int64\<close>. A
  \<^verbatim>\<open>map[K]V\<close> is a finite map. A \<^verbatim>\<open>for range\<close> loop over a map visits the keys in an order
  the language leaves open: a loop whose result does not depend on it is run over the keys in
  increasing order (\<open>range_fold\<close>), and \<open>order_free_loop\<close> shows that any other
  order gives the same result; a loop whose result does depend on it takes the order as an
  argument, and \<open>iteration_order\<close> says which lists are orders of a map.
\<close>

named_theorems int_wrap \<open>wrap-around of Go integers on values in range\<close>
named_theorems store_defs \<open>the operations of a store, unfolded\<close>

section \<open>Fixed-width integers\<close>

definition int64 :: "int \<Rightarrow> int" where
  "int64 x = signed_take_bit 63 x"

definition int32 :: "int \<Rightarrow> int" where
  "int32 x = signed_take_bit 31 x"

abbreviation (input) MaxInt64 :: int where
  "MaxInt64 \<equiv> 9223372036854775807"

abbreviation (input) MinInt64 :: int where
  "MinInt64 \<equiv> - 9223372036854775808"

text \<open>Integer division of Go truncates towards zero.\<close>

definition go_div :: "int \<Rightarrow> int \<Rightarrow> int" where
  "go_div a b = int64 (sgn a * sgn b * (\<bar>a\<bar> div \<bar>b\<bar>))"

definition go_mod :: "int \<Rightarrow> int \<Rightarrow> int" where
  "go_mod a b = a - b * (sgn a * sgn b * (\<bar>a\<bar> div \<bar>b\<bar>))"

lemma int64_id [int_wrap]: "MinInt64 \<le> x \<Longrightarrow> x \<le> MaxInt64 \<Longrightarrow> int64 x = x"
  unfolding int64_def by (rule signed_take_bit_int_eq_self) simp_all

lemma int32_id [int_wrap]: "- 2147483648 \<le> x \<Longrightarrow> x \<le> 2147483647 \<Longrightarrow> int32 x = x"
  unfolding int32_def by (rule signed_take_bit_int_eq_self) simp_all

lemma int64_range: "MinInt64 \<le> int64 x" "int64 x \<le> MaxInt64"
  using signed_take_bit_int_greater_eq_minus_exp [of 63 x] signed_take_bit_int_less_exp [of 63 x]
  by (simp_all add: int64_def)

lemma int64_idem [simp]: "int64 (int64 x) = int64 x"
  by (simp add: int64_def)

lemma int64_0 [simp]: "int64 0 = 0"
  by (simp add: int64_def)

lemma int64_cong_iff: "int64 a = int64 b \<longleftrightarrow> take_bit 64 a = take_bit 64 b"
  by (simp add: int64_def signed_take_bit_eq_iff_take_bit_eq)

lemma take_bit_int64: "take_bit 64 (int64 a) = take_bit 64 a"
  using int64_cong_iff [of "int64 a" a] by simp

lemma int64_add_left [simp]: "int64 (int64 a + b) = int64 (a + b)"
  unfolding int64_cong_iff by (metis take_bit_add take_bit_int64)

lemma int64_add_right [simp]: "int64 (a + int64 b) = int64 (a + b)"
  using int64_add_left [of b a] by (simp add: add.commute)

lemma int64_diff_left [simp]: "int64 (int64 a - b) = int64 (a - b)"
  using int64_add_left [of a "- b"] by simp

lemma int64_diff_right [simp]: "int64 (a - int64 b) = int64 (a - b)"
  unfolding int64_cong_iff by (metis take_bit_diff take_bit_int64)

lemma int64_wrap: "int64 (x - 2 ^ 64) = int64 x"
  unfolding int64_cong_iff take_bit_eq_mod by (rule minus_mod_self2)

section \<open>Maps and loops that range over them\<close>

type_synonym ('k, 'v) gomap = "('k, 'v) fmap"

abbreviation get :: "('k, 'v) gomap \<Rightarrow> 'k \<Rightarrow> 'v option" where
  "get \<equiv> fmlookup"

definition keys_in_order :: "('k::linorder, 'v) gomap \<Rightarrow> 'k list" where
  "keys_in_order m = sorted_list_of_fset (fmdom m)"

definition iteration_order :: "('k, 'v) gomap \<Rightarrow> 'k list \<Rightarrow> bool" where
  "iteration_order m ks \<longleftrightarrow> distinct ks \<and> set ks = fmdom' m"

definition map_len :: "('k, 'v) gomap \<Rightarrow> int" where
  "map_len m = int (card (fmdom' m))"

text \<open>One pass of a \<^verbatim>\<open>for k, v := range m\<close> loop along a given order of the keys.\<close>

fun loop_over :: "('k \<Rightarrow> 'v \<Rightarrow> 's \<Rightarrow> 's) \<Rightarrow> ('k, 'v) gomap \<Rightarrow> 'k list \<Rightarrow> 's \<Rightarrow> 's" where
  "loop_over f m [] s = s"
| "loop_over f m (k # ks) s =
     loop_over f m ks (case get m k of None \<Rightarrow> s | Some v \<Rightarrow> f k v s)"

definition range_fold :: "('k::linorder \<Rightarrow> 'v \<Rightarrow> 's \<Rightarrow> 's) \<Rightarrow> ('k, 'v) gomap \<Rightarrow> 's \<Rightarrow> 's" where
  "range_fold f m s = loop_over f m (keys_in_order m) s"

text \<open>The values a loop collects with \<^verbatim>\<open>append\<close>, along an order of the keys.\<close>

definition values_along :: "('k, 'v) gomap \<Rightarrow> 'k list \<Rightarrow> 'v list" where
  "values_along m ks = List.map_filter (get m) ks"

lemma iteration_order_keys_in_order: "iteration_order m (keys_in_order m)"
  by (simp add: iteration_order_def keys_in_order_def fmdom'_alt_def
      sorted_list_of_fset.rep_eq)

text \<open>Writing back what is there, and removing what is not.\<close>

lemma fmupd_same: "get m k = Some v \<Longrightarrow> fmupd k v m = m"
  by (rule fmap_ext) auto

lemma fmdrop_absent: "get m k = None \<Longrightarrow> fmdrop k m = m"
  by (rule fmap_ext) simp

lemma fmdrop_commute: "fmdrop a (fmdrop b m) = fmdrop b (fmdrop a m)"
  by (rule fmap_ext) simp

lemma fmdrop_overwritten [simp]: "fmdrop c (fmupd c v m) = fmdrop c m"
  by (rule fmap_ext) simp

lemma values_along_set:
  assumes "iteration_order m ks"
  shows "set (values_along m ks) = {v. \<exists>k. get m k = Some v}"
  using assms by (force simp: values_along_def iteration_order_def List.map_filter_def fmlookup_dom'_iff)

lemma loop_over_append [simp]:
  "loop_over f m (xs @ ys) s = loop_over f m ys (loop_over f m xs s)"
  by (induction xs arbitrary: s) simp_all

text \<open>
  The interface of a loop body that may be run in any order: it need only commute with itself
  on different keys.
\<close>

locale order_free_loop =
  fixes body :: "'k::linorder \<Rightarrow> 'v \<Rightarrow> 's \<Rightarrow> 's"
  assumes body_commute: "k \<noteq> l \<Longrightarrow> body k v (body l w s) = body l w (body k v s)"
begin

lemma move_to_front:
  assumes "k \<notin> set xs"
  shows "loop_over body m (xs @ k # ys) s = loop_over body m (k # xs @ ys) s"
  using assms
proof (induction xs arbitrary: s)
  case Nil
  then show ?case by simp
next
  case (Cons x xs)
  have "loop_over body m [k, x] s = loop_over body m [x, k] s"
    using Cons.prems body_commute [of k x] by (auto split: option.splits)
  then show ?case
    using Cons.prems Cons.IH by (simp del: loop_over.simps(2)) simp
qed

lemma order_irrelevant:
  assumes "distinct xs" and "distinct ys" and "set xs = set ys"
  shows "loop_over body m xs s = loop_over body m ys s"
  using assms
proof (induction xs arbitrary: ys s)
  case Nil
  then show ?case by simp
next
  case (Cons x xs)
  from Cons.prems(3) have "x \<in> set ys" by auto
  then obtain us vs where ys: "ys = us @ x # vs" and x: "x \<notin> set us"
    by (meson split_list_first)
  have "loop_over body m ys s = loop_over body m (x # us @ vs) s"
    unfolding ys using x by (rule move_to_front)
  moreover have "set xs = set (us @ vs)" "distinct (us @ vs)"
    using Cons.prems unfolding ys by auto
  ultimately show ?case
    using Cons.IH [of "us @ vs"] Cons.prems(1) by simp
qed

lemma any_iteration_order:
  "iteration_order m ks \<Longrightarrow> loop_over body m ks s = range_fold body m s"
  unfolding range_fold_def
  by (rule order_irrelevant) (use iteration_order_keys_in_order [of m] in
      \<open>auto simp: iteration_order_def\<close>)

end

text \<open>
  The accumulating loop \<^verbatim>\<open>for _, v := range m { if p(v) { total += f(v) } }\<close> on a 64-bit
  total: the sum of \<open>f\<close> over the entries that satisfy \<open>p\<close>, wrapped once.
\<close>

definition add_if :: "('v \<Rightarrow> bool) \<Rightarrow> ('v \<Rightarrow> int) \<Rightarrow> 'k \<Rightarrow> 'v \<Rightarrow> int \<Rightarrow> int" where
  "add_if p f k v acc = (if p v then int64 (acc + f v) else acc)"

definition sum_if :: "('v \<Rightarrow> bool) \<Rightarrow> ('v \<Rightarrow> int) \<Rightarrow> ('k, 'v) gomap \<Rightarrow> int" where
  "sum_if p f m = (\<Sum>k\<in>fmdom' m. case get m k of None \<Rightarrow> 0 | Some v \<Rightarrow> if p v then f v else 0)"

interpretation add_if_loop: order_free_loop "add_if p f"
  by unfold_locales (simp add: add_if_def algebra_simps)

lemma loop_over_add_if:
  assumes "distinct ks"
  shows "int64 (loop_over (add_if p f) m ks t) =
    int64 (t + (\<Sum>k\<in>set ks. case get m k of None \<Rightarrow> 0 | Some v \<Rightarrow> if p v then f v else 0))"
  using assms
proof (induction ks arbitrary: t)
  case Nil
  then show ?case by simp
next
  case (Cons k ks)
  define g where "g = (\<lambda>k. case get m k of None \<Rightarrow> 0 | Some v \<Rightarrow> if p v then f v else 0)"
  have "int64 (case get m k of None \<Rightarrow> t | Some v \<Rightarrow> add_if p f k v t) = int64 (t + g k)"
    by (simp add: g_def add_if_def split: option.split)
  moreover have "int64 (loop_over (add_if p f) m (k # ks) t) =
      int64 ((case get m k of None \<Rightarrow> t | Some v \<Rightarrow> add_if p f k v t) + sum g (set ks))"
    using Cons unfolding g_def by simp
  ultimately show ?case
    using Cons.prems int64_add_left [of "t + g k" "sum g (set ks)"]
    unfolding g_def [symmetric]
    by (metis (no_types, lifting) List.finite_set add.assoc distinct.simps(2) int64_add_left list.simps(15) sum.insert)
qed

lemma loop_over_add_if_wrapped:
  "int64 t = t \<Longrightarrow> int64 (loop_over (add_if p f) m ks t) = loop_over (add_if p f) m ks t"
  by (induction ks arbitrary: t) (auto simp: add_if_def split: option.splits)

lemma range_fold_add_if: "range_fold (add_if p f) m 0 = int64 (sum_if p f m)"
proof -
  have "int64 (range_fold (add_if p f) m 0) = int64 (sum_if p f m)"
    using loop_over_add_if [of "keys_in_order m" p f m 0] iteration_order_keys_in_order [of m]
    by (simp add: range_fold_def sum_if_def iteration_order_def)
  then show ?thesis
    using loop_over_add_if_wrapped [of 0 p f m "keys_in_order m"] by (simp add: range_fold_def)
qed

text \<open>How the sum over a map changes when one entry is written or removed.\<close>

definition entry_sum :: "('v \<Rightarrow> bool) \<Rightarrow> ('v \<Rightarrow> int) \<Rightarrow> 'v option \<Rightarrow> int" where
  "entry_sum p f e = (case e of None \<Rightarrow> 0 | Some v \<Rightarrow> if p v then f v else 0)"

lemma entry_sum_simps [simp]:
  "entry_sum p f None = 0"
  "entry_sum p f (Some v) = (if p v then f v else 0)"
  by (simp_all add: entry_sum_def)

lemma sum_if_alt: "finite A \<Longrightarrow> fmdom' m \<subseteq> A \<Longrightarrow>
    sum_if p f m = (\<Sum>k\<in>A. entry_sum p f (get m k))"
  unfolding sum_if_def entry_sum_def
  by (rule sum.mono_neutral_left) (auto split: option.splits simp: fmlookup_dom'_iff)

lemma sum_if_fmempty [simp]: "sum_if p f fmempty = 0"
  by (simp add: sum_if_def)

lemma sum_if_fmupd:
  "sum_if p f (fmupd k v m) = sum_if p f m - entry_sum p f (get m k) + (if p v then f v else 0)"
proof -
  let ?A = "insert k (fmdom' m)"
  have "sum_if p f (fmupd k v m) = (\<Sum>j\<in>?A. entry_sum p f (get (fmupd k v m) j))"
    by (rule sum_if_alt) simp_all
  also have "\<dots> = entry_sum p f (Some v) + (\<Sum>j\<in>?A - {k}. entry_sum p f (get m j))"
    by (subst sum.remove [of _ k]) (simp_all, rule sum.cong, auto)
  also have "(\<Sum>j\<in>?A - {k}. entry_sum p f (get m j)) = sum_if p f m - entry_sum p f (get m k)"
    using sum_if_alt [of ?A m p f] sum.remove [of ?A k "\<lambda>j. entry_sum p f (get m j)"]
    by (simp add: subset_insertI)
  finally show ?thesis by simp
qed

lemma sum_if_fmdrop: "sum_if p f (fmdrop k m) = sum_if p f m - entry_sum p f (get m k)"
proof -
  let ?A = "insert k (fmdom' m)"
  have "sum_if p f (fmdrop k m) = (\<Sum>j\<in>?A. entry_sum p f (get (fmdrop k m) j))"
    by (rule sum_if_alt) auto
  also have "\<dots> = (\<Sum>j\<in>?A - {k}. entry_sum p f (get m j))"
    by (subst sum.remove [of _ k]) (auto intro: sum.cong)
  also have "\<dots> = sum_if p f m - entry_sum p f (get m k)"
    using sum_if_alt [of ?A m p f] sum.remove [of ?A k "\<lambda>j. entry_sum p f (get m j)"]
    by (simp add: subset_insertI)
  finally show ?thesis .
qed

lemmas sum_if_update = sum_if_fmupd sum_if_fmdrop

lemma sum_if_nonneg:
  "(\<And>k v. get m k = Some v \<Longrightarrow> p v \<Longrightarrow> 0 \<le> f v) \<Longrightarrow> 0 \<le> sum_if p f m"
  unfolding sum_if_def by (rule sum_nonneg) (auto split: option.splits)

lemma sum_if_ge_entry:
  assumes nonneg: "\<And>k v. get m k = Some v \<Longrightarrow> p v \<Longrightarrow> 0 \<le> f v" and "get m k = Some v"
  shows "(if p v then f v else 0) \<le> sum_if p f m"
proof -
  have "0 \<le> sum_if p f (fmdrop k m)"
    by (rule sum_if_nonneg) (auto intro: nonneg split: if_splits)
  then show ?thesis
    using assms(2) by (simp add: sum_if_fmdrop)
qed

lemma sum_if_cong:
  "(\<And>k v. get m k = Some v \<Longrightarrow> p v = q v \<and> (q v \<longrightarrow> f v = g v)) \<Longrightarrow> sum_if p f m = sum_if q g m"
  unfolding sum_if_def by (rule sum.cong) (auto split: option.splits)

section \<open>Slices\<close>

text \<open>
  The search-and-cut idiom
  \<^verbatim>\<open>for i, x := range xs { if x == y { xs = append(xs[:i], xs[i+1:]...); break } }\<close>:
  only the first occurrence goes.
\<close>

fun remove_first :: "'a \<Rightarrow> 'a list \<Rightarrow> 'a list" where
  "remove_first y [] = []"
| "remove_first y (x # xs) = (if x = y then xs else x # remove_first y xs)"

lemma set_remove_first_subset: "set (remove_first y xs) \<subseteq> set xs"
  by (induction xs) auto

lemma in_remove_first_other [simp]: "x \<noteq> y \<Longrightarrow> x \<in> set (remove_first y xs) \<longleftrightarrow> x \<in> set xs"
  by (induction xs) auto

lemma remove_first_distinct:
  "distinct xs \<Longrightarrow> distinct (remove_first y xs) \<and> set (remove_first y xs) = set xs - {y}"
  by (induction xs) auto

lemma remove_first_count: "count_list (remove_first y xs) y = count_list xs y - 1"
  by (induction xs) auto

section \<open>Formatting integers\<close>

text \<open>
  \<open>fmt.Sprintf\<close> of an integer in decimal or hexadecimal, padded with zeros to a width.
\<close>

fun digits_rev :: "nat \<Rightarrow> nat \<Rightarrow> nat list" where
  "digits_rev b n = (if b < 2 \<or> n < b then [n] else (n mod b) # digits_rev b (n div b))"

declare digits_rev.simps [simp del]

definition digit_char :: "nat \<Rightarrow> char" where
  "digit_char d = ''0123456789abcdef'' ! d"

definition show_base :: "nat \<Rightarrow> nat \<Rightarrow> string" where
  "show_base b n = rev (map digit_char (digits_rev b n))"

definition zero_pad :: "nat \<Rightarrow> string \<Rightarrow> string" where
  "zero_pad w s = replicate (w - length s) CHR ''0'' @ s"

definition fmt_0d :: "nat \<Rightarrow> int \<Rightarrow> string" where
  "fmt_0d w n = (if n < 0 then CHR ''-'' # zero_pad (w - 1) (show_base 10 (nat (- n)))
                 else zero_pad w (show_base 10 (nat n)))"

definition fmt_0x :: "nat \<Rightarrow> nat \<Rightarrow> string" where
  "fmt_0x w n = zero_pad w (show_base 16 n)"

text \<open>Reading digits back, most significant first.\<close>

definition value_of :: "nat \<Rightarrow> nat list \<Rightarrow> nat" where
  "value_of b ds = foldl (\<lambda>acc d. acc * b + d) 0 ds"

lemma value_of_append: "value_of b (ds @ [d]) = value_of b ds * b + d"
  by (simp add: value_of_def)

lemma value_of_digits: "2 \<le> b \<Longrightarrow> value_of b (rev (digits_rev b n)) = n"
proof (induction b n rule: digits_rev.induct)
  case (1 b n)
  show ?case
  proof (cases "n < b")
    case True
    then show ?thesis by (simp add: digits_rev.simps value_of_def)
  next
    case False
    with 1 have "value_of b (rev (digits_rev b (n div b))) = n div b" by simp
    with False "1.prems" show ?thesis
      by (simp add: digits_rev.simps [of b n] value_of_append)
  qed
qed

lemma digits_rev_less: "2 \<le> b \<Longrightarrow> d \<in> set (digits_rev b n) \<Longrightarrow> d < b"
proof (induction b n rule: digits_rev.induct)
  case (1 b n)
  then show ?case
    by (subst (asm) (2) digits_rev.simps) (auto split: if_splits)
qed

lemma value_of_zeros: "value_of b (replicate n 0 @ ds) = value_of b ds"
  unfolding value_of_def by (induction n) simp_all

definition hex_alphabet :: string where
  "hex_alphabet = ''0123456789abcdef''"

lemma hex_alphabet_facts:
  "distinct hex_alphabet" "length hex_alphabet = 16" "CHR ''-'' \<notin> set hex_alphabet"
  by (simp_all add: hex_alphabet_def)

lemma digit_char_alphabet: "digit_char d = hex_alphabet ! d"
  by (simp add: digit_char_def hex_alphabet_def)

lemma digit_char_inj: "i < 16 \<Longrightarrow> j < 16 \<Longrightarrow> digit_char i = digit_char j \<longleftrightarrow> i = j"
  using hex_alphabet_facts by (simp add: digit_char_alphabet nth_eq_iff_index_eq)

lemma digit_char_not_minus: "d < 16 \<Longrightarrow> digit_char d \<noteq> CHR ''-''"
  using hex_alphabet_facts nth_mem [of d hex_alphabet] by (metis digit_char_alphabet)

lemma zero_pad_digits:
  "zero_pad w (map digit_char ds) = map digit_char (replicate (w - length ds) 0 @ ds)"
  by (simp add: zero_pad_def digit_char_def)

lemma map_digit_char_inj:
  assumes "\<forall>d\<in>set ds. d < 16" "\<forall>d\<in>set es. d < 16" "map digit_char ds = map digit_char es"
  shows "ds = es"
  using assms(3)
proof (rule map_inj_on)
  show "inj_on digit_char (set ds \<union> set es)"
    using assms(1,2) digit_char_inj unfolding inj_on_def by blast
qed

lemma zero_pad_show_base_inj:
  assumes "2 \<le> b" "b \<le> 16" and eq: "zero_pad w (show_base b m) = zero_pad w (show_base b n)"
  shows "m = n"
proof -
  define ds where "ds = (\<lambda>n. replicate (w - length (digits_rev b n)) 0 @ rev (digits_rev b n))"
  have small: "\<forall>d\<in>set (ds k). d < 16" for k
    using assms(1,2) digits_rev_less [of b _ k] by (force simp: ds_def)
  have "map digit_char (ds m) = map digit_char (ds n)"
    using eq unfolding show_base_def ds_def rev_map zero_pad_digits by simp
  then have "ds m = ds n" by (rule map_digit_char_inj [OF small small])
  then have "value_of b (ds m) = value_of b (ds n)" by simp
  then show ?thesis
    using assms(1) by (simp add: ds_def value_of_zeros value_of_digits)
qed

lemma fmt_0d_inj_nonneg: "0 \<le> m \<Longrightarrow> 0 \<le> n \<Longrightarrow> fmt_0d w m = fmt_0d w n \<Longrightarrow> m = n"
  using zero_pad_show_base_inj [of 10 w "nat m" "nat n"] by (simp add: fmt_0d_def)

section \<open>Numbered keys\<close>

text \<open>
  A map whose keys are made from a counter, as in \<open>fault-001\<close>: the interface is that the name
  of a number determines it, and what it gives is that the next name is not in use.
\<close>

definition keys_upto :: "(int \<Rightarrow> 'k) \<Rightarrow> int \<Rightarrow> ('k, 'v) gomap \<Rightarrow> bool" where
  "keys_upto label n m \<longleftrightarrow> 0 \<le> n \<and> (\<forall>k. get m k \<noteq> None \<longrightarrow> (\<exists>i. 1 \<le> i \<and> i \<le> n \<and> k = label i))"

lemma keys_upto_empty [simp]: "0 \<le> n \<Longrightarrow> keys_upto label n fmempty"
  by (simp add: keys_upto_def)

lemma keys_upto_mono: "keys_upto label n m \<Longrightarrow> n \<le> n' \<Longrightarrow> (\<And>k. get m' k \<noteq> None \<Longrightarrow> get m k \<noteq> None) \<Longrightarrow> keys_upto label n' m'"
  unfolding keys_upto_def by (meson order_trans)

lemma keys_upto_next: "keys_upto label n m \<Longrightarrow> keys_upto label (n + 1) (fmupd (label (n + 1)) v m)"
  unfolding keys_upto_def
proof safe
  fix k w assume 0: "0 \<le> n" and old: "\<forall>k. get m k \<noteq> None \<longrightarrow> (\<exists>i. 1 \<le> i \<and> i \<le> n \<and> k = label i)"
    and new: "get (fmupd (label (n + 1)) v m) k = Some w"
  show "\<exists>i\<ge>1. i \<le> n + 1 \<and> k = label i"
  proof (cases "k = label (n + 1)")
    case True
    with 0 show ?thesis by (intro exI [of _ "n + 1"]) simp
  next
    case False
    with new old obtain i where "1 \<le> i" "i \<le> n" "k = label i" by auto
    then show ?thesis by (intro exI [of _ i]) simp
  qed
qed simp

locale numbered_keys =
  fixes label :: "int \<Rightarrow> 'k"
  assumes label_inj: "0 \<le> m \<Longrightarrow> 0 \<le> n \<Longrightarrow> label m = label n \<Longrightarrow> m = n"
begin

lemma next_free: "keys_upto label n m \<Longrightarrow> get m (label (n + 1)) = None"
proof (rule ccontr)
  assume keys: "keys_upto label n m" and used: "get m (label (n + 1)) \<noteq> None"
  then obtain i where i: "1 \<le> i" "i \<le> n" "label (n + 1) = label i" unfolding keys_upto_def by blast
  moreover have "0 \<le> n + 1" "0 \<le> i" using i by simp_all
  ultimately have "n + 1 = i" using label_inj by blast
  with i show False by simp
qed

lemma next_keeps: "keys_upto label n m \<Longrightarrow> get m k = Some v \<Longrightarrow> get (fmupd (label (n + 1)) w m) k = Some v"
  using next_free by fastforce

end

section \<open>Runs\<close>

text \<open>
  A component is a labelled step relation; a run is a list of labels, each allowed where it is
  taken. The interface of an invariant: the laws are that every allowed step keeps it, and what
  it gives is that every run keeps it.
\<close>

inductive guarded_run ::
    "('s \<Rightarrow> 'l \<Rightarrow> 's \<Rightarrow> bool) \<Rightarrow> ('s \<Rightarrow> 'l \<Rightarrow> bool) \<Rightarrow> 's \<Rightarrow> 'l list \<Rightarrow> 's \<Rightarrow> bool"
  for step :: "'s \<Rightarrow> 'l \<Rightarrow> 's \<Rightarrow> bool" and allowed :: "'s \<Rightarrow> 'l \<Rightarrow> bool" where
  stop: "guarded_run step allowed s [] s"
| go: "step s l s' \<Longrightarrow> allowed s l \<Longrightarrow> guarded_run step allowed s' ls s'' \<Longrightarrow>
     guarded_run step allowed s (l # ls) s''"

inductive_simps guarded_run_Nil [simp]: "guarded_run step allowed s [] t"
inductive_simps guarded_run_Cons: "guarded_run step allowed s (l # ls) t"

lemma guarded_run_append:
  "guarded_run step allowed s (ls @ ms) t \<longleftrightarrow>
     (\<exists>u. guarded_run step allowed s ls u \<and> guarded_run step allowed u ms t)"
  by (induction ls arbitrary: s) (auto simp: guarded_run_Cons)

locale kept_by_steps =
  fixes step :: "'s \<Rightarrow> 'l \<Rightarrow> 's \<Rightarrow> bool" and allowed :: "'s \<Rightarrow> 'l \<Rightarrow> bool" and inv :: "'s \<Rightarrow> bool"
  assumes step_keeps: "inv s \<Longrightarrow> allowed s l \<Longrightarrow> step s l s' \<Longrightarrow> inv s'"
begin

lemma run_keeps: "guarded_run step allowed s ls t \<Longrightarrow> inv s \<Longrightarrow> inv t"
  by (induction rule: guarded_run.induct) (auto intro: step_keeps)

lemma run_keeps_everywhere:
  "guarded_run step allowed s ls t \<Longrightarrow> inv s \<Longrightarrow> ls = ms @ ns \<Longrightarrow>
     \<exists>u. guarded_run step allowed s ms u \<and> inv u"
  using run_keeps by (auto simp: guarded_run_append)

end

text \<open>
  A step relation that is the graph of a partial function can be played: the interface that
  makes concrete runs computable.
\<close>

fun play :: "('l \<Rightarrow> 's \<Rightarrow> 's option) \<Rightarrow> ('s \<Rightarrow> 'l \<Rightarrow> bool) \<Rightarrow> 'l list \<Rightarrow> 's \<Rightarrow> 's option" where
  "play f allowed [] s = Some s"
| "play f allowed (l # ls) s =
     (if allowed s l then (case f l s of None \<Rightarrow> None | Some s' \<Rightarrow> play f allowed ls s') else None)"

locale playable =
  fixes step :: "'s \<Rightarrow> 'l \<Rightarrow> 's \<Rightarrow> bool" and f :: "'l \<Rightarrow> 's \<Rightarrow> 's option"
  assumes step_iff: "step s l t \<longleftrightarrow> f l s = Some t"
begin

lemma play_run: "play f allowed ls s = Some t \<longleftrightarrow> guarded_run step allowed s ls t"
  by (induction ls arbitrary: s) (auto simp: guarded_run_Cons step_iff split: option.splits)

lemma play_SomeI:
  "play f allowed ls s \<noteq> None \<Longrightarrow> guarded_run step allowed s ls (the (play f allowed ls s))"
  by (auto simp: play_run [symmetric])

end

text \<open>A step relation that uses up a budget: the interface of termination arguments.\<close>

locale spends_budget =
  fixes step :: "'s \<Rightarrow> 'l \<Rightarrow> 's \<Rightarrow> bool" and allowed :: "'s \<Rightarrow> 'l \<Rightarrow> bool" and budget :: "'s \<Rightarrow> nat"
  assumes step_spends: "allowed s l \<Longrightarrow> step s l s' \<Longrightarrow> budget s' < budget s"
begin

lemma run_length: "guarded_run step allowed s ls t \<Longrightarrow> length ls + budget t \<le> budget s"
  by (induction rule: guarded_run.induct) (auto dest!: step_spends)

end

end
