(* ===== verification/Float64.thy ===== *)
theory Float64
  imports Complex_Main Prelude "HOL-Library.Log_Nat"
begin

text \<open>
  IEEE 754 binary64, as Go's \<^verbatim>\<open>float64\<close>: a finite value is the rational it stands for, and
  every operation is the exact one followed by rounding to nearest, ties to even, with
  gradual underflow and overflow to an infinity. The sign of zero is not kept. The
  conversion to \<^verbatim>\<open>int64\<close> truncates; out of range, where the Go specification leaves the
  result to the implementation, it is the most negative integer, as on amd64.

  The rounding is a computable function, so the products that decide a capacity
  (\<^verbatim>\<open>int64(float64(total) * ratio)\<close>) and the progress percentages of the simulators are
  evaluated exactly as the program does.
\<close>

datatype f64 = Fin rat | Inf bool | NaN

definition pow2 :: "int \<Rightarrow> rat" where
  "pow2 e = (if 0 \<le> e then 2 ^ nat e else 1 / 2 ^ nat (- e))"

text \<open>The position of the leading bit of a positive rational.\<close>

definition ilog2 :: "rat \<Rightarrow> int" where
  "ilog2 r = (let (n, d) = quotient_of r; k = bitlen n - bitlen d
              in if r < pow2 k then k - 1 else k)"

definition round_half_even :: "rat \<Rightarrow> int" where
  "round_half_even x =
     (let f = \<lfloor>x\<rfloor>; d = x - of_int f
      in if d < 1 / 2 then f else if 1 / 2 < d then f + 1 else if even f then f else f + 1)"

definition round64 :: "rat \<Rightarrow> f64" where
  "round64 r =
     (if r = 0 then Fin 0
      else let e = max (- 1074) (ilog2 \<bar>r\<bar> - 52);
               v = of_int (round_half_even (r / pow2 e)) * pow2 e
           in if pow2 1024 \<le> \<bar>v\<bar> then Inf (r < 0) else Fin v)"

definition f64_of_int :: "int \<Rightarrow> f64" where
  "f64_of_int n = round64 (of_int n)"

definition trunc_rat :: "rat \<Rightarrow> int" where
  "trunc_rat r = (if r < 0 then \<lceil>r\<rceil> else \<lfloor>r\<rfloor>)"

fun int64_of_f64 :: "f64 \<Rightarrow> int" where
  "int64_of_f64 (Fin r) =
     (if MinInt64 \<le> trunc_rat r \<and> trunc_rat r \<le> MaxInt64 then trunc_rat r else MinInt64)"
| "int64_of_f64 _ = MinInt64"

instantiation f64 :: "{plus, times, inverse, uminus, minus}"
begin

fun uminus_f64 :: "f64 \<Rightarrow> f64" where
  "uminus_f64 (Fin r) = Fin (- r)"
| "uminus_f64 (Inf neg) = Inf (\<not> neg)"
| "uminus_f64 NaN = NaN"

fun plus_f64 :: "f64 \<Rightarrow> f64 \<Rightarrow> f64" where
  "plus_f64 (Fin a) (Fin b) = round64 (a + b)"
| "plus_f64 (Inf s) (Fin b) = Inf s"
| "plus_f64 (Fin a) (Inf t) = Inf t"
| "plus_f64 (Inf s) (Inf t) = (if s = t then Inf s else NaN)"
| "plus_f64 _ _ = NaN"

definition minus_f64 :: "f64 \<Rightarrow> f64 \<Rightarrow> f64" where
  "minus_f64 a b = a + (- b)"

fun times_f64 :: "f64 \<Rightarrow> f64 \<Rightarrow> f64" where
  "times_f64 (Fin a) (Fin b) = round64 (a * b)"
| "times_f64 (Inf s) (Fin b) = (if b = 0 then NaN else Inf (s \<noteq> (b < 0)))"
| "times_f64 (Fin a) (Inf t) = (if a = 0 then NaN else Inf (t \<noteq> (a < 0)))"
| "times_f64 (Inf s) (Inf t) = Inf (s \<noteq> t)"
| "times_f64 _ _ = NaN"

fun divide_f64 :: "f64 \<Rightarrow> f64 \<Rightarrow> f64" where
  "divide_f64 (Fin a) (Fin b) =
     (if b = 0 then (if a = 0 then NaN else Inf (a < 0)) else round64 (a / b))"
| "divide_f64 (Inf s) (Fin b) = Inf (s \<noteq> (b < 0))"
| "divide_f64 (Fin a) (Inf t) = Fin 0"
| "divide_f64 _ _ = NaN"

definition inverse_f64 :: "f64 \<Rightarrow> f64" where
  "inverse_f64 a = Fin 1 div a"

instance ..

end

text \<open>The ordered comparisons: false as soon as one side is not a number.\<close>

fun f64_less :: "f64 \<Rightarrow> f64 \<Rightarrow> bool" where
  "f64_less (Fin a) (Fin b) = (a < b)"
| "f64_less (Inf s) (Fin b) = s"
| "f64_less (Fin a) (Inf t) = (\<not> t)"
| "f64_less (Inf s) (Inf t) = (s \<and> \<not> t)"
| "f64_less _ _ = False"

section \<open>Exactness on integers\<close>

lemma pow2_pos [simp]: "0 < pow2 e"
  by (simp add: pow2_def)

lemma pow2_add: "pow2 (a + b) = pow2 a * pow2 b"
proof (cases "0 \<le> a"; cases "0 \<le> b")
  assume "0 \<le> a" "0 \<le> b"
  then show ?thesis by (simp add: pow2_def nat_add_distrib power_add)
next
  assume ab: "0 \<le> a" "\<not> 0 \<le> b"
  show ?thesis
  proof (cases "0 \<le> a + b")
    case True
    with ab have "nat a = nat (a + b) + nat (- b)" by simp
    with ab True show ?thesis by (simp add: pow2_def power_add)
  next
    case False
    with ab have "nat (- b) = nat (- (a + b)) + nat a" by simp
    with ab False show ?thesis by (simp add: pow2_def power_add)
  qed
next
  assume ab: "\<not> 0 \<le> a" "0 \<le> b"
  show ?thesis
  proof (cases "0 \<le> a + b")
    case True
    with ab have "nat b = nat (a + b) + nat (- a)" by simp
    with ab True show ?thesis by (simp add: pow2_def power_add)
  next
    case False
    with ab have "nat (- a) = nat (- (a + b)) + nat b" by simp
    with ab False show ?thesis by (simp add: pow2_def power_add)
  qed
next
  assume "\<not> 0 \<le> a" "\<not> 0 \<le> b"
  then have "nat (- a - b) = nat (- a) + nat (- b)" by simp
  with \<open>\<not> 0 \<le> a\<close> \<open>\<not> 0 \<le> b\<close> show ?thesis by (simp add: pow2_def power_add)
qed

lemma pow2_diff: "pow2 (a - b) = pow2 a / pow2 b"
  using pow2_add [of "a - b" b] pow2_pos [of b, THEN less_imp_neq] by (simp add: field_simps)

lemma pow2_nat: "0 \<le> e \<Longrightarrow> pow2 e = of_int (2 ^ nat e)"
  by (simp add: pow2_def)

lemma pow2_mono: "a \<le> b \<Longrightarrow> pow2 a \<le> pow2 b"
proof -
  assume "a \<le> b"
  then have "1 \<le> pow2 (b - a)" by (simp add: pow2_def)
  then show ?thesis
    using pow2_pos [of a] by (simp add: pow2_diff field_simps)
qed

lemma pow2_less_imp: "pow2 a < pow2 b \<Longrightarrow> a < b"
  using pow2_mono [of b a] by linarith

lemma bitlen_pow2: "0 < n \<Longrightarrow> pow2 (bitlen n - 1) \<le> of_int n \<and> of_int n < pow2 (bitlen n)"
proof -
  assume n: "0 < n"
  have b: "0 < bitlen n"
    using n bitlen_nonneg [of n] bitlen_eq_zero_iff [of n] by linarith
  from bitlen_bounds [OF n] have "2 ^ nat (bitlen n - 1) \<le> n" "n < 2 ^ nat (bitlen n)"
    by auto
  then have "of_int (2 ^ nat (bitlen n - 1)) \<le> (of_int n :: rat)"
    and "(of_int n :: rat) < of_int (2 ^ nat (bitlen n))"
    unfolding of_int_le_iff of_int_less_iff by auto
  with b show ?thesis by (simp add: pow2_def)
qed

lemma ilog2_bounds:
  assumes "0 < r"
  shows "pow2 (ilog2 r) \<le> r" and "r < pow2 (ilog2 r + 1)"
proof -
  obtain n d where q: "quotient_of r = (n, d)" by (cases "quotient_of r")
  have d: "0 < d" and r: "r = of_int n / of_int d"
    using quotient_of_denom_pos [OF q] quotient_of_div [OF q] by auto
  have n: "0 < n" using assms d unfolding r by (simp add: zero_less_divide_iff)
  define k where "k = bitlen n - bitlen d"
  have lo: "pow2 (k - 1) \<le> r"
  proof -
    have "pow2 (k - 1) = pow2 (bitlen n - 1) / pow2 (bitlen d)"
      by (simp add: k_def pow2_diff [symmetric] algebra_simps)
    also have "\<dots> \<le> of_int n / of_int d"
      using bitlen_pow2 [OF n] bitlen_pow2 [OF d] d n
      by (intro frac_le) auto
    finally show ?thesis using r by simp
  qed
  have hi: "r < pow2 (k + 1)"
  proof -
    have "of_int n / of_int d < pow2 (bitlen n) / pow2 (bitlen d - 1)"
      using bitlen_pow2 [OF n] bitlen_pow2 [OF d] d n
      by (intro frac_less) auto
    also have "\<dots> = pow2 (k + 1)"
      by (simp add: k_def pow2_diff [symmetric] algebra_simps)
    finally show ?thesis using r by simp
  qed
  show "pow2 (ilog2 r) \<le> r" "r < pow2 (ilog2 r + 1)"
    using lo hi unfolding ilog2_def q by (auto simp: Let_def k_def)
qed

lemma ilog2_less: "0 < r \<Longrightarrow> r < pow2 k \<Longrightarrow> ilog2 r < k"
  using ilog2_bounds(1) [of r] pow2_less_imp [of "ilog2 r" k] by linarith

lemma ilog2_ge: "pow2 k \<le> r \<Longrightarrow> k \<le> ilog2 r"
  using ilog2_bounds(2) [of r] pow2_less_imp [of k "ilog2 r + 1"] pow2_pos [of k] by linarith

lemma round_half_even_int [simp]: "round_half_even (of_int n) = n"
  by (simp add: round_half_even_def)

text \<open>
  A rational whose scaled mantissa is already an integer is represented exactly.
\<close>

lemma round64_exact:
  assumes "r \<noteq> 0" and m: "r / pow2 (max (- 1074) (ilog2 \<bar>r\<bar> - 52)) = of_int m"
    and small: "\<bar>r\<bar> < pow2 1024"
  shows "round64 r = Fin r"
proof -
  let ?e = "max (- 1074) (ilog2 \<bar>r\<bar> - 52)"
  have "of_int m * pow2 ?e = r"
    using m pow2_pos [of ?e] by (simp add: field_simps)
  then show ?thesis
    using assms unfolding round64_def Let_def m by simp
qed

text \<open>
  Rounding of a concrete rational, given its leading bit and the nearest mantissa: the form in
  which the kernel evaluates a product or a quotient of the program.
\<close>

lemma ilog2_eqI:
  assumes "pow2 k \<le> r" and "r < pow2 (k + 1)"
  shows "ilog2 r = k"
proof -
  have "0 < r" using assms(1) pow2_pos [of k] by linarith
  then show ?thesis
    using ilog2_ge [OF assms(1)] ilog2_less [OF _ assms(2)] by simp
qed

lemma round_half_even_eqI:
  assumes "\<bar>x - of_int m\<bar> < 1 / 2"
  shows "round_half_even x = m"
proof (cases "of_int m \<le> x")
  case True
  with assms have "\<lfloor>x\<rfloor> = m" and "x - of_int m < 1 / 2"
    by (auto intro!: floor_unique)
  then show ?thesis by (simp add: round_half_even_def)
next
  case False
  with assms have "\<lfloor>x\<rfloor> = m - 1" and "1 / 2 < x - of_int (m - 1)"
    by (auto intro!: floor_unique)
  then show ?thesis by (simp add: round_half_even_def)
qed

lemma round64_eqI:
  assumes k: "pow2 k \<le> \<bar>r\<bar>" "\<bar>r\<bar> < pow2 (k + 1)" and e: "max (- 1074) (k - 52) = e"
    and m: "\<bar>r / pow2 e - of_int m\<bar> < 1 / 2" and small: "\<bar>of_int m * pow2 e\<bar> < pow2 1024"
  shows "round64 r = Fin (of_int m * pow2 e)"
proof -
  have "r \<noteq> 0" using k(1) pow2_pos [of k] by (metis abs_zero not_le)
  moreover have "ilog2 \<bar>r\<bar> = k" using k by (rule ilog2_eqI)
  ultimately show ?thesis
    using small round_half_even_eqI [OF m] by (simp add: round64_def Let_def e)
qed

lemma round64_of_int:
  assumes "\<bar>n\<bar> < 2 ^ 53"
  shows "round64 (of_int n) = Fin (of_int n)"
proof (cases "n = 0")
  case True
  then show ?thesis by (simp add: round64_def)
next
  case False
  define k where "k = ilog2 \<bar>of_int n\<bar>"
  have lt: "\<bar>of_int n :: rat\<bar> < pow2 53"
    using assms by (simp add: pow2_def flip: of_int_abs)
  have "pow2 0 \<le> \<bar>of_int n :: rat\<bar>"
    using False by (simp add: pow2_def flip: of_int_abs)
  then have k0: "0 \<le> k" unfolding k_def by (rule ilog2_ge)
  have k52: "k \<le> 52"
    using ilog2_less [OF _ lt] False unfolding k_def by simp
  have e: "max (- 1074) (k - 52) = - (52 - k)" using k0 by simp
  show ?thesis
  proof (rule round64_exact)
    show "(of_int n :: rat) \<noteq> 0" using False by simp
    show "of_int n / pow2 (max (- 1074) (ilog2 \<bar>of_int n\<bar> - 52)) = of_int (n * 2 ^ nat (52 - k))"
      unfolding k_def [symmetric] e using k52 by (cases "k = 52") (simp_all add: pow2_def)
    show "\<bar>of_int n :: rat\<bar> < pow2 1024"
      using lt pow2_mono [of 53 1024] by simp
  qed
qed

lemma f64_of_int_exact: "\<bar>n\<bar> < 2 ^ 53 \<Longrightarrow> f64_of_int n = Fin (of_int n)"
  by (simp add: f64_of_int_def round64_of_int)

lemma int64_of_f64_int: "\<bar>n\<bar> < 2 ^ 53 \<Longrightarrow> int64_of_f64 (Fin (of_int n)) = n"
  by (auto simp: trunc_rat_def)

text \<open>Scaling by a ratio of one is the identity on the capacities that fit a mantissa.\<close>

lemma scale_by_one: "\<bar>n\<bar> < 2 ^ 53 \<Longrightarrow> int64_of_f64 (f64_of_int n * Fin 1) = n"
  by (simp only: f64_of_int_exact times_f64.simps mult_1_right round64_of_int int64_of_f64_int)

lemma int64_of_f64_range: "MinInt64 \<le> int64_of_f64 x" "int64_of_f64 x \<le> MaxInt64"
  by (cases x; auto)+

end
