(* ===== verification/Storage_State.thy ===== *)
theory Storage_State
  imports Prelude Float64
begin

text \<open>
  The state of storage-sim: \<^verbatim>\<open>storage-sim/internal/state/store.go\<close>. Structs are records
  with the source's field names behind a prefix, the store's maps are finite maps, and an
  operation takes the store and gives its result (an error or a value) with the new store.
  The clock is an argument \<open>now\<close> (nanoseconds); the logger and the mutex, which every
  operation holds from beginning to end, have no counterpart. The two operations that run in
  the background, flatten and migration, are cut at the places where the goroutine takes the
  lock; the theory \<open>Storage_Runs\<close> schedules the pieces.
\<close>

section \<open>Data\<close>

record Snapshot =
  s_SnapshotID :: string
  s_VolumeID :: string
  s_SizeGB :: int
  s_ConsumedGB :: int
  s_State :: string
  s_ChildClones :: "string list"
  s_Metadata :: "(string, string) gomap"
  s_CreatedAt :: int

abbreviation OperationRunning :: string where "OperationRunning \<equiv> ''running''"
abbreviation OperationCompleted :: string where "OperationCompleted \<equiv> ''completed''"
abbreviation OperationFailed :: string where "OperationFailed \<equiv> ''failed''"

record Operation =
  o_OperationID :: string
  o_Type :: string
  o_VolumeID :: string
  o_State :: string
  o_ProgressPercent :: int
  o_ElapsedMs :: int
  o_EstimatedRemainingMs :: int
  o_StartedAt :: int

abbreviation BackendActive :: string where "BackendActive \<equiv> ''active''"
abbreviation BackendDraining :: string where "BackendDraining \<equiv> ''draining''"
abbreviation BackendReadOnly :: string where "BackendReadOnly \<equiv> ''read_only''"
abbreviation BackendRetired :: string where "BackendRetired \<equiv> ''retired''"
abbreviation VolumeAvailable :: string where "VolumeAvailable \<equiv> ''available''"
abbreviation VolumeInUse :: string where "VolumeInUse \<equiv> ''in_use''"

record QoSPolicy =
  q_MaxIOPS :: int
  q_MaxBandwidthMBs :: int

record Backend =
  b_BackendID :: string
  b_TotalCapacityGB :: int
  b_UsedCapacityGB :: int
  b_AllocatedCapacityGB :: int
  b_TotalIOPS :: int
  b_UsedIOPSEstimate :: int
  b_Capabilities :: "string list"
  b_State :: string
  b_OverprovisionRatio :: f64

record ExportInfo =
  e_HostID :: string
  e_Protocol :: string

record Volume =
  v_VolumeID :: string
  v_BackendID :: string
  v_SizeGB :: int
  v_ConsumedGB :: int
  v_ThinProvisioned :: bool
  v_State :: string
  v_QoSPolicy :: "QoSPolicy option"
  v_Metadata :: "(string, string) gomap"
  v_CreatedAt :: int
  v_ExportInfo :: "ExportInfo option"
  v_Snapshots :: "string list"
  v_ParentSnapshotID :: string

record Migration =
  m_MigrationID :: string
  m_VolumeID :: string
  m_SourceBackendID :: string
  m_DestBackendID :: string
  m_State :: string
  m_ProgressPercent :: int
  m_BytesTransferred :: int
  m_ElapsedMs :: int
  m_EstimatedRemainingMs :: int
  m_StartedAt :: int
  m_cancelled :: bool

record SimConfig =
  c_DefaultLatencyMs :: int
  c_FlattenPerGBMs :: int
  c_MigrationPerGBMs :: int

record Stats =
  st_BackendCount :: int
  st_VolumeCount :: int
  st_ExportCount :: int

record Store =
  backends :: "(string, Backend) gomap"
  volumes :: "(string, Volume) gomap"
  snapshots :: "(string, Snapshot) gomap"
  operations :: "(string, Operation) gomap"
  migrations :: "(string, Migration) gomap"
  config :: SimConfig
  opCounter :: int

text \<open>
  The sentinel errors, and the one error of the package that wraps none
  (\<^verbatim>\<open>CancelMigration\<close> in a state it cannot cancel).
\<close>

datatype store_error =
    ErrEmptyBackendID | ErrBackendExists | ErrBackendNotFound | ErrBackendNotActive
  | ErrEmptyVolumeID | ErrVolumeExists | ErrVolumeNotFound | ErrVolumeInUse
  | ErrVolumeHasSnapshots | ErrVolumeAlreadyExported | ErrVolumeNotExported
  | ErrInsufficientCapacity | ErrShrinkNotAllowed | ErrEmptySnapshotID | ErrSnapshotExists
  | ErrSnapshotNotFound | ErrSnapshotHasClones | ErrVolumeNoParent | ErrOperationNotFound
  | ErrMigrationNotFound
  | CannotCancel string

type_synonym 'a result = "store_error + 'a"

definition default_config :: SimConfig where
  "default_config = \<lparr>c_DefaultLatencyMs = 2, c_FlattenPerGBMs = 100, c_MigrationPerGBMs = 200\<rparr>"

definition NewStore :: Store where
  "NewStore = \<lparr>backends = fmempty, volumes = fmempty, snapshots = fmempty,
     operations = fmempty, migrations = fmempty, config = default_config, opCounter = 0\<rparr>"

section \<open>Backends\<close>

definition AddBackend :: "Backend \<Rightarrow> Store \<Rightarrow> unit result \<times> Store" where
  "AddBackend b s =
     (if b_BackendID b = '''' then (Inl ErrEmptyBackendID, s)
      else if get (backends s) (b_BackendID b) \<noteq> None then (Inl ErrBackendExists, s)
      else let b1 = (if b_State b = '''' then b\<lparr>b_State := BackendActive\<rparr> else b);
               b2 = (if b_OverprovisionRatio b1 = Fin 0
                     then b1\<lparr>b_OverprovisionRatio := Fin 1\<rparr> else b1)
           in (Inr (), s\<lparr>backends := fmupd (b_BackendID b) b2 (backends s)\<rparr>))"

definition GetBackend :: "string \<Rightarrow> Store \<Rightarrow> Backend result" where
  "GetBackend bid s =
     (case get (backends s) bid of None \<Rightarrow> Inl ErrBackendNotFound | Some b \<Rightarrow> Inr b)"

definition ListBackends :: "string list \<Rightarrow> Store \<Rightarrow> Backend list" where
  "ListBackends ks s = values_along (backends s) ks"

definition SetBackendState :: "string \<Rightarrow> string \<Rightarrow> Store \<Rightarrow> unit result \<times> Store" where
  "SetBackendState bid st s =
     (case get (backends s) bid of
        None \<Rightarrow> (Inl ErrBackendNotFound, s)
      | Some b \<Rightarrow> (Inr (), s\<lparr>backends := fmupd bid (b\<lparr>b_State := st\<rparr>) (backends s)\<rparr>))"

section \<open>Volumes\<close>

text \<open>
  The ceiling of thin allocation, \<^verbatim>\<open>int64(float64(b.TotalCapacityGB) * b.OverprovisionRatio)\<close>,
  and the capacity check with its bookkeeping, which \<^verbatim>\<open>CreateVolume\<close> and
  \<^verbatim>\<open>ExtendVolume\<close> share: \<open>None\<close> when the backend has no room.
\<close>

definition maxAlloc :: "Backend \<Rightarrow> int" where
  "maxAlloc b = int64_of_f64 (f64_of_int (b_TotalCapacityGB b) * b_OverprovisionRatio b)"

definition reserve :: "bool \<Rightarrow> int \<Rightarrow> Backend \<Rightarrow> Backend option" where
  "reserve thin amount b =
     (if thin then
        (if int64 (b_AllocatedCapacityGB b + amount) > maxAlloc b then None
         else Some (b\<lparr>b_AllocatedCapacityGB := int64 (b_AllocatedCapacityGB b + amount)\<rparr>))
      else
        (if int64 (b_UsedCapacityGB b + amount) > b_TotalCapacityGB b then None
         else Some (b\<lparr>b_UsedCapacityGB := int64 (b_UsedCapacityGB b + amount),
                      b_AllocatedCapacityGB := int64 (b_AllocatedCapacityGB b + amount)\<rparr>)))"

definition release :: "bool \<Rightarrow> int \<Rightarrow> Backend \<Rightarrow> Backend" where
  "release thin amount b =
     (let b1 = b\<lparr>b_AllocatedCapacityGB := int64 (b_AllocatedCapacityGB b - amount)\<rparr>
      in if thin then b1 else b1\<lparr>b_UsedCapacityGB := int64 (b_UsedCapacityGB b - amount)\<rparr>)"

definition CreateVolume :: "int \<Rightarrow> Volume \<Rightarrow> Store \<Rightarrow> Volume result \<times> Store" where
  "CreateVolume now v s =
     (if v_VolumeID v = '''' then (Inl ErrEmptyVolumeID, s)
      else if get (volumes s) (v_VolumeID v) \<noteq> None then (Inl ErrVolumeExists, s)
      else case get (backends s) (v_BackendID v) of
        None \<Rightarrow> (Inl ErrBackendNotFound, s)
      | Some b \<Rightarrow>
          if b_State b \<noteq> BackendActive then (Inl ErrBackendNotActive, s)
          else case reserve (v_ThinProvisioned v) (v_SizeGB v) b of
            None \<Rightarrow> (Inl ErrInsufficientCapacity, s)
          | Some b' \<Rightarrow>
              let stored = v\<lparr>v_State := VolumeAvailable, v_ConsumedGB := 0, v_CreatedAt := now\<rparr>
              in (Inr stored, s\<lparr>backends := fmupd (v_BackendID v) b' (backends s),
                                volumes := fmupd (v_VolumeID v) stored (volumes s)\<rparr>))"

definition GetVolume :: "string \<Rightarrow> Store \<Rightarrow> Volume result" where
  "GetVolume vid s =
     (case get (volumes s) vid of None \<Rightarrow> Inl ErrVolumeNotFound | Some v \<Rightarrow> Inr v)"

definition ListVolumes :: "string list \<Rightarrow> string \<Rightarrow> string \<Rightarrow> Store \<Rightarrow> Volume list" where
  "ListVolumes ks backendID stateFilter s =
     filter (\<lambda>v. \<not> (backendID \<noteq> '''' \<and> v_BackendID v \<noteq> backendID) \<and>
                 \<not> (stateFilter \<noteq> '''' \<and> v_State v \<noteq> stateFilter))
       (values_along (volumes s) ks)"

definition DeleteVolume :: "string \<Rightarrow> Store \<Rightarrow> unit result \<times> Store" where
  "DeleteVolume vid s =
     (case get (volumes s) vid of
        None \<Rightarrow> (Inl ErrVolumeNotFound, s)
      | Some v \<Rightarrow>
          if v_State v = VolumeInUse then (Inl ErrVolumeInUse, s)
          else if v_Snapshots v \<noteq> [] then (Inl ErrVolumeHasSnapshots, s)
          else let s1 = (case get (backends s) (v_BackendID v) of
                           None \<Rightarrow> s
                         | Some b \<Rightarrow> s\<lparr>backends := fmupd (v_BackendID v)
                             (release (v_ThinProvisioned v) (v_SizeGB v) b) (backends s)\<rparr>)
               in (Inr (), s1\<lparr>volumes := fmdrop vid (volumes s1)\<rparr>))"

definition ExtendVolume :: "string \<Rightarrow> int \<Rightarrow> Store \<Rightarrow> Volume result \<times> Store" where
  "ExtendVolume vid newSizeGB s =
     (case get (volumes s) vid of
        None \<Rightarrow> (Inl ErrVolumeNotFound, s)
      | Some v \<Rightarrow>
          if newSizeGB \<le> v_SizeGB v then (Inl ErrShrinkNotAllowed, s)
          else case get (backends s) (v_BackendID v) of
            None \<Rightarrow> (Inl ErrBackendNotFound, s)
          | Some b \<Rightarrow>
              (case reserve (v_ThinProvisioned v) (int64 (newSizeGB - v_SizeGB v)) b of
                 None \<Rightarrow> (Inl ErrInsufficientCapacity, s)
               | Some b' \<Rightarrow>
                   let v' = v\<lparr>v_SizeGB := newSizeGB\<rparr>
                   in (Inr v', s\<lparr>backends := fmupd (v_BackendID v) b' (backends s),
                                 volumes := fmupd vid v' (volumes s)\<rparr>)))"

definition ExportVolume :: "string \<Rightarrow> string \<Rightarrow> string \<Rightarrow> Store \<Rightarrow> Volume result \<times> Store" where
  "ExportVolume vid hostID protocol s =
     (case get (volumes s) vid of
        None \<Rightarrow> (Inl ErrVolumeNotFound, s)
      | Some v \<Rightarrow>
          if v_State v = VolumeInUse then (Inl ErrVolumeAlreadyExported, s)
          else let v' = v\<lparr>v_State := VolumeInUse,
                          v_ExportInfo := Some \<lparr>e_HostID = hostID, e_Protocol = protocol\<rparr>\<rparr>
               in (Inr v', s\<lparr>volumes := fmupd vid v' (volumes s)\<rparr>))"

definition UnexportVolume :: "string \<Rightarrow> Store \<Rightarrow> Volume result \<times> Store" where
  "UnexportVolume vid s =
     (case get (volumes s) vid of
        None \<Rightarrow> (Inl ErrVolumeNotFound, s)
      | Some v \<Rightarrow>
          if v_State v \<noteq> VolumeInUse then (Inl ErrVolumeNotExported, s)
          else let v' = v\<lparr>v_State := VolumeAvailable, v_ExportInfo := None\<rparr>
               in (Inr v', s\<lparr>volumes := fmupd vid v' (volumes s)\<rparr>))"

definition SetConfig :: "SimConfig \<Rightarrow> Store \<Rightarrow> Store" where
  "SetConfig cfg s = s\<lparr>config := cfg\<rparr>"

definition GetConfig :: "Store \<Rightarrow> SimConfig" where
  "GetConfig s = config s"

definition GetStats :: "Store \<Rightarrow> Stats" where
  "GetStats s =
     \<lparr>st_BackendCount = map_len (backends s), st_VolumeCount = map_len (volumes s),
      st_ExportCount = range_fold (add_if (\<lambda>v. v_State v = VolumeInUse) (\<lambda>_. 1)) (volumes s) 0\<rparr>"

definition Reset :: "Store \<Rightarrow> Store" where
  "Reset s = \<lparr>backends = fmempty, volumes = fmempty, snapshots = fmempty,
     operations = fmempty, migrations = fmempty, config = default_config, opCounter = 0\<rparr>"

section \<open>Snapshots and clones\<close>

definition CreateSnapshot ::
    "int \<Rightarrow> string \<Rightarrow> string \<Rightarrow> (string, string) gomap \<Rightarrow> Store \<Rightarrow> Snapshot result \<times> Store" where
  "CreateSnapshot now volumeID snapshotID metadata s =
     (if snapshotID = '''' then (Inl ErrEmptySnapshotID, s)
      else if get (snapshots s) snapshotID \<noteq> None then (Inl ErrSnapshotExists, s)
      else case get (volumes s) volumeID of
        None \<Rightarrow> (Inl ErrVolumeNotFound, s)
      | Some v \<Rightarrow>
          let snap = \<lparr>s_SnapshotID = snapshotID, s_VolumeID = volumeID, s_SizeGB = v_SizeGB v,
                      s_ConsumedGB = 0, s_State = ''available'', s_ChildClones = [],
                      s_Metadata = metadata, s_CreatedAt = now\<rparr>
          in (Inr snap, s\<lparr>snapshots := fmupd snapshotID snap (snapshots s),
                          volumes := fmupd volumeID
                            (v\<lparr>v_Snapshots := v_Snapshots v @ [snapshotID]\<rparr>) (volumes s)\<rparr>))"

definition ListSnapshots :: "string \<Rightarrow> Store \<Rightarrow> Snapshot list result" where
  "ListSnapshots volumeID s =
     (case get (volumes s) volumeID of
        None \<Rightarrow> Inl ErrVolumeNotFound
      | Some v \<Rightarrow> Inr (values_along (snapshots s) (v_Snapshots v)))"

definition GetSnapshot :: "string \<Rightarrow> Store \<Rightarrow> Snapshot result" where
  "GetSnapshot sid s =
     (case get (snapshots s) sid of None \<Rightarrow> Inl ErrSnapshotNotFound | Some x \<Rightarrow> Inr x)"

definition DeleteSnapshot :: "string \<Rightarrow> Store \<Rightarrow> unit result \<times> Store" where
  "DeleteSnapshot snapshotID s =
     (case get (snapshots s) snapshotID of
        None \<Rightarrow> (Inl ErrSnapshotNotFound, s)
      | Some snap \<Rightarrow>
          if s_ChildClones snap \<noteq> [] then (Inl ErrSnapshotHasClones, s)
          else let s1 = (case get (volumes s) (s_VolumeID snap) of
                           None \<Rightarrow> s
                         | Some v \<Rightarrow> s\<lparr>volumes := fmupd (s_VolumeID snap)
                             (v\<lparr>v_Snapshots := remove_first snapshotID (v_Snapshots v)\<rparr>)
                             (volumes s)\<rparr>)
               in (Inr (), s1\<lparr>snapshots := fmdrop snapshotID (snapshots s1)\<rparr>))"

definition CloneFromSnapshot ::
    "int \<Rightarrow> string \<Rightarrow> string \<Rightarrow> (string, string) gomap \<Rightarrow> Store \<Rightarrow> Volume result \<times> Store" where
  "CloneFromSnapshot now snapshotID volumeID metadata s =
     (if volumeID = '''' then (Inl ErrEmptyVolumeID, s)
      else if get (volumes s) volumeID \<noteq> None then (Inl ErrVolumeExists, s)
      else case get (snapshots s) snapshotID of
        None \<Rightarrow> (Inl ErrSnapshotNotFound, s)
      | Some snap \<Rightarrow>
        (case get (volumes s) (s_VolumeID snap) of
           None \<Rightarrow> (Inl ErrVolumeNotFound, s)
         | Some srcVol \<Rightarrow>
           (case get (backends s) (v_BackendID srcVol) of
              None \<Rightarrow> (Inl ErrBackendNotFound, s)
            | Some b \<Rightarrow>
              if b_State b \<noteq> BackendActive then (Inl ErrBackendNotActive, s)
              else (case reserve True (s_SizeGB snap) b of
                 None \<Rightarrow> (Inl ErrInsufficientCapacity, s)
               | Some b' \<Rightarrow>
                   let clone = \<lparr>v_VolumeID = volumeID, v_BackendID = v_BackendID srcVol,
                         v_SizeGB = s_SizeGB snap, v_ConsumedGB = 0, v_ThinProvisioned = True,
                         v_State = VolumeAvailable, v_QoSPolicy = None, v_Metadata = metadata,
                         v_CreatedAt = now, v_ExportInfo = None, v_Snapshots = [],
                         v_ParentSnapshotID = snapshotID\<rparr>
                   in (Inr clone,
                       s\<lparr>backends := fmupd (v_BackendID srcVol) b' (backends s),
                         volumes := fmupd volumeID clone (volumes s),
                         snapshots := fmupd snapshotID
                           (snap\<lparr>s_ChildClones := s_ChildClones snap @ [volumeID]\<rparr>)
                           (snapshots s)\<rparr>)))))"

section \<open>Flatten\<close>

text \<open>
  \<^verbatim>\<open>time.Since(start).Milliseconds()\<close>: the difference of two instants saturates at the
  bounds of a \<^verbatim>\<open>time.Duration\<close>, and the division truncates.
\<close>

definition since_ms :: "int \<Rightarrow> int \<Rightarrow> int" where
  "since_ms now start = go_div (max MinInt64 (min MaxInt64 (now - start))) 1000000"

definition op_id :: "int \<Rightarrow> string" where
  "op_id n = ''op-'' @ fmt_0d 3 n"

definition mig_id :: "int \<Rightarrow> string" where
  "mig_id n = ''mig-'' @ fmt_0d 3 n"

definition flatten_duration :: "SimConfig \<Rightarrow> int \<Rightarrow> int" where
  "flatten_duration cfg sizeGB =
     (let perGB = (if c_FlattenPerGBMs cfg \<le> 0 then 100 else c_FlattenPerGBMs cfg)
      in int64 (sizeGB * perGB))"

text \<open>
  \<^verbatim>\<open>StartFlatten\<close> gives the operation it registered and the duration it hands to the
  goroutine.
\<close>

definition StartFlatten :: "int \<Rightarrow> string \<Rightarrow> Store \<Rightarrow> (Operation \<times> int) result \<times> Store" where
  "StartFlatten now volumeID s =
     (case get (volumes s) volumeID of
        None \<Rightarrow> (Inl ErrVolumeNotFound, s)
      | Some v \<Rightarrow>
          if v_ParentSnapshotID v = '''' then (Inl ErrVolumeNoParent, s)
          else let cnt = int64 (opCounter s + 1);
                   opID = op_id cnt;
                   durationMs = flatten_duration (config s) (v_SizeGB v);
                   op = \<lparr>o_OperationID = opID, o_Type = ''flatten'', o_VolumeID = volumeID,
                         o_State = OperationRunning, o_ProgressPercent = 0, o_ElapsedMs = 0,
                         o_EstimatedRemainingMs = durationMs, o_StartedAt = now\<rparr>
               in (Inr (op, durationMs),
                   s\<lparr>opCounter := cnt, operations := fmupd opID op (operations s)\<rparr>))"

text \<open>\<^verbatim>\<open>int(float64(i) / float64(steps) * scale)\<close> with ten steps.\<close>

definition step_percent :: "int \<Rightarrow> int \<Rightarrow> int" where
  "step_percent i scale = int64_of_f64 (f64_of_int i / f64_of_int 10 * f64_of_int scale)"

definition clamp0 :: "int \<Rightarrow> int" where
  "clamp0 n = (if n < 0 then 0 else n)"

text \<open>
  One turn of the progress loop of \<^verbatim>\<open>runFlatten\<close>: \<open>None\<close> when the operation is gone and
  the goroutine returns.
\<close>

definition flatten_progress :: "int \<Rightarrow> string \<Rightarrow> int \<Rightarrow> int \<Rightarrow> Store \<Rightarrow> Store option" where
  "flatten_progress now opID durationMs i s =
     (case get (operations s) opID of
        None \<Rightarrow> None
      | Some op \<Rightarrow>
          let elapsed = since_ms now (o_StartedAt op);
              progress = step_percent i 100;
              op' = op\<lparr>o_ProgressPercent := (if progress > 100 then 100 else progress),
                       o_ElapsedMs := elapsed,
                       o_EstimatedRemainingMs := clamp0 (int64 (durationMs - elapsed))\<rparr>
          in Some (s\<lparr>operations := fmupd opID op' (operations s)\<rparr>))"

definition drop_clone :: "string \<Rightarrow> string \<Rightarrow> (string, Snapshot) gomap \<Rightarrow> (string, Snapshot) gomap" where
  "drop_clone snapID volumeID m =
     (case get m snapID of
        None \<Rightarrow> m
      | Some snap \<Rightarrow>
          fmupd snapID (snap\<lparr>s_ChildClones := remove_first volumeID (s_ChildClones snap)\<rparr>) m)"

text \<open>The last locked section of \<^verbatim>\<open>runFlatten\<close>.\<close>

definition flatten_finish :: "int \<Rightarrow> string \<Rightarrow> string \<Rightarrow> Store \<Rightarrow> Store" where
  "flatten_finish now opID volumeID s =
     (case get (operations s) opID of
        None \<Rightarrow> s
      | Some op \<Rightarrow>
          (case get (volumes s) volumeID of
             None \<Rightarrow> s\<lparr>operations := fmupd opID (op\<lparr>o_State := OperationFailed\<rparr>) (operations s)\<rparr>
           | Some v \<Rightarrow>
               s\<lparr>volumes := fmupd volumeID
                   (v\<lparr>v_ConsumedGB := v_SizeGB v, v_ParentSnapshotID := ''''\<rparr>) (volumes s),
                 snapshots := drop_clone (v_ParentSnapshotID v) volumeID (snapshots s),
                 operations := fmupd opID
                   (op\<lparr>o_State := OperationCompleted, o_ProgressPercent := 100,
                       o_ElapsedMs := since_ms now (o_StartedAt op),
                       o_EstimatedRemainingMs := 0\<rparr>) (operations s)\<rparr>))"

definition GetOperation :: "string \<Rightarrow> Store \<Rightarrow> Operation result" where
  "GetOperation opID s =
     (case get (operations s) opID of None \<Rightarrow> Inl ErrOperationNotFound | Some op \<Rightarrow> Inr op)"

section \<open>Migration\<close>

record migration_args =
  a_migID :: string
  a_volumeID :: string
  a_srcBackendID :: string
  a_destBackendID :: string
  a_sizeGB :: int
  a_thinProvisioned :: bool
  a_totalBytes :: int
  a_durationMs :: int

definition migration_duration :: "SimConfig \<Rightarrow> int \<Rightarrow> int" where
  "migration_duration cfg sizeGB =
     (let perGB = (if c_MigrationPerGBMs cfg \<le> 0 then 200 else c_MigrationPerGBMs cfg)
      in int64 (sizeGB * perGB))"

definition dest_has_room :: "Volume \<Rightarrow> Backend \<Rightarrow> bool" where
  "dest_has_room v b =
     (if v_ThinProvisioned v then \<not> int64 (b_AllocatedCapacityGB b + v_SizeGB v) > maxAlloc b
      else \<not> int64 (b_UsedCapacityGB b + v_SizeGB v) > b_TotalCapacityGB b)"

definition StartMigration ::
    "int \<Rightarrow> string \<Rightarrow> string \<Rightarrow> Store \<Rightarrow> (Migration \<times> migration_args) result \<times> Store" where
  "StartMigration now volumeID destBackendID s =
     (case get (volumes s) volumeID of
        None \<Rightarrow> (Inl ErrVolumeNotFound, s)
      | Some v \<Rightarrow>
          if v_Snapshots v \<noteq> [] then (Inl ErrVolumeHasSnapshots, s)
          else case get (backends s) destBackendID of
            None \<Rightarrow> (Inl ErrBackendNotFound, s)
          | Some dest \<Rightarrow>
              if \<not> dest_has_room v dest then (Inl ErrInsufficientCapacity, s)
              else let cnt = int64 (opCounter s + 1);
                       migID = mig_id cnt;
                       durationMs = migration_duration (config s) (v_SizeGB v);
                       totalBytes = int64 (v_SizeGB v * 1024 * 1024 * 1024);
                       mig = \<lparr>m_MigrationID = migID, m_VolumeID = volumeID,
                              m_SourceBackendID = v_BackendID v, m_DestBackendID = destBackendID,
                              m_State = ''preparing'', m_ProgressPercent = 0,
                              m_BytesTransferred = 0, m_ElapsedMs = 0,
                              m_EstimatedRemainingMs = durationMs, m_StartedAt = now,
                              m_cancelled = False\<rparr>;
                       args = \<lparr>a_migID = migID, a_volumeID = volumeID,
                               a_srcBackendID = v_BackendID v, a_destBackendID = destBackendID,
                               a_sizeGB = v_SizeGB v, a_thinProvisioned = v_ThinProvisioned v,
                               a_totalBytes = totalBytes, a_durationMs = durationMs\<rparr>
                   in (Inr (mig, args),
                       s\<lparr>opCounter := cnt, migrations := fmupd migID mig (migrations s)\<rparr>))"

definition GetMigration :: "string \<Rightarrow> Store \<Rightarrow> Migration result" where
  "GetMigration migID s =
     (case get (migrations s) migID of None \<Rightarrow> Inl ErrMigrationNotFound | Some m \<Rightarrow> Inr m)"

definition CancelMigration :: "string \<Rightarrow> Store \<Rightarrow> unit result \<times> Store" where
  "CancelMigration migID s =
     (case get (migrations s) migID of
        None \<Rightarrow> (Inl ErrMigrationNotFound, s)
      | Some mig \<Rightarrow>
          if m_State mig \<noteq> ''preparing'' \<and> m_State mig \<noteq> ''transferring''
          then (Inl (CannotCancel (m_State mig)), s)
          else (Inr (), s\<lparr>migrations := fmupd migID
                  (mig\<lparr>m_cancelled := True, m_State := ''failed''\<rparr>) (migrations s)\<rparr>))"

text \<open>
  The locked sections of \<^verbatim>\<open>runMigration\<close>. Each looks its migration up again, and gives
  \<open>None\<close> when the migration is gone or cancelled and the goroutine returns.
\<close>

definition live_migration :: "string \<Rightarrow> Store \<Rightarrow> Migration option" where
  "live_migration migID s =
     (case get (migrations s) migID of
        None \<Rightarrow> None
      | Some mig \<Rightarrow> if m_cancelled mig then None else Some mig)"

definition put_migration :: "string \<Rightarrow> Migration \<Rightarrow> Store \<Rightarrow> Store" where
  "put_migration migID mig s = s\<lparr>migrations := fmupd migID mig (migrations s)\<rparr>"

definition migration_prepared :: "migration_args \<Rightarrow> Store \<Rightarrow> Store option" where
  "migration_prepared a s =
     (case live_migration (a_migID a) s of
        None \<Rightarrow> None
      | Some mig \<Rightarrow> Some (put_migration (a_migID a) (mig\<lparr>m_State := ''transferring''\<rparr>) s))"

definition migration_transfer :: "int \<Rightarrow> migration_args \<Rightarrow> int \<Rightarrow> Store \<Rightarrow> Store option" where
  "migration_transfer now a i s =
     (case live_migration (a_migID a) s of
        None \<Rightarrow> None
      | Some mig \<Rightarrow>
          let elapsed = since_ms now (m_StartedAt mig)
          in Some (put_migration (a_migID a)
               (mig\<lparr>m_ProgressPercent := step_percent i 90,
                    m_BytesTransferred := go_div (int64 (a_totalBytes a * i)) 10,
                    m_ElapsedMs := elapsed,
                    m_EstimatedRemainingMs := clamp0 (int64 (a_durationMs a - elapsed))\<rparr>) s))"

definition migration_finishing :: "migration_args \<Rightarrow> Store \<Rightarrow> Store option" where
  "migration_finishing a s =
     (case live_migration (a_migID a) s of
        None \<Rightarrow> None
      | Some mig \<Rightarrow> Some (put_migration (a_migID a) (mig\<lparr>m_State := ''finishing''\<rparr>) s))"

definition charge :: "bool \<Rightarrow> int \<Rightarrow> Backend \<Rightarrow> Backend" where
  "charge thin amount b =
     (let b1 = b\<lparr>b_AllocatedCapacityGB := int64 (b_AllocatedCapacityGB b + amount)\<rparr>
      in if thin then b1 else b1\<lparr>b_UsedCapacityGB := int64 (b_UsedCapacityGB b + amount)\<rparr>)"

definition adjust_backend ::
    "(Backend \<Rightarrow> Backend) \<Rightarrow> string \<Rightarrow> (string, Backend) gomap \<Rightarrow> (string, Backend) gomap" where
  "adjust_backend f bid m =
     (case get m bid of None \<Rightarrow> m | Some b \<Rightarrow> fmupd bid (f b) m)"

definition migration_complete :: "int \<Rightarrow> migration_args \<Rightarrow> Store \<Rightarrow> Store" where
  "migration_complete now a s =
     (case live_migration (a_migID a) s of
        None \<Rightarrow> s
      | Some mig \<Rightarrow>
          (case get (volumes s) (a_volumeID a) of
             None \<Rightarrow> put_migration (a_migID a) (mig\<lparr>m_State := ''failed''\<rparr>) s
           | Some v \<Rightarrow>
               put_migration (a_migID a)
                 (mig\<lparr>m_State := ''completed'', m_ProgressPercent := 100,
                      m_BytesTransferred := a_totalBytes a,
                      m_ElapsedMs := since_ms now (m_StartedAt mig),
                      m_EstimatedRemainingMs := 0\<rparr>)
                 (s\<lparr>backends :=
                      adjust_backend (charge (a_thinProvisioned a) (a_sizeGB a)) (a_destBackendID a)
                        (adjust_backend (release (a_thinProvisioned a) (a_sizeGB a))
                          (a_srcBackendID a) (backends s)),
                    volumes := fmupd (a_volumeID a) (v\<lparr>v_BackendID := a_destBackendID a\<rparr>)
                      (volumes s)\<rparr>)))"

end
