(* ===== verification/Storage_Invariant.thy ===== *)
theory Storage_Invariant
  imports Storage_State
begin

text \<open>
  What storage-sim keeps true of its store, operation by operation:
  \<^item> \<open>accounting\<close>: the capacity counters of a backend are the sums of the sizes of its
    volumes, as 64-bit integers, so with no bound on the sizes;
  \<^item> \<open>linked\<close>: volumes, snapshots and clones refer to each other consistently;
  \<^item> \<open>exports_ok\<close>: a volume is in use exactly when it carries export information;
  \<^item> \<open>solvent\<close>: thick volumes never exceed the capacity of their backend.
\<close>

section \<open>The invariants\<close>

definition on_backend :: "string \<Rightarrow> Volume \<Rightarrow> bool" where
  "on_backend bid v \<longleftrightarrow> v_BackendID v = bid"

definition thick_on :: "string \<Rightarrow> Volume \<Rightarrow> bool" where
  "thick_on bid v \<longleftrightarrow> v_BackendID v = bid \<and> \<not> v_ThinProvisioned v"

definition allocated_on :: "string \<Rightarrow> (string, Volume) gomap \<Rightarrow> int" where
  "allocated_on bid m = sum_if (on_backend bid) v_SizeGB m"

definition used_on :: "string \<Rightarrow> (string, Volume) gomap \<Rightarrow> int" where
  "used_on bid m = sum_if (thick_on bid) v_SizeGB m"

definition accounting :: "Store \<Rightarrow> bool" where
  "accounting s \<longleftrightarrow>
     fmpred (\<lambda>bid b. b_AllocatedCapacityGB b = int64 (allocated_on bid (volumes s)) \<and>
                     b_UsedCapacityGB b = int64 (used_on bid (volumes s))) (backends s)"

definition volume_linked :: "Store \<Rightarrow> string \<Rightarrow> Volume \<Rightarrow> bool" where
  "volume_linked s vid v \<longleftrightarrow>
     v_VolumeID v = vid \<and> vid \<noteq> '''' \<and> get (backends s) (v_BackendID v) \<noteq> None \<and>
     distinct (v_Snapshots v) \<and>
     list_all (\<lambda>sid. \<exists>sn. get (snapshots s) sid = Some sn \<and> s_VolumeID sn = vid) (v_Snapshots v) \<and>
     (v_ParentSnapshotID v \<noteq> '''' \<longrightarrow>
       (\<exists>sn. get (snapshots s) (v_ParentSnapshotID v) = Some sn \<and> vid \<in> set (s_ChildClones sn)))"

definition snapshot_linked :: "Store \<Rightarrow> string \<Rightarrow> Snapshot \<Rightarrow> bool" where
  "snapshot_linked s sid sn \<longleftrightarrow>
     s_SnapshotID sn = sid \<and> sid \<noteq> '''' \<and>
     (\<exists>v. get (volumes s) (s_VolumeID sn) = Some v \<and> sid \<in> set (v_Snapshots v))"

definition linked :: "Store \<Rightarrow> bool" where
  "linked s \<longleftrightarrow> fmpred (volume_linked s) (volumes s) \<and> fmpred (snapshot_linked s) (snapshots s)"

definition export_ok :: "Volume \<Rightarrow> bool" where
  "export_ok v \<longleftrightarrow> v_State v = (if v_ExportInfo v = None then VolumeAvailable else VolumeInUse)"

definition exports_ok :: "Store \<Rightarrow> bool" where
  "exports_ok s \<longleftrightarrow> fmpred (\<lambda>_. export_ok) (volumes s)"

definition solvent :: "Store \<Rightarrow> bool" where
  "solvent s \<longleftrightarrow>
     fmpred (\<lambda>_ v. 0 \<le> v_SizeGB v) (volumes s) \<and> fmpred (\<lambda>_ sn. 0 \<le> s_SizeGB sn) (snapshots s) \<and>
     fmpred (\<lambda>bid b. b_TotalCapacityGB b < 2 ^ 62 \<and> used_on bid (volumes s) \<le> b_TotalCapacityGB b)
       (backends s)"

lemmas invariant_defs = linked_def exports_ok_def accounting_def

lemma linked_volume: "linked s \<Longrightarrow> get (volumes s) vid = Some v \<Longrightarrow> volume_linked s vid v"
  by (auto simp: linked_def)

lemma linked_snapshot: "linked s \<Longrightarrow> get (snapshots s) sid = Some sn \<Longrightarrow> snapshot_linked s sid sn"
  by (auto simp: linked_def)

section \<open>Capacity bookkeeping\<close>

lemma release_eq_charge: "release thin n b = charge thin (- n) b"
  by (simp add: release_def charge_def Let_def)

lemma reserve_Some_iff:
  "reserve thin n b = Some b' \<longleftrightarrow>
     b' = charge thin n b \<and>
     (if thin then int64 (b_AllocatedCapacityGB b + n) \<le> maxAlloc b
      else int64 (b_UsedCapacityGB b + n) \<le> b_TotalCapacityGB b)"
  by (auto simp: reserve_def charge_def)

lemma charge_fields [simp]:
  "b_AllocatedCapacityGB (charge thin n b) = int64 (b_AllocatedCapacityGB b + n)"
  "b_UsedCapacityGB (charge thin n b) =
     (if thin then b_UsedCapacityGB b else int64 (b_UsedCapacityGB b + n))"
  "b_TotalCapacityGB (charge thin n b) = b_TotalCapacityGB b"
  "b_BackendID (charge thin n b) = b_BackendID b"
  "b_State (charge thin n b) = b_State b"
  "b_OverprovisionRatio (charge thin n b) = b_OverprovisionRatio b"
  by (simp_all add: charge_def Let_def)

lemma get_adjust_backend:
  "get (adjust_backend f bid m) k = (if k = bid then map_option f (get m bid) else get m k)"
  by (simp add: adjust_backend_def split: option.split)

lemma adjust_backend_Some: "get m bid = Some b \<Longrightarrow> fmupd bid (f b) m = adjust_backend f bid m"
  by (simp add: adjust_backend_def)

lemma adjust_backend_None: "get m bid = None \<Longrightarrow> adjust_backend f bid m = m"
  by (simp add: adjust_backend_def)

lemma allocated_on_fmupd:
  "allocated_on bid (fmupd vid v m) =
     allocated_on bid m - entry_sum (on_backend bid) v_SizeGB (get m vid)
       + (if on_backend bid v then v_SizeGB v else 0)"
  by (simp add: allocated_on_def sum_if_fmupd)

lemma used_on_fmupd:
  "used_on bid (fmupd vid v m) =
     used_on bid m - entry_sum (thick_on bid) v_SizeGB (get m vid)
       + (if thick_on bid v then v_SizeGB v else 0)"
  by (simp add: used_on_def sum_if_fmupd)

lemma allocated_on_fmdrop:
  "allocated_on bid (fmdrop vid m) = allocated_on bid m - entry_sum (on_backend bid) v_SizeGB (get m vid)"
  by (simp add: allocated_on_def sum_if_fmdrop)

lemma used_on_fmdrop:
  "used_on bid (fmdrop vid m) = used_on bid m - entry_sum (thick_on bid) v_SizeGB (get m vid)"
  by (simp add: used_on_def sum_if_fmdrop)

lemmas on_update = allocated_on_fmupd used_on_fmupd allocated_on_fmdrop used_on_fmdrop

text \<open>
  One rule for every operation that moves capacity: the sums of one backend change by the
  amount the backend is charged.
\<close>

lemma accounting_charge:
  assumes "accounting s"
    and alloc: "\<And>k. get (backends s) k \<noteq> None \<Longrightarrow>
      int64 (allocated_on k V) = int64 (allocated_on k (volumes s) + (if k = bid then n else 0))"
    and used: "\<And>k. get (backends s) k \<noteq> None \<Longrightarrow>
      int64 (used_on k V) = int64 (used_on k (volumes s) + (if k = bid \<and> \<not> thin then n else 0))"
  shows "accounting (s\<lparr>backends := adjust_backend (charge thin n) bid (backends s), volumes := V\<rparr>)"
proof -
  have "b_AllocatedCapacityGB b = int64 (allocated_on k V) \<and> b_UsedCapacityGB b = int64 (used_on k V)"
    if "get (adjust_backend (charge thin n) bid (backends s)) k = Some b" for k b
  proof -
    from that obtain b0 where b0: "get (backends s) k = Some b0"
      and b: "b = (if k = bid then charge thin n b0 else b0)"
      by (auto simp: get_adjust_backend split: if_splits)
    have "b_AllocatedCapacityGB b0 = int64 (allocated_on k (volumes s))"
      and "b_UsedCapacityGB b0 = int64 (used_on k (volumes s))"
      using assms(1) b0 by (auto simp: accounting_def fmpred_iff)
    then show ?thesis
      using alloc [of k] used [of k] b0 by (simp add: b)
  qed
  then show ?thesis by (simp add: accounting_def fmpred_iff)
qed

text \<open>An operation that rewrites a volume but neither its size nor its place moves nothing.\<close>

lemma accounting_same_sums:
  assumes "accounting s" and "backends t = backends s"
    and "\<And>k. allocated_on k (volumes t) = allocated_on k (volumes s)"
    and "\<And>k. used_on k (volumes t) = used_on k (volumes s)"
  shows "accounting t"
  using assms by (simp add: accounting_def)

lemma sums_of_rewritten_volume:
  assumes "get m vid = Some v" and "v_SizeGB v' = v_SizeGB v" and "v_BackendID v' = v_BackendID v"
    and "v_ThinProvisioned v' = v_ThinProvisioned v"
  shows "allocated_on k (fmupd vid v' m) = allocated_on k m"
    and "used_on k (fmupd vid v' m) = used_on k m"
  using assms by (simp_all add: on_update on_backend_def thick_on_def)

lemma no_volume_no_sum:
  assumes "linked s" and "get (backends s) bid = None"
  shows "allocated_on bid (volumes s) = 0" and "used_on bid (volumes s) = 0"
proof -
  have "\<And>k v. get (volumes s) k = Some v \<Longrightarrow> v_BackendID v \<noteq> bid"
    using linked_volume [OF assms(1)] assms(2) by (fastforce simp: volume_linked_def)
  then show "allocated_on bid (volumes s) = 0" "used_on bid (volumes s) = 0"
    unfolding allocated_on_def used_on_def on_backend_def thick_on_def
    by (auto simp: sum_if_def intro!: sum.neutral split: option.splits)
qed

section \<open>Requests\<close>

text \<open>
  The operations that change the store, as values, so that a run is a list of them. A request
  is well formed when its argument is one the HTTP handlers build: a new backend has nothing
  allocated, a new volume no snapshots, no parent and no export.
\<close>

datatype request =
    AddBackendReq Backend
  | SetBackendStateReq string string
  | CreateVolumeReq Volume
  | DeleteVolumeReq string
  | ExtendVolumeReq string int
  | ExportVolumeReq string string string
  | UnexportVolumeReq string
  | SetConfigReq SimConfig
  | ResetReq
  | CreateSnapshotReq string string "(string, string) gomap"
  | DeleteSnapshotReq string
  | CloneReq string string "(string, string) gomap"
  | StartFlattenReq string
  | StartMigrationReq string string
  | CancelMigrationReq string

fun exec :: "int \<Rightarrow> request \<Rightarrow> Store \<Rightarrow> Store" where
  "exec now (AddBackendReq b) s = snd (AddBackend b s)"
| "exec now (SetBackendStateReq bid st) s = snd (SetBackendState bid st s)"
| "exec now (CreateVolumeReq v) s = snd (CreateVolume now v s)"
| "exec now (DeleteVolumeReq vid) s = snd (DeleteVolume vid s)"
| "exec now (ExtendVolumeReq vid n) s = snd (ExtendVolume vid n s)"
| "exec now (ExportVolumeReq vid h p) s = snd (ExportVolume vid h p s)"
| "exec now (UnexportVolumeReq vid) s = snd (UnexportVolume vid s)"
| "exec now (SetConfigReq cfg) s = SetConfig cfg s"
| "exec now ResetReq s = Reset s"
| "exec now (CreateSnapshotReq vid sid md) s = snd (CreateSnapshot now vid sid md s)"
| "exec now (DeleteSnapshotReq sid) s = snd (DeleteSnapshot sid s)"
| "exec now (CloneReq sid vid md) s = snd (CloneFromSnapshot now sid vid md s)"
| "exec now (StartFlattenReq vid) s = snd (StartFlatten now vid s)"
| "exec now (StartMigrationReq vid bid) s = snd (StartMigration now vid bid s)"
| "exec now (CancelMigrationReq mid) s = snd (CancelMigration mid s)"

fun well_formed :: "request \<Rightarrow> bool" where
  "well_formed (AddBackendReq b) \<longleftrightarrow> b_UsedCapacityGB b = 0 \<and> b_AllocatedCapacityGB b = 0"
| "well_formed (CreateVolumeReq v) \<longleftrightarrow>
     v_Snapshots v = [] \<and> v_ParentSnapshotID v = '''' \<and> v_ExportInfo v = None"
| "well_formed _ \<longleftrightarrow> True"

section \<open>Accounting is kept\<close>

lemma AddBackend_accounting:
  assumes "linked s" "accounting s" "well_formed (AddBackendReq b)"
  shows "accounting (snd (AddBackend b s))"
  using assms no_volume_no_sum [OF assms(1)]
  by (auto simp: AddBackend_def Let_def accounting_def fmpred_iff)

lemma SetBackendState_accounting: "accounting s \<Longrightarrow> accounting (snd (SetBackendState bid st s))"
  by (auto simp: SetBackendState_def accounting_def fmpred_iff split: option.splits)

text \<open>What an operation did when it succeeded, in terms of \<open>charge\<close>.\<close>

lemma CreateVolume_ok:
  assumes "fst (CreateVolume now v s) = Inr stored"
  obtains b where "get (backends s) (v_BackendID v) = Some b" "get (volumes s) (v_VolumeID v) = None"
    and "v_ThinProvisioned v \<or> int64 (b_UsedCapacityGB b + v_SizeGB v) \<le> b_TotalCapacityGB b"
    and "stored = v\<lparr>v_State := VolumeAvailable, v_ConsumedGB := 0, v_CreatedAt := now\<rparr>"
    and "snd (CreateVolume now v s) =
      s\<lparr>backends := adjust_backend (charge (v_ThinProvisioned v) (v_SizeGB v)) (v_BackendID v) (backends s),
        volumes := fmupd (v_VolumeID v) stored (volumes s)\<rparr>"
  using assms
  by (auto simp: CreateVolume_def Let_def reserve_Some_iff adjust_backend_Some
      split: if_splits option.splits)

lemma DeleteVolume_ok:
  assumes "fst (DeleteVolume vid s) = Inr u"
  obtains v where "get (volumes s) vid = Some v" "v_Snapshots v = []" "v_State v \<noteq> VolumeInUse"
    and "snd (DeleteVolume vid s) =
      s\<lparr>backends := adjust_backend (charge (v_ThinProvisioned v) (- v_SizeGB v)) (v_BackendID v) (backends s),
        volumes := fmdrop vid (volumes s)\<rparr>"
  using assms
  by (auto simp: DeleteVolume_def Let_def release_eq_charge adjust_backend_Some adjust_backend_None
      split: if_splits option.splits)

lemma ExtendVolume_ok:
  assumes "fst (ExtendVolume vid n s) = Inr v'"
  obtains v b where "get (volumes s) vid = Some v" "v_SizeGB v < n" "v' = v\<lparr>v_SizeGB := n\<rparr>"
    and "get (backends s) (v_BackendID v) = Some b"
    and "v_ThinProvisioned v \<or> int64 (b_UsedCapacityGB b + int64 (n - v_SizeGB v)) \<le> b_TotalCapacityGB b"
    and "snd (ExtendVolume vid n s) =
      s\<lparr>backends := adjust_backend (charge (v_ThinProvisioned v) (int64 (n - v_SizeGB v))) (v_BackendID v) (backends s),
        volumes := fmupd vid v' (volumes s)\<rparr>"
proof -
  from assms obtain v b where a: "get (volumes s) vid = Some v" "\<not> n \<le> v_SizeGB v"
    "get (backends s) (v_BackendID v) = Some b" "v' = v\<lparr>v_SizeGB := n\<rparr>"
    and r: "reserve (v_ThinProvisioned v) (int64 (n - v_SizeGB v)) b =
      Some (charge (v_ThinProvisioned v) (int64 (n - v_SizeGB v)) b)"
    by (auto simp: ExtendVolume_def Let_def reserve_Some_iff split: if_splits option.splits)
  from r have "v_ThinProvisioned v \<or> int64 (b_UsedCapacityGB b + int64 (n - v_SizeGB v)) \<le> b_TotalCapacityGB b"
    by (auto simp: reserve_Some_iff split: if_splits)
  with a r that [of v b] show ?thesis
    by (simp add: ExtendVolume_def Let_def adjust_backend_Some)
qed

lemma failed_unchanged:
  "fst (CreateVolume now v s) = Inl e \<Longrightarrow> snd (CreateVolume now v s) = s"
  "fst (DeleteVolume vid s) = Inl e \<Longrightarrow> snd (DeleteVolume vid s) = s"
  "fst (ExtendVolume vid n s) = Inl e \<Longrightarrow> snd (ExtendVolume vid n s) = s"
  "fst (CloneFromSnapshot now sid vid md s) = Inl e \<Longrightarrow> snd (CloneFromSnapshot now sid vid md s) = s"
  by (auto simp: CreateVolume_def DeleteVolume_def ExtendVolume_def CloneFromSnapshot_def Let_def
      split: if_splits option.splits)

lemma CreateVolume_accounting:
  assumes "accounting s"
  shows "accounting (snd (CreateVolume now v s))"
proof (cases "fst (CreateVolume now v s)")
  case (Inr stored)
  then obtain b where ok: "get (volumes s) (v_VolumeID v) = None"
      "stored = v\<lparr>v_State := VolumeAvailable, v_ConsumedGB := 0, v_CreatedAt := now\<rparr>"
    and eq: "snd (CreateVolume now v s) =
      s\<lparr>backends := adjust_backend (charge (v_ThinProvisioned v) (v_SizeGB v)) (v_BackendID v) (backends s),
        volumes := fmupd (v_VolumeID v) stored (volumes s)\<rparr>"
    by (rule CreateVolume_ok) blast
  show ?thesis unfolding eq
    by (intro accounting_charge [OF assms]) (auto simp: ok on_update on_backend_def thick_on_def)
qed (use assms failed_unchanged in simp)

lemma DeleteVolume_accounting:
  assumes "accounting s"
  shows "accounting (snd (DeleteVolume vid s))"
proof (cases "fst (DeleteVolume vid s)")
  case (Inr u)
  then obtain v where ok: "get (volumes s) vid = Some v"
    and eq: "snd (DeleteVolume vid s) =
      s\<lparr>backends := adjust_backend (charge (v_ThinProvisioned v) (- v_SizeGB v)) (v_BackendID v) (backends s),
        volumes := fmdrop vid (volumes s)\<rparr>"
    by (rule DeleteVolume_ok) blast
  show ?thesis unfolding eq
    by (intro accounting_charge [OF assms]) (auto simp: ok on_update on_backend_def thick_on_def)
qed (use assms failed_unchanged in simp)

lemma ExtendVolume_accounting:
  assumes "accounting s"
  shows "accounting (snd (ExtendVolume vid n s))"
proof (cases "fst (ExtendVolume vid n s)")
  case (Inr v')
  then obtain v where ok: "get (volumes s) vid = Some v" "v' = v\<lparr>v_SizeGB := n\<rparr>"
    and eq: "snd (ExtendVolume vid n s) =
      s\<lparr>backends := adjust_backend (charge (v_ThinProvisioned v) (int64 (n - v_SizeGB v))) (v_BackendID v) (backends s),
        volumes := fmupd vid v' (volumes s)\<rparr>"
    by (rule ExtendVolume_ok) blast
  show ?thesis unfolding eq
    by (intro accounting_charge [OF assms])
      (auto simp: ok on_update on_backend_def thick_on_def algebra_simps)
qed (use assms failed_unchanged in simp)

lemma CloneFromSnapshot_ok:
  assumes "fst (CloneFromSnapshot now sid vid md s) = Inr clone"
  obtains snap src where
    "get (volumes s) vid = None" and "vid \<noteq> ''''"
    and "get (snapshots s) sid = Some snap" and "get (volumes s) (s_VolumeID snap) = Some src"
    and "get (backends s) (v_BackendID src) \<noteq> None"
    and "v_VolumeID clone = vid" "v_SizeGB clone = s_SizeGB snap" "v_ThinProvisioned clone"
      "v_BackendID clone = v_BackendID src" "v_Snapshots clone = []" "v_ParentSnapshotID clone = sid"
      "v_State clone = VolumeAvailable" "v_ExportInfo clone = None"
    and "snd (CloneFromSnapshot now sid vid md s) =
      s\<lparr>backends := adjust_backend (charge True (s_SizeGB snap)) (v_BackendID clone) (backends s),
        volumes := fmupd vid clone (volumes s),
        snapshots := fmupd sid (snap\<lparr>s_ChildClones := s_ChildClones snap @ [vid]\<rparr>) (snapshots s)\<rparr>"
proof -
  from assms obtain snap src b where a: "vid \<noteq> ''''" "get (volumes s) vid = None"
    "get (snapshots s) sid = Some snap" "get (volumes s) (s_VolumeID snap) = Some src"
    "get (backends s) (v_BackendID src) = Some b" "b_State b = BackendActive"
    "reserve True (s_SizeGB snap) b = Some (charge True (s_SizeGB snap) b)"
    by (auto simp: CloneFromSnapshot_def Let_def reserve_Some_iff split: if_splits option.splits)
  with assms that [of snap src] show ?thesis
    by (auto simp: CloneFromSnapshot_def Let_def adjust_backend_Some)
qed

lemma CloneFromSnapshot_accounting:
  assumes "accounting s"
  shows "accounting (snd (CloneFromSnapshot now sid vid md s))"
proof (cases "fst (CloneFromSnapshot now sid vid md s)")
  case (Inl e)
  then have "snd (CloneFromSnapshot now sid vid md s) = s"
    by (auto simp: CloneFromSnapshot_def Let_def split: if_splits option.splits)
  with assms show ?thesis by simp
next
  case (Inr clone)
  then obtain snap where ok: "get (volumes s) vid = None"
    "v_SizeGB clone = s_SizeGB snap" "v_ThinProvisioned clone"
    and eq: "snd (CloneFromSnapshot now sid vid md s) =
      s\<lparr>backends := adjust_backend (charge True (s_SizeGB snap)) (v_BackendID clone) (backends s),
        volumes := fmupd vid clone (volumes s),
        snapshots := fmupd sid (snap\<lparr>s_ChildClones := s_ChildClones snap @ [vid]\<rparr>) (snapshots s)\<rparr>"
    by (rule CloneFromSnapshot_ok)
  have "accounting (s\<lparr>backends := adjust_backend (charge True (s_SizeGB snap)) (v_BackendID clone) (backends s),
        volumes := fmupd vid clone (volumes s)\<rparr>)"
    by (rule accounting_charge [OF assms]) (auto simp: on_update ok on_backend_def thick_on_def)
  then show ?thesis unfolding eq by (simp add: accounting_def)
qed

lemmas rewriting_op_defs = ExportVolume_def UnexportVolume_def CreateSnapshot_def DeleteSnapshot_def
  flatten_finish_def

lemma rewriting_ops_accounting:
  assumes "accounting s"
  shows "accounting (snd (ExportVolume vid h p s))"
    and "accounting (snd (UnexportVolume vid s))"
    and "accounting (snd (CreateSnapshot now vid sid md s))"
    and "accounting (snd (DeleteSnapshot sid s))"
    and "accounting (flatten_finish now opID vid s)"
  by (rule accounting_same_sums [OF assms];
      auto simp: rewriting_op_defs Let_def sums_of_rewritten_volume split: option.splits)+

text \<open>
  A migration leaves the counters right when the volume it moves is still the one it was
  started for: same backend, same size, same provisioning.
\<close>

definition undisturbed :: "migration_args \<Rightarrow> Store \<Rightarrow> bool" where
  "undisturbed a s \<longleftrightarrow>
     (case get (volumes s) (a_volumeID a) of
        None \<Rightarrow> True
      | Some v \<Rightarrow> v_BackendID v = a_srcBackendID a \<and> v_SizeGB v = a_sizeGB a \<and>
                  v_ThinProvisioned v = a_thinProvisioned a)"

lemma put_migration_keeps [simp]:
  "backends (put_migration mid m s) = backends s"
  "volumes (put_migration mid m s) = volumes s"
  "snapshots (put_migration mid m s) = snapshots s"
  "operations (put_migration mid m s) = operations s"
  "opCounter (put_migration mid m s) = opCounter s"
  "config (put_migration mid m s) = config s"
  by (simp_all add: put_migration_def)

lemma migration_complete_accounting:
  assumes acc: "accounting s" and und: "undisturbed a s"
  shows "accounting (migration_complete now a s)"
proof (cases "live_migration (a_migID a) s = None \<or> get (volumes s) (a_volumeID a) = None")
  case True
  with acc show ?thesis
    by (auto simp: migration_complete_def accounting_def split: option.splits)
next
  case False
  then obtain mig v where "live_migration (a_migID a) s = Some mig"
    and v: "get (volumes s) (a_volumeID a) = Some v" by auto
  let ?s1 = "s\<lparr>backends := adjust_backend (charge (a_thinProvisioned a) (- a_sizeGB a)) (a_srcBackendID a) (backends s),
       volumes := fmdrop (a_volumeID a) (volumes s)\<rparr>"
  let ?s2 = "?s1\<lparr>backends := adjust_backend (charge (a_thinProvisioned a) (a_sizeGB a)) (a_destBackendID a) (backends ?s1),
       volumes := fmupd (a_volumeID a) (v\<lparr>v_BackendID := a_destBackendID a\<rparr>) (volumes s)\<rparr>"
  have v_is: "v_BackendID v = a_srcBackendID a" "v_SizeGB v = a_sizeGB a"
      "v_ThinProvisioned v = a_thinProvisioned a"
    using und v by (simp_all add: undisturbed_def)
  have "accounting ?s1"
    by (rule accounting_charge [OF acc]) (auto simp: on_update v v_is on_backend_def thick_on_def)
  then have "accounting ?s2"
    by (rule accounting_charge) (auto simp: on_update v v_is on_backend_def thick_on_def)
  moreover have "release thin n = charge thin (- n)" for thin n
    by (simp add: release_eq_charge fun_eq_iff)
  ultimately show ?thesis
    using v \<open>live_migration (a_migID a) s = Some mig\<close>
    by (simp add: migration_complete_def accounting_def)
qed

section \<open>Links and exports are kept\<close>

lemma exports_ok_cong: "exports_ok s \<Longrightarrow> volumes t = volumes s \<Longrightarrow> exports_ok t"
  by (simp add: exports_ok_def)

lemma exports_ok_write: "exports_ok s \<Longrightarrow> export_ok v \<Longrightarrow> volumes t = fmupd vid v (volumes s) \<Longrightarrow> exports_ok t"
  by (auto simp: exports_ok_def fmpred_iff)

lemma exports_ok_drop: "exports_ok s \<Longrightarrow> volumes t = fmdrop vid (volumes s) \<Longrightarrow> exports_ok t"
  by (auto simp: exports_ok_def fmpred_iff split: if_splits)

text \<open>A volume may be rewritten in everything but its identity, its snapshots and its parent.\<close>

definition same_links :: "Volume \<Rightarrow> Volume \<Rightarrow> bool" where
  "same_links v w \<longleftrightarrow> v_VolumeID w = v_VolumeID v \<and> v_Snapshots w = v_Snapshots v \<and>
     v_ParentSnapshotID w = v_ParentSnapshotID v"

lemma linked_rewrite:
  assumes "linked s" and "snapshots t = snapshots s"
    and "\<And>k. get (backends s) k \<noteq> None \<Longrightarrow> get (backends t) k \<noteq> None"
    and same: "\<And>k. rel_option same_links (get (volumes s) k) (get (volumes t) k)"
    and "\<And>k w. get (volumes t) k = Some w \<Longrightarrow> get (backends t) (v_BackendID w) \<noteq> None"
  shows "linked t"
proof -
  have "volume_linked t k w" if w: "get (volumes t) k = Some w" for k w
  proof -
    obtain v where "get (volumes s) k = Some v" "same_links v w"
      using same [of k] w by (auto simp: option_rel_Some2)
    then show ?thesis
      using linked_volume [OF assms(1), of k v] assms(2) assms(5) [OF w]
      by (simp add: volume_linked_def same_links_def)
  qed
  moreover have "snapshot_linked t k sn" if sn: "get (snapshots t) k = Some sn" for k sn
  proof -
    obtain v where v: "get (volumes s) (s_VolumeID sn) = Some v" "k \<in> set (v_Snapshots v)"
      "s_SnapshotID sn = k" "k \<noteq> ''''"
      using linked_snapshot [OF assms(1), of k sn] sn assms(2) by (auto simp: snapshot_linked_def)
    then show ?thesis
      using same [of "s_VolumeID sn"] by (auto simp: option_rel_Some1 snapshot_linked_def same_links_def)
  qed
  ultimately show ?thesis by (simp add: linked_def fmpred_iff)
qed

lemma linked_backend: "linked s \<Longrightarrow> get (volumes s) k = Some v \<Longrightarrow> get (backends s) (v_BackendID v) \<noteq> None"
  using linked_volume by (auto simp: volume_linked_def)

lemma same_links_refl [simp]: "same_links v v" "rel_option same_links x x"
  by (cases x; simp add: same_links_def)+

lemma linked_cong:
  assumes "linked s" and "\<And>k. get (backends s) k \<noteq> None \<Longrightarrow> get (backends t) k \<noteq> None"
    and "volumes t = volumes s" and "snapshots t = snapshots s"
  shows "linked t"
  by (rule linked_rewrite [OF assms(1,4,2)]) (use assms linked_backend [OF assms(1)] in simp_all)

text \<open>A fresh volume without snapshots may be added when its backend and its parent exist.\<close>

lemma linked_new_volume:
  assumes "linked s" and "get (volumes s) (v_VolumeID v) = None" and "v_VolumeID v \<noteq> ''''"
    and "\<And>k. get (backends s) k \<noteq> None \<Longrightarrow> get (backends t) k \<noteq> None"
    and "v_Snapshots v = []" "get (backends t) (v_BackendID v) \<noteq> None"
    and "v_ParentSnapshotID v \<noteq> '''' \<Longrightarrow> \<exists>sn. get (snapshots t) (v_ParentSnapshotID v) = Some sn \<and>
           v_VolumeID v \<in> set (s_ChildClones sn)"
    and "volumes t = fmupd (v_VolumeID v) v (volumes s)"
    and snaps: "\<And>k sn. get (snapshots s) k = Some sn \<Longrightarrow> \<exists>sn'. get (snapshots t) k = Some sn' \<and>
           s_VolumeID sn' = s_VolumeID sn \<and> set (s_ChildClones sn) \<subseteq> set (s_ChildClones sn')"
    and origin: "\<And>k sn'. get (snapshots t) k = Some sn' \<Longrightarrow> \<exists>sn. get (snapshots s) k = Some sn \<and>
           s_VolumeID sn' = s_VolumeID sn \<and> s_SnapshotID sn' = s_SnapshotID sn"
  shows "linked t"
proof -
  have owner: "\<exists>sn'. get (snapshots t) k = Some sn' \<and> s_VolumeID sn' = x"
    if "\<exists>sn. get (snapshots s) k = Some sn \<and> s_VolumeID sn = x" for k x
    using that snaps by fastforce
  have clone: "\<exists>sn'. get (snapshots t) k = Some sn' \<and> x \<in> set (s_ChildClones sn')"
    if "\<exists>sn. get (snapshots s) k = Some sn \<and> x \<in> set (s_ChildClones sn)" for k x
    using that snaps by fastforce
  have old: "volume_linked t k w" if "volume_linked s k w" for k w
    using that assms(4) owner clone by (simp add: volume_linked_def list_all_iff)
  have "volume_linked t k w" if "get (volumes t) k = Some w" for k w
  proof (cases "k = v_VolumeID v")
    case True
    then show ?thesis using that assms(3-8) by (auto simp: volume_linked_def)
  next
    case False
    then show ?thesis using that assms(8) old linked_volume [OF assms(1)] by simp
  qed
  moreover have "snapshot_linked t k sn'" if sn': "get (snapshots t) k = Some sn'" for k sn'
  proof -
    from origin [OF sn'] obtain sn where "get (snapshots s) k = Some sn"
      "s_VolumeID sn' = s_VolumeID sn" "s_SnapshotID sn' = s_SnapshotID sn" by blast
    then show ?thesis
      using linked_snapshot [OF assms(1), of k sn] assms(2,8) by (auto simp: snapshot_linked_def)
  qed
  ultimately show ?thesis by (simp add: linked_def fmpred_iff)
qed

lemma AddBackend_linked: "linked s \<Longrightarrow> linked (snd (AddBackend b s))"
  by (rule linked_cong [of s]) (auto simp: AddBackend_def Let_def)

lemma SetBackendState_linked: "linked s \<Longrightarrow> linked (snd (SetBackendState bid st s))"
  by (rule linked_cong [of s]) (auto simp: SetBackendState_def split: option.splits)

lemma CreateVolume_linked:
  assumes "linked s" and "well_formed (CreateVolumeReq v)"
  shows "linked (snd (CreateVolume now v s))"
proof (cases "fst (CreateVolume now v s)")
  case (Inl e)
  then have "snd (CreateVolume now v s) = s"
    by (auto simp: CreateVolume_def Let_def split: if_splits option.splits)
  with assms show ?thesis by simp
next
  case (Inr stored)
  then have "stored = v\<lparr>v_State := VolumeAvailable, v_ConsumedGB := 0, v_CreatedAt := now\<rparr>"
    by (auto simp: CreateVolume_def Let_def split: if_splits option.splits)
  with Inr assms(2) show ?thesis
    by (intro linked_new_volume [OF assms(1), of stored])
      (auto simp: CreateVolume_def Let_def split: if_splits option.splits)
qed

lemma DeleteVolume_linked:
  assumes "linked s"
  shows "linked (snd (DeleteVolume vid s))"
proof -
  let ?t = "snd (DeleteVolume vid s)"
  have kept: "\<And>k. get (backends s) k \<noteq> None \<Longrightarrow> get (backends ?t) k \<noteq> None"
    "snapshots ?t = snapshots s"
    "volumes ?t = volumes s \<or>
       volumes ?t = fmdrop vid (volumes s) \<and> (\<exists>v. get (volumes s) vid = Some v \<and> v_Snapshots v = [])"
    by (auto simp: DeleteVolume_def Let_def split: if_splits option.splits)
  have "volume_linked ?t k w" if "get (volumes ?t) k = Some w" for k w
    using that kept linked_volume [OF assms, of k w] by (auto simp: volume_linked_def split: if_splits)
  moreover have "snapshot_linked ?t k sn" if "get (snapshots ?t) k = Some sn" for k sn
    using that kept linked_snapshot [OF assms, of k sn] by (auto simp: snapshot_linked_def)
  ultimately show ?thesis by (simp add: linked_def fmpred_iff)
qed

lemma resizing_ops_linked:
  assumes "linked s"
  shows "linked (snd (ExtendVolume vid n s))"
    and "linked (snd (ExportVolume vid h p s))"
    and "linked (snd (UnexportVolume vid s))"
  by (rule linked_rewrite [OF assms];
      use linked_backend [OF assms] in \<open>fastforce simp: ExtendVolume_def ExportVolume_def
        UnexportVolume_def Let_def same_links_def split: option.splits if_splits\<close>)+

lemma CreateSnapshot_linked:
  assumes "linked s"
  shows "linked (snd (CreateSnapshot now vid sid md s))"
proof (cases "sid \<noteq> '''' \<and> get (snapshots s) sid = None \<and> get (volumes s) vid \<noteq> None")
  case False
  then have "snd (CreateSnapshot now vid sid md s) = s"
    by (auto simp: CreateSnapshot_def)
  with assms show ?thesis by simp
next
  case True
  then obtain v where sid: "sid \<noteq> ''''" "get (snapshots s) sid = None"
    and v: "get (volumes s) vid = Some v" by auto
  let ?t = "snd (CreateSnapshot now vid sid md s)"
  have t: "backends ?t = backends s"
    "volumes ?t = fmupd vid (v\<lparr>v_Snapshots := v_Snapshots v @ [sid]\<rparr>) (volumes s)"
    "snapshots ?t = fmupd sid \<lparr>s_SnapshotID = sid, s_VolumeID = vid, s_SizeGB = v_SizeGB v,
       s_ConsumedGB = 0, s_State = ''available'', s_ChildClones = [], s_Metadata = md,
       s_CreatedAt = now\<rparr> (snapshots s)"
    using sid v by (simp_all add: CreateSnapshot_def Let_def)
  have "sid \<notin> set (v_Snapshots v)"
    using linked_volume [OF assms v] sid(2) by (auto simp: volume_linked_def list_all_iff)
  then have "volume_linked ?t k w" if "get (volumes ?t) k = Some w" for k w
    using that linked_volume [OF assms, of k] v sid(2)
    by (auto simp: volume_linked_def list_all_iff t split: if_splits)
  moreover have "snapshot_linked ?t k sn" if "get (snapshots ?t) k = Some sn" for k sn
    using that linked_snapshot [OF assms, of k] v sid(1)
    by (auto simp: snapshot_linked_def t split: if_splits)
  ultimately show ?thesis by (simp add: linked_def fmpred_iff)
qed

lemma DeleteSnapshot_linked:
  assumes "linked s"
  shows "linked (snd (DeleteSnapshot sid s))"
proof (cases "\<exists>snap. get (snapshots s) sid = Some snap \<and> s_ChildClones snap = []")
  case False
  then have "snd (DeleteSnapshot sid s) = s"
    by (auto simp: DeleteSnapshot_def split: option.splits)
  with assms show ?thesis by simp
next
  case True
  then obtain snap where snap: "get (snapshots s) sid = Some snap" "s_ChildClones snap = []" by blast
  obtain v where v: "get (volumes s) (s_VolumeID snap) = Some v" "sid \<in> set (v_Snapshots v)"
    using linked_snapshot [OF assms snap(1)] by (auto simp: snapshot_linked_def)
  let ?t = "snd (DeleteSnapshot sid s)"
  have t: "backends ?t = backends s" "snapshots ?t = fmdrop sid (snapshots s)"
    "volumes ?t = fmupd (s_VolumeID snap)
       (v\<lparr>v_Snapshots := remove_first sid (v_Snapshots v)\<rparr>) (volumes s)"
    using snap v by (simp_all add: DeleteSnapshot_def Let_def)
  have cut: "distinct (remove_first sid (v_Snapshots v))"
    "set (remove_first sid (v_Snapshots v)) = set (v_Snapshots v) - {sid}"
    using linked_volume [OF assms v(1)] remove_first_distinct [of "v_Snapshots v" sid]
    by (auto simp: volume_linked_def)
  have "volume_linked ?t k w" if w: "get (volumes ?t) k = Some w" for k w
  proof -
    obtain w0 where w0: "get (volumes s) k = Some w0" "volume_linked s k w0"
      and eq: "w = (if k = s_VolumeID snap then w0\<lparr>v_Snapshots := remove_first sid (v_Snapshots v)\<rparr> else w0)"
      and same: "k = s_VolumeID snap \<Longrightarrow> w0 = v"
      using w v(1) linked_volume [OF assms, of k] by (auto simp: t split: if_splits)
    have "v_ParentSnapshotID w0 \<noteq> sid" if "v_ParentSnapshotID w0 \<noteq> ''''"
      using w0(2) that snap by (auto simp: volume_linked_def)
    moreover have "sid \<notin> set (v_Snapshots w0)" if "k \<noteq> s_VolumeID snap"
      using w0(2) that snap(1) by (auto simp: volume_linked_def list_all_iff)
    ultimately show ?thesis
      using w0(2) cut same by (cases "k = s_VolumeID snap")
        (auto simp: eq volume_linked_def list_all_iff t)
  qed
  moreover have "snapshot_linked ?t k sn" if "get (snapshots ?t) k = Some sn" for k sn
  proof -
    from that have "k \<noteq> sid" "get (snapshots s) k = Some sn" by (auto simp: t split: if_splits)
    then show ?thesis
      using linked_snapshot [OF assms, of k sn] v(1) cut(2)
      by (cases "s_VolumeID sn = s_VolumeID snap") (auto simp: snapshot_linked_def t)
  qed
  ultimately show ?thesis by (simp add: linked_def fmpred_iff)
qed

lemma CloneFromSnapshot_linked:
  assumes "linked s"
  shows "linked (snd (CloneFromSnapshot now sid vid md s))"
proof (cases "fst (CloneFromSnapshot now sid vid md s)")
  case (Inl e)
  then have "snd (CloneFromSnapshot now sid vid md s) = s"
    by (auto simp: CloneFromSnapshot_def Let_def split: if_splits option.splits)
  with assms show ?thesis by simp
next
  case (Inr clone)
  from Inr obtain snap src where ok: "get (volumes s) vid = None" "vid \<noteq> ''''"
      "get (snapshots s) sid = Some snap" "get (volumes s) (s_VolumeID snap) = Some src"
      "get (backends s) (v_BackendID src) \<noteq> None"
      "v_VolumeID clone = vid" "v_BackendID clone = v_BackendID src" "v_Snapshots clone = []"
      "v_ParentSnapshotID clone = sid"
    and eq: "snd (CloneFromSnapshot now sid vid md s) =
      s\<lparr>backends := adjust_backend (charge True (s_SizeGB snap)) (v_BackendID clone) (backends s),
        volumes := fmupd vid clone (volumes s),
        snapshots := fmupd sid (snap\<lparr>s_ChildClones := s_ChildClones snap @ [vid]\<rparr>) (snapshots s)\<rparr>"
    by (rule CloneFromSnapshot_ok) blast
  show ?thesis unfolding eq
    by (rule linked_new_volume [OF assms, of clone])
      (use ok in \<open>auto simp: get_adjust_backend split: if_splits\<close>)
qed

lemma get_drop_clone:
  "get (drop_clone p vid m) k = (if k = p
     then map_option (\<lambda>sn. sn\<lparr>s_ChildClones := remove_first vid (s_ChildClones sn)\<rparr>) (get m p)
     else get m k)"
  by (simp add: drop_clone_def split: option.split)

lemma flatten_finish_linked:
  assumes "linked s"
  shows "linked (flatten_finish now opID vid s)"
proof (cases "get (operations s) opID = None \<or> get (volumes s) vid = None")
  case True
  then show ?thesis
    by (intro linked_cong [OF assms]) (auto simp: flatten_finish_def split: option.splits)
next
  case False
  then obtain v where v: "get (volumes s) vid = Some v" and "get (operations s) opID \<noteq> None" by auto
  let ?t = "flatten_finish now opID vid s"
  have t: "backends ?t = backends s" 
    "volumes ?t = fmupd vid (v\<lparr>v_ConsumedGB := v_SizeGB v, v_ParentSnapshotID := ''''\<rparr>) (volumes s)"
    "snapshots ?t = drop_clone (v_ParentSnapshotID v) vid (snapshots s)"
    using False v by (auto simp: flatten_finish_def)
  have "volume_linked ?t k w" if "get (volumes ?t) k = Some w" for k w
    using that linked_volume [OF assms, of k] v
    by (fastforce simp: volume_linked_def list_all_iff t get_drop_clone split: if_splits)
  moreover have "snapshot_linked ?t k sn" if "get (snapshots ?t) k = Some sn" for k sn
    using that linked_snapshot [OF assms, of k] v
    by (auto simp: snapshot_linked_def t get_drop_clone split: if_splits)
  ultimately show ?thesis by (simp add: linked_def fmpred_iff)
qed

lemma migration_complete_linked:
  assumes "linked s" and "get (backends s) (a_destBackendID a) \<noteq> None"
  shows "linked (migration_complete now a s)"
  by (rule linked_rewrite [OF assms(1)];
      use linked_backend [OF assms(1)] assms(2) in
      \<open>fastforce simp: migration_complete_def get_adjust_backend same_links_def
        split: option.splits if_splits\<close>)

lemma request_exports_ok:
  assumes "exports_ok s" and "well_formed r"
  shows "exports_ok (exec now r s)"
proof -
  have old: "get (volumes s) k = Some v \<Longrightarrow> export_ok v" for k v
    using assms(1) by (auto simp: exports_ok_def)
  have "get (volumes (exec now r s)) k = Some w \<Longrightarrow> export_ok w" for k w
    using assms(2) old [of k]
    by (cases r) (auto simp: AddBackend_def SetBackendState_def CreateVolume_def DeleteVolume_def
        ExtendVolume_def ExportVolume_def UnexportVolume_def SetConfig_def Reset_def
        CreateSnapshot_def DeleteSnapshot_def CloneFromSnapshot_def StartFlatten_def
        StartMigration_def CancelMigration_def Let_def export_ok_def
        split: if_splits option.splits)
  then show ?thesis by (simp add: exports_ok_def fmpred_iff)
qed

lemma background_exports_ok:
  assumes "exports_ok s"
  shows "exports_ok (flatten_finish now opID vid s)" and "exports_ok (migration_complete now a s)"
proof -
  have old: "get (volumes s) k = Some v \<Longrightarrow> export_ok v" for k v
    using assms(1) by (auto simp: exports_ok_def)
  then show "exports_ok (flatten_finish now opID vid s)"
    by (auto simp: exports_ok_def fmpred_iff flatten_finish_def export_ok_def
        split: if_splits option.splits)
  from old show "exports_ok (migration_complete now a s)"
    by (auto simp: exports_ok_def fmpred_iff migration_complete_def export_ok_def
        split: if_splits option.splits)
qed

section \<open>Together\<close>

definition consistent :: "Store \<Rightarrow> bool" where
  "consistent s \<longleftrightarrow> accounting s \<and> linked s \<and> exports_ok s"

lemma consistent_NewStore: "consistent NewStore" and consistent_Reset: "consistent (Reset s)"
  by (simp_all add: consistent_def accounting_def linked_def exports_ok_def NewStore_def Reset_def)

text \<open>Operations and migrations in progress, the configuration and the counter are no part of it.\<close>

lemma consistent_cong:
  assumes "consistent s" "backends t = backends s" "volumes t = volumes s" "snapshots t = snapshots s"
  shows "consistent t"
  using assms linked_cong [of s t] exports_ok_cong [of s t]
  by (simp add: consistent_def accounting_def)

lemma exec_consistent:
  assumes "consistent s" and "well_formed r"
  shows "consistent (exec now r s)"
proof -
  have a: "accounting s" and l: "linked s" using assms(1) by (simp_all add: consistent_def)
  have bookkeeping: "consistent (snd (StartFlatten now vid s))"
    "consistent (snd (StartMigration now vid bid s))"
    "consistent (snd (CancelMigration mid s))" "consistent (SetConfig cfg s)" for vid bid mid cfg
    by (rule consistent_cong [OF assms(1)];
        simp add: StartFlatten_def StartMigration_def CancelMigration_def SetConfig_def Let_def
          split: option.split)+
  have "accounting (exec now r s) \<and> linked (exec now r s)"
    using assms(2) bookkeeping consistent_Reset
    by (cases r) (simp_all add: consistent_def a l AddBackend_accounting SetBackendState_accounting
        CreateVolume_accounting DeleteVolume_accounting ExtendVolume_accounting
        CloneFromSnapshot_accounting rewriting_ops_accounting AddBackend_linked
        SetBackendState_linked CreateVolume_linked DeleteVolume_linked resizing_ops_linked
        CreateSnapshot_linked DeleteSnapshot_linked CloneFromSnapshot_linked)
  then show ?thesis
    using assms request_exports_ok by (simp add: consistent_def)
qed

lemma flatten_finish_consistent: "consistent s \<Longrightarrow> consistent (flatten_finish now opID vid s)"
  by (simp add: consistent_def rewriting_ops_accounting flatten_finish_linked background_exports_ok)

lemma migration_complete_consistent:
  "consistent s \<Longrightarrow> undisturbed a s \<Longrightarrow> get (backends s) (a_destBackendID a) \<noteq> None \<Longrightarrow>
     consistent (migration_complete now a s)"
  by (simp add: consistent_def migration_complete_accounting migration_complete_linked
      background_exports_ok)

section \<open>No backend is overfilled\<close>

text \<open>
  The capacity check adds in 64-bit integers, so it says what it means only for sizes below
  \<^term>\<open>2 ^ 62 :: int\<close> on backends below that capacity.
\<close>

fun bounded :: "request \<Rightarrow> bool" where
  "bounded (AddBackendReq b) \<longleftrightarrow> 0 \<le> b_TotalCapacityGB b \<and> b_TotalCapacityGB b < 2 ^ 62"
| "bounded (CreateVolumeReq v) \<longleftrightarrow> 0 \<le> v_SizeGB v \<and> v_SizeGB v < 2 ^ 62"
| "bounded (ExtendVolumeReq vid n) \<longleftrightarrow> n < 2 ^ 62"
| "bounded _ \<longleftrightarrow> True"

lemma used_on_nonneg: "solvent s \<Longrightarrow> 0 \<le> used_on k (volumes s)"
  unfolding used_on_def by (rule sum_if_nonneg) (auto simp: solvent_def)

lemma solvent_used:
  assumes "accounting s" "solvent s" "get (backends s) k = Some b"
  shows "b_UsedCapacityGB b = used_on k (volumes s)"
proof -
  have "used_on k (volumes s) < 2 ^ 62"
    using assms(2,3) by (fastforce simp: solvent_def fmpred_iff)
  with used_on_nonneg [OF assms(2), of k] assms(1,3) show ?thesis
    by (auto simp: accounting_def fmpred_iff int_wrap)
qed

text \<open>The capacity check is exact on bounded sizes.\<close>

lemma checked_room:
  assumes "accounting s" "solvent s" "get (backends s) k = Some b" "n < 2 ^ 62" "0 \<le> n"
    and "int64 (b_UsedCapacityGB b + n) \<le> b_TotalCapacityGB b"
  shows "used_on k (volumes s) + n \<le> b_TotalCapacityGB b"
proof -
  have "used_on k (volumes s) < 2 ^ 62"
    using assms(2,3) by (fastforce simp: solvent_def fmpred_iff)
  with used_on_nonneg [OF assms(2), of k] solvent_used [OF assms(1-3)] assms(4-6) show ?thesis
    by (simp add: int_wrap)
qed

lemma solvent_step:
  assumes "solvent s"
    and "\<And>k v. get (volumes t) k = Some v \<Longrightarrow> 0 \<le> v_SizeGB v"
    and "\<And>k sn. get (snapshots t) k = Some sn \<Longrightarrow> 0 \<le> s_SizeGB sn"
    and "\<And>k. rel_option (\<lambda>b b'. b_TotalCapacityGB b' = b_TotalCapacityGB b)
           (get (backends s) k) (get (backends t) k)"
    and "\<And>k b. get (backends s) k = Some b \<Longrightarrow> used_on k (volumes t) \<le> b_TotalCapacityGB b"
  shows "solvent t"
proof -
  have "b_TotalCapacityGB b < 2 ^ 62 \<and> used_on k (volumes t) \<le> b_TotalCapacityGB b"
    if "get (backends t) k = Some b" for k b
    using that assms(4) [of k] assms(1) assms(5) [of k]
    by (auto simp: option_rel_Some2 solvent_def fmpred_iff)
  then show ?thesis using assms(2,3) by (simp add: solvent_def fmpred_iff)
qed

lemma solvent_cong:
  assumes "solvent s" "volumes t = volumes s" "snapshots t = snapshots s" "backends t = backends s"
  shows "solvent t"
  using assms by (simp add: solvent_def)

lemma solvent_facts:
  assumes "solvent s"
  shows "get (volumes s) k = Some v \<Longrightarrow> 0 \<le> v_SizeGB v"
    and "get (snapshots s) k = Some sn \<Longrightarrow> 0 \<le> s_SizeGB sn"
    and "get (backends s) k = Some b \<Longrightarrow> used_on k (volumes s) \<le> b_TotalCapacityGB b"
  using assms by (auto simp: solvent_def fmpred_iff)

lemma total_adjusted:
  "rel_option (\<lambda>b b'. b_TotalCapacityGB b' = b_TotalCapacityGB b)
     (get m k) (get (adjust_backend (charge thin n) bid m) k)"
  by (auto simp: get_adjust_backend option.rel_map intro: option.rel_refl)

lemma solvent_CreateVolume:
  assumes "accounting s" "solvent s" "bounded (CreateVolumeReq v)"
  shows "solvent (snd (CreateVolume now v s))"
proof (cases "fst (CreateVolume now v s)")
  case (Inr stored)
  then obtain b where b: "get (backends s) (v_BackendID v) = Some b"
    and room: "v_ThinProvisioned v \<or> int64 (b_UsedCapacityGB b + v_SizeGB v) \<le> b_TotalCapacityGB b"
    and ok: "get (volumes s) (v_VolumeID v) = None"
      "stored = v\<lparr>v_State := VolumeAvailable, v_ConsumedGB := 0, v_CreatedAt := now\<rparr>"
    and eq: "snd (CreateVolume now v s) =
      s\<lparr>backends := adjust_backend (charge (v_ThinProvisioned v) (v_SizeGB v)) (v_BackendID v) (backends s),
        volumes := fmupd (v_VolumeID v) stored (volumes s)\<rparr>"
    by (rule CreateVolume_ok) blast
  have fits: "v_ThinProvisioned v \<or> used_on (v_BackendID v) (volumes s) + v_SizeGB v \<le> b_TotalCapacityGB b"
    using checked_room [OF assms(1,2) b] room assms(3) by auto
  show ?thesis unfolding eq
    by (rule solvent_step [OF assms(2)])
      (use assms(3) fits ok b solvent_facts [OF assms(2)] in
        \<open>auto simp: total_adjusted on_update thick_on_def split: if_splits\<close>)
qed (use assms failed_unchanged in simp)

lemma solvent_DeleteVolume:
  assumes "solvent s"
  shows "solvent (snd (DeleteVolume vid s))"
proof (cases "fst (DeleteVolume vid s)")
  case (Inr u)
  then obtain v where v: "get (volumes s) vid = Some v"
    and eq: "snd (DeleteVolume vid s) =
      s\<lparr>backends := adjust_backend (charge (v_ThinProvisioned v) (- v_SizeGB v)) (v_BackendID v) (backends s),
        volumes := fmdrop vid (volumes s)\<rparr>"
    by (rule DeleteVolume_ok) blast
  have "0 \<le> v_SizeGB v" by (rule solvent_facts(1) [OF assms v])
  with v solvent_facts [OF assms] show ?thesis unfolding eq
    by (intro solvent_step [OF assms]) (force simp: total_adjusted on_update split: if_splits)+
qed (use assms failed_unchanged in simp)

lemma solvent_ExtendVolume:
  assumes "accounting s" "solvent s" "bounded (ExtendVolumeReq vid n)"
  shows "solvent (snd (ExtendVolume vid n s))"
proof (cases "fst (ExtendVolume vid n s)")
  case (Inr v')
  then obtain v b where ok: "get (volumes s) vid = Some v" "v_SizeGB v < n" "v' = v\<lparr>v_SizeGB := n\<rparr>"
    and b: "get (backends s) (v_BackendID v) = Some b"
    and room: "v_ThinProvisioned v \<or> int64 (b_UsedCapacityGB b + int64 (n - v_SizeGB v)) \<le> b_TotalCapacityGB b"
    and eq: "snd (ExtendVolume vid n s) =
      s\<lparr>backends := adjust_backend (charge (v_ThinProvisioned v) (int64 (n - v_SizeGB v))) (v_BackendID v) (backends s),
        volumes := fmupd vid v' (volumes s)\<rparr>"
    by (rule ExtendVolume_ok) blast
  have v0: "0 \<le> v_SizeGB v" by (rule solvent_facts(1) [OF assms(2) ok(1)])
  then have fits: "v_ThinProvisioned v \<or>
      used_on (v_BackendID v) (volumes s) + (n - v_SizeGB v) \<le> b_TotalCapacityGB b"
    using checked_room [OF assms(1,2) b, of "n - v_SizeGB v"] room assms(3) ok(2)
    by (auto simp: int_wrap)
  from v0 ok(2) have "0 \<le> n" by simp
  then show ?thesis unfolding eq
    by (intro solvent_step [OF assms(2)])
      (use fits ok b solvent_facts [OF assms(2)] in
        \<open>auto simp: total_adjusted on_update thick_on_def split: if_splits\<close>)
qed (use assms failed_unchanged in simp)

lemma solvent_CloneFromSnapshot:
  assumes "solvent s"
  shows "solvent (snd (CloneFromSnapshot now sid vid md s))"
proof (cases "fst (CloneFromSnapshot now sid vid md s)")
  case (Inr clone)
  then obtain snap where snap: "get (snapshots s) sid = Some snap"
    and ok: "get (volumes s) vid = None" "v_SizeGB clone = s_SizeGB snap" "v_ThinProvisioned clone"
    and eq: "snd (CloneFromSnapshot now sid vid md s) =
      s\<lparr>backends := adjust_backend (charge True (s_SizeGB snap)) (v_BackendID clone) (backends s),
        volumes := fmupd vid clone (volumes s),
        snapshots := fmupd sid (snap\<lparr>s_ChildClones := s_ChildClones snap @ [vid]\<rparr>) (snapshots s)\<rparr>"
    by (rule CloneFromSnapshot_ok) blast
  have "0 \<le> s_SizeGB snap" by (rule solvent_facts(2) [OF assms snap])
  then show ?thesis unfolding eq
    by (intro solvent_step [OF assms])
      (use ok solvent_facts [OF assms] in
        \<open>auto simp: total_adjusted on_update thick_on_def split: if_splits\<close>)
qed (use assms failed_unchanged in simp)

lemma solvent_rewriting_ops:
  assumes "solvent s"
  shows "solvent (snd (ExportVolume vid h p s))"
    and "solvent (snd (UnexportVolume vid s))"
    and "solvent (snd (CreateSnapshot now vid sid md s))"
    and "solvent (snd (DeleteSnapshot sid s))"
    and "solvent (flatten_finish now opID vid s)"
  by (rule solvent_step [OF assms];
      use solvent_facts [OF assms] in
      \<open>auto simp: rewriting_op_defs Let_def sums_of_rewritten_volume drop_clone_def option.rel_refl
        split: option.splits if_splits\<close>)+

lemma solvent_AddBackend:
  assumes "linked s" "solvent s" "bounded (AddBackendReq b)"
  shows "solvent (snd (AddBackend b s))"
  using assms no_volume_no_sum(2) [OF assms(1)]
  by (auto simp: AddBackend_def Let_def solvent_def fmpred_iff)

lemma solvent_SetBackendState: "solvent s \<Longrightarrow> solvent (snd (SetBackendState bid st s))"
  by (auto simp: SetBackendState_def solvent_def fmpred_iff split: option.splits)

lemma exec_solvent:
  assumes "consistent s" "solvent s" "bounded r"
  shows "solvent (exec now r s)"
proof -
  have a: "accounting s" and l: "linked s" using assms(1) by (simp_all add: consistent_def)
  have bookkeeping: "solvent (snd (StartFlatten now vid s))"
    "solvent (snd (StartMigration now vid bid s))"
    "solvent (snd (CancelMigration mid s))" "solvent (SetConfig cfg s)" "solvent (Reset s)"
    for vid bid mid cfg
    by (rule solvent_cong [OF assms(2)];
        simp add: StartFlatten_def StartMigration_def CancelMigration_def SetConfig_def Let_def
          split: option.split)+ (simp add: solvent_def Reset_def)
  then show ?thesis
    using assms(3) by (cases r) (simp_all add: a l assms(2) solvent_AddBackend
        solvent_SetBackendState solvent_CreateVolume solvent_DeleteVolume solvent_ExtendVolume
        solvent_CloneFromSnapshot solvent_rewriting_ops)
qed

lemma thick_size_bound:
  assumes "linked s" "solvent s" "get (volumes s) vid = Some v" "\<not> v_ThinProvisioned v"
  shows "v_SizeGB v < 2 ^ 62"
proof -
  obtain b where b: "get (backends s) (v_BackendID v) = Some b"
    using linked_backend [OF assms(1,3)] by auto
  have "v_SizeGB v \<le> used_on (v_BackendID v) (volumes s)"
    using sum_if_ge_entry [of "volumes s" "thick_on (v_BackendID v)" v_SizeGB, OF _ assms(3)]
      solvent_facts(1) [OF assms(2)] assms(4) by (simp add: used_on_def thick_on_def)
  also have "\<dots> < 2 ^ 62" using assms(2) b by (fastforce simp: solvent_def fmpred_iff)
  finally show ?thesis .
qed

lemma migration_complete_solvent:
  assumes "consistent s" "solvent s"
    and room: "\<And>v b. get (volumes s) (a_volumeID a) = Some v \<Longrightarrow>
      get (backends s) (a_destBackendID a) = Some b \<Longrightarrow> dest_has_room v b"
  shows "solvent (migration_complete now a s)"
proof (cases "live_migration (a_migID a) s = None \<or> get (volumes s) (a_volumeID a) = None")
  case True
  then show ?thesis
    by (intro solvent_cong [OF assms(2)]) (auto simp: migration_complete_def split: option.splits)
next
  case False
  then obtain mig v where mig: "live_migration (a_migID a) s = Some mig"
    and v: "get (volumes s) (a_volumeID a) = Some v" by auto
  have acc: "accounting s" and l: "linked s" using assms(1) by (simp_all add: consistent_def)
  have v0: "0 \<le> v_SizeGB v" by (rule solvent_facts(1) [OF assms(2) v])
  let ?V = "fmupd (a_volumeID a) (v\<lparr>v_BackendID := a_destBackendID a\<rparr>) (volumes s)"
  have used: "used_on k ?V \<le> b_TotalCapacityGB b" if b: "get (backends s) k = Some b" for k b
  proof (cases "k = a_destBackendID a \<and> \<not> v_ThinProvisioned v")
    case True
    then have "int64 (b_UsedCapacityGB b + v_SizeGB v) \<le> b_TotalCapacityGB b"
      using room [OF v] b by (auto simp: dest_has_room_def)
    with checked_room [OF acc assms(2) b] v0 True thick_size_bound [OF l assms(2) v] solvent_facts(3) [OF assms(2) b]
    show ?thesis by (auto simp: on_update v thick_on_def)
  next
    case False
    then show ?thesis
      using solvent_facts(3) [OF assms(2) b] v v0 by (auto simp: on_update thick_on_def)
  qed
  have rel: "release thin n = charge thin (- n)" for thin n by (simp add: release_eq_charge fun_eq_iff)
  have totals: "rel_option (\<lambda>b b'. b_TotalCapacityGB b' = b_TotalCapacityGB b) (get m k)
      (get (adjust_backend (charge thin n) i (adjust_backend (charge thin' n') j m)) k)" for m thin n i thin' n' j k
    by (cases "get m k") (auto simp: get_adjust_backend split: if_splits)
  show ?thesis
    using mig v v0 used totals solvent_facts [OF assms(2)]
    by (intro solvent_step [OF assms(2)])
      (auto simp: migration_complete_def rel split: if_splits)
qed

end
