(* ===== verification/Storage_Runs.thy ===== *)
theory Storage_Runs
  imports Storage_Invariant
begin

text \<open>
  storage-sim as a concurrent system. Every public operation of the store holds its mutex from
  beginning to end, so it is one step; the goroutines that \<^verbatim>\<open>StartFlatten\<close> and
  \<^verbatim>\<open>StartMigration\<close> start are tasks, and a step of a task is what the goroutine does between
  taking and releasing the mutex. A run interleaves requests and turns of the tasks freely.

  The consistency of the store survives every interleaving in which the client does not resize,
  move again or re-create a volume that is being moved, and does not reset the simulator while
  a task is running. \<open>Storage_Theorems.extend_during_migration\<close> and
  \<open>Storage_Theorems.overlapping_migrations_overfill\<close> show what happens without such care.
\<close>

section \<open>Tasks and steps\<close>

datatype task =
    FlattenTask string string int nat
  | MigrateTask migration_args nat

text \<open>
  The turns of a goroutine. A flatten reports progress ten times and then finishes; a migration
  leaves the preparing state, reports progress ten times, enters the finishing state, and
  completes.
\<close>

fun turn :: "int \<Rightarrow> task \<Rightarrow> Store \<Rightarrow> Store \<times> task option" where
  "turn now (FlattenTask opID vid dur i) s =
     (if i \<le> 10 then
        (case flatten_progress now opID dur (int i) s of
           None \<Rightarrow> (s, None)
         | Some s' \<Rightarrow> (s', Some (FlattenTask opID vid dur (i + 1))))
      else (flatten_finish now opID vid s, None))"
| "turn now (MigrateTask a pc) s =
     (if 12 \<le> pc then (migration_complete now a s, None)
      else case (if pc = 0 then migration_prepared a s
                 else if pc \<le> 10 then migration_transfer now a (int pc) s
                 else migration_finishing a s) of
        None \<Rightarrow> (s, None)
      | Some s' \<Rightarrow> (s', Some (MigrateTask a (pc + 1))))"

fun spawn :: "int \<Rightarrow> request \<Rightarrow> Store \<Rightarrow> task list" where
  "spawn now (StartFlattenReq vid) s =
     (case fst (StartFlatten now vid s) of
        Inl _ \<Rightarrow> []
      | Inr (op, dur) \<Rightarrow> [FlattenTask (o_OperationID op) vid dur 1])"
| "spawn now (StartMigrationReq vid bid) s =
     (case fst (StartMigration now vid bid s) of
        Inl _ \<Rightarrow> []
      | Inr (mig, a) \<Rightarrow> [MigrateTask a 0])"
| "spawn now _ s = []"

record system =
  store :: Store
  tasks :: "task list"

datatype label = Client int request | Turn int nat

inductive sys_step :: "system \<Rightarrow> label \<Rightarrow> system \<Rightarrow> bool" where
  client: "sys_step \<Sigma> (Client now r)
     \<lparr>store = exec now r (store \<Sigma>), tasks = tasks \<Sigma> @ spawn now r (store \<Sigma>)\<rparr>"
| turn: "tasks \<Sigma> = ts @ t # us \<Longrightarrow> turn now t (store \<Sigma>) = (s', next) \<Longrightarrow>
     sys_step \<Sigma> (Turn now (length ts))
       \<lparr>store = s', tasks = ts @ (case next of None \<Rightarrow> [] | Some t' \<Rightarrow> [t']) @ us\<rparr>"

inductive_cases client_stepE: "sys_step \<Sigma> (Client now r) \<Sigma>'"
inductive_cases turn_stepE: "sys_step \<Sigma> (Turn now i) \<Sigma>'"

definition boot :: system where
  "boot = \<lparr>store = NewStore, tasks = []\<rparr>"

text \<open>The volumes that are being moved, and the requests a client may make meanwhile.\<close>

definition moving :: "task list \<Rightarrow> string list" where
  "moving ts = concat (map (\<lambda>t. case t of MigrateTask a _ \<Rightarrow> [a_volumeID a] | _ \<Rightarrow> []) ts)"

fun disturbs :: "request \<Rightarrow> string list" where
  "disturbs (ExtendVolumeReq vid n) = [vid]"
| "disturbs (StartMigrationReq vid bid) = [vid]"
| "disturbs (CreateVolumeReq v) = [v_VolumeID v]"
| "disturbs (CloneReq sid vid md) = [vid]"
| "disturbs _ = []"

fun careful :: "system \<Rightarrow> label \<Rightarrow> bool" where
  "careful \<Sigma> (Client now r) \<longleftrightarrow>
     well_formed r \<and> set (disturbs r) \<inter> set (moving (tasks \<Sigma>)) = {} \<and> (r = ResetReq \<longrightarrow> tasks \<Sigma> = [])"
| "careful \<Sigma> (Turn now i) \<longleftrightarrow> True"

section \<open>Consistency of every run\<close>

definition same_place :: "Volume \<Rightarrow> Volume \<Rightarrow> bool" where
  "same_place v w \<longleftrightarrow> v_BackendID w = v_BackendID v \<and> v_SizeGB w = v_SizeGB v \<and>
     v_ThinProvisioned w = v_ThinProvisioned v"

definition keeps_places :: "string set \<Rightarrow> Store \<Rightarrow> Store \<Rightarrow> bool" where
  "keeps_places X s t \<longleftrightarrow>
     (\<forall>k w. k \<notin> X \<longrightarrow> get (volumes t) k = Some w \<longrightarrow>
        (\<exists>v. get (volumes s) k = Some v \<and> same_place v w))"

definition keeps_backends :: "Store \<Rightarrow> Store \<Rightarrow> bool" where
  "keeps_backends s t \<longleftrightarrow> (\<forall>k. get (backends s) k \<noteq> None \<longrightarrow> get (backends t) k \<noteq> None)"

lemma same_place_refl [simp]: "same_place v v"
  by (simp add: same_place_def)

lemma keeps_places_same_volumes: "volumes t = volumes s \<Longrightarrow> keeps_places X s t"
  by (simp add: keeps_places_def)

lemma exec_keeps_places: "keeps_places (set (disturbs r)) s (exec now r s)"
  unfolding keeps_places_def
  by (cases r) (auto simp: AddBackend_def SetBackendState_def CreateVolume_def DeleteVolume_def
      ExtendVolume_def ExportVolume_def UnexportVolume_def SetConfig_def Reset_def
      CreateSnapshot_def DeleteSnapshot_def CloneFromSnapshot_def StartFlatten_def
      StartMigration_def CancelMigration_def Let_def same_place_def
      split: if_splits option.splits)

lemma exec_keeps_backends: "r \<noteq> ResetReq \<Longrightarrow> keeps_backends s (exec now r s)"
  unfolding keeps_backends_def
  by (cases r) (auto simp: AddBackend_def SetBackendState_def CreateVolume_def DeleteVolume_def
      ExtendVolume_def ExportVolume_def UnexportVolume_def SetConfig_def
      CreateSnapshot_def DeleteSnapshot_def CloneFromSnapshot_def StartFlatten_def
      StartMigration_def CancelMigration_def Let_def split: if_splits option.splits)

text \<open>What a task needs of the store, and what it does to it.\<close>

fun task_ok :: "Store \<Rightarrow> task \<Rightarrow> bool" where
  "task_ok s (MigrateTask a pc) \<longleftrightarrow> undisturbed a s \<and> get (backends s) (a_destBackendID a) \<noteq> None"
| "task_ok s (FlattenTask opID vid dur i) \<longleftrightarrow> True"

lemmas progress_defs = flatten_progress_def migration_prepared_def migration_transfer_def
  migration_finishing_def

lemma progress_keeps:
  "flatten_progress now opID dur i s = Some t \<Longrightarrow>
     backends t = backends s \<and> volumes t = volumes s \<and> snapshots t = snapshots s"
  "migration_prepared a s = Some t \<Longrightarrow>
     backends t = backends s \<and> volumes t = volumes s \<and> snapshots t = snapshots s"
  "migration_transfer now a i s = Some t \<Longrightarrow>
     backends t = backends s \<and> volumes t = volumes s \<and> snapshots t = snapshots s"
  "migration_finishing a s = Some t \<Longrightarrow>
     backends t = backends s \<and> volumes t = volumes s \<and> snapshots t = snapshots s"
  by (auto simp: progress_defs Let_def split: option.splits)

lemma unfinished_turn_keeps:
  "turn now t s = (s', Some t') \<Longrightarrow>
     backends s' = backends s \<and> volumes s' = volumes s \<and> snapshots s' = snapshots s"
  by (cases t) (auto dest!: progress_keeps split: if_splits option.splits)

lemma last_turn:
  assumes "turn now t s = (s', None)"
  shows "s' = s \<or> (\<exists>opID vid dur i. t = FlattenTask opID vid dur i \<and> s' = flatten_finish now opID vid s) \<or>
    (\<exists>a pc. t = MigrateTask a pc \<and> s' = migration_complete now a s)"
  using assms by (cases t) (auto split: if_splits option.splits)

lemma turn_consistent:
  assumes "consistent s" "task_ok s t" "turn now t s = (s', next)"
  shows "consistent s'"
proof (cases "next")
  case None
  with last_turn [of now t s s'] assms show ?thesis
    by (auto intro: flatten_finish_consistent migration_complete_consistent)
next
  case (Some t')
  with unfinished_turn_keeps [of now t s s' t'] assms show ?thesis
    by (auto intro: consistent_cong)
qed

lemma turn_keeps_places:
  assumes "turn now t s = (s', next)"
  shows "keeps_places (set (moving [t])) s s'"
proof (cases "next")
  case None
  with last_turn [of now t s s'] assms show ?thesis
    by (auto simp: keeps_places_def moving_def flatten_finish_def migration_complete_def
        same_place_def split: option.splits if_splits)
next
  case (Some t')
  with unfinished_turn_keeps [of now t s s' t'] assms show ?thesis
    by (simp add: keeps_places_same_volumes)
qed

lemma final_sections_keep_backends:
  "keeps_backends s (flatten_finish now opID vid s)" "keeps_backends s (migration_complete now a s)"
  by (auto simp: keeps_backends_def flatten_finish_def migration_complete_def get_adjust_backend
      split: option.split)

lemma turn_keeps_backends:
  assumes "turn now t s = (s', next)"
  shows "keeps_backends s s'"
proof (cases "next")
  case None
  with last_turn [of now t s s'] assms show ?thesis
    using final_sections_keep_backends by (auto simp: keeps_backends_def)
next
  case (Some t')
  with unfinished_turn_keeps [of now t s s' t'] assms show ?thesis
    by (simp add: keeps_backends_def)
qed

lemma task_ok_kept:
  assumes "task_ok s t" "keeps_places X s s'" "keeps_backends s s'" "set (moving [t]) \<inter> X = {}"
  shows "task_ok s' t"
  using assms
  by (cases t) (auto simp: undisturbed_def keeps_places_def keeps_backends_def moving_def
      same_place_def split: option.splits; force)+

definition sys_ok :: "system \<Rightarrow> bool" where
  "sys_ok \<Sigma> \<longleftrightarrow> consistent (store \<Sigma>) \<and> distinct (moving (tasks \<Sigma>)) \<and>
     list_all (task_ok (store \<Sigma>)) (tasks \<Sigma>)"

lemma moving_simps [simp]:
  "moving [] = []"
  "moving (ts @ us) = moving ts @ moving us"
  "moving (MigrateTask a pc # ts) = a_volumeID a # moving ts"
  "moving (FlattenTask opID vid dur i # ts) = moving ts"
  by (simp_all add: moving_def)

lemma moving_member: "t \<in> set ts \<Longrightarrow> set (moving [t]) \<subseteq> set (moving ts)"
  by (auto simp: moving_def)

lemma sys_ok_client:
  assumes "sys_ok \<Sigma>" and "careful \<Sigma> (Client now r)"
  shows "sys_ok \<lparr>store = exec now r (store \<Sigma>), tasks = tasks \<Sigma> @ spawn now r (store \<Sigma>)\<rparr>"
proof -
  let ?s = "store \<Sigma>" and ?ts = "tasks \<Sigma>"
  have old: "list_all (task_ok (exec now r ?s)) ?ts"
  proof (cases "r = ResetReq")
    case True
    with assms(2) show ?thesis by simp
  next
    case False
    have "task_ok (exec now r ?s) t" if t: "t \<in> set ?ts" for t
      using assms t moving_member [OF t]
      by (intro task_ok_kept [OF _ exec_keeps_places exec_keeps_backends [OF False]])
        (auto simp: sys_ok_def list_all_iff)
    then show ?thesis by (simp add: list_all_iff)
  qed
  have new: "list_all (task_ok (exec now r ?s)) (spawn now r ?s) \<and>
      distinct (moving (spawn now r ?s)) \<and> set (moving (spawn now r ?s)) \<subseteq> set (disturbs r)"
    by (cases "(now, r, ?s)" rule: spawn.cases)
      (auto simp: StartMigration_def StartFlatten_def undisturbed_def Let_def split: option.splits if_splits)
  with assms old show ?thesis
    by (auto simp: sys_ok_def intro: exec_consistent)
qed

lemma sys_ok_turn:
  assumes "sys_ok \<Sigma>" and ts: "tasks \<Sigma> = ts @ t # us" and turn: "turn now t (store \<Sigma>) = (s', next)"
  shows "sys_ok \<lparr>store = s', tasks = ts @ (case next of None \<Rightarrow> [] | Some t' \<Rightarrow> [t']) @ us\<rparr>"
proof -
  have t: "task_ok (store \<Sigma>) t" and others: "\<And>u. u \<in> set (ts @ us) \<Longrightarrow> task_ok (store \<Sigma>) u"
    and cons: "consistent (store \<Sigma>)" and dist: "distinct (moving (ts @ t # us))"
    using assms(1) ts by (auto simp: sys_ok_def list_all_iff)
  have apart: "set (moving [u]) \<inter> set (moving [t]) = {}" if "u \<in> set (ts @ us)" for u
    using that dist moving_member [of u ts] moving_member [of u us] by (cases t) auto
  have "task_ok s' u" if "u \<in> set (ts @ us)" for u
    by (rule task_ok_kept [OF others [OF that] turn_keeps_places [OF turn] turn_keeps_backends [OF turn] apart [OF that]])
  moreover have "task_ok s' t' \<and> moving [t'] = moving [t]" if "next = Some t'" for t'
    using turn t unfinished_turn_keeps [of now t "store \<Sigma>" s' t'] that
    by (cases t) (auto simp: undisturbed_def split: if_splits option.splits)
  ultimately show ?thesis
    using turn_consistent [OF cons t turn] dist moving_simps(2) [of "[t]" us]
      moving_simps(2) [of "[the next]" us]
    by (cases "next") (auto simp: sys_ok_def list_all_iff)
qed

interpretation storage: kept_by_steps sys_step careful sys_ok
proof unfold_locales
  fix \<Sigma> l \<Sigma>'
  assume ok: "sys_ok \<Sigma>" and careful: "careful \<Sigma> l" and step: "sys_step \<Sigma> l \<Sigma>'"
  from step show "sys_ok \<Sigma>'"
  proof cases
    case (client now r)
    with sys_ok_client [OF ok] careful show ?thesis by simp
  next
    case (turn ts t us now s' "next")
    with sys_ok_turn [OF ok] show ?thesis by simp
  qed
qed

lemma sys_ok_boot: "sys_ok boot"
  by (simp add: sys_ok_def boot_def consistent_NewStore)

section \<open>Solvency of every run\<close>

text \<open>
  A migration checks the room on its destination when it starts but takes it only when it
  completes. Solvency therefore needs the room to be there still.
\<close>

fun room_at_commit :: "task \<Rightarrow> Store \<Rightarrow> bool" where
  "room_at_commit (FlattenTask opID vid dur i) s \<longleftrightarrow> True"
| "room_at_commit (MigrateTask a pc) s \<longleftrightarrow>
     (case (get (volumes s) (a_volumeID a), get (backends s) (a_destBackendID a)) of
        (Some v, Some b) \<Rightarrow> dest_has_room v b
      | _ \<Rightarrow> True)"

fun prudent :: "system \<Rightarrow> label \<Rightarrow> bool" where
  "prudent \<Sigma> (Client now r) \<longleftrightarrow> careful \<Sigma> (Client now r) \<and> bounded r"
| "prudent \<Sigma> (Turn now i) \<longleftrightarrow> i < length (tasks \<Sigma>) \<and> room_at_commit (tasks \<Sigma> ! i) (store \<Sigma>)"

lemma prudent_careful: "prudent \<Sigma> l \<Longrightarrow> careful \<Sigma> l"
  by (cases l) simp_all

lemma turn_solvent:
  assumes "consistent s" "solvent s" "room_at_commit t s" "turn now t s = (s', next)"
  shows "solvent s'"
proof (cases "next")
  case None
  with last_turn [of now t s s'] assms show ?thesis
    by (auto intro!: solvent_rewriting_ops migration_complete_solvent)
next
  case (Some t')
  with unfinished_turn_keeps [of now t s s' t'] assms show ?thesis
    by (auto intro: solvent_cong)
qed

interpretation solvency: kept_by_steps sys_step prudent "\<lambda>\<Sigma>. sys_ok \<Sigma> \<and> solvent (store \<Sigma>)"
proof unfold_locales
  fix \<Sigma> l \<Sigma>'
  assume ok: "sys_ok \<Sigma> \<and> solvent (store \<Sigma>)" and l: "prudent \<Sigma> l" and step: "sys_step \<Sigma> l \<Sigma>'"
  have cons: "consistent (store \<Sigma>)" using ok by (simp add: sys_ok_def)
  have "solvent (store \<Sigma>')"
    using step
  proof cases
    case (client now r)
    with l ok cons show ?thesis by (simp add: exec_solvent)
  next
    case (turn ts t us now s' "next")
    with l ok cons show ?thesis by (auto intro: turn_solvent)
  qed
  with storage.step_keeps [OF _ prudent_careful [OF l] step] ok show "sys_ok \<Sigma>' \<and> solvent (store \<Sigma>')"
    by simp
qed

lemma solvent_boot: "solvent (store boot)"
  by (simp add: solvent_def boot_def NewStore_def)

section \<open>The background work ends\<close>

fun turns_left :: "task \<Rightarrow> nat" where
  "turns_left (FlattenTask opID vid dur i) = Suc (11 - i)"
| "turns_left (MigrateTask a pc) = Suc (12 - pc)"

definition work_left :: "system \<Rightarrow> nat" where
  "work_left \<Sigma> = sum_list (map turns_left (tasks \<Sigma>))"

fun is_turn :: "label \<Rightarrow> bool" where
  "is_turn (Turn now i) \<longleftrightarrow> True"
| "is_turn (Client now r) \<longleftrightarrow> False"

lemma turn_spends: "turn now t s = (s', Some t') \<Longrightarrow> turns_left t' < turns_left t"
  by (cases t) (auto split: if_splits option.splits)

lemma turns_left_pos: "0 < turns_left t"
  by (cases t) simp_all

interpretation background: spends_budget sys_step "\<lambda>\<Sigma>. is_turn" work_left
proof unfold_locales
  fix \<Sigma> l \<Sigma>'
  assume "is_turn l" and "sys_step \<Sigma> l \<Sigma>'"
  from this(2,1) show "work_left \<Sigma>' < work_left \<Sigma>"
  proof cases
    case (turn ts t us now s' "next")
    then show ?thesis
      using turn_spends turns_left_pos [of t] by (cases "next") (auto simp: work_left_def)
  qed simp
qed

lemma some_turn:
  assumes "tasks \<Sigma> \<noteq> []"
  obtains l \<Sigma>' where "is_turn l" "sys_step \<Sigma> l \<Sigma>'"
proof -
  obtain t ts where "tasks \<Sigma> = [] @ t # ts" using assms by (cases "tasks \<Sigma>") auto
  then show ?thesis
    using that sys_step.turn [of \<Sigma> "[]" t ts 0] by (metis is_turn.simps(1) surj_pair)
qed

lemma settles: "\<exists>ls \<Sigma>'. guarded_run sys_step (\<lambda>\<Sigma>. is_turn) \<Sigma> ls \<Sigma>' \<and> tasks \<Sigma>' = []"
proof (induction "work_left \<Sigma>" arbitrary: \<Sigma> rule: less_induct)
  case less
  show ?case
  proof (cases "tasks \<Sigma> = []")
    case True
    then show ?thesis by (metis guarded_run.stop)
  next
    case False
    then obtain l \<Sigma>1 where step: "is_turn l" "sys_step \<Sigma> l \<Sigma>1" by (rule some_turn)
    from less [OF background.step_spends [OF step]] obtain ls \<Sigma>2 where
      "guarded_run sys_step (\<lambda>\<Sigma>. is_turn) \<Sigma>1 ls \<Sigma>2" "tasks \<Sigma>2 = []" by blast
    with step show ?thesis by (metis guarded_run.go)
  qed
qed

section \<open>Identifiers\<close>

text \<open>
  Operations and migrations are named by one counter, so a name is fresh as long as the counter
  has not wrapped.
\<close>

definition ids_ok :: "Store \<Rightarrow> bool" where
  "ids_ok s \<longleftrightarrow> 0 \<le> opCounter s \<and>
     (\<forall>k. get (operations s) k \<noteq> None \<longrightarrow> (\<exists>n. 0 < n \<and> n \<le> opCounter s \<and> k = op_id n)) \<and>
     (\<forall>k. get (migrations s) k \<noteq> None \<longrightarrow> (\<exists>n. 0 < n \<and> n \<le> opCounter s \<and> k = mig_id n))"

definition can_count :: "system \<Rightarrow> label \<Rightarrow> bool" where
  "can_count \<Sigma> l \<longleftrightarrow> opCounter (store \<Sigma>) < MaxInt64"

lemma id_inj:
  "0 \<le> m \<Longrightarrow> 0 \<le> n \<Longrightarrow> op_id m = op_id n \<longleftrightarrow> m = n"
  "0 \<le> m \<Longrightarrow> 0 \<le> n \<Longrightarrow> mig_id m = mig_id n \<longleftrightarrow> m = n"
  using fmt_0d_inj_nonneg [of m n 3] by (auto simp: op_id_def mig_id_def)

lemma ids_ok_fresh:
  assumes "ids_ok s" and "opCounter s < n"
  shows "get (operations s) (op_id n) = None" and "get (migrations s) (mig_id n) = None"
proof -
  have "\<not> (\<exists>m. 0 < m \<and> m \<le> opCounter s \<and> op_id n = op_id m)"
    "\<not> (\<exists>m. 0 < m \<and> m \<le> opCounter s \<and> mig_id n = mig_id m)"
    using assms id_inj [of n] by (auto simp: ids_ok_def)
  with assms(1) show "get (operations s) (op_id n) = None" "get (migrations s) (mig_id n) = None"
    unfolding ids_ok_def by blast+
qed

lemma ids_ok_step:
  assumes "ids_ok s" and "opCounter s \<le> opCounter t"
    and "\<And>k. get (operations t) k \<noteq> None \<Longrightarrow> get (operations s) k \<noteq> None \<or>
           opCounter s < opCounter t \<and> k = op_id (opCounter t)"
    and "\<And>k. get (migrations t) k \<noteq> None \<Longrightarrow> get (migrations s) k \<noteq> None \<or>
           opCounter s < opCounter t \<and> k = mig_id (opCounter t)"
  shows "ids_ok t"
proof -
  have counter: "0 \<le> opCounter s" using assms(1) by (simp add: ids_ok_def)
  have known: "\<exists>n. 0 < n \<and> n \<le> opCounter t \<and> k = op_id n" if "get (operations s) k \<noteq> None" for k
    using assms(1,2) that unfolding ids_ok_def by (meson order_trans)
  have known': "\<exists>n. 0 < n \<and> n \<le> opCounter t \<and> k = mig_id n" if "get (migrations s) k \<noteq> None" for k
    using assms(1,2) that unfolding ids_ok_def by (meson order_trans)
  have "\<exists>n. 0 < n \<and> n \<le> opCounter t \<and> k = op_id n" if "get (operations t) k \<noteq> None" for k
    using assms(3) [OF that]
  proof
    assume "opCounter s < opCounter t \<and> k = op_id (opCounter t)"
    with counter show ?thesis by (intro exI [of _ "opCounter t"]) simp
  qed (rule known)
  moreover have "\<exists>n. 0 < n \<and> n \<le> opCounter t \<and> k = mig_id n" if "get (migrations t) k \<noteq> None" for k
    using assms(4) [OF that]
  proof
    assume "opCounter s < opCounter t \<and> k = mig_id (opCounter t)"
    with counter show ?thesis by (intro exI [of _ "opCounter t"]) simp
  qed (rule known')
  ultimately show ?thesis using assms(2) counter unfolding ids_ok_def by auto
qed

fun quiet :: "request \<Rightarrow> bool" where
  "quiet (StartFlattenReq vid) \<longleftrightarrow> False"
| "quiet (StartMigrationReq vid bid) \<longleftrightarrow> False"
| "quiet (CancelMigrationReq mid) \<longleftrightarrow> False"
| "quiet ResetReq \<longleftrightarrow> False"
| "quiet _ \<longleftrightarrow> True"

lemma quiet_exec:
  "quiet r \<Longrightarrow> operations (exec now r s) = operations s \<and> migrations (exec now r s) = migrations s \<and>
     opCounter (exec now r s) = opCounter s"
  by (cases r) (auto simp: AddBackend_def SetBackendState_def CreateVolume_def DeleteVolume_def
      ExtendVolume_def ExportVolume_def UnexportVolume_def SetConfig_def
      CreateSnapshot_def DeleteSnapshot_def CloneFromSnapshot_def Let_def split: option.splits)

lemma counted:
  assumes "ids_ok s" and "opCounter s < MaxInt64"
  shows "int64 (opCounter s + 1) = opCounter s + 1"
  using assms by (intro int64_id) (simp_all add: ids_ok_def)

lemma ids_ok_exec:
  assumes "ids_ok s" and "opCounter s < MaxInt64"
  shows "ids_ok (exec now r s)"
proof (cases "quiet r")
  case True
  with quiet_exec [OF True, of now s] show ?thesis by (intro ids_ok_step [OF assms(1)]) simp_all
next
  case False
  have "ids_ok (Reset s)" by (simp add: Reset_def ids_ok_def)
  moreover have "ids_ok (snd (CancelMigration mid s))" for mid
    by (rule ids_ok_step [OF assms(1)])
      (auto simp: CancelMigration_def split: option.splits if_splits)
  moreover have "ids_ok (snd (StartFlatten now vid s))" for vid
    by (rule ids_ok_step [OF assms(1)])
      (auto simp: StartFlatten_def Let_def counted [OF assms] split: option.splits if_splits)
  moreover have "ids_ok (snd (StartMigration now vid bid s))" for vid bid
    by (rule ids_ok_step [OF assms(1)])
      (auto simp: StartMigration_def Let_def counted [OF assms] split: option.splits if_splits)
  ultimately show ?thesis using False by (cases r) simp_all
qed

lemma live_migration_iff:
  "live_migration mid s = Some m \<longleftrightarrow> get (migrations s) mid = Some m \<and> \<not> m_cancelled m"
  by (auto simp: live_migration_def split: option.splits if_splits)

lemma turn_keeps_ids:
  assumes "turn now t s = (s', next)"
  shows "opCounter s' = opCounter s"
    and "get (operations s') k \<noteq> None \<Longrightarrow> get (operations s) k \<noteq> None"
    and "get (migrations s') k \<noteq> None \<Longrightarrow> get (migrations s) k \<noteq> None"
    and "get (migrations s) k = Some m \<Longrightarrow> m_cancelled m \<Longrightarrow> get (migrations s') k = Some m"
  using assms
  by (cases t; fastforce simp: progress_defs flatten_finish_def migration_complete_def put_migration_def
      live_migration_def Let_def split: if_splits option.splits)+

lemma ids_ok_turn: "ids_ok s \<Longrightarrow> turn now t s = (s', next) \<Longrightarrow> ids_ok s'"
  by (rule ids_ok_step [of s]) (simp_all add: turn_keeps_ids(1), (blast dest: turn_keeps_ids(2,3))+)

interpretation naming: kept_by_steps sys_step can_count "\<lambda>\<Sigma>. ids_ok (store \<Sigma>)"
proof unfold_locales
  fix \<Sigma> l \<Sigma>'
  assume inv: "ids_ok (store \<Sigma>)" and l: "can_count \<Sigma> l" and step: "sys_step \<Sigma> l \<Sigma>'"
  from step show "ids_ok (store \<Sigma>')"
    by cases (use inv l in \<open>simp_all add: ids_ok_exec can_count_def ids_ok_turn\<close>)
qed

lemma ids_ok_boot: "ids_ok (store boot)"
  by (simp add: ids_ok_def boot_def NewStore_def)

section \<open>Cancelled migrations\<close>

definition cancelled :: "string \<Rightarrow> Store \<Rightarrow> bool" where
  "cancelled mid s \<longleftrightarrow> (\<exists>m. get (migrations s) mid = Some m \<and> m_cancelled m)"

fun no_reset :: "system \<Rightarrow> label \<Rightarrow> bool" where
  "no_reset \<Sigma> (Client now r) \<longleftrightarrow> r \<noteq> ResetReq \<and> can_count \<Sigma> (Client now r)"
| "no_reset \<Sigma> (Turn now i) \<longleftrightarrow> can_count \<Sigma> (Turn now i)"

lemma cancelled_turn: "cancelled (a_migID a) s \<Longrightarrow> turn now (MigrateTask a pc) s = (s, None)"
  by (auto simp: cancelled_def live_migration_def progress_defs migration_complete_def)

lemma exec_keeps_cancelled:
  assumes "ids_ok s" "opCounter s < MaxInt64" "r \<noteq> ResetReq" "cancelled mid s"
  shows "cancelled mid (exec now r s)"
proof -
  have fresh: "mid \<noteq> mig_id (opCounter s + 1)"
    using ids_ok_fresh(2) [OF assms(1), of "opCounter s + 1"] assms(4) by (auto simp: cancelled_def)
  then have "cancelled mid (snd (StartMigration now vid bid s))" for vid bid
    using assms(4)
    by (auto simp: cancelled_def StartMigration_def Let_def counted [OF assms(1,2)]
        split: option.split)
  moreover have "cancelled mid (snd (StartFlatten now vid s))"
    "cancelled mid (snd (CancelMigration k s))" for vid k
    using assms(4) by (auto simp: cancelled_def StartFlatten_def CancelMigration_def Let_def split: option.split)
  moreover have "quiet r \<Longrightarrow> cancelled mid (exec now r s)"
    using quiet_exec [of r now s] assms(4) by (simp add: cancelled_def)
  ultimately show ?thesis
    using assms(3) by (cases r) simp_all
qed

interpretation cancelling: kept_by_steps sys_step no_reset
  "\<lambda>\<Sigma>. ids_ok (store \<Sigma>) \<and> cancelled mid (store \<Sigma>)"
proof unfold_locales
  fix \<Sigma> l \<Sigma>'
  assume inv: "ids_ok (store \<Sigma>) \<and> cancelled mid (store \<Sigma>)" and l: "no_reset \<Sigma> l"
    and step: "sys_step \<Sigma> l \<Sigma>'"
  from step show "ids_ok (store \<Sigma>') \<and> cancelled mid (store \<Sigma>')"
  proof cases
    case (client now r)
    with inv l show ?thesis by (simp add: ids_ok_exec exec_keeps_cancelled can_count_def)
  next
    case (turn ts t us now s' "next")
    with inv turn_keeps_ids(4) [of now t "store \<Sigma>" s' "next" mid] show ?thesis
      by (auto simp: cancelled_def intro: ids_ok_turn)
  qed
qed

section \<open>A task left alone completes\<close>

fun run_task :: "int list \<Rightarrow> task \<Rightarrow> Store \<Rightarrow> Store \<times> task option" where
  "run_task [] t s = (s, Some t)"
| "run_task (now # ns) t s =
     (case turn now t s of
        (s', None) \<Rightarrow> (s', None)
      | (s', Some t') \<Rightarrow> run_task ns t' s')"

lemma run_task_append:
  "run_task (xs @ ys) t s =
     (case run_task xs t s of (s', None) \<Rightarrow> (s', None) | (s', Some t') \<Rightarrow> run_task ys t' s')"
  by (induction xs arbitrary: t s) (auto split: prod.splits option.splits)

lemma flatten_progress_run:
  assumes "get (operations s) opID \<noteq> None" and "i + length ns \<le> 11"
  shows "\<exists>s'. run_task ns (FlattenTask opID vid dur i) s = (s', Some (FlattenTask opID vid dur (i + length ns))) \<and>
    get (operations s') opID \<noteq> None \<and> volumes s' = volumes s \<and> snapshots s' = snapshots s \<and>
    backends s' = backends s"
  using assms
proof (induction ns arbitrary: i s)
  case (Cons now ns)
  then obtain s1 where s1: "flatten_progress now opID dur (int i) s = Some s1"
    "get (operations s1) opID \<noteq> None"
    by (auto simp: flatten_progress_def Let_def)
  with Cons.IH [of s1 "i + 1"] Cons.prems progress_keeps(1) [OF s1(1)] show ?case by auto
qed simp

lemma live_keeps:
  "live_migration (a_migID a) s \<noteq> None \<Longrightarrow> \<exists>t. migration_prepared a s = Some t \<and> live_migration (a_migID a) t \<noteq> None"
  "live_migration (a_migID a) s \<noteq> None \<Longrightarrow> \<exists>t. migration_transfer now a i s = Some t \<and> live_migration (a_migID a) t \<noteq> None"
  "live_migration (a_migID a) s \<noteq> None \<Longrightarrow> \<exists>t. migration_finishing a s = Some t \<and> live_migration (a_migID a) t \<noteq> None"
  by (auto simp: progress_defs live_migration_def Let_def put_migration_def split: option.splits if_splits)

lemma migration_progress_run:
  assumes "live_migration (a_migID a) s \<noteq> None" and "pc + length ns \<le> 12"
  shows "\<exists>s'. run_task ns (MigrateTask a pc) s = (s', Some (MigrateTask a (pc + length ns))) \<and>
    live_migration (a_migID a) s' \<noteq> None \<and> volumes s' = volumes s \<and> snapshots s' = snapshots s \<and>
    backends s' = backends s"
  using assms
proof (induction ns arbitrary: pc s)
  case (Cons now ns)
  have "\<exists>s1. turn now (MigrateTask a pc) s = (s1, Some (MigrateTask a (pc + 1))) \<and>
      live_migration (a_migID a) s1 \<noteq> None"
    using live_keeps(1) [OF Cons.prems(1)] live_keeps(2) [OF Cons.prems(1), of now "int pc"]
      live_keeps(3) [OF Cons.prems(1)] Cons.prems(2)
    by (cases "pc = 0"; cases "pc \<le> 10") auto
  then obtain s1 where "turn now (MigrateTask a pc) s = (s1, Some (MigrateTask a (pc + 1)))"
    "live_migration (a_migID a) s1 \<noteq> None" by blast
  with Cons.IH [of s1 "pc + 1"] Cons.prems(2) unfinished_turn_keeps [of now "MigrateTask a pc" s s1]
  show ?case by (auto simp del: turn.simps)
qed simp

lemma flatten_left_alone:
  assumes "get (operations s) opID \<noteq> None" and "get (volumes s) vid = Some v" and "length ns = 10"
  shows "\<exists>s'. run_task (ns @ [now]) (FlattenTask opID vid dur 1) s = (s', None) \<and>
    (\<exists>op. get (operations s') opID = Some op \<and> o_State op = OperationCompleted \<and> o_ProgressPercent op = 100) \<and>
    volumes s' = fmupd vid (v\<lparr>v_ConsumedGB := v_SizeGB v, v_ParentSnapshotID := ''''\<rparr>) (volumes s) \<and>
    snapshots s' = drop_clone (v_ParentSnapshotID v) vid (snapshots s) \<and>
    backends s' = backends s"
  using flatten_progress_run [OF assms(1), of 1 ns vid dur] assms
  by (auto simp: run_task_append flatten_finish_def)

lemma migration_left_alone:
  assumes "live_migration (a_migID a) s \<noteq> None" and "get (volumes s) (a_volumeID a) = Some v"
    and "length ns = 12"
  shows "\<exists>s'. run_task (ns @ [now]) (MigrateTask a 0) s = (s', None) \<and>
    (\<exists>m. get (migrations s') (a_migID a) = Some m \<and> m_State m = OperationCompleted \<and>
       m_ProgressPercent m = 100 \<and> m_BytesTransferred m = a_totalBytes a) \<and>
    volumes s' = fmupd (a_volumeID a) (v\<lparr>v_BackendID := a_destBackendID a\<rparr>) (volumes s) \<and>
    snapshots s' = snapshots s \<and>
    backends s' = adjust_backend (charge (a_thinProvisioned a) (a_sizeGB a)) (a_destBackendID a)
      (adjust_backend (release (a_thinProvisioned a) (a_sizeGB a)) (a_srcBackendID a) (backends s))"
  using migration_progress_run [OF assms(1), of 0 ns] assms
  by (auto simp: run_task_append migration_complete_def put_migration_def)

section \<open>Playing a run\<close>

text \<open>The step relation as a function, so that concrete runs can be evaluated.\<close>

fun do_label :: "label \<Rightarrow> system \<Rightarrow> system option" where
  "do_label (Client now r) \<Sigma> =
     Some \<lparr>store = exec now r (store \<Sigma>), tasks = tasks \<Sigma> @ spawn now r (store \<Sigma>)\<rparr>"
| "do_label (Turn now i) \<Sigma> =
     (if i < length (tasks \<Sigma>) then
        (case turn now (tasks \<Sigma> ! i) (store \<Sigma>) of
           (s', next) \<Rightarrow> Some \<lparr>store = s', tasks = take i (tasks \<Sigma>) @
             (case next of None \<Rightarrow> [] | Some t' \<Rightarrow> [t']) @ drop (Suc i) (tasks \<Sigma>)\<rparr>)
      else None)"

lemma sys_step_iff: "sys_step \<Sigma> l \<Sigma>' \<longleftrightarrow> do_label l \<Sigma> = Some \<Sigma>'"
proof
  assume "sys_step \<Sigma> l \<Sigma>'"
  then show "do_label l \<Sigma> = Some \<Sigma>'" by cases simp_all
next
  assume a: "do_label l \<Sigma> = Some \<Sigma>'"
  show "sys_step \<Sigma> l \<Sigma>'"
  proof (cases l)
    case (Client now r)
    with a show ?thesis by (auto intro: sys_step.client)
  next
    case (Turn now i)
    with a have i: "i < length (tasks \<Sigma>)" by (auto split: if_splits)
    obtain s' "next" where t: "turn now (tasks \<Sigma> ! i) (store \<Sigma>) = (s', next)" by fastforce
    show ?thesis
      using sys_step.turn [OF id_take_nth_drop [OF i] t] a Turn i t by simp
  qed
qed

interpretation player: playable sys_step do_label
  by unfold_locales (rule sys_step_iff)

text \<open>A small scenario: two backends, and a thick volume of 10 GB on the first.\<close>

definition plain_backend :: "string \<Rightarrow> int \<Rightarrow> Backend" where
  "plain_backend bid cap = \<lparr>b_BackendID = bid, b_TotalCapacityGB = cap, b_UsedCapacityGB = 0,
     b_AllocatedCapacityGB = 0, b_TotalIOPS = 1000, b_UsedIOPSEstimate = 0, b_Capabilities = [],
     b_State = ''active'', b_OverprovisionRatio = Fin 1\<rparr>"

definition plain_volume :: "string \<Rightarrow> string \<Rightarrow> int \<Rightarrow> Volume" where
  "plain_volume vid bid sz = \<lparr>v_VolumeID = vid, v_BackendID = bid, v_SizeGB = sz,
     v_ConsumedGB = 0, v_ThinProvisioned = False, v_State = '''', v_QoSPolicy = None,
     v_Metadata = fmempty, v_CreatedAt = 0, v_ExportInfo = None, v_Snapshots = [],
     v_ParentSnapshotID = ''''\<rparr>"

definition setup_labels :: "label list" where
  "setup_labels =
     [Client 0 (AddBackendReq (plain_backend ''b1'' 100)), Client 0 (AddBackendReq (plain_backend ''b2'' 100)),
      Client 0 (CreateVolumeReq (plain_volume ''v1'' ''b1'' 10))]"

definition turns :: "nat \<Rightarrow> label list" where
  "turns n = replicate n (Turn 0 0)"

lemmas scenario = plain_backend_def plain_volume_def setup_labels_def turns_def boot_def NewStore_def
  default_config_def AddBackend_def CreateVolume_def ExtendVolume_def DeleteVolume_def StartMigration_def
  StartFlatten_def CancelMigration_def dest_has_room_def migration_duration_def reserve_def release_def
  charge_def progress_defs migration_complete_def live_migration_def put_migration_def adjust_backend_def
  moving_def Let_def

end
