(* ===== verification/Storage_Theorems.thy ===== *)
theory Storage_Theorems
  imports Storage_Runs
begin

text \<open>
  What storage-sim promises, stated over its operations and its runs, each with an instance; and
  the places where the code falls short of it.
\<close>

section \<open>Every run\<close>





text \<open>C17: The background work always comes to an end: from every state some sequence of turns
  leaves no task running, and no sequence of turns without new requests is longer than the
  number of turns the running tasks have left.\<close>

theorem background_work_ends:
  "(\<exists>ls \<Sigma>'. guarded_run sys_step (\<lambda>\<Sigma>. is_turn) \<Sigma> ls \<Sigma>' \<and> tasks \<Sigma>' = []) \<and>
   (\<forall>ls \<Sigma>'. guarded_run sys_step (\<lambda>\<Sigma>. is_turn) \<Sigma> ls \<Sigma>' \<longrightarrow> length ls \<le> work_left \<Sigma>)"
  using settles [of \<Sigma>] background.run_length by (auto dest: add_leD1)

theorem background_work_ends_witness:
  "\<not> (\<exists>\<Sigma>'. guarded_run sys_step (\<lambda>\<Sigma>. is_turn) \<lparr>store = NewStore, tasks = [FlattenTask ''op-001'' ''v1'' 1000 1]\<rparr>
       (turns 12) \<Sigma>')"
  using background_work_ends [of "\<lparr>store = NewStore, tasks = [FlattenTask ''op-001'' ''v1'' 1000 1]\<rparr>"]
  by (fastforce simp: work_left_def turns_def)

definition moving_args :: migration_args where
  "moving_args = \<lparr>a_migID = mig_id 1, a_volumeID = ''v1'', a_srcBackendID = ''b1'',
     a_destBackendID = ''b2'', a_sizeGB = 10, a_thinProvisioned = False,
     a_totalBytes = 10737418240, a_durationMs = 2000\<rparr>"

definition start_labels :: "label list" where
  "start_labels = setup_labels @ [Client 0 (StartMigrationReq ''v1'' ''b2'')]"


text \<open>Within 2^63 requests, the identifier given to a new flatten operation or a new migration
  is not one that the store already holds.\<close>

theorem operation_ids_fresh:
  assumes "guarded_run sys_step can_count boot ls \<Sigma>" and "opCounter (store \<Sigma>) < 2 ^ 63 - 1"
  shows "(fst (StartFlatten now vid (store \<Sigma>)) = Inr (op, dur) \<longrightarrow>
           get (operations (store \<Sigma>)) (o_OperationID op) = None) \<and>
         (fst (StartMigration now vid bid (store \<Sigma>)) = Inr (mig, a) \<longrightarrow>
           get (migrations (store \<Sigma>)) (m_MigrationID mig) = None)"
proof -
  have ids: "ids_ok (store \<Sigma>)" by (rule naming.run_keeps [OF assms(1) ids_ok_boot])
  have c: "int64 (opCounter (store \<Sigma>) + 1) = opCounter (store \<Sigma>) + 1"
    using counted [OF ids] assms(2) by simp
  note fresh = ids_ok_fresh [OF ids, of "opCounter (store \<Sigma>) + 1"]
  then show ?thesis
    by (auto simp: StartFlatten_def StartMigration_def Let_def c split: option.splits if_splits)
qed

theorem operation_ids_fresh_witness:
  "\<exists>mig a. fst (StartMigration 5 ''v1'' ''b2'' (store (the (play do_label can_count start_labels boot)))) = Inr (mig, a) \<and>
     get (migrations (store (the (play do_label can_count start_labels boot)))) (m_MigrationID mig) = None"
proof -
  let ?\<Sigma> = "the (play do_label can_count start_labels boot)"
  have run: "guarded_run sys_step can_count boot start_labels ?\<Sigma>"
    by (rule player.play_SomeI) (simp add: start_labels_def scenario can_count_def int_wrap)
  have counter: "opCounter (store ?\<Sigma>) < 2 ^ 63 - 1"
    by (simp add: start_labels_def scenario can_count_def int_wrap)
  have "\<exists>mig a. fst (StartMigration 5 ''v1'' ''b2'' (store ?\<Sigma>)) = Inr (mig, a)"
    by (simp add: start_labels_def scenario can_count_def int_wrap)
  with operation_ids_fresh [OF run counter] show ?thesis by blast
qed

section \<open>Background operations\<close>


definition cloned_store :: Store where
  "cloned_store = NewStore\<lparr>
     backends := fmupd ''b1'' (plain_backend ''b1'' 100) fmempty,
     volumes := fmupd ''c1'' ((plain_volume ''c1'' ''b1'' 10)\<lparr>v_ParentSnapshotID := ''s1''\<rparr>) fmempty,
     snapshots := fmupd ''s1'' \<lparr>s_SnapshotID = ''s1'', s_VolumeID = ''v1'', s_SizeGB = 10,
       s_ConsumedGB = 0, s_State = ''available'', s_ChildClones = [''c1''], s_Metadata = fmempty,
       s_CreatedAt = 0\<rparr> fmempty\<rparr>"


text \<open>C8: A migration that is left alone completes: after thirteen turns it is completed with every
  byte transferred, the volume is on the destination backend, and the store is as consistent as
  before.\<close>

theorem migration_completes:
  assumes "fst (StartMigration t0 vid bid s) = Inr (mig, a)" and "length ns = 12" and "consistent s"
  shows "\<exists>s' v mig'. run_task (ns @ [now]) (MigrateTask a 0) (snd (StartMigration t0 vid bid s)) = (s', None) \<and>
    get (migrations s') (m_MigrationID mig) = Some mig' \<and>
    m_State mig' = OperationCompleted \<and> m_ProgressPercent mig' = 100 \<and>
    get (volumes s) vid = Some v \<and> m_BytesTransferred mig' = int64 (v_SizeGB v * 2 ^ 30) \<and>
    get (volumes s') vid = Some (v\<lparr>v_BackendID := bid\<rparr>) \<and> consistent s'"
proof -
  let ?s1 = "snd (StartMigration t0 vid bid s)"
  obtain v where v: "get (volumes s) vid = Some v"
    and a: "a_migID a = m_MigrationID mig" "a_volumeID a = vid" "a_destBackendID a = bid"
      "a_totalBytes a = int64 (v_SizeGB v * 2 ^ 30)"
    and s1: "live_migration (a_migID a) ?s1 \<noteq> None" "volumes ?s1 = volumes s"
      "snapshots ?s1 = snapshots s" "backends ?s1 = backends s" "undisturbed a ?s1"
      "get (backends ?s1) bid \<noteq> None"
    using assms(1)
    by (auto simp: StartMigration_def Let_def live_migration_def undisturbed_def mult.assoc
        split: option.splits if_splits)
  from migration_left_alone [OF s1(1), of v ns now] v a s1 assms(2)
  obtain s' where s': "run_task (ns @ [now]) (MigrateTask a 0) ?s1 = (s', None)"
    "\<exists>m. get (migrations s') (m_MigrationID mig) = Some m \<and> m_State m = OperationCompleted \<and>
       m_ProgressPercent m = 100 \<and> m_BytesTransferred m = int64 (v_SizeGB v * 2 ^ 30)"
    "volumes s' = fmupd vid (v\<lparr>v_BackendID := bid\<rparr>) (volumes s)" "snapshots s' = snapshots s"
    "backends s' = backends (migration_complete now a ?s1)"
    by (auto simp: migration_complete_def)
  have "consistent ?s1" by (rule consistent_cong [OF assms(3)]) (use s1 in simp_all)
  then have "consistent (migration_complete now a ?s1)"
    using migration_complete_consistent s1 a by simp
  then have "consistent s'"
    by (rule consistent_cong) (use s' s1 v a in \<open>auto simp: migration_complete_def\<close>)
  with s' v show ?thesis by auto
qed

definition setup_store :: Store where
  "setup_store = store (the (play do_label careful setup_labels boot))"

theorem migration_completes_witness:
  "\<exists>mig a s' v. fst (StartMigration 3 ''v1'' ''b2'' setup_store) = Inr (mig, a) \<and>
    run_task (replicate 13 9) (MigrateTask a 0) (snd (StartMigration 3 ''v1'' ''b2'' setup_store)) = (s', None) \<and>
    get (volumes s') ''v1'' = Some v \<and> v_BackendID v = ''b2'' \<and> consistent s'"
proof -
  obtain mig a where start: "fst (StartMigration 3 ''v1'' ''b2'' setup_store) = Inr (mig, a)"
    by (simp add: setup_store_def scenario int_wrap)
  have ok: "consistent setup_store"
  proof -
    have "guarded_run sys_step careful boot setup_labels (the (play do_label careful setup_labels boot))"
      by (rule player.play_SomeI) (simp add: scenario int_wrap)
    from storage.run_keeps [OF this sys_ok_boot] show ?thesis
      by (simp add: setup_store_def sys_ok_def)
  qed
  have "replicate 13 (9::int) = replicate 12 9 @ [9]" by (simp add: numeral_eq_Suc)
  with migration_completes [OF start _ ok, of "replicate 12 9" 9] start show ?thesis by fastforce
qed

text \<open>The restriction on volumes under migration is needed: if a volume is extended while it is
  being moved, the migration still moves the size it had at its start, and the counters of both
  backends are wrong afterwards (the source keeps 10 GB in use for no volume).\<close>

theorem extend_during_migration:
  "\<exists>\<Sigma> b. play do_label (\<lambda>_ _. True) (start_labels @ [Client 0 (ExtendVolumeReq ''v1'' 20)] @ turns 13) boot = Some \<Sigma> \<and>
     get (backends (store \<Sigma>)) ''b1'' = Some b \<and> b_UsedCapacityGB b = 10 \<and>
     used_on ''b1'' (volumes (store \<Sigma>)) = 0 \<and> \<not> accounting (store \<Sigma>)"
proof -
  have "\<exists>\<Sigma> b. play do_label (\<lambda>_ _. True) (start_labels @ [Client 0 (ExtendVolumeReq ''v1'' 20)] @ turns 13) boot = Some \<Sigma> \<and>
     get (backends (store \<Sigma>)) ''b1'' = Some b \<and> b_UsedCapacityGB b = 10 \<and>
     used_on ''b1'' (volumes (store \<Sigma>)) = 0"
    by (simp add: start_labels_def scenario int_wrap numeral_eq_Suc used_on_def sum_if_fmupd thick_on_def)
  then show ?thesis by (fastforce simp: accounting_def fmpred_iff)
qed

text \<open>Room on the destination is checked when a migration starts and taken when it completes, so
  two migrations that each fit overfill a backend of 100 GB with 120 GB of thick volumes.\<close>

theorem overlapping_migrations_overfill:
  "\<exists>\<Sigma> b. play do_label careful
       ([Client 0 (AddBackendReq (plain_backend ''b1'' 200)), Client 0 (AddBackendReq (plain_backend ''b2'' 100)),
         Client 0 (CreateVolumeReq (plain_volume ''v1'' ''b1'' 60)), Client 0 (CreateVolumeReq (plain_volume ''v2'' ''b1'' 60)),
         Client 0 (StartMigrationReq ''v1'' ''b2''), Client 0 (StartMigrationReq ''v2'' ''b2'')] @ turns 26) boot = Some \<Sigma> \<and>
     get (backends (store \<Sigma>)) ''b2'' = Some b \<and> b_UsedCapacityGB b = 120 \<and> b_TotalCapacityGB b = 100"
  by (simp add: scenario int_wrap numeral_eq_Suc id_inj)

section \<open>Volumes and snapshots\<close>

lemma charge_back:
  assumes "int64 (b_AllocatedCapacityGB b) = b_AllocatedCapacityGB b"
    and "int64 (b_UsedCapacityGB b) = b_UsedCapacityGB b"
  shows "charge thin (- n) (charge thin n b) = b"
  using assms by (simp add: charge_def Let_def)

text \<open>Creating a volume and deleting it again restores the store exactly, capacity counters
  included.\<close>

theorem create_delete_roundtrip:
  assumes "accounting s" and "v_Snapshots v = []" and "fst (CreateVolume now v s) = Inr stored"
  shows "DeleteVolume (v_VolumeID v) (snd (CreateVolume now v s)) = (Inr (), s)"
proof -
  from assms(3) obtain b where b: "get (backends s) (v_BackendID v) = Some b"
    and ok: "get (volumes s) (v_VolumeID v) = None"
      "stored = v\<lparr>v_State := VolumeAvailable, v_ConsumedGB := 0, v_CreatedAt := now\<rparr>"
    and eq: "snd (CreateVolume now v s) =
      s\<lparr>backends := adjust_backend (charge (v_ThinProvisioned v) (v_SizeGB v)) (v_BackendID v) (backends s),
        volumes := fmupd (v_VolumeID v) stored (volumes s)\<rparr>"
    by (rule CreateVolume_ok) blast
  have "int64 (b_AllocatedCapacityGB b) = b_AllocatedCapacityGB b" "int64 (b_UsedCapacityGB b) = b_UsedCapacityGB b"
    using assms(1) b by (auto simp: accounting_def fmpred_iff)
  then show ?thesis
    unfolding eq using ok assms(2) b
    by (simp add: DeleteVolume_def adjust_backend_def release_eq_charge charge_back
        fmdrop_absent fmupd_same)
qed

theorem create_delete_roundtrip_witness:
  "DeleteVolume ''v2'' (snd (CreateVolume 4 (plain_volume ''v2'' ''b2'' 30) setup_store)) = (Inr (), setup_store)"
proof -
  have ok: "accounting setup_store"
    by (simp add: setup_store_def scenario int_wrap accounting_def fmpred_iff allocated_on_def
        used_on_def sum_if_fmupd thick_on_def on_backend_def)
  obtain st where "fst (CreateVolume 4 (plain_volume ''v2'' ''b2'' 30) setup_store) = Inr st"
    by (simp add: setup_store_def scenario int_wrap)
  from create_delete_roundtrip [OF ok _ this] show ?thesis by (simp add: plain_volume_def)
qed

text \<open>Exporting a volume succeeds exactly when it exists and is not exported, and unexporting it
  again restores the store exactly.\<close>

theorem export_unexport_roundtrip:
  assumes "exports_ok s" and "get (volumes s) vid = Some v"
  shows "fst (ExportVolume vid h p s) = Inl ErrVolumeAlreadyExported \<and> v_ExportInfo v \<noteq> None \<or>
    v_ExportInfo v = None \<and>
    (\<exists>v'. fst (ExportVolume vid h p s) = Inr v' \<and> v_ExportInfo v' = Some \<lparr>e_HostID = h, e_Protocol = p\<rparr>) \<and>
    UnexportVolume vid (snd (ExportVolume vid h p s)) = (Inr v, s)"
proof -
  have "export_ok v" using assms by (auto simp: exports_ok_def)
  then have v: "v_ExportInfo v = None \<Longrightarrow> v\<lparr>v_State := VolumeAvailable, v_ExportInfo := None\<rparr> = v"
    by (cases v) (simp add: export_ok_def)
  with assms(2) \<open>export_ok v\<close> show ?thesis
    by (cases "v_ExportInfo v")
      (auto simp: ExportVolume_def UnexportVolume_def Let_def export_ok_def fmupd_same)
qed

theorem export_unexport_roundtrip_witness:
  "\<exists>v. get (volumes setup_store) ''v1'' = Some v \<and>
     UnexportVolume ''v1'' (snd (ExportVolume ''v1'' ''host-1'' ''iscsi'' setup_store)) = (Inr v, setup_store)"
proof -
  have ok: "exports_ok setup_store"
    by (simp add: setup_store_def scenario int_wrap exports_ok_def export_ok_def fmpred_iff)
  obtain v where v: "get (volumes setup_store) ''v1'' = Some v" "v_ExportInfo v = None"
    by (simp add: setup_store_def scenario int_wrap)
  from export_unexport_roundtrip [OF ok v(1), of "''host-1''" "''iscsi''"] v show ?thesis by auto
qed

text \<open>A clone that is deleted stays listed among the clones of its snapshot: deleting the clone
  succeeds, and from then on deleting the snapshot is refused for having clones, although no
  volume descends from it.\<close>

theorem deleted_clone_pins_snapshot:
  assumes "fst (CloneFromSnapshot now sid vid md s) = Inr clone"
  shows "fst (DeleteVolume vid (snd (CloneFromSnapshot now sid vid md s))) = Inr () \<and>
    fst (DeleteSnapshot sid (snd (DeleteVolume vid (snd (CloneFromSnapshot now sid vid md s))))) =
      Inl ErrSnapshotHasClones"
proof -
  from assms obtain snap where ok: "v_Snapshots clone = []" "v_State clone = VolumeAvailable"
    and eq: "snd (CloneFromSnapshot now sid vid md s) =
      s\<lparr>backends := adjust_backend (charge True (s_SizeGB snap)) (v_BackendID clone) (backends s),
        volumes := fmupd vid clone (volumes s),
        snapshots := fmupd sid (snap\<lparr>s_ChildClones := s_ChildClones snap @ [vid]\<rparr>) (snapshots s)\<rparr>"
    by (rule CloneFromSnapshot_ok) blast
  then show ?thesis by (auto simp: DeleteVolume_def DeleteSnapshot_def Let_def split: option.split)
qed

definition snap_store :: Store where
  "snap_store = snd (CreateSnapshot 1 ''v1'' ''s1'' fmempty setup_store)"

lemma maxAlloc_plain: "maxAlloc (charge False n (plain_backend bid 100)) = 100"
  by (simp add: maxAlloc_def charge_def plain_backend_def Let_def scale_by_one)

theorem deleted_clone_pins_snapshot_witness:
  "fst (DeleteSnapshot ''s1'' (snd (DeleteVolume ''c1''
     (snd (CloneFromSnapshot 2 ''s1'' ''c1'' fmempty snap_store))))) = Inl ErrSnapshotHasClones"
proof -
  obtain c where "fst (CloneFromSnapshot 2 ''s1'' ''c1'' fmempty snap_store) = Inr c"
    by (simp add: snap_store_def setup_store_def scenario CreateSnapshot_def CloneFromSnapshot_def
        int_wrap maxAlloc_def scale_by_one)
  from deleted_clone_pins_snapshot [OF this] show ?thesis by simp
qed

text \<open>The capacity check adds in 64-bit integers: on an active backend with anything in use, a
  thick volume of 2^63 - 1 GB is accepted, and the used capacity becomes negative.\<close>

theorem huge_volume_accepted:
  assumes "get (backends s) (v_BackendID v) = Some b" and "b_State b = BackendActive"
    and "0 < b_UsedCapacityGB b" and "b_UsedCapacityGB b \<le> 2 ^ 63 - 1" and "0 \<le> b_TotalCapacityGB b"
    and "v_VolumeID v \<noteq> ''''" and "get (volumes s) (v_VolumeID v) = None"
    and "\<not> v_ThinProvisioned v" and "v_SizeGB v = 2 ^ 63 - 1"
  shows "\<exists>st b'. fst (CreateVolume now v s) = Inr st \<and>
    get (backends (snd (CreateVolume now v s))) (v_BackendID v) = Some b' \<and> b_UsedCapacityGB b' < 0"
proof -
  have "int64 (b_UsedCapacityGB b + (2 ^ 63 - 1)) = int64 (b_UsedCapacityGB b + (2 ^ 63 - 1) - 2 ^ 64)"
    by (rule int64_wrap [symmetric])
  also have "\<dots> = b_UsedCapacityGB b + (2 ^ 63 - 1) - 2 ^ 64"
    using assms(3,4) by (intro int64_id) simp_all
  also have "\<dots> < 0" using assms(4) by simp
  finally show ?thesis
    using assms by (simp add: CreateVolume_def reserve_def Let_def)
qed

theorem huge_volume_accepted_witness:
  "\<exists>st b'. fst (CreateVolume 0 (plain_volume ''v9'' ''b1'' 9223372036854775807) setup_store) = Inr st \<and>
    get (backends (snd (CreateVolume 0 (plain_volume ''v9'' ''b1'' 9223372036854775807) setup_store))) ''b1'' = Some b' \<and>
    b_UsedCapacityGB b' < 0"
proof -
  obtain b where "get (backends setup_store) ''b1'' = Some b" "b_State b = BackendActive"
    "0 < b_UsedCapacityGB b" "b_UsedCapacityGB b \<le> 2 ^ 63 - 1" "0 \<le> b_TotalCapacityGB b"
    and "get (volumes setup_store) ''v9'' = None"
    by (simp add: setup_store_def scenario int_wrap)
  with huge_volume_accepted [of setup_store "plain_volume ''v9'' ''b1'' 9223372036854775807" b 0] show ?thesis
    by (simp add: plain_volume_def)
qed

end
