(* ===== verification/Storage_API.thy ===== *)
theory Storage_API
  imports Storage_Runs
begin

text \<open>
  The HTTP interface of storage-sim: \<^verbatim>\<open>storage-sim/internal/handler/storage.go\<close> and
  \<^verbatim>\<open>storage-sim/internal/sim/management.go\<close>. A handler takes what it reads of the request (path
  values, the \<^verbatim>\<open>X-Backend-Id\<close> header, the query, and the JSON body, \<open>None\<close> when it does
  not decode) and gives a status with a body, and the new store. A body is the value handed to
  the JSON encoder; of an error message the model keeps what it is about.
\<close>

section \<open>Requests and responses\<close>

record createVolumeRequest =
  cv_VolumeID :: string
  cv_SizeGB :: int
  cv_ThinProvisioned :: bool
  cv_QoSPolicy :: "QoSPolicy option"
  cv_Metadata :: "(string, string) gomap"

record exportVolumeRequest =
  ev_HostID :: string
  ev_Protocol :: string

record createSnapshotRequest =
  cs_SnapshotID :: string
  cs_Metadata :: "(string, string) gomap"

record cloneFromSnapshotRequest =
  cf_VolumeID :: string
  cf_Metadata :: "(string, string) gomap"

record startMigrationRequest =
  sm_VolumeID :: string
  sm_DestBackendURL :: string
  sm_DestBackendID :: string

record addBackendRequest =
  ab_BackendID :: string
  ab_TotalCapacityGB :: int
  ab_TotalIOPS :: int
  ab_Capabilities :: "string list"
  ab_OverprovisionRatio :: f64

datatype message =
    HeaderRequired
  | InvalidBody
  | BackendNotFoundMsg string
  | StoreError store_error

datatype body =
    NoBody
  | ErrorBody message
  | BackendBody Backend
  | BackendsBody "Backend list"
  | HealthBody int int
  | VolumeBody Volume
  | VolumesBody "Volume list"
  | SnapshotBody Snapshot
  | SnapshotsBody "Snapshot list"
  | FlattenBody string string int int
  | OperationBody Operation
  | MigrationBody Migration
  | ConfigBody SimConfig
  | StatsBody Stats
  | ResetBody

record response =
  status :: nat
  resp_body :: body

definition writeJSON :: "nat \<Rightarrow> body \<Rightarrow> response" where
  "writeJSON st b = \<lparr>status = st, resp_body = b\<rparr>"

definition writeError :: "nat \<Rightarrow> message \<Rightarrow> response" where
  "writeError st m = \<lparr>status = st, resp_body = ErrorBody m\<rparr>"

definition noContent :: response where
  "noContent = \<lparr>status = 204, resp_body = NoBody\<rparr>"

text \<open>
  Every error of the store is a sentinel, wrapped at most in a message, except the one of
  \<^verbatim>\<open>CancelMigration\<close> that wraps nothing: walking the chain of \<^verbatim>\<open>Unwrap\<close>s finds the
  target exactly when it is that sentinel.
\<close>

definition containsErr :: "store_error \<Rightarrow> store_error \<Rightarrow> bool" where
  "containsErr err target \<longleftrightarrow> err = target"

definition errorToHTTPStatus :: "store_error \<Rightarrow> nat" where
  "errorToHTTPStatus err =
     (if containsErr err ErrVolumeNotFound \<or> containsErr err ErrBackendNotFound then 404
      else if containsErr err ErrSnapshotNotFound \<or> containsErr err ErrOperationNotFound \<or>
              containsErr err ErrMigrationNotFound then 404
      else if containsErr err ErrVolumeInUse then 406
      else if containsErr err ErrVolumeHasSnapshots then 409
      else if containsErr err ErrSnapshotHasClones then 409
      else if containsErr err ErrVolumeAlreadyExported \<or> containsErr err ErrVolumeNotExported then 409
      else if containsErr err ErrShrinkNotAllowed \<or> containsErr err ErrVolumeNoParent then 400
      else if containsErr err ErrEmptySnapshotID then 400
      else if containsErr err ErrInsufficientCapacity then 507
      else if containsErr err ErrBackendNotActive then 503
      else if containsErr err ErrVolumeExists \<or> containsErr err ErrBackendExists then 409
      else if containsErr err ErrSnapshotExists then 409
      else 500)"

section \<open>The storage API\<close>

definition handleBackendInfo :: "string \<Rightarrow> Store \<Rightarrow> response" where
  "handleBackendInfo backendID s =
     (if backendID = '''' then writeError 400 HeaderRequired
      else case GetBackend backendID s of
        Inl _ \<Rightarrow> writeError 404 (BackendNotFoundMsg backendID)
      | Inr b \<Rightarrow> writeJSON 200 (BackendBody b))"

definition handleBackendHealth :: "int \<Rightarrow> string \<Rightarrow> Store \<Rightarrow> response" where
  "handleBackendHealth now backendID s =
     (if backendID = '''' then writeError 400 HeaderRequired
      else case GetBackend backendID s of
        Inl _ \<Rightarrow> writeError 404 (BackendNotFoundMsg backendID)
      | Inr _ \<Rightarrow> writeJSON 200 (HealthBody (c_DefaultLatencyMs (GetConfig s)) now))"

definition handleCreateVolume ::
    "int \<Rightarrow> string \<Rightarrow> createVolumeRequest option \<Rightarrow> Store \<Rightarrow> response \<times> Store" where
  "handleCreateVolume now backendID req s =
     (if backendID = '''' then (writeError 400 HeaderRequired, s)
      else case req of
        None \<Rightarrow> (writeError 400 InvalidBody, s)
      | Some q \<Rightarrow>
          let vol = \<lparr>v_VolumeID = cv_VolumeID q, v_BackendID = backendID, v_SizeGB = cv_SizeGB q,
                     v_ConsumedGB = 0, v_ThinProvisioned = cv_ThinProvisioned q, v_State = '''',
                     v_QoSPolicy = cv_QoSPolicy q, v_Metadata = cv_Metadata q, v_CreatedAt = 0,
                     v_ExportInfo = None, v_Snapshots = [], v_ParentSnapshotID = ''''\<rparr>
          in case CreateVolume now vol s of
               (Inl err, s') \<Rightarrow> (writeError (errorToHTTPStatus err) (StoreError err), s')
             | (Inr created, s') \<Rightarrow> (writeJSON 201 (VolumeBody created), s'))"

definition handleGetVolume :: "string \<Rightarrow> Store \<Rightarrow> response" where
  "handleGetVolume volumeID s =
     (case GetVolume volumeID s of
        Inl err \<Rightarrow> writeError 404 (StoreError err)
      | Inr v \<Rightarrow> writeJSON 200 (VolumeBody v))"

definition handleListVolumes :: "string list \<Rightarrow> string \<Rightarrow> string \<Rightarrow> Store \<Rightarrow> response" where
  "handleListVolumes ks backendID stateFilter s =
     writeJSON 200 (VolumesBody (ListVolumes ks backendID stateFilter s))"

definition handleDeleteVolume :: "string \<Rightarrow> Store \<Rightarrow> response \<times> Store" where
  "handleDeleteVolume volumeID s =
     (case DeleteVolume volumeID s of
        (Inl err, s') \<Rightarrow> (writeError (errorToHTTPStatus err) (StoreError err), s')
      | (Inr _, s') \<Rightarrow> (noContent, s'))"

definition handleExtendVolume :: "string \<Rightarrow> int option \<Rightarrow> Store \<Rightarrow> response \<times> Store" where
  "handleExtendVolume volumeID req s =
     (case req of
        None \<Rightarrow> (writeError 400 InvalidBody, s)
      | Some newSizeGB \<Rightarrow>
          (case ExtendVolume volumeID newSizeGB s of
             (Inl err, s') \<Rightarrow> (writeError (errorToHTTPStatus err) (StoreError err), s')
           | (Inr v, s') \<Rightarrow> (writeJSON 200 (VolumeBody v), s')))"

definition handleExportVolume :: "string \<Rightarrow> exportVolumeRequest option \<Rightarrow> Store \<Rightarrow> response \<times> Store" where
  "handleExportVolume volumeID req s =
     (case req of
        None \<Rightarrow> (writeError 400 InvalidBody, s)
      | Some q \<Rightarrow>
          (case ExportVolume volumeID (ev_HostID q) (ev_Protocol q) s of
             (Inl err, s') \<Rightarrow> (writeError (errorToHTTPStatus err) (StoreError err), s')
           | (Inr v, s') \<Rightarrow> (writeJSON 200 (VolumeBody v), s')))"

definition handleUnexportVolume :: "string \<Rightarrow> Store \<Rightarrow> response \<times> Store" where
  "handleUnexportVolume volumeID s =
     (case UnexportVolume volumeID s of
        (Inl err, s') \<Rightarrow> (writeError (errorToHTTPStatus err) (StoreError err), s')
      | (Inr v, s') \<Rightarrow> (writeJSON 200 (VolumeBody v), s'))"

definition handleCreateSnapshot ::
    "int \<Rightarrow> string \<Rightarrow> createSnapshotRequest option \<Rightarrow> Store \<Rightarrow> response \<times> Store" where
  "handleCreateSnapshot now volumeID req s =
     (case req of
        None \<Rightarrow> (writeError 400 InvalidBody, s)
      | Some q \<Rightarrow>
          (case CreateSnapshot now volumeID (cs_SnapshotID q) (cs_Metadata q) s of
             (Inl err, s') \<Rightarrow> (writeError (errorToHTTPStatus err) (StoreError err), s')
           | (Inr snap, s') \<Rightarrow> (writeJSON 201 (SnapshotBody snap), s')))"

definition handleListSnapshots :: "string \<Rightarrow> Store \<Rightarrow> response" where
  "handleListSnapshots volumeID s =
     (case ListSnapshots volumeID s of
        Inl err \<Rightarrow> writeError (errorToHTTPStatus err) (StoreError err)
      | Inr snaps \<Rightarrow> writeJSON 200 (SnapshotsBody snaps))"

definition handleDeleteSnapshot :: "string \<Rightarrow> Store \<Rightarrow> response \<times> Store" where
  "handleDeleteSnapshot snapshotID s =
     (case DeleteSnapshot snapshotID s of
        (Inl err, s') \<Rightarrow> (writeError (errorToHTTPStatus err) (StoreError err), s')
      | (Inr _, s') \<Rightarrow> (noContent, s'))"

definition handleCloneFromSnapshot ::
    "int \<Rightarrow> string \<Rightarrow> cloneFromSnapshotRequest option \<Rightarrow> Store \<Rightarrow> response \<times> Store" where
  "handleCloneFromSnapshot now snapshotID req s =
     (case req of
        None \<Rightarrow> (writeError 400 InvalidBody, s)
      | Some q \<Rightarrow>
          (case CloneFromSnapshot now snapshotID (cf_VolumeID q) (cf_Metadata q) s of
             (Inl err, s') \<Rightarrow> (writeError (errorToHTTPStatus err) (StoreError err), s')
           | (Inr vol, s') \<Rightarrow> (writeJSON 201 (VolumeBody vol), s')))"

definition handleStartFlatten :: "int \<Rightarrow> string \<Rightarrow> Store \<Rightarrow> response \<times> Store" where
  "handleStartFlatten now volumeID s =
     (case StartFlatten now volumeID s of
        (Inl err, s') \<Rightarrow> (writeError (errorToHTTPStatus err) (StoreError err), s')
      | (Inr (op, _), s') \<Rightarrow>
          (writeJSON 202 (FlattenBody (o_OperationID op) (o_State op) (o_ProgressPercent op)
             (o_EstimatedRemainingMs op)), s'))"

definition handleGetOperation :: "string \<Rightarrow> Store \<Rightarrow> response" where
  "handleGetOperation opID s =
     (case GetOperation opID s of
        Inl err \<Rightarrow> writeError (errorToHTTPStatus err) (StoreError err)
      | Inr op \<Rightarrow> writeJSON 200 (OperationBody op))"

definition handleStartMigration :: "int \<Rightarrow> startMigrationRequest option \<Rightarrow> Store \<Rightarrow> response \<times> Store" where
  "handleStartMigration now req s =
     (case req of
        None \<Rightarrow> (writeError 400 InvalidBody, s)
      | Some q \<Rightarrow>
          (case StartMigration now (sm_VolumeID q) (sm_DestBackendID q) s of
             (Inl err, s') \<Rightarrow> (writeError (errorToHTTPStatus err) (StoreError err), s')
           | (Inr (mig, _), s') \<Rightarrow> (writeJSON 202 (MigrationBody mig), s')))"

definition handleGetMigration :: "string \<Rightarrow> Store \<Rightarrow> response" where
  "handleGetMigration migID s =
     (case GetMigration migID s of
        Inl err \<Rightarrow> writeError 404 (StoreError err)
      | Inr mig \<Rightarrow> writeJSON 200 (MigrationBody mig))"

definition handleCancelMigration :: "string \<Rightarrow> Store \<Rightarrow> response \<times> Store" where
  "handleCancelMigration migID s =
     (case CancelMigration migID s of
        (Inl err, s') \<Rightarrow> (writeError (errorToHTTPStatus err) (StoreError err), s')
      | (Inr _, s') \<Rightarrow> (noContent, s'))"

section \<open>The management API\<close>

definition handleAddBackend :: "addBackendRequest option \<Rightarrow> Store \<Rightarrow> response \<times> Store" where
  "handleAddBackend req s =
     (case req of
        None \<Rightarrow> (writeError 400 InvalidBody, s)
      | Some q \<Rightarrow>
          let b = \<lparr>b_BackendID = ab_BackendID q, b_TotalCapacityGB = ab_TotalCapacityGB q,
                   b_UsedCapacityGB = 0, b_AllocatedCapacityGB = 0, b_TotalIOPS = ab_TotalIOPS q,
                   b_UsedIOPSEstimate = 0, b_Capabilities = ab_Capabilities q, b_State = '''',
                   b_OverprovisionRatio = ab_OverprovisionRatio q\<rparr>
          in case AddBackend b s of
               (Inl err, s') \<Rightarrow>
                 (writeError (if ab_BackendID q = '''' then 400 else 409) (StoreError err), s')
             | (Inr _, s') \<Rightarrow>
                 (case GetBackend (ab_BackendID q) s' of
                    Inl _ \<Rightarrow> (writeJSON 201 NoBody, s')
                  | Inr stored \<Rightarrow> (writeJSON 201 (BackendBody stored), s')))"

definition handleListBackends :: "string list \<Rightarrow> Store \<Rightarrow> response" where
  "handleListBackends ks s = writeJSON 200 (BackendsBody (ListBackends ks s))"

definition handleSetBackendState :: "string \<Rightarrow> string option \<Rightarrow> Store \<Rightarrow> response \<times> Store" where
  "handleSetBackendState bid req s =
     (case req of
        None \<Rightarrow> (writeError 400 InvalidBody, s)
      | Some st \<Rightarrow>
          (case SetBackendState bid st s of
             (Inl err, s') \<Rightarrow> (writeError 404 (StoreError err), s')
           | (Inr _, s') \<Rightarrow>
               (case GetBackend bid s' of
                  Inl _ \<Rightarrow> (writeJSON 200 NoBody, s')
                | Inr b \<Rightarrow> (writeJSON 200 (BackendBody b), s'))))"

definition handleSetConfig :: "SimConfig option \<Rightarrow> Store \<Rightarrow> response \<times> Store" where
  "handleSetConfig req s =
     (case req of
        None \<Rightarrow> (writeError 400 InvalidBody, s)
      | Some cfg \<Rightarrow> (writeJSON 200 (ConfigBody cfg), SetConfig cfg s))"

definition handleGetStats :: "Store \<Rightarrow> response" where
  "handleGetStats s = writeJSON 200 (StatsBody (GetStats s))"

definition handleReset :: "Store \<Rightarrow> response \<times> Store" where
  "handleReset s = (writeJSON 200 ResetBody, Reset s)"

section \<open>The routes\<close>

datatype api_call =
    BackendInfo string
  | BackendHealth string
  | PostVolume string "createVolumeRequest option"
  | GetVolumeCall string
  | ListVolumesCall string string
  | DeleteVolumeCall string
  | PutExtend string "int option"
  | PostExport string "exportVolumeRequest option"
  | DeleteExport string
  | PostSnapshot string "createSnapshotRequest option"
  | ListSnapshotsCall string
  | DeleteSnapshotCall string
  | PostClone string "cloneFromSnapshotRequest option"
  | PostFlatten string
  | GetOperationCall string
  | PostMigration "startMigrationRequest option"
  | GetMigrationCall string
  | DeleteMigration string
  | PostBackend "addBackendRequest option"
  | ListBackendsCall
  | PutBackendState string "string option"
  | PostConfig "SimConfig option"
  | GetStatsCall
  | PostReset

text \<open>\<open>RegisterRoutes\<close> of both handlers; \<open>ks\<close> is the order in which a listing meets the map.\<close>

fun serve :: "int \<Rightarrow> string list \<Rightarrow> api_call \<Rightarrow> Store \<Rightarrow> response \<times> Store" where
  "serve now ks (BackendInfo bid) s = (handleBackendInfo bid s, s)"
| "serve now ks (BackendHealth bid) s = (handleBackendHealth now bid s, s)"
| "serve now ks (PostVolume bid q) s = handleCreateVolume now bid q s"
| "serve now ks (GetVolumeCall vid) s = (handleGetVolume vid s, s)"
| "serve now ks (ListVolumesCall bid st) s = (handleListVolumes ks bid st s, s)"
| "serve now ks (DeleteVolumeCall vid) s = handleDeleteVolume vid s"
| "serve now ks (PutExtend vid q) s = handleExtendVolume vid q s"
| "serve now ks (PostExport vid q) s = handleExportVolume vid q s"
| "serve now ks (DeleteExport vid) s = handleUnexportVolume vid s"
| "serve now ks (PostSnapshot vid q) s = handleCreateSnapshot now vid q s"
| "serve now ks (ListSnapshotsCall vid) s = (handleListSnapshots vid s, s)"
| "serve now ks (DeleteSnapshotCall sid) s = handleDeleteSnapshot sid s"
| "serve now ks (PostClone sid q) s = handleCloneFromSnapshot now sid q s"
| "serve now ks (PostFlatten vid) s = handleStartFlatten now vid s"
| "serve now ks (GetOperationCall opID) s = (handleGetOperation opID s, s)"
| "serve now ks (PostMigration q) s = handleStartMigration now q s"
| "serve now ks (GetMigrationCall mid) s = (handleGetMigration mid s, s)"
| "serve now ks (DeleteMigration mid) s = handleCancelMigration mid s"
| "serve now ks (PostBackend q) s = handleAddBackend q s"
| "serve now ks ListBackendsCall s = (handleListBackends ks s, s)"
| "serve now ks (PutBackendState bid q) s = handleSetBackendState bid q s"
| "serve now ks (PostConfig q) s = handleSetConfig q s"
| "serve now ks GetStatsCall s = (handleGetStats s, s)"
| "serve now ks PostReset s = handleReset s"

section \<open>What the interface does to the store\<close>

text \<open>The store operation behind a call, when the call gets that far.\<close>

definition volume_of :: "string \<Rightarrow> createVolumeRequest \<Rightarrow> Volume" where
  "volume_of bid q =
     \<lparr>v_VolumeID = cv_VolumeID q, v_BackendID = bid, v_SizeGB = cv_SizeGB q, v_ConsumedGB = 0,
      v_ThinProvisioned = cv_ThinProvisioned q, v_State = '''', v_QoSPolicy = cv_QoSPolicy q,
      v_Metadata = cv_Metadata q, v_CreatedAt = 0, v_ExportInfo = None, v_Snapshots = [],
      v_ParentSnapshotID = ''''\<rparr>"

definition backend_of :: "addBackendRequest \<Rightarrow> Backend" where
  "backend_of q =
     \<lparr>b_BackendID = ab_BackendID q, b_TotalCapacityGB = ab_TotalCapacityGB q,
      b_UsedCapacityGB = 0, b_AllocatedCapacityGB = 0, b_TotalIOPS = ab_TotalIOPS q,
      b_UsedIOPSEstimate = 0, b_Capabilities = ab_Capabilities q, b_State = '''',
      b_OverprovisionRatio = ab_OverprovisionRatio q\<rparr>"

fun request_of :: "api_call \<Rightarrow> request option" where
  "request_of (PostVolume bid q) =
     (if bid = '''' then None else map_option (\<lambda>q. CreateVolumeReq (volume_of bid q)) q)"
| "request_of (DeleteVolumeCall vid) = Some (DeleteVolumeReq vid)"
| "request_of (PutExtend vid q) = map_option (ExtendVolumeReq vid) q"
| "request_of (PostExport vid q) = map_option (\<lambda>q. ExportVolumeReq vid (ev_HostID q) (ev_Protocol q)) q"
| "request_of (DeleteExport vid) = Some (UnexportVolumeReq vid)"
| "request_of (PostSnapshot vid q) = map_option (\<lambda>q. CreateSnapshotReq vid (cs_SnapshotID q) (cs_Metadata q)) q"
| "request_of (DeleteSnapshotCall sid) = Some (DeleteSnapshotReq sid)"
| "request_of (PostClone sid q) = map_option (\<lambda>q. CloneReq sid (cf_VolumeID q) (cf_Metadata q)) q"
| "request_of (PostFlatten vid) = Some (StartFlattenReq vid)"
| "request_of (PostMigration q) = map_option (\<lambda>q. StartMigrationReq (sm_VolumeID q) (sm_DestBackendID q)) q"
| "request_of (DeleteMigration mid) = Some (CancelMigrationReq mid)"
| "request_of (PostBackend q) = map_option (\<lambda>q. AddBackendReq (backend_of q)) q"
| "request_of (PutBackendState bid q) = map_option (SetBackendStateReq bid) q"
| "request_of (PostConfig q) = map_option SetConfigReq q"
| "request_of PostReset = Some ResetReq"
| "request_of _ = None"

lemmas handler_defs = handleBackendInfo_def handleBackendHealth_def handleCreateVolume_def
  handleGetVolume_def handleListVolumes_def handleDeleteVolume_def handleExtendVolume_def
  handleExportVolume_def handleUnexportVolume_def handleCreateSnapshot_def handleListSnapshots_def
  handleDeleteSnapshot_def handleCloneFromSnapshot_def handleStartFlatten_def handleGetOperation_def
  handleStartMigration_def handleGetMigration_def handleCancelMigration_def handleAddBackend_def
  handleListBackends_def handleSetBackendState_def handleSetConfig_def handleGetStats_def handleReset_def

lemma requests_of_calls_well_formed: "request_of c = Some r \<Longrightarrow> well_formed r"
  by (cases c) (auto simp: volume_of_def backend_of_def split: if_splits)

lemma serve_store:
  "snd (serve now ks c s) = (case request_of c of None \<Rightarrow> s | Some r \<Rightarrow> exec now r s)"
  by (cases c) (auto simp: handler_defs volume_of_def backend_of_def Let_def
      split: option.splits prod.splits sum.splits)

lemma errorToHTTPStatus_is_error: "400 \<le> errorToHTTPStatus e"
  by (simp add: errorToHTTPStatus_def)

text \<open>A store operation that fails leaves the store as it was.\<close>

lemma failed_ops_unchanged:
  "AddBackend b s = (Inl e, t) \<Longrightarrow> t = s"
  "SetBackendState bid st s = (Inl e, t) \<Longrightarrow> t = s"
  "CreateVolume now v s = (Inl e, t) \<Longrightarrow> t = s"
  "DeleteVolume vid s = (Inl e, t) \<Longrightarrow> t = s"
  "ExtendVolume vid n s = (Inl e, t) \<Longrightarrow> t = s"
  "ExportVolume vid h p s = (Inl e, t) \<Longrightarrow> t = s"
  "UnexportVolume vid s = (Inl e, t) \<Longrightarrow> t = s"
  "CreateSnapshot now vid sid md s = (Inl e, t) \<Longrightarrow> t = s"
  "DeleteSnapshot sid s = (Inl e, t) \<Longrightarrow> t = s"
  "CloneFromSnapshot now sid vid md s = (Inl e, t) \<Longrightarrow> t = s"
  "StartFlatten now vid s = (Inl e, t) \<Longrightarrow> t = s"
  "StartMigration now vid bid s = (Inl e, t) \<Longrightarrow> t = s"
  "CancelMigration mid s = (Inl e, t) \<Longrightarrow> t = s"
  by (auto simp: AddBackend_def SetBackendState_def CreateVolume_def DeleteVolume_def
      ExtendVolume_def ExportVolume_def UnexportVolume_def CreateSnapshot_def DeleteSnapshot_def
      CloneFromSnapshot_def StartFlatten_def StartMigration_def CancelMigration_def Let_def
      split: if_splits option.splits)

lemmas response_defs = writeJSON_def writeError_def noContent_def

lemma handleAddBackend_error:
  assumes "400 \<le> status (fst (handleAddBackend q s))"
  shows "snd (handleAddBackend q s) = s"
proof (cases q)
  case (Some r)
  show ?thesis
  proof (cases "AddBackend (backend_of r) s")
    case (Pair x t)
    show ?thesis using assms Some Pair
      by (cases x) (auto simp: handleAddBackend_def backend_of_def response_defs
          dest!: failed_ops_unchanged split: sum.splits)
  qed
qed (simp add: handleAddBackend_def)

lemma handleSetBackendState_error:
  assumes "400 \<le> status (fst (handleSetBackendState bid q s))"
  shows "snd (handleSetBackendState bid q s) = s"
proof (cases q)
  case (Some st)
  show ?thesis
  proof (cases "SetBackendState bid st s")
    case (Pair x t)
    show ?thesis using assms Some Pair
      by (cases x) (auto simp: handleSetBackendState_def response_defs
          dest!: failed_ops_unchanged split: sum.splits)
  qed
qed (simp add: handleSetBackendState_def)

text \<open>C20: A request that is answered with an error status (400 or above) leaves the store exactly
  as it was.\<close>

theorem error_response_changes_nothing:
  assumes "400 \<le> status (fst (serve now ks c s))"
  shows "snd (serve now ks c s) = s"
proof (cases "(\<exists>q. c = PostBackend q) \<or> (\<exists>bid q. c = PutBackendState bid q)")
  case True
  with assms handleAddBackend_error handleSetBackendState_error show ?thesis by auto
next
  case False
  with assms show ?thesis
    by (cases c) (auto simp: handler_defs response_defs Let_def dest!: failed_ops_unchanged
        split: option.splits prod.splits sum.splits if_splits)
qed

definition empty_volume_request :: createVolumeRequest where
  "empty_volume_request = \<lparr>cv_VolumeID = '''', cv_SizeGB = 1, cv_ThinProvisioned = True,
     cv_QoSPolicy = None, cv_Metadata = fmempty\<rparr>"

theorem error_response_changes_nothing_witness:
  "status (fst (serve 1 [] (PostVolume ''b1'' (Some empty_volume_request)) NewStore)) = 500 \<and>
   snd (serve 1 [] (PostVolume ''b1'' (Some empty_volume_request)) NewStore) = NewStore"
proof -
  have "status (fst (serve 1 [] (PostVolume ''b1'' (Some empty_volume_request)) NewStore)) = 500"
    by (simp add: handleCreateVolume_def CreateVolume_def empty_volume_request_def writeError_def
        errorToHTTPStatus_def containsErr_def)
  with error_response_changes_nothing [of 1 "[]" "PostVolume ''b1'' (Some empty_volume_request)" NewStore]
  show ?thesis by simp
qed

fun serve_all :: "(int \<times> string list \<times> api_call) list \<Rightarrow> Store \<Rightarrow> Store" where
  "serve_all [] s = s"
| "serve_all ((now, ks, c) # cs) s = serve_all cs (snd (serve now ks c s))"

text \<open>Every HTTP call is a step of the system: what a call does to the store is exactly one
  store operation on a well-formed request, or nothing; hence any sequence of calls, with time
  passing, keeps a store without background tasks consistent.\<close>

theorem api_calls_keep_consistency:
  "consistent (serve_all cs NewStore) \<and>
   snd (serve now ks c s) = (case request_of c of None \<Rightarrow> s | Some r \<Rightarrow> exec now r s) \<and>
   pred_option well_formed (request_of c)"
proof -
  have "consistent s \<Longrightarrow> consistent (serve_all cs s)" for cs s
  proof (induction cs s rule: serve_all.induct)
    case (2 now ks c cs s)
    then show ?case
      using exec_consistent requests_of_calls_well_formed
      by (auto simp: serve_store split: option.split)
  qed simp
  with consistent_NewStore requests_of_calls_well_formed [of c] show ?thesis
    by (auto simp: serve_store option.pred_set)
qed

end
