(* ===== verification/Libvirt_State.thy ===== *)
theory Libvirt_State
  imports Prelude Float64 "HOL-Library.Word"
begin

text \<open>
  The state of libvirt-sim: \<^verbatim>\<open>libvirt-sim/internal/state/domain.go\<close>, \<^verbatim>\<open>host.go\<close> and
  \<^verbatim>\<open>store.go\<close>. Hosts hold their domains in a map keyed by the printed UUID. Go shares hosts and
  domains by pointer; here an operation looks its host and domain up by key and writes the
  changed value back, and a caller that goes on reading through a pointer is modelled by a new
  look-up. Names that the storage component uses too carry the suffix \<open>_lv\<close>.
\<close>

unbundle bit_operations_syntax

type_synonym byte = "8 word"

section \<open>Domains\<close>

abbreviation (input) DomainStateNoState :: int where "DomainStateNoState \<equiv> 0"
abbreviation (input) DomainStateRunning :: int where "DomainStateRunning \<equiv> 1"
abbreviation (input) DomainStateBlocked :: int where "DomainStateBlocked \<equiv> 2"
abbreviation (input) DomainStatePaused :: int where "DomainStatePaused \<equiv> 3"
abbreviation (input) DomainStateShutdown :: int where "DomainStateShutdown \<equiv> 4"
abbreviation (input) DomainStateShutoff :: int where "DomainStateShutoff \<equiv> 5"
abbreviation (input) DomainStateCrashed :: int where "DomainStateCrashed \<equiv> 6"
abbreviation (input) DomainStatePMSuspended :: int where "DomainStatePMSuspended \<equiv> 7"

abbreviation (input) MigrationStateNone :: int where "MigrationStateNone \<equiv> 0"
abbreviation (input) MigrationStatePrepared :: int where "MigrationStatePrepared \<equiv> 1"
abbreviation (input) MigrationStatePerforming :: int where "MigrationStatePerforming \<equiv> 2"

record Domain =
  d_Name :: string
  d_UUID :: "byte list"
  d_ID :: int
  d_State :: int
  d_VCPUs :: int
  d_MemoryKiB :: int
  d_XML :: string
  d_CreatedAt :: int
  d_StartedAt :: int
  d_InterfaceIDs :: "string list"
  d_MigrationState :: int
  d_MigrationCookie :: string

text \<open>The shift-and-or of consecutive bytes, most significant first.\<close>

definition be_nat :: "byte list \<Rightarrow> nat" where
  "be_nat bs = foldl (\<lambda>acc b. acc * 256 + unat b) 0 bs"

definition uuid_string :: "byte list \<Rightarrow> string" where
  "uuid_string u =
     fmt_0x 8 (be_nat (take 4 u)) @ ''-'' @ fmt_0x 4 (be_nat (take 2 (drop 4 u))) @ ''-'' @
     fmt_0x 4 (be_nat (take 2 (drop 6 u))) @ ''-'' @ fmt_0x 4 (be_nat (take 2 (drop 8 u))) @ ''-'' @
     fmt_0x 12 (be_nat (take 6 (drop 10 u)))"

definition UUIDString :: "Domain \<Rightarrow> string" where
  "UUIDString d = uuid_string (d_UUID d)"

datatype lv_error =
    ErrNoDomain | ErrOperationInvalid | ErrOperationDenied | ErrHostNotFound | ErrHostExists
  | ErrPortInUse | ErrMigrationInProgress

type_synonym 'a lv_result = "lv_error + 'a"

definition Start :: "int \<Rightarrow> Domain \<Rightarrow> Domain lv_result" where
  "Start now d =
     (if d_State d \<noteq> DomainStateShutoff then Inl ErrOperationInvalid
      else Inr (d\<lparr>d_State := DomainStateRunning, d_ID := - 1, d_StartedAt := now\<rparr>))"

definition Destroy :: "Domain \<Rightarrow> Domain lv_result" where
  "Destroy d =
     (if d_State d \<noteq> DomainStateRunning \<and> d_State d \<noteq> DomainStatePaused then Inl ErrOperationInvalid
      else Inr (d\<lparr>d_State := DomainStateShutoff, d_ID := - 1\<rparr>))"

definition Shutdown :: "Domain \<Rightarrow> Domain lv_result" where
  "Shutdown d =
     (if d_State d \<noteq> DomainStateRunning then Inl ErrOperationInvalid
      else Inr (d\<lparr>d_State := DomainStateShutoff, d_ID := - 1\<rparr>))"

definition Suspend :: "Domain \<Rightarrow> Domain lv_result" where
  "Suspend d =
     (if d_State d \<noteq> DomainStateRunning then Inl ErrOperationInvalid
      else Inr (d\<lparr>d_State := DomainStatePaused\<rparr>))"

definition Resume :: "Domain \<Rightarrow> Domain lv_result" where
  "Resume d =
     (if d_State d \<noteq> DomainStatePaused then Inl ErrOperationInvalid
      else Inr (d\<lparr>d_State := DomainStateRunning\<rparr>))"

definition Reboot :: "Domain \<Rightarrow> Domain lv_result" where
  "Reboot d = (if d_State d \<noteq> DomainStateRunning then Inl ErrOperationInvalid else Inr d)"

section \<open>Hosts\<close>

abbreviation HostStateOnline :: string where "HostStateOnline \<equiv> ''online''"
abbreviation HostStateOffline :: string where "HostStateOffline \<equiv> ''offline''"
abbreviation HostStateMaintenance :: string where "HostStateMaintenance \<equiv> ''maintenance''"

record GPU =
  g_Address :: string
  g_Model :: string
  g_VendorID :: string
  g_DeviceID :: string

record NUMANode =
  n_ID :: int
  n_CPUs :: "int list"
  n_MemoryMB :: int

record Host =
  h_HostID :: string
  h_LibvirtPort :: int
  h_CPUModel :: string
  h_CPUSockets :: int
  h_CoresPerSocket :: int
  h_ThreadsPerCore :: int
  h_MemoryMB :: int
  h_CPUOvercommitRatio :: f64
  h_MemOvercommitRatio :: f64
  h_NUMATopology :: "NUMANode list"
  h_GPUs :: "GPU list"
  h_State :: string
  h_Domains :: "(string, Domain) gomap"

definition TotalVCPUs :: "Host \<Rightarrow> int" where
  "TotalVCPUs h = int64 (int64 (h_CPUSockets h * h_CoresPerSocket h) * h_ThreadsPerCore h)"

definition AvailableVCPUs :: "Host \<Rightarrow> int" where
  "AvailableVCPUs h = int64_of_f64 (f64_of_int (TotalVCPUs h) * h_CPUOvercommitRatio h)"

definition AvailableMemoryMB :: "Host \<Rightarrow> int" where
  "AvailableMemoryMB h = int64_of_f64 (f64_of_int (h_MemoryMB h) * h_MemOvercommitRatio h)"

definition active :: "Domain \<Rightarrow> bool" where
  "active d \<longleftrightarrow> d_State d = DomainStateRunning \<or> d_State d = DomainStatePaused"

definition mem_MB :: "Domain \<Rightarrow> int" where
  "mem_MB d = go_div (d_MemoryKiB d) 1024"

definition UsedVCPUs :: "Host \<Rightarrow> int" where
  "UsedVCPUs h = range_fold (add_if active d_VCPUs) (h_Domains h) 0"

definition UsedMemoryMB :: "Host \<Rightarrow> int" where
  "UsedMemoryMB h = range_fold (add_if active mem_MB) (h_Domains h) 0"

datatype alloc_error = InsufficientVCPUs int int int int | InsufficientMemory int int int int

definition CanAllocate :: "Host \<Rightarrow> int \<Rightarrow> int \<Rightarrow> alloc_error + unit" where
  "CanAllocate h vcpus memoryKiB =
     (let usedVCPUs = UsedVCPUs h; usedMemMB = UsedMemoryMB h; memMB = go_div memoryKiB 1024 in
      if int64 (usedVCPUs + vcpus) > AvailableVCPUs h
      then Inl (InsufficientVCPUs vcpus (int64 (AvailableVCPUs h - usedVCPUs)) usedVCPUs (AvailableVCPUs h))
      else if int64 (usedMemMB + memMB) > AvailableMemoryMB h
      then Inl (InsufficientMemory memMB (int64 (AvailableMemoryMB h - usedMemMB)) usedMemMB (AvailableMemoryMB h))
      else Inr ())"

text \<open>\<^verbatim>\<open>HostInfo\<close> repeats the host's fields; the model keeps the host and the three computed ones.\<close>

record HostInfo =
  i_Host :: Host
  i_UsedVCPUs :: int
  i_UsedMemoryMB :: int
  i_DomainCount :: int

definition Info :: "Host \<Rightarrow> HostInfo" where
  "Info h = \<lparr>i_Host = h, i_UsedVCPUs = UsedVCPUs h, i_UsedMemoryMB = UsedMemoryMB h,
     i_DomainCount = map_len (h_Domains h)\<rparr>"

section \<open>The store\<close>

record MigrationConfig =
  mc_PrepareDurationMs :: int
  mc_BaseTransferDurationMs :: int
  mc_PerGBMemoryMs :: int
  mc_FinishDurationMs :: int

definition DefaultMigrationConfig :: MigrationConfig where
  "DefaultMigrationConfig = \<lparr>mc_PrepareDurationMs = 500, mc_BaseTransferDurationMs = 2000,
     mc_PerGBMemoryMs = 500, mc_FinishDurationMs = 200\<rparr>"

record Store_lv =
  hosts :: "(string, Host) gomap"
  ports :: "(int, string) gomap"
  nextDomainID :: int
  migrationConfig :: MigrationConfig
  migrationSpeed :: "64 word"

definition NewStore_lv :: Store_lv where
  "NewStore_lv = \<lparr>hosts = fmempty, ports = fmempty, nextDomainID = 1,
     migrationConfig = DefaultMigrationConfig, migrationSpeed = 9223372036\<rparr>"

definition GetMigrationConfig :: "Store_lv \<Rightarrow> MigrationConfig" where
  "GetMigrationConfig s = migrationConfig s"

definition SetMigrationConfig :: "MigrationConfig \<Rightarrow> Store_lv \<Rightarrow> Store_lv" where
  "SetMigrationConfig cfg s = s\<lparr>migrationConfig := cfg\<rparr>"

definition GetMigrationSpeed :: "Store_lv \<Rightarrow> 64 word" where
  "GetMigrationSpeed s = migrationSpeed s"

definition SetMigrationSpeed :: "64 word \<Rightarrow> Store_lv \<Rightarrow> Store_lv" where
  "SetMigrationSpeed speed s = s\<lparr>migrationSpeed := speed\<rparr>"

definition host_defaults :: "Host \<Rightarrow> Host" where
  "host_defaults h =
     (let h1 = (if h_State h = [] then h\<lparr>h_State := HostStateOnline\<rparr> else h);
          h2 = (if h_CPUOvercommitRatio h1 = Fin 0 then h1\<lparr>h_CPUOvercommitRatio := Fin 1\<rparr> else h1)
      in if h_MemOvercommitRatio h2 = Fin 0 then h2\<lparr>h_MemOvercommitRatio := Fin 1\<rparr> else h2)"

definition AddHost :: "Host \<Rightarrow> Store_lv \<Rightarrow> unit lv_result \<times> Store_lv" where
  "AddHost h s =
     (if get (hosts s) (h_HostID h) \<noteq> None then (Inl ErrHostExists, s)
      else if get (ports s) (h_LibvirtPort h) \<noteq> None then (Inl ErrPortInUse, s)
      else (Inr (), s\<lparr>hosts := fmupd (h_HostID h) (host_defaults h) (hosts s),
                      ports := fmupd (h_LibvirtPort h) (h_HostID h) (ports s)\<rparr>))"

definition GetHost :: "string \<Rightarrow> Store_lv \<Rightarrow> Host lv_result" where
  "GetHost hostID s = (case get (hosts s) hostID of None \<Rightarrow> Inl ErrHostNotFound | Some h \<Rightarrow> Inr h)"

text \<open>\<^verbatim>\<open>s.hosts[hostID]\<close> is a nil pointer when the host is missing: \<open>Inr None\<close>.\<close>

definition GetHostByPort :: "int \<Rightarrow> Store_lv \<Rightarrow> Host option lv_result" where
  "GetHostByPort port s =
     (case get (ports s) port of None \<Rightarrow> Inl ErrHostNotFound | Some hid \<Rightarrow> Inr (get (hosts s) hid))"

definition ListHosts :: "string list \<Rightarrow> Store_lv \<Rightarrow> Host list" where
  "ListHosts ks s = values_along (hosts s) ks"

definition RemoveHost :: "string \<Rightarrow> Store_lv \<Rightarrow> unit lv_result \<times> Store_lv" where
  "RemoveHost hostID s =
     (case get (hosts s) hostID of
        None \<Rightarrow> (Inl ErrHostNotFound, s)
      | Some h \<Rightarrow> (Inr (), s\<lparr>ports := fmdrop (h_LibvirtPort h) (ports s),
                             hosts := fmdrop hostID (hosts s)\<rparr>))"

definition Reset_lv :: "Store_lv \<Rightarrow> Store_lv" where
  "Reset_lv s = \<lparr>hosts = fmempty, ports = fmempty, nextDomainID = 1,
     migrationConfig = DefaultMigrationConfig, migrationSpeed = 9223372036\<rparr>"

text \<open>The two handlers of the management API that write to a host through its pointer.\<close>

definition set_host_state :: "string \<Rightarrow> string \<Rightarrow> Store_lv \<Rightarrow> Store_lv" where
  "set_host_state hostID st s =
     (case get (hosts s) hostID of
        None \<Rightarrow> s
      | Some h \<Rightarrow> s\<lparr>hosts := fmupd hostID (h\<lparr>h_State := st\<rparr>) (hosts s)\<rparr>)"

definition host_config :: "f64 option \<Rightarrow> f64 option \<Rightarrow> Host \<Rightarrow> Host" where
  "host_config cpu mem h =
     (let h1 = (case cpu of None \<Rightarrow> h | Some r \<Rightarrow> h\<lparr>h_CPUOvercommitRatio := r\<rparr>)
      in case mem of None \<Rightarrow> h1 | Some r \<Rightarrow> h1\<lparr>h_MemOvercommitRatio := r\<rparr>)"

definition set_host_config :: "string \<Rightarrow> f64 option \<Rightarrow> f64 option \<Rightarrow> Store_lv \<Rightarrow> Store_lv" where
  "set_host_config hostID cpu mem s =
     (case get (hosts s) hostID of
        None \<Rightarrow> s
      | Some h \<Rightarrow> s\<lparr>hosts := fmupd hostID (host_config cpu mem h) (hosts s)\<rparr>)"

section \<open>Domains of a host\<close>

definition put_domain :: "string \<Rightarrow> Host \<Rightarrow> string \<Rightarrow> Domain \<Rightarrow> Store_lv \<Rightarrow> Store_lv" where
  "put_domain hostID h uuid d s =
     s\<lparr>hosts := fmupd hostID (h\<lparr>h_Domains := fmupd uuid d (h_Domains h)\<rparr>) (hosts s)\<rparr>"

definition drop_domain :: "string \<Rightarrow> Host \<Rightarrow> string \<Rightarrow> Store_lv \<Rightarrow> Store_lv" where
  "drop_domain hostID h uuid s =
     s\<lparr>hosts := fmupd hostID (h\<lparr>h_Domains := fmdrop uuid (h_Domains h)\<rparr>) (hosts s)\<rparr>"

definition DefineDomain :: "int \<Rightarrow> string \<Rightarrow> Domain \<Rightarrow> Store_lv \<Rightarrow> Domain lv_result \<times> Store_lv" where
  "DefineDomain now hostID d s =
     (case GetHost hostID s of
        Inl e \<Rightarrow> (Inl e, s)
      | Inr h \<Rightarrow>
          let d' = d\<lparr>d_State := DomainStateShutoff, d_ID := - 1, d_CreatedAt := now\<rparr>
          in (Inr d', put_domain hostID h (UUIDString d') d' s))"

definition GetDomain :: "string \<Rightarrow> string \<Rightarrow> Store_lv \<Rightarrow> Domain lv_result" where
  "GetDomain hostID uuid s =
     (case GetHost hostID s of
        Inl e \<Rightarrow> Inl e
      | Inr h \<Rightarrow> (case get (h_Domains h) uuid of None \<Rightarrow> Inl ErrNoDomain | Some d \<Rightarrow> Inr d))"

text \<open>The first match in the order \<open>us\<close> in which the loop meets the domains.\<close>

definition GetDomainByName :: "string list \<Rightarrow> string \<Rightarrow> string \<Rightarrow> Store_lv \<Rightarrow> Domain lv_result" where
  "GetDomainByName us hostID name s =
     (case GetHost hostID s of
        Inl e \<Rightarrow> Inl e
      | Inr h \<Rightarrow> (case find (\<lambda>d. d_Name d = name) (values_along (h_Domains h) us) of
                   None \<Rightarrow> Inl ErrNoDomain
                 | Some d \<Rightarrow> Inr d))"

definition ListDomains :: "string list \<Rightarrow> string \<Rightarrow> Store_lv \<Rightarrow> Domain list lv_result" where
  "ListDomains us hostID s =
     (case GetHost hostID s of Inl e \<Rightarrow> Inl e | Inr h \<Rightarrow> Inr (values_along (h_Domains h) us))"

text \<open>The resource check that \<^verbatim>\<open>StartDomain\<close> and \<^verbatim>\<open>MigratePrepare\<close> spell out.\<close>

definition has_resources :: "Host \<Rightarrow> Domain \<Rightarrow> bool" where
  "has_resources h d \<longleftrightarrow>
     \<not> int64 (UsedVCPUs h + d_VCPUs d) > AvailableVCPUs h \<and>
     \<not> int64 (UsedMemoryMB h + mem_MB d) > AvailableMemoryMB h"

text \<open>\<^verbatim>\<open>s.nextDomainID.Add(1) - 1\<close> on 32-bit integers, and the counter after it.\<close>

definition take_id :: "Store_lv \<Rightarrow> int \<times> Store_lv" where
  "take_id s = (let n = int32 (nextDomainID s + 1) in (int32 (n - 1), s\<lparr>nextDomainID := n\<rparr>))"

definition StartDomain :: "int \<Rightarrow> string \<Rightarrow> string \<Rightarrow> Store_lv \<Rightarrow> unit lv_result \<times> Store_lv" where
  "StartDomain now hostID uuid s =
     (case GetHost hostID s of
        Inl e \<Rightarrow> (Inl e, s)
      | Inr h \<Rightarrow>
          (case get (h_Domains h) uuid of
             None \<Rightarrow> (Inl ErrNoDomain, s)
           | Some d \<Rightarrow>
               if d_State d \<noteq> DomainStateShutoff then (Inl ErrOperationInvalid, s)
               else if \<not> has_resources h d then (Inl ErrOperationDenied, s)
               else (case take_id s of (n, s1) \<Rightarrow>
                 (Inr (), put_domain hostID h uuid
                    (d\<lparr>d_State := DomainStateRunning, d_ID := n, d_StartedAt := now\<rparr>) s1))))"

definition change_domain ::
    "(Domain \<Rightarrow> Domain lv_result) \<Rightarrow> string \<Rightarrow> string \<Rightarrow> Store_lv \<Rightarrow> unit lv_result \<times> Store_lv" where
  "change_domain f hostID uuid s =
     (case GetHost hostID s of
        Inl e \<Rightarrow> (Inl e, s)
      | Inr h \<Rightarrow>
          (case get (h_Domains h) uuid of
             None \<Rightarrow> (Inl ErrNoDomain, s)
           | Some d \<Rightarrow> (case f d of
                 Inl e \<Rightarrow> (Inl e, s)
               | Inr d' \<Rightarrow> (Inr (), put_domain hostID h uuid d' s))))"

definition DestroyDomain :: "string \<Rightarrow> string \<Rightarrow> Store_lv \<Rightarrow> unit lv_result \<times> Store_lv" where
  "DestroyDomain = change_domain Destroy"

definition ShutdownDomain :: "string \<Rightarrow> string \<Rightarrow> Store_lv \<Rightarrow> unit lv_result \<times> Store_lv" where
  "ShutdownDomain = change_domain Shutdown"

definition SuspendDomain :: "string \<Rightarrow> string \<Rightarrow> Store_lv \<Rightarrow> unit lv_result \<times> Store_lv" where
  "SuspendDomain = change_domain Suspend"

definition ResumeDomain :: "string \<Rightarrow> string \<Rightarrow> Store_lv \<Rightarrow> unit lv_result \<times> Store_lv" where
  "ResumeDomain = change_domain Resume"

definition UndefineDomain :: "string \<Rightarrow> string \<Rightarrow> Store_lv \<Rightarrow> unit lv_result \<times> Store_lv" where
  "UndefineDomain hostID uuid s =
     (case GetHost hostID s of
        Inl e \<Rightarrow> (Inl e, s)
      | Inr h \<Rightarrow>
          (case get (h_Domains h) uuid of
             None \<Rightarrow> (Inl ErrNoDomain, s)
           | Some d \<Rightarrow>
               if d_State d \<noteq> DomainStateShutoff then (Inl ErrOperationInvalid, s)
               else (Inr (), drop_domain hostID h uuid s)))"

section \<open>Migration between hosts\<close>

definition MigratePrepare :: "string \<Rightarrow> Domain \<Rightarrow> Store_lv \<Rightarrow> unit lv_result \<times> Store_lv" where
  "MigratePrepare destHostID vm s =
     (case GetHost destHostID s of
        Inl e \<Rightarrow> (Inl e, s)
      | Inr h \<Rightarrow>
          if h_State h \<noteq> HostStateOnline then (Inl ErrOperationDenied, s)
          else if get (h_Domains h) (UUIDString vm) \<noteq> None then (Inl ErrOperationInvalid, s)
          else if \<not> has_resources h vm then (Inl ErrOperationDenied, s)
          else (Inr (), put_domain destHostID h (UUIDString vm)
                 \<lparr>d_Name = d_Name vm, d_UUID = d_UUID vm, d_ID = - 1, d_State = DomainStatePaused,
                  d_VCPUs = d_VCPUs vm, d_MemoryKiB = d_MemoryKiB vm, d_XML = d_XML vm,
                  d_CreatedAt = d_CreatedAt vm, d_StartedAt = 0, d_InterfaceIDs = d_InterfaceIDs vm,
                  d_MigrationState = MigrationStatePrepared, d_MigrationCookie = UUIDString vm\<rparr> s))"

definition MigratePerform :: "string \<Rightarrow> string \<Rightarrow> Store_lv \<Rightarrow> unit lv_result \<times> Store_lv" where
  "MigratePerform srcHostID uuid s =
     (case GetHost srcHostID s of
        Inl e \<Rightarrow> (Inl e, s)
      | Inr h \<Rightarrow>
          (case get (h_Domains h) uuid of
             None \<Rightarrow> (Inl ErrNoDomain, s)
           | Some d \<Rightarrow>
               if d_State d \<noteq> DomainStateRunning then (Inl ErrOperationInvalid, s)
               else if d_MigrationState d \<noteq> MigrationStateNone then (Inl ErrMigrationInProgress, s)
               else (Inr (), put_domain srcHostID h uuid
                      (d\<lparr>d_MigrationState := MigrationStatePerforming, d_MigrationCookie := uuid\<rparr>) s)))"

definition MigrateFinish :: "int \<Rightarrow> string \<Rightarrow> string \<Rightarrow> Store_lv \<Rightarrow> Domain lv_result \<times> Store_lv" where
  "MigrateFinish now destHostID uuid s =
     (case GetHost destHostID s of
        Inl e \<Rightarrow> (Inl e, s)
      | Inr h \<Rightarrow>
          (case get (h_Domains h) uuid of
             None \<Rightarrow> (Inl ErrNoDomain, s)
           | Some d \<Rightarrow>
               if d_MigrationState d \<noteq> MigrationStatePrepared then (Inl ErrOperationInvalid, s)
               else (case take_id s of (n, s1) \<Rightarrow>
                 let d' = d\<lparr>d_State := DomainStateRunning, d_ID := n, d_StartedAt := now,
                            d_MigrationState := MigrationStateNone, d_MigrationCookie := ''''\<rparr>
                 in (Inr d', put_domain destHostID h uuid d' s1))))"

definition MigrateConfirm :: "string \<Rightarrow> string \<Rightarrow> Store_lv \<Rightarrow> unit lv_result \<times> Store_lv" where
  "MigrateConfirm srcHostID uuid s =
     (case GetHost srcHostID s of
        Inl e \<Rightarrow> (Inl e, s)
      | Inr h \<Rightarrow>
          (case get (h_Domains h) uuid of
             None \<Rightarrow> (Inl ErrNoDomain, s)
           | Some d \<Rightarrow>
               if d_MigrationState d \<noteq> MigrationStatePerforming then (Inl ErrOperationInvalid, s)
               else (Inr (), drop_domain srcHostID h uuid s)))"

section \<open>Statistics\<close>

record Stats_lv =
  sl_TotalHosts :: int
  sl_OnlineHosts :: int
  sl_TotalDomains :: int
  sl_RunningDomains :: int
  sl_TotalVCPUsUsed :: int
  sl_TotalMemoryUsed :: int

definition count_domain :: "string \<Rightarrow> Domain \<Rightarrow> Stats_lv \<Rightarrow> Stats_lv" where
  "count_domain u d st =
     (let st1 = st\<lparr>sl_TotalDomains := int64 (sl_TotalDomains st + 1)\<rparr>;
          st2 = (if d_State d = DomainStateRunning
                 then st1\<lparr>sl_RunningDomains := int64 (sl_RunningDomains st1 + 1)\<rparr> else st1)
      in if active d
         then st2\<lparr>sl_TotalVCPUsUsed := int64 (sl_TotalVCPUsUsed st2 + d_VCPUs d),
                  sl_TotalMemoryUsed := int64 (sl_TotalMemoryUsed st2 + mem_MB d)\<rparr>
         else st2)"

definition count_host :: "string \<Rightarrow> Host \<Rightarrow> Stats_lv \<Rightarrow> Stats_lv" where
  "count_host k h st =
     range_fold count_domain (h_Domains h)
       (if h_State h = HostStateOnline then st\<lparr>sl_OnlineHosts := int64 (sl_OnlineHosts st + 1)\<rparr> else st)"

definition GetStats_lv :: "Store_lv \<Rightarrow> Stats_lv" where
  "GetStats_lv s =
     range_fold count_host (hosts s)
       \<lparr>sl_TotalHosts = map_len (hosts s), sl_OnlineHosts = 0, sl_TotalDomains = 0,
        sl_RunningDomains = 0, sl_TotalVCPUsUsed = 0, sl_TotalMemoryUsed = 0\<rparr>"

text \<open>Neither loop depends on the order in which it meets the maps.\<close>

interpretation count_domain_loop: order_free_loop count_domain
  by unfold_locales (simp add: count_domain_def Let_def algebra_simps)

lemma count_domain_commute: "count_domain u d (count_domain v e st) = count_domain v e (count_domain u d st)"
  by (simp add: count_domain_def Let_def algebra_simps)

definition count_online :: "Host \<Rightarrow> Stats_lv \<Rightarrow> Stats_lv" where
  "count_online h st =
     (if h_State h = HostStateOnline then st\<lparr>sl_OnlineHosts := int64 (sl_OnlineHosts st + 1)\<rparr> else st)"

lemma count_online_commute:
  "count_online h (count_domain u d st) = count_domain u d (count_online h st)"
  "count_online h (count_online g st) = count_online g (count_online h st)"
  by (simp_all add: count_online_def count_domain_def Let_def)

lemma count_domains_commute:
  "loop_over count_domain m us (count_domain v e st) = count_domain v e (loop_over count_domain m us st)"
  "loop_over count_domain m us (count_online h st) = count_online h (loop_over count_domain m us st)"
  by (induction us arbitrary: st)
    (auto simp: count_domain_commute [of _ _ v e] count_online_commute(1) [symmetric] split: option.splits)

lemma count_loops_commute:
  "loop_over count_domain m us (loop_over count_domain n vs st) =
     loop_over count_domain n vs (loop_over count_domain m us st)"
  by (induction us arbitrary: st) (auto simp: count_domains_commute split: option.splits)

interpretation count_host_loop: order_free_loop count_host
  by unfold_locales
    (simp add: count_host_def count_online_def [symmetric] range_fold_def count_domains_commute
      count_online_commute count_loops_commute)

end
