(* ===== verification/Domain_XML.thy ===== *)
theory Domain_XML
  imports Libvirt_State
begin

text \<open>
  Domain descriptions: \<^verbatim>\<open>libvirt-sim/internal/xml/domain.go\<close>. The document is what
  \<^verbatim>\<open>xml.Unmarshal\<close> makes of the text: the parser is an argument \<open>unmarshal\<close>, which gives
  \<open>None\<close> where it reports an error. The rest of the file, units of memory, interface
  identifiers and UUIDs, is modelled in full, and a printed UUID is read back.
\<close>

section \<open>Documents\<close>

record DomainMemory =
  mem_Unit :: string
  mem_Value :: int

record DomainDiskSource =
  ds_Protocol :: string
  ds_Name :: string

record DomainDisk =
  dk_Type :: string
  dk_Source :: DomainDiskSource

record DomainInterfaceSource =
  is_Bridge :: string

record DomainInterfaceTarget =
  it_Dev :: string

record DomainInterfaceVirtPortParams =
  vp_InterfaceID :: string

record DomainInterfaceVirtPort =
  vp_Type :: string
  vp_Parameters :: DomainInterfaceVirtPortParams

record DomainInterface =
  di_Type :: string
  di_Source :: DomainInterfaceSource
  di_Target :: DomainInterfaceTarget
  di_VirtualPort :: "DomainInterfaceVirtPort option"

record DomainHostDevAddress =
  ha_Domain :: string
  ha_Bus :: string
  ha_Slot :: string
  ha_Function :: string

record DomainHostDevSource =
  hs_Address :: DomainHostDevAddress

record DomainHostDev =
  hd_Mode :: string
  hd_Type :: string
  hd_Source :: DomainHostDevSource

record DomainDevices =
  dd_Disks :: "DomainDisk list"
  dd_Interfaces :: "DomainInterface list"
  dd_HostDevs :: "DomainHostDev list"

record DomainXML =
  x_Type :: string
  x_Name :: string
  x_UUID :: string
  x_Memory :: DomainMemory
  x_VCPU :: int
  x_Devices :: DomainDevices

datatype xml_error = ParseDomainXMLError | InvalidUUIDLength int | InvalidUUIDHex

definition ParseDomainXML :: "(string \<Rightarrow> DomainXML option) \<Rightarrow> string \<Rightarrow> xml_error + DomainXML" where
  "ParseDomainXML unmarshal data =
     (case unmarshal data of None \<Rightarrow> Inl ParseDomainXMLError | Some x \<Rightarrow> Inr x)"

text \<open>
  \<^verbatim>\<open>strings.ToLower\<close> as far as a comparison with an ASCII word can see it: ASCII capitals
  become small, and so do the two other characters whose small letter is ASCII, the Kelvin sign
  (U+212A) and the dotted capital I (U+0130), both in UTF-8. Every other character stays
  outside ASCII.
\<close>

definition lower :: "char \<Rightarrow> char" where
  "lower c = (let n = of_char c :: nat in if 65 \<le> n \<and> n \<le> 90 then char_of (n + 32) else c)"

fun ToLower :: "string \<Rightarrow> string" where
  "ToLower [] = []"
| "ToLower (c # cs) =
     (if take 3 (c # cs) = [CHR 0xE2, CHR 0x84, CHR 0xAA] then CHR ''k'' # ToLower (drop 2 cs)
      else if take 2 (c # cs) = [CHR 0xC4, CHR 0xB0] then CHR ''i'' # ToLower (drop 1 cs)
      else lower c # ToLower cs)"

definition MemoryKiB :: "DomainXML \<Rightarrow> int" where
  "MemoryKiB x =
     (let u = ToLower (mem_Unit (x_Memory x)); v = mem_Value (x_Memory x) in
      if u = ''kib'' \<or> u = ''k'' then v
      else if u = ''mib'' \<or> u = ''m'' then int64 (v * 1024)
      else if u = ''gib'' \<or> u = ''g'' then int64 (int64 (v * 1024) * 1024)
      else if u = ''tib'' \<or> u = ''t'' then int64 (int64 (int64 (v * 1024) * 1024) * 1024)
      else if u = ''b'' \<or> u = ''bytes'' then go_div v 1024
      else v)"

definition InterfaceIDs :: "DomainXML \<Rightarrow> string list" where
  "InterfaceIDs x =
     List.map_filter
       (\<lambda>iface. case di_VirtualPort iface of
          None \<Rightarrow> None
        | Some vp \<Rightarrow> if vp_InterfaceID (vp_Parameters vp) \<noteq> '''' then Some (vp_InterfaceID (vp_Parameters vp)) else None)
       (dd_Interfaces (x_Devices x))"

section \<open>UUIDs\<close>

text \<open>\<^verbatim>\<open>hex.DecodeString\<close>: pairs of hexadecimal digits of either case.\<close>

definition hex_val :: "char \<Rightarrow> nat option" where
  "hex_val c =
     (let n = of_char c :: nat in
      if 48 \<le> n \<and> n \<le> 57 then Some (n - 48)
      else if 97 \<le> n \<and> n \<le> 102 then Some (n - 87)
      else if 65 \<le> n \<and> n \<le> 70 then Some (n - 55)
      else None)"

fun DecodeString :: "string \<Rightarrow> byte list option" where
  "DecodeString [] = Some []"
| "DecodeString [c] = None"
| "DecodeString (c # d # cs) =
     (case (hex_val c, hex_val d, DecodeString cs) of
        (Some a, Some b, Some bs) \<Rightarrow> Some (word_of_nat (16 * a + b) # bs)
      | _ \<Rightarrow> None)"

definition ParseUUID :: "string \<Rightarrow> xml_error + byte list" where
  "ParseUUID s =
     (let s' = filter (\<lambda>c. c \<noteq> CHR ''-'') s in
      if length s' \<noteq> 32 then Inl (InvalidUUIDLength (int (length s')))
      else case DecodeString s' of None \<Rightarrow> Inl InvalidUUIDHex | Some b \<Rightarrow> Inr b)"

text \<open>Hexadecimal digits in a field of fixed width.\<close>

fun hex_field :: "nat \<Rightarrow> nat \<Rightarrow> string" where
  "hex_field 0 n = []"
| "hex_field (Suc w) n = hex_field w (n div 16) @ [digit_char (n mod 16)]"

definition hex_byte :: "byte \<Rightarrow> string" where
  "hex_byte b = [digit_char (unat b div 16), digit_char (unat b mod 16)]"

lemma hex_field_0: "hex_field w 0 = replicate w CHR ''0''"
  by (induction w) (simp_all add: digit_char_def replicate_append_same)

lemma show_base_step: "16 \<le> n \<Longrightarrow> show_base 16 n = show_base 16 (n div 16) @ [digit_char (n mod 16)]"
  by (simp add: show_base_def digits_rev.simps [of 16 n])

lemma show_base_digit: "n < 16 \<Longrightarrow> show_base 16 n = [digit_char n]"
  by (simp add: show_base_def digits_rev.simps)

lemma fmt_0x_field: "n < 16 ^ w \<Longrightarrow> 0 < w \<Longrightarrow> fmt_0x w n = hex_field w n"
proof (induction w arbitrary: n)
  case (Suc w)
  show ?case
  proof (cases "n < 16")
    case True
    then show ?thesis
      by (simp add: fmt_0x_def zero_pad_def show_base_digit hex_field_0)
  next
    case False
    with Suc.prems have small: "n div 16 < 16 ^ w" by simp
    moreover from False Suc.prems have "0 < w" by (cases w) auto
    ultimately have "fmt_0x w (n div 16) = hex_field w (n div 16)" by (rule Suc.IH)
    with False show ?thesis
      by (simp add: fmt_0x_def zero_pad_def show_base_step)
  qed
qed simp

lemma be_nat_snoc: "be_nat (bs @ [b]) = be_nat bs * 256 + unat b"
  by (simp add: be_nat_def)

lemma unat_byte: "unat (b :: byte) < 256"
  using unsigned_less [of b] by simp

lemma be_nat_less: "be_nat bs < 16 ^ (2 * length bs)"
proof (induction bs rule: rev_induct)
  case (snoc b bs)
  then show ?case using unat_byte [of b] by (simp add: be_nat_snoc)
qed (simp add: be_nat_def)

lemma hex_field_bytes: "hex_field (2 * length bs) (be_nat bs) = concat (map hex_byte bs)"
proof (induction bs rule: rev_induct)
  case (snoc b bs)
  have "(be_nat bs * 256 + unat b) div 16 div 16 = be_nat bs"
    using unat_byte [of b] by simp
  moreover have "(be_nat bs * 256 + unat b) div 16 mod 16 = unat b div 16"
  proof -
    have "(be_nat bs * 256 + unat b) div 16 = be_nat bs * 16 + unat b div 16" by simp
    moreover have "unat b div 16 < 16" using unat_byte [of b] by simp
    ultimately show ?thesis by simp
  qed
  moreover have "(be_nat bs * 256 + unat b) mod 16 = unat b mod 16"
    using mod_mult_self3 [of "be_nat bs * 16" 16 "unat b"] by (simp add: mult.assoc)
  ultimately show ?case using snoc by (simp add: be_nat_snoc hex_byte_def)
qed simp

lemma fmt_0x_bytes: "bs \<noteq> [] \<Longrightarrow> fmt_0x (2 * length bs) (be_nat bs) = concat (map hex_byte bs)"
  using fmt_0x_field [OF be_nat_less, of bs] hex_field_bytes [of bs] by simp

lemma hex_val_digit: "d < 16 \<Longrightarrow> hex_val (digit_char d) = Some d"
proof -
  have "\<forall>d\<in>set [0..<16]. hex_val (digit_char d) = Some d" by code_simp
  then show "d < 16 \<Longrightarrow> ?thesis" by simp
qed

lemma DecodeString_bytes: "DecodeString (concat (map hex_byte bs)) = Some bs"
proof (induction bs)
  case (Cons b bs)
  have "unat b div 16 < 16" using unat_byte [of b] by simp
  moreover have "16 * (unat b div 16) + unat b mod 16 = unat b" by simp
  ultimately show ?case using Cons by (simp add: hex_byte_def hex_val_digit)
qed simp

lemma uuid_fields:
  assumes "length u = 16"
  shows "uuid_string u = concat (map hex_byte (take 4 u)) @ ''-'' @ concat (map hex_byte (take 2 (drop 4 u))) @ ''-'' @
    concat (map hex_byte (take 2 (drop 6 u))) @ ''-'' @ concat (map hex_byte (take 2 (drop 8 u))) @ ''-'' @
    concat (map hex_byte (take 6 (drop 10 u)))"
  using fmt_0x_bytes [of "take 4 u"] fmt_0x_bytes [of "take 2 (drop 4 u)"] fmt_0x_bytes [of "take 2 (drop 6 u)"]
    fmt_0x_bytes [of "take 2 (drop 8 u)"] fmt_0x_bytes [of "take 6 (drop 10 u)"] assms
  by (cases u) (simp_all add: uuid_string_def)

lemma no_dash_in_bytes: "filter (\<lambda>c. c \<noteq> CHR ''-'') (concat (map hex_byte bs)) = concat (map hex_byte bs)"
proof -
  have "digit_char (unat b div 16) \<noteq> CHR ''-''" "digit_char (unat b mod 16) \<noteq> CHR ''-''" for b :: byte
    using unat_byte [of b] by (simp_all add: digit_char_not_minus)
  then show ?thesis by (induction bs) (simp_all add: hex_byte_def)
qed

lemma uuid_split:
  assumes "length u = 16"
  shows "take 4 u @ take 2 (drop 4 u) @ take 2 (drop 6 u) @ take 2 (drop 8 u) @ take 6 (drop 10 u) = u"
  using assms append_take_drop_id [of 2 "drop 8 u"] append_take_drop_id [of 2 "drop 6 u"]
    append_take_drop_id [of 2 "drop 4 u"] append_take_drop_id [of 4 u]
  by (simp add: drop_drop)

lemma ParseUUID_uuid_string:
  assumes "length u = 16"
  shows "ParseUUID (uuid_string u) = Inr u"
proof -
  have "filter (\<lambda>c. c \<noteq> CHR ''-'') (uuid_string u) =
      concat (map hex_byte (take 4 u @ take 2 (drop 4 u) @ take 2 (drop 6 u) @ take 2 (drop 8 u) @ take 6 (drop 10 u)))"
    by (simp add: uuid_fields [OF assms] no_dash_in_bytes)
  then have plain: "filter (\<lambda>c. c \<noteq> CHR ''-'') (uuid_string u) = concat (map hex_byte u)"
    by (simp only: uuid_split [OF assms])
  moreover have "length (concat (map hex_byte bs)) = 2 * length bs" for bs
    by (induction bs) (simp_all add: hex_byte_def)
  ultimately show ?thesis
    using assms by (simp add: ParseUUID_def DecodeString_bytes)
qed

lemma uuid_string_inj: "length u = 16 \<Longrightarrow> length v = 16 \<Longrightarrow> uuid_string u = uuid_string v \<longleftrightarrow> u = v"
  using ParseUUID_uuid_string by (metis sum.inject(2))

end
