(* ===== verification/XDR.thy ===== *)
theory XDR
  imports Domain_XML
begin

text \<open>
  XDR and the framing of RPC messages: \<^verbatim>\<open>libvirt-sim/internal/rpc/xdr.go\<close> and
  \<^verbatim>\<open>protocol.go\<close>. An encoder is its buffer. A decoder is the data with a position; reading
  gives the value, or \<open>None\<close> for an unexpected end, and the decoder after it. Unsigned integers
  are words, signed ones integers that the encoder takes at their width. A connection is the
  list of the bytes that are still to come.
\<close>

section \<open>Big-endian integers\<close>

fun put_be :: "nat \<Rightarrow> nat \<Rightarrow> byte list" where
  "put_be 0 n = []"
| "put_be (Suc k) n = put_be k (n div 256) @ [word_of_nat (n mod 256)]"

definition PutUint32 :: "32 word \<Rightarrow> byte list" where
  "PutUint32 v = put_be 4 (unat v)"

definition PutUint64 :: "64 word \<Rightarrow> byte list" where
  "PutUint64 v = put_be 8 (unat v)"

definition Uint32 :: "byte list \<Rightarrow> 32 word" where
  "Uint32 bs = word_of_nat (be_nat (take 4 bs))"

definition Uint64 :: "byte list \<Rightarrow> 64 word" where
  "Uint64 bs = word_of_nat (be_nat (take 8 bs))"

lemma length_put_be [simp]: "length (put_be k n) = k"
  by (induction k arbitrary: n) simp_all

lemma be_nat_put_be: "be_nat (put_be k n) = n mod 256 ^ k"
proof (induction k arbitrary: n)
  case (Suc k)
  have "be_nat (put_be (Suc k) n) = (n div 256) mod 256 ^ k * 256 + n mod 256"
    using Suc by (simp add: be_nat_snoc unat_of_nat)
  also have "\<dots> = n mod 256 ^ Suc k"
    by (simp add: mod_mult2_eq mult.commute)
  finally show ?case .
qed (simp add: be_nat_def)

lemma put_be_be_nat: "put_be (length bs) (be_nat bs) = bs"
proof (induction bs rule: rev_induct)
  case (snoc b bs)
  have "(be_nat bs * 256 + unat b) div 256 = be_nat bs" "(be_nat bs * 256 + unat b) mod 256 = unat b"
    using unat_byte [of b] by simp_all
  with snoc show ?case by (simp add: be_nat_snoc)
qed simp

lemma Uint32_PutUint32: "Uint32 (PutUint32 v @ ys) = v"
proof -
  have "unat v < 2 ^ LENGTH(32)" by (rule unsigned_less)
  then have "unat v < 256 ^ 4" by simp
  then have "unat v mod 256 ^ 4 = unat v" by (rule mod_less)
  then show ?thesis by (simp add: Uint32_def PutUint32_def be_nat_put_be)
qed

lemma Uint64_PutUint64: "Uint64 (PutUint64 v @ ys) = v"
proof -
  have "unat v < 2 ^ LENGTH(64)" by (rule unsigned_less)
  then have "unat v < 256 ^ 8" by simp
  then have "unat v mod 256 ^ 8 = unat v" by (rule mod_less)
  then show ?thesis by (simp add: Uint64_def PutUint64_def be_nat_put_be)
qed

lemma PutUint32_Uint32: "length bs = 4 \<Longrightarrow> PutUint32 (Uint32 bs) = bs"
  using be_nat_less [of bs] put_be_be_nat [of bs] by (simp add: Uint32_def PutUint32_def unat_of_nat)

lemma length_Put [simp]: "length (PutUint32 v) = 4" "length (PutUint64 w) = 8"
  by (simp_all add: PutUint32_def PutUint64_def)

section \<open>Strings as bytes\<close>

definition bytes_of :: "string \<Rightarrow> byte list" where
  "bytes_of s = map (\<lambda>c. word_of_nat (of_char c)) s"

definition string_of :: "byte list \<Rightarrow> string" where
  "string_of bs = map (\<lambda>b. char_of (unat b)) bs"

lemma string_of_bytes_of [simp]: "string_of (bytes_of s) = s"
proof -
  have "of_char c < (256 :: nat)" for c by simp
  then show ?thesis by (induction s) (simp_all add: string_of_def bytes_of_def unat_of_nat)
qed

lemma length_bytes_of [simp]: "length (bytes_of s) = length s"
  by (simp add: bytes_of_def)

section \<open>Encoding\<close>

definition WriteInt32 :: "int \<Rightarrow> byte list \<Rightarrow> byte list" where
  "WriteInt32 v buf = buf @ PutUint32 (word_of_int v)"

definition WriteUint32 :: "32 word \<Rightarrow> byte list \<Rightarrow> byte list" where
  "WriteUint32 v buf = buf @ PutUint32 v"

definition WriteInt64 :: "int \<Rightarrow> byte list \<Rightarrow> byte list" where
  "WriteInt64 v buf = buf @ PutUint64 (word_of_int v)"

definition WriteUint64 :: "64 word \<Rightarrow> byte list \<Rightarrow> byte list" where
  "WriteUint64 v buf = buf @ PutUint64 v"

definition pad4 :: "nat \<Rightarrow> nat" where
  "pad4 n = (4 - n mod 4) mod 4"

definition WriteString :: "string \<Rightarrow> byte list \<Rightarrow> byte list" where
  "WriteString s buf =
     WriteUint32 (word_of_nat (length s)) buf @ bytes_of s @ replicate (pad4 (length s)) 0"

definition WriteOptionalString :: "string option \<Rightarrow> byte list \<Rightarrow> byte list" where
  "WriteOptionalString so buf =
     (case so of None \<Rightarrow> WriteUint32 0 buf | Some s \<Rightarrow> WriteString s (WriteUint32 1 buf))"

definition WriteFixedOpaque :: "byte list \<Rightarrow> nat \<Rightarrow> byte list \<Rightarrow> byte list" where
  "WriteFixedOpaque data sz buf =
     buf @ take sz data @ replicate (sz - length data) 0 @ replicate (pad4 sz) 0"

definition WriteUUID :: "byte list \<Rightarrow> byte list \<Rightarrow> byte list" where
  "WriteUUID uuid buf = buf @ uuid"

definition WriteBool :: "bool \<Rightarrow> byte list \<Rightarrow> byte list" where
  "WriteBool v buf = (if v then WriteUint32 1 buf else WriteUint32 0 buf)"

definition WriteUint8 :: "byte \<Rightarrow> byte list \<Rightarrow> byte list" where
  "WriteUint8 v buf = WriteUint32 (ucast v) buf"

definition WriteUint16 :: "16 word \<Rightarrow> byte list \<Rightarrow> byte list" where
  "WriteUint16 v buf = WriteUint32 (ucast v) buf"

section \<open>Decoding\<close>

record XDRDecoder =
  dec_data :: "byte list"
  dec_pos :: nat

type_synonym 'a reading = "XDRDecoder \<Rightarrow> 'a option \<times> XDRDecoder"

definition NewXDRDecoder :: "byte list \<Rightarrow> XDRDecoder" where
  "NewXDRDecoder data = \<lparr>dec_data = data, dec_pos = 0\<rparr>"

definition Remaining :: "XDRDecoder \<Rightarrow> int" where
  "Remaining d = int (length (dec_data d)) - int (dec_pos d)"

definition ReadInt32 :: "int reading" where
  "ReadInt32 d =
     (if dec_pos d + 4 > length (dec_data d) then (None, d)
      else (Some (sint (Uint32 (drop (dec_pos d) (dec_data d)))), d\<lparr>dec_pos := dec_pos d + 4\<rparr>))"

definition ReadUint32 :: "32 word reading" where
  "ReadUint32 d =
     (if dec_pos d + 4 > length (dec_data d) then (None, d)
      else (Some (Uint32 (drop (dec_pos d) (dec_data d))), d\<lparr>dec_pos := dec_pos d + 4\<rparr>))"

definition ReadInt64 :: "int reading" where
  "ReadInt64 d =
     (if dec_pos d + 8 > length (dec_data d) then (None, d)
      else (Some (sint (Uint64 (drop (dec_pos d) (dec_data d)))), d\<lparr>dec_pos := dec_pos d + 8\<rparr>))"

definition ReadUint64 :: "64 word reading" where
  "ReadUint64 d =
     (if dec_pos d + 8 > length (dec_data d) then (None, d)
      else (Some (Uint64 (drop (dec_pos d) (dec_data d))), d\<lparr>dec_pos := dec_pos d + 8\<rparr>))"

text \<open>A string may end the data: its padding is skipped without a look at the end.\<close>

definition ReadString :: "string reading" where
  "ReadString d =
     (case ReadUint32 d of
        (None, d1) \<Rightarrow> (None, d1)
      | (Some n, d1) \<Rightarrow>
          if dec_pos d1 + unat n > length (dec_data d1) then (None, d1)
          else (Some (string_of (take (unat n) (drop (dec_pos d1) (dec_data d1)))),
                d1\<lparr>dec_pos := dec_pos d1 + unat n + pad4 (unat n)\<rparr>))"

definition ReadOptionalString :: "string option reading" where
  "ReadOptionalString d =
     (case ReadUint32 d of
        (None, d1) \<Rightarrow> (None, d1)
      | (Some present, d1) \<Rightarrow>
          if present = 0 then (Some None, d1)
          else (case ReadString d1 of (None, d2) \<Rightarrow> (None, d2) | (Some s, d2) \<Rightarrow> (Some (Some s), d2)))"

definition ReadUUID :: "byte list reading" where
  "ReadUUID d =
     (if dec_pos d + 16 > length (dec_data d) then (None, d)
      else (Some (take 16 (drop (dec_pos d) (dec_data d))), d\<lparr>dec_pos := dec_pos d + 16\<rparr>))"

definition ReadFixedOpaque :: "nat \<Rightarrow> byte list reading" where
  "ReadFixedOpaque sz d =
     (if dec_pos d + sz > length (dec_data d) then (None, d)
      else (Some (take sz (drop (dec_pos d) (dec_data d))), d\<lparr>dec_pos := dec_pos d + sz + pad4 sz\<rparr>))"

section \<open>Codecs\<close>

text \<open>
  The interface between a writer and a reader: the writer appends, and the reader, standing where
  the writer stood, gives the value back and stands where the writer ended.
\<close>

locale xdr_codec =
  fixes wr :: "'a \<Rightarrow> byte list \<Rightarrow> byte list" and rd :: "'a reading" and ok :: "'a \<Rightarrow> bool"
  assumes appends: "wr v buf = buf @ wr v []"
    and reads_back: "ok v \<Longrightarrow>
      rd \<lparr>dec_data = buf @ wr v [] @ ys, dec_pos = length buf\<rparr> =
        (Some v, \<lparr>dec_data = buf @ wr v [] @ ys, dec_pos = length (buf @ wr v [])\<rparr>)"
begin

lemma reads_first: "ok v \<Longrightarrow> rd (NewXDRDecoder (wr v [] @ ys)) =
    (Some v, \<lparr>dec_data = wr v [] @ ys, dec_pos = length (wr v [])\<rparr>)"
  using reads_back [of v "[]"] by (simp add: NewXDRDecoder_def)

lemma reads_on: "ok v \<Longrightarrow> n = length xs \<Longrightarrow> data = xs @ wr v [] @ ys \<Longrightarrow>
    rd \<lparr>dec_data = data, dec_pos = n\<rparr> = (Some v, \<lparr>dec_data = data, dec_pos = n + length (wr v [])\<rparr>)"
  using reads_back [of v xs] by simp

text \<open>Writing never makes two values look alike.\<close>

lemma writes_injective: "ok v \<Longrightarrow> ok w \<Longrightarrow> wr v buf @ ys = wr w buf @ zs \<Longrightarrow> v = w \<and> ys = zs"
proof -
  assume a: "ok v" "ok w" "wr v buf @ ys = wr w buf @ zs"
  then have eq: "wr v [] @ ys = wr w [] @ zs"
    using appends [of v buf] appends [of w buf] by simp
  then have "v = w" using reads_first [OF a(1), of ys] reads_first [OF a(2), of zs] by simp
  with eq show ?thesis by simp
qed

end

text \<open>Two codecs in sequence are a codec.\<close>

definition then_write :: "('a \<Rightarrow> byte list \<Rightarrow> byte list) \<Rightarrow> ('b \<Rightarrow> byte list \<Rightarrow> byte list) \<Rightarrow> 'a \<times> 'b \<Rightarrow> byte list \<Rightarrow> byte list" where
  "then_write f g p buf = g (snd p) (f (fst p) buf)"

definition then_read :: "'a reading \<Rightarrow> 'b reading \<Rightarrow> ('a \<times> 'b) reading" where
  "then_read f g d =
     (case f d of
        (None, d1) \<Rightarrow> (None, d1)
      | (Some a, d1) \<Rightarrow> (case g d1 of (None, d2) \<Rightarrow> (None, d2) | (Some b, d2) \<Rightarrow> (Some (a, b), d2)))"

locale xdr_pair = one: xdr_codec wr1 rd1 ok1 + two: xdr_codec wr2 rd2 ok2
  for wr1 :: "'a \<Rightarrow> byte list \<Rightarrow> byte list" and rd1 ok1
    and wr2 :: "'b \<Rightarrow> byte list \<Rightarrow> byte list" and rd2 ok2

sublocale xdr_pair \<subseteq> xdr_codec "then_write wr1 wr2" "then_read rd1 rd2" "\<lambda>p. ok1 (fst p) \<and> ok2 (snd p)"
proof unfold_locales
  fix v buf ys
  show app: "then_write wr1 wr2 v buf = buf @ then_write wr1 wr2 v []" for v buf
    using one.appends [of "fst v" buf] two.appends [of "snd v" "buf @ wr1 (fst v) []"]
      two.appends [of "snd v" "wr1 (fst v) []"]
    by (simp add: then_write_def)
  assume ok: "ok1 (fst v) \<and> ok2 (snd v)"
  have w: "then_write wr1 wr2 v [] = wr1 (fst v) [] @ wr2 (snd v) []"
    using two.appends [of "snd v" "wr1 (fst v) []"] by (simp add: then_write_def)
  show "then_read rd1 rd2 \<lparr>dec_data = buf @ then_write wr1 wr2 v [] @ ys, dec_pos = length buf\<rparr> =
     (Some v, \<lparr>dec_data = buf @ then_write wr1 wr2 v [] @ ys, dec_pos = length (buf @ then_write wr1 wr2 v [])\<rparr>)"
    using ok one.reads_back [of "fst v" buf "wr2 (snd v) [] @ ys"]
      two.reads_back [of "snd v" "buf @ wr1 (fst v) []" ys]
    by (simp add: then_read_def w)
qed

section \<open>The encoders and decoders are codecs\<close>

lemma sint_word_of_int_32: "- 2147483648 \<le> v \<Longrightarrow> v \<le> 2147483647 \<Longrightarrow> sint (word_of_int v :: 32 word) = v"
  by (simp add: signed_of_int signed_take_bit_int_eq_self)

lemma sint_word_of_int_64: "MinInt64 \<le> v \<Longrightarrow> v \<le> MaxInt64 \<Longrightarrow> sint (word_of_int v :: 64 word) = v"
  by (simp add: signed_of_int signed_take_bit_int_eq_self)

abbreviation any :: "'a \<Rightarrow> bool" where
  "any \<equiv> \<lambda>_. True"

definition is_int32 :: "int \<Rightarrow> bool" where
  "is_int32 v \<longleftrightarrow> - 2147483648 \<le> v \<and> v \<le> 2147483647"

definition is_int64 :: "int \<Rightarrow> bool" where
  "is_int64 v \<longleftrightarrow> MinInt64 \<le> v \<and> v \<le> MaxInt64"

definition short :: "string \<Rightarrow> bool" where
  "short s \<longleftrightarrow> length s < 2 ^ 32"

interpretation uint32: xdr_codec WriteUint32 ReadUint32 any
  by unfold_locales (simp_all add: WriteUint32_def ReadUint32_def Uint32_PutUint32)

interpretation int32: xdr_codec WriteInt32 ReadInt32 is_int32
  by unfold_locales
    (simp_all add: WriteInt32_def ReadInt32_def Uint32_PutUint32 sint_word_of_int_32 is_int32_def)

interpretation uint64: xdr_codec WriteUint64 ReadUint64 any
  by unfold_locales (simp_all add: WriteUint64_def ReadUint64_def Uint64_PutUint64)

interpretation int64: xdr_codec WriteInt64 ReadInt64 is_int64
  by unfold_locales
    (simp_all add: WriteInt64_def ReadInt64_def Uint64_PutUint64 sint_word_of_int_64 is_int64_def)

interpretation uuid: xdr_codec WriteUUID ReadUUID "\<lambda>u. length u = 16"
  by unfold_locales (simp_all add: WriteUUID_def ReadUUID_def)

interpretation str: xdr_codec WriteString ReadString short
proof unfold_locales
  show "WriteString v buf = buf @ WriteString v []" for v buf
    by (simp add: WriteString_def WriteUint32_def)
  fix v buf ys
  assume "short v"
  then have n: "unat (word_of_nat (length v) :: 32 word) = length v"
    by (simp add: short_def unat_of_nat)
  let ?rest = "bytes_of v @ replicate (pad4 (length v)) 0 @ ys"
  have "WriteString v [] @ ys = WriteUint32 (word_of_nat (length v)) [] @ ?rest"
    by (simp add: WriteString_def)
  then show "ReadString \<lparr>dec_data = buf @ WriteString v [] @ ys, dec_pos = length buf\<rparr> =
      (Some v, \<lparr>dec_data = buf @ WriteString v [] @ ys, dec_pos = length (buf @ WriteString v [])\<rparr>)"
    using uint32.reads_back [where v = "word_of_nat (length v)" and buf = buf and ys = ?rest] n
    by (simp add: ReadString_def WriteString_def WriteUint32_def)
qed

interpretation optional_str: xdr_codec WriteOptionalString ReadOptionalString "pred_option short"
proof unfold_locales
  show "WriteOptionalString v buf = buf @ WriteOptionalString v []" for v buf
    using str.appends [of _ "PutUint32 1"] str.appends [of _ "buf @ PutUint32 1"]
    by (auto simp: WriteOptionalString_def WriteUint32_def split: option.split)
  fix v buf ys
  assume ok: "pred_option short v"
  show "ReadOptionalString \<lparr>dec_data = buf @ WriteOptionalString v [] @ ys, dec_pos = length buf\<rparr> =
      (Some v, \<lparr>dec_data = buf @ WriteOptionalString v [] @ ys, dec_pos = length (buf @ WriteOptionalString v [])\<rparr>)"
  proof (cases v)
    case None
    then show ?thesis
      using uint32.reads_back [where v = 0 and buf = buf and ys = ys] by (simp add: WriteOptionalString_def ReadOptionalString_def)
  next
    case (Some s)
    then have "short s" using ok by simp
    then show ?thesis
      using Some uint32.reads_back [where v = 1 and buf = buf and ys = "WriteString s [] @ ys"]
        str.reads_back [of s "buf @ WriteUint32 1 []" ys] str.appends [of s "WriteUint32 1 []"]
      by (simp add: WriteOptionalString_def ReadOptionalString_def)
  qed
qed

interpretation fixed_opaque: xdr_codec "\<lambda>v. WriteFixedOpaque v n" "ReadFixedOpaque n" "\<lambda>v. length v = n"
  by unfold_locales (simp_all add: WriteFixedOpaque_def ReadFixedOpaque_def)

section \<open>Messages\<close>

abbreviation (input) RemoteProgram :: "32 word" where "RemoteProgram \<equiv> 0x20008086"
abbreviation (input) RemoteProtocolVersion :: "32 word" where "RemoteProtocolVersion \<equiv> 1"
abbreviation (input) HeaderSize :: nat where "HeaderSize \<equiv> 24"
abbreviation (input) MaxMessageSize :: nat where "MaxMessageSize \<equiv> 4194304"
abbreviation (input) MessageTypeCall :: int where "MessageTypeCall \<equiv> 0"
abbreviation (input) MessageTypeReply :: int where "MessageTypeReply \<equiv> 1"
abbreviation (input) MessageTypeMessage :: int where "MessageTypeMessage \<equiv> 2"
abbreviation (input) StatusOK :: int where "StatusOK \<equiv> 0"
abbreviation (input) StatusError :: int where "StatusError \<equiv> 1"

record Header =
  Program :: "32 word"
  Version :: "32 word"
  Procedure :: int
  Type :: int
  Serial :: "32 word"
  Status :: int

record Message =
  msg_Header :: Header
  msg_Body :: "byte list"

datatype rpc_error = HeaderTooShort nat | ReadLength | MessageTooShort nat | MessageTooLarge nat | ReadPayload

definition Encode :: "Header \<Rightarrow> byte list" where
  "Encode h =
     (let b1 = WriteUint32 (Program h) []; b2 = WriteUint32 (Version h) b1;
          b3 = WriteInt32 (Procedure h) b2; b4 = WriteInt32 (Type h) b3;
          b5 = WriteUint32 (Serial h) b4
      in WriteInt32 (Status h) b5)"

definition or_zero :: "'a::zero option \<Rightarrow> 'a" where
  "or_zero x = (case x of None \<Rightarrow> 0 | Some v \<Rightarrow> v)"

definition DecodeHeader :: "byte list \<Rightarrow> rpc_error + Header" where
  "DecodeHeader data =
     (if length data < HeaderSize then Inl (HeaderTooShort (length data))
      else let (prog, d1) = ReadUint32 (NewXDRDecoder data); (vers, d2) = ReadUint32 d1;
               (proc, d3) = ReadInt32 d2; (typ, d4) = ReadInt32 d3;
               (serial, d5) = ReadUint32 d4; (st, d6) = ReadInt32 d5
           in Inr \<lparr>Program = or_zero prog, Version = or_zero vers, Procedure = or_zero proc,
                   Type = or_zero typ, Serial = or_zero serial, Status = or_zero st\<rparr>)"

text \<open>\<^verbatim>\<open>io.ReadFull\<close>: the next \<open>n\<close> bytes, or nothing when the stream ends before.\<close>

definition ReadFull :: "nat \<Rightarrow> byte list \<Rightarrow> byte list option \<times> byte list" where
  "ReadFull n conn = (if length conn < n then (None, []) else (Some (take n conn), drop n conn))"

definition ReadMessage :: "byte list \<Rightarrow> (rpc_error + Message) \<times> byte list" where
  "ReadMessage conn =
     (case ReadFull 4 conn of
        (None, c1) \<Rightarrow> (Inl ReadLength, c1)
      | (Some lenBuf, c1) \<Rightarrow>
          let totalLen = unat (Uint32 lenBuf) in
          if totalLen < 4 + HeaderSize then (Inl (MessageTooShort totalLen), c1)
          else if totalLen > MaxMessageSize then (Inl (MessageTooLarge totalLen), c1)
          else case ReadFull (totalLen - 4) c1 of
            (None, c2) \<Rightarrow> (Inl ReadPayload, c2)
          | (Some payload, c2) \<Rightarrow>
              (case DecodeHeader (take HeaderSize payload) of
                 Inl e \<Rightarrow> (Inl e, c2)
               | Inr h \<Rightarrow> (Inr \<lparr>msg_Header = h, msg_Body = drop HeaderSize payload\<rparr>, c2)))"

definition WriteMessage :: "Message \<Rightarrow> byte list" where
  "WriteMessage m =
     (let headerBytes = Encode (msg_Header m);
          totalLen = 4 + length headerBytes + length (msg_Body m)
      in PutUint32 (word_of_nat totalLen) @ headerBytes @ msg_Body m)"

definition NewReply :: "Header \<Rightarrow> int \<Rightarrow> byte list \<Rightarrow> Message" where
  "NewReply req st body =
     \<lparr>msg_Header = \<lparr>Program = RemoteProgram, Version = RemoteProtocolVersion,
        Procedure = Procedure req, Type = MessageTypeReply, Serial = Serial req, Status = st\<rparr>,
      msg_Body = body\<rparr>"

definition header_ok :: "Header \<Rightarrow> bool" where
  "header_ok h \<longleftrightarrow> is_int32 (Procedure h) \<and> is_int32 (Type h) \<and> is_int32 (Status h)"

definition message_ok :: "Message \<Rightarrow> bool" where
  "message_ok m \<longleftrightarrow> header_ok (msg_Header m) \<and> length (msg_Body m) \<le> MaxMessageSize - 28"

lemma Encode_parts:
  "Encode h = PutUint32 (Program h) @ PutUint32 (Version h) @ PutUint32 (word_of_int (Procedure h)) @
     PutUint32 (word_of_int (Type h)) @ PutUint32 (Serial h) @ PutUint32 (word_of_int (Status h))"
  by (simp add: Encode_def WriteUint32_def WriteInt32_def Let_def)

lemma length_Encode [simp]: "length (Encode h) = 24"
  by (simp add: Encode_parts)

lemma DecodeHeader_parts:
  assumes "length a = 4" "length b = 4" "length c = 4" "length d = 4" "length e = 4" "length f = 4"
  shows "DecodeHeader (a @ b @ c @ d @ e @ f @ ys) =
    Inr \<lparr>Program = Uint32 a, Version = Uint32 b, Procedure = sint (Uint32 c), Type = sint (Uint32 d),
         Serial = Uint32 e, Status = sint (Uint32 f)\<rparr>"
  using assms
  by (simp add: DecodeHeader_def ReadUint32_def ReadInt32_def NewXDRDecoder_def or_zero_def Uint32_def)

lemma Uint32_Put [simp]: "Uint32 (PutUint32 v) = v"
  using Uint32_PutUint32 [of v "[]"] by simp

lemma DecodeHeader_Encode: "header_ok h \<Longrightarrow> DecodeHeader (Encode h @ ys) = Inr h"
  using DecodeHeader_parts [of "PutUint32 (Program h)" "PutUint32 (Version h)"
      "PutUint32 (word_of_int (Procedure h))" "PutUint32 (word_of_int (Type h))" "PutUint32 (Serial h)"
      "PutUint32 (word_of_int (Status h))" ys]
  by (simp add: Encode_parts header_ok_def is_int32_def sint_word_of_int_32)

lemma split_24:
  assumes "24 \<le> length bs"
  shows "bs = take 4 bs @ take 4 (drop 4 bs) @ take 4 (drop 8 bs) @ take 4 (drop 12 bs) @
    take 4 (drop 16 bs) @ take 4 (drop 20 bs) @ drop 24 bs"
  using append_take_drop_id [of 4 bs] append_take_drop_id [of 4 "drop 4 bs"]
    append_take_drop_id [of 4 "drop 8 bs"] append_take_drop_id [of 4 "drop 12 bs"]
    append_take_drop_id [of 4 "drop 16 bs"] append_take_drop_id [of 4 "drop 20 bs"]
  by (simp add: drop_drop del: append_take_drop_id)

lemma Encode_DecodeHeader:
  assumes "DecodeHeader bs = Inr h"
  shows "Encode h = take 24 bs \<and> header_ok h"
proof -
  have len: "24 \<le> length bs" using assms by (auto simp: DecodeHeader_def split: if_splits)
  let ?f = "\<lambda>n. take 4 (drop n bs)"
  have parts: "bs = ?f 0 @ ?f 4 @ ?f 8 @ ?f 12 @ ?f 16 @ ?f 20 @ drop 24 bs"
    using split_24 [OF len] by simp
  have four: "length (?f 0) = 4" "length (?f 4) = 4" "length (?f 8) = 4" "length (?f 12) = 4"
    "length (?f 16) = 4" "length (?f 20) = 4"
    using len by simp_all
  have h: "h = \<lparr>Program = Uint32 (?f 0), Version = Uint32 (?f 4), Procedure = sint (Uint32 (?f 8)),
      Type = sint (Uint32 (?f 12)), Serial = Uint32 (?f 16), Status = sint (Uint32 (?f 20))\<rparr>"
    using assms DecodeHeader_parts [OF four, of "drop 24 bs"] parts by simp
  have range: "is_int32 (sint (w :: 32 word))" for w
    using sint_greater_eq [of w] sint_less [of w] by (simp add: is_int32_def)
  have "Encode h = ?f 0 @ ?f 4 @ ?f 8 @ ?f 12 @ ?f 16 @ ?f 20"
    using four by (simp add: Encode_parts h PutUint32_Uint32)
  also have "\<dots> = take 24 bs"
    using arg_cong [OF parts, of "take 24"] four by simp
  finally show ?thesis by (simp add: h header_ok_def range)
qed

lemma ReadMessage_WriteMessage:
  assumes "message_ok m"
  shows "ReadMessage (WriteMessage m @ rest) = (Inr m, rest)"
proof -
  let ?n = "28 + length (msg_Body m)"
  have le: "?n \<le> 4194304" using assms by (simp add: message_ok_def)
  have n: "unat (word_of_nat ?n :: 32 word) = ?n"
    unfolding unat_of_nat by (rule mod_less) (use le in simp)
  have h: "DecodeHeader (Encode (msg_Header m)) = Inr (msg_Header m)"
    using DecodeHeader_Encode [of "msg_Header m" "[]"] assms by (simp add: message_ok_def)
  have w: "WriteMessage m = PutUint32 (word_of_nat ?n) @ Encode (msg_Header m) @ msg_Body m"
    by (simp add: WriteMessage_def Let_def add.commute)
  show ?thesis
    using n le h by (simp add: w ReadMessage_def ReadFull_def Let_def)
qed

end
