(* ===== verification/Libvirt_Invariant.thy ===== *)
theory Libvirt_Invariant
  imports Libvirt_State
begin

text \<open>
  What libvirt-sim keeps true of its hosts and domains: the resources of the active domains of
  a host never exceed what the host offers, the maps of hosts and ports agree, and running
  domains have different identifiers. Requests are values, a run is a list of them, and the
  invariants are kept by every run of orderly requests.
\<close>

section \<open>The invariants\<close>

definition vcpu_sum :: "Host \<Rightarrow> int" where
  "vcpu_sum h = sum_if active d_VCPUs (h_Domains h)"

definition mem_sum :: "Host \<Rightarrow> int" where
  "mem_sum h = sum_if active mem_MB (h_Domains h)"

definition modest :: "Domain \<Rightarrow> bool" where
  "modest d \<longleftrightarrow> length (d_UUID d) = 16 \<and> 0 \<le> d_VCPUs d \<and> d_VCPUs d < 2 ^ 62 \<and>
     0 \<le> d_MemoryKiB d \<and> d_MemoryKiB d < 2 ^ 63"

definition domain_ok :: "string \<Rightarrow> Domain \<Rightarrow> bool" where
  "domain_ok u d \<longleftrightarrow> UUIDString d = u \<and> modest d \<and>
     (d_MigrationState d = MigrationStatePrepared \<longrightarrow> active d)"

definition within_limits :: "Host \<Rightarrow> bool" where
  "within_limits h \<longleftrightarrow> vcpu_sum h \<le> AvailableVCPUs h \<and> AvailableVCPUs h < 2 ^ 62 \<and>
     mem_sum h \<le> AvailableMemoryMB h \<and> AvailableMemoryMB h < 2 ^ 62"

definition host_ok :: "string \<Rightarrow> Host \<Rightarrow> bool" where
  "host_ok hid h \<longleftrightarrow> h_HostID h = hid \<and> fmpred domain_ok (h_Domains h) \<and> within_limits h"

definition ports_ok :: "Store_lv \<Rightarrow> bool" where
  "ports_ok s \<longleftrightarrow>
     fmpred (\<lambda>hid h. get (ports s) (h_LibvirtPort h) = Some hid) (hosts s) \<and>
     fmpred (\<lambda>p hid. \<exists>h. get (hosts s) hid = Some h \<and> h_LibvirtPort h = p) (ports s)"

definition domain_at :: "Store_lv \<Rightarrow> string \<Rightarrow> string \<Rightarrow> Domain \<Rightarrow> bool" where
  "domain_at s hid u d \<longleftrightarrow> (\<exists>h. get (hosts s) hid = Some h \<and> get (h_Domains h) u = Some d)"

definition id_known :: "Store_lv \<Rightarrow> int \<Rightarrow> bool" where
  "id_known s n \<longleftrightarrow> n = - 1 \<or> 0 < n \<and> n < nextDomainID s"

definition ids_distinct :: "Store_lv \<Rightarrow> bool" where
  "ids_distinct s \<longleftrightarrow> 0 < nextDomainID s \<and>
     (\<forall>hid u d. domain_at s hid u d \<longrightarrow> id_known s (d_ID d)) \<and>
     (\<forall>hid u d hid' u' d'. domain_at s hid u d \<longrightarrow> domain_at s hid' u' d' \<longrightarrow> d_ID d = d_ID d' \<longrightarrow>
        d_ID d = - 1 \<or> hid = hid' \<and> u = u')"

definition sound :: "Store_lv \<Rightarrow> bool" where
  "sound s \<longleftrightarrow> fmpred host_ok (hosts s) \<and> ports_ok s"

section \<open>Resources of a host\<close>

lemma mem_MB_nonneg: "modest d \<Longrightarrow> 0 \<le> mem_MB d \<and> mem_MB d < 2 ^ 62"
  by (auto simp: modest_def mem_MB_def go_div_def int_wrap sgn_if)

lemma sums_nonneg:
  assumes "fmpred domain_ok (h_Domains h)"
  shows "0 \<le> vcpu_sum h" and "0 \<le> mem_sum h"
  unfolding vcpu_sum_def mem_sum_def
  by (rule sum_if_nonneg; use assms mem_MB_nonneg in \<open>force simp: domain_ok_def modest_def fmpred_iff\<close>)+

text \<open>Inside the limits the wrapped counters of the code are the sums.\<close>

lemma used_exact:
  assumes "host_ok hid h"
  shows "UsedVCPUs h = vcpu_sum h" and "UsedMemoryMB h = mem_sum h"
proof -
  have "0 \<le> vcpu_sum h" "vcpu_sum h < 2 ^ 62" "0 \<le> mem_sum h" "mem_sum h < 2 ^ 62"
    using assms sums_nonneg [of h] by (auto simp: host_ok_def within_limits_def)
  then show "UsedVCPUs h = vcpu_sum h" "UsedMemoryMB h = mem_sum h"
    by (simp_all add: UsedVCPUs_def UsedMemoryMB_def range_fold_add_if int_wrap
        flip: vcpu_sum_def mem_sum_def)
qed

lemma resources_exact:
  assumes "host_ok hid h" "modest d"
  shows "has_resources h d \<longleftrightarrow>
    vcpu_sum h + d_VCPUs d \<le> AvailableVCPUs h \<and> mem_sum h + mem_MB d \<le> AvailableMemoryMB h"
proof -
  have "0 \<le> vcpu_sum h" "vcpu_sum h < 2 ^ 62" "0 \<le> mem_sum h" "mem_sum h < 2 ^ 62"
    using assms(1) sums_nonneg [of h] by (auto simp: host_ok_def within_limits_def)
  then show ?thesis
    using mem_MB_nonneg [OF assms(2)] assms(2)
    by (auto simp: has_resources_def used_exact [OF assms(1)] int_wrap modest_def)
qed

lemma entry_active_bounds:
  assumes "fmpred domain_ok (h_Domains h)"
  shows "0 \<le> entry_sum active d_VCPUs (get (h_Domains h) u)"
    and "0 \<le> entry_sum active mem_MB (get (h_Domains h) u)"
  using assms mem_MB_nonneg
  by (auto simp: entry_sum_def domain_ok_def modest_def fmpred_iff split: option.split)

lemma offered_unchanged [simp]:
  "AvailableVCPUs (h\<lparr>h_Domains := m\<rparr>) = AvailableVCPUs h"
  "AvailableMemoryMB (h\<lparr>h_Domains := m\<rparr>) = AvailableMemoryMB h"
  by (simp_all add: AvailableVCPUs_def AvailableMemoryMB_def TotalVCPUs_def)

text \<open>
  The one rule for writing a domain: it must not newly claim resources, unless they were
  checked.
\<close>

lemma host_ok_put:
  assumes "host_ok hid h" "domain_ok u d'"
    and claim: "active d' \<Longrightarrow> has_resources h d' \<or>
      (\<exists>d. get (h_Domains h) u = Some d \<and> active d \<and> d_VCPUs d = d_VCPUs d' \<and> d_MemoryKiB d = d_MemoryKiB d')"
  shows "host_ok hid (h\<lparr>h_Domains := fmupd u d' (h_Domains h)\<rparr>)"
proof -
  let ?h' = "h\<lparr>h_Domains := fmupd u d' (h_Domains h)\<rparr>"
  have doms: "fmpred domain_ok (h_Domains h)" and lim: "within_limits h"
    using assms(1) by (simp_all add: host_ok_def)
  have "modest d'" using assms(2) by (simp add: domain_ok_def)
  have "vcpu_sum ?h' \<le> AvailableVCPUs h \<and> mem_sum ?h' \<le> AvailableMemoryMB h"
  proof (cases "active d'")
    case False
    then show ?thesis
      using entry_active_bounds [OF doms, of u] lim
      by (simp add: vcpu_sum_def mem_sum_def sum_if_fmupd within_limits_def)
  next
    case True
    from claim [OF True] show ?thesis
    proof
      assume "has_resources h d'"
      then show ?thesis
        using entry_active_bounds [OF doms, of u] resources_exact [OF assms(1) \<open>modest d'\<close>] True
        by (simp add: vcpu_sum_def mem_sum_def sum_if_fmupd)
    next
      assume "\<exists>d. get (h_Domains h) u = Some d \<and> active d \<and> d_VCPUs d = d_VCPUs d' \<and>
        d_MemoryKiB d = d_MemoryKiB d'"
      then show ?thesis
        using True lim by (auto simp: vcpu_sum_def mem_sum_def sum_if_fmupd within_limits_def mem_MB_def)
    qed
  qed
  then show ?thesis
    using assms(1,2) lim by (auto simp: host_ok_def within_limits_def fmpred_iff)
qed

lemma host_ok_drop:
  assumes "host_ok hid h"
  shows "host_ok hid (h\<lparr>h_Domains := fmdrop u (h_Domains h)\<rparr>)"
  using assms entry_active_bounds [of h u]
  by (auto simp: host_ok_def within_limits_def fmpred_iff vcpu_sum_def mem_sum_def sum_if_fmdrop
      split: if_splits)

lemma sound_put:
  assumes "sound s" "get (hosts s) hid = Some h" "hosts t = hosts s" "ports t = ports s"
    and "host_ok hid (h\<lparr>h_Domains := fmupd u d (h_Domains h)\<rparr>)"
  shows "sound (put_domain hid h u d t)"
  using assms by (fastforce simp: sound_def put_domain_def ports_ok_def fmpred_iff split: if_splits)

lemma sound_drop:
  assumes "sound s" "get (hosts s) hid = Some h"
  shows "sound (drop_domain hid h u s)"
  using assms host_ok_drop [of hid h u]
  by (fastforce simp: sound_def drop_domain_def ports_ok_def fmpred_iff split: if_splits)

lemma sound_host: "sound s \<Longrightarrow> get (hosts s) hid = Some h \<Longrightarrow> host_ok hid h"
  by (auto simp: sound_def)

lemma sound_domain:
  "sound s \<Longrightarrow> get (hosts s) hid = Some h \<Longrightarrow> get (h_Domains h) u = Some d \<Longrightarrow> domain_ok u d"
  using sound_host by (auto simp: host_ok_def)

section \<open>Requests and runs\<close>

datatype lv_request =
    AddHostReq Host
  | RemoveHostReq string
  | ResetLvReq
  | SetHostStateReq string string
  | SetHostConfigReq string "f64 option" "f64 option"
  | SetMigrationConfigReq MigrationConfig
  | SetMigrationSpeedReq "64 word"
  | DefineReq string Domain
  | StartReq string string
  | DestroyReq string string
  | ShutdownReq string string
  | SuspendReq string string
  | ResumeReq string string
  | UndefineReq string string
  | PrepareReq string Domain
  | PerformReq string string
  | FinishReq string string
  | ConfirmReq string string

fun exec_lv :: "int \<Rightarrow> lv_request \<Rightarrow> Store_lv \<Rightarrow> Store_lv" where
  "exec_lv now (AddHostReq h) s = snd (AddHost h s)"
| "exec_lv now (RemoveHostReq hid) s = snd (RemoveHost hid s)"
| "exec_lv now ResetLvReq s = Reset_lv s"
| "exec_lv now (SetHostStateReq hid st) s = set_host_state hid st s"
| "exec_lv now (SetHostConfigReq hid c m) s = set_host_config hid c m s"
| "exec_lv now (SetMigrationConfigReq cfg) s = SetMigrationConfig cfg s"
| "exec_lv now (SetMigrationSpeedReq n) s = SetMigrationSpeed n s"
| "exec_lv now (DefineReq hid d) s = snd (DefineDomain now hid d s)"
| "exec_lv now (StartReq hid u) s = snd (StartDomain now hid u s)"
| "exec_lv now (DestroyReq hid u) s = snd (DestroyDomain hid u s)"
| "exec_lv now (ShutdownReq hid u) s = snd (ShutdownDomain hid u s)"
| "exec_lv now (SuspendReq hid u) s = snd (SuspendDomain hid u s)"
| "exec_lv now (ResumeReq hid u) s = snd (ResumeDomain hid u s)"
| "exec_lv now (UndefineReq hid u) s = snd (UndefineDomain hid u s)"
| "exec_lv now (PrepareReq hid d) s = snd (MigratePrepare hid d s)"
| "exec_lv now (PerformReq hid u) s = snd (MigratePerform hid u s)"
| "exec_lv now (FinishReq hid u) s = snd (MigrateFinish now hid u s)"
| "exec_lv now (ConfirmReq hid u) s = snd (MigrateConfirm hid u s)"

text \<open>
  An orderly request: hosts and domains have sizes that do not overflow, an overcommit ratio is
  not lowered below what is in use, and a domain that has been prepared as the target of a
  migration is not stopped before the migration finishes.
\<close>

definition prepared :: "Store_lv \<Rightarrow> string \<Rightarrow> string \<Rightarrow> bool" where
  "prepared s hid u \<longleftrightarrow>
     (case GetDomain hid u s of Inl _ \<Rightarrow> False | Inr d \<Rightarrow> d_MigrationState d = MigrationStatePrepared)"

definition offers_ok :: "Host \<Rightarrow> bool" where
  "offers_ok h \<longleftrightarrow> 0 \<le> AvailableVCPUs h \<and> AvailableVCPUs h < 2 ^ 62 \<and>
     0 \<le> AvailableMemoryMB h \<and> AvailableMemoryMB h < 2 ^ 62"

fun orderly :: "Store_lv \<Rightarrow> int \<times> lv_request \<Rightarrow> bool" where
  "orderly s (now, AddHostReq h) \<longleftrightarrow> h_Domains h = fmempty \<and> offers_ok (host_defaults h)"
| "orderly s (now, SetHostConfigReq hid c m) \<longleftrightarrow>
     (case get (hosts s) hid of None \<Rightarrow> True | Some h \<Rightarrow> within_limits (host_config c m h))"
| "orderly s (now, DefineReq hid d) \<longleftrightarrow> modest d \<and> d_MigrationState d = MigrationStateNone"
| "orderly s (now, PrepareReq hid d) \<longleftrightarrow> modest d"
| "orderly s (now, DestroyReq hid u) \<longleftrightarrow> \<not> prepared s hid u"
| "orderly s (now, ShutdownReq hid u) \<longleftrightarrow> \<not> prepared s hid u"
| "orderly s (now, _) \<longleftrightarrow> True"

definition lv_step :: "Store_lv \<Rightarrow> int \<times> lv_request \<Rightarrow> Store_lv \<Rightarrow> bool" where
  "lv_step s l t \<longleftrightarrow> t = exec_lv (fst l) (snd l) s"

lemma host_defaults_fields [simp]:
  "h_HostID (host_defaults h) = h_HostID h" "h_LibvirtPort (host_defaults h) = h_LibvirtPort h"
  "h_Domains (host_defaults h) = h_Domains h"
  by (simp_all add: host_defaults_def Let_def)

lemma host_config_fields [simp]:
  "h_HostID (host_config c m h) = h_HostID h" "h_LibvirtPort (host_config c m h) = h_LibvirtPort h"
  "h_Domains (host_config c m h) = h_Domains h"
  by (simp_all add: host_config_def Let_def split: option.split)

lemma sound_AddHost:
  assumes "sound s" "orderly s (now, AddHostReq h)"
  shows "sound (snd (AddHost h s))"
proof (cases "get (hosts s) (h_HostID h) \<noteq> None \<or> get (ports s) (h_LibvirtPort h) \<noteq> None")
  case True
  with assms show ?thesis by (auto simp: AddHost_def)
next
  case False
  let ?t = "snd (AddHost h s)"
  have t: "hosts ?t = fmupd (h_HostID h) (host_defaults h) (hosts s)"
    "ports ?t = fmupd (h_LibvirtPort h) (h_HostID h) (ports s)"
    using False by (simp_all add: AddHost_def)
  have ok: "host_ok (h_HostID h) (host_defaults h)"
    using assms(2) by (simp add: host_ok_def within_limits_def vcpu_sum_def mem_sum_def offers_ok_def)
  have ports: "\<And>hid g. get (hosts s) hid = Some g \<Longrightarrow>
      get (ports s) (h_LibvirtPort g) = Some hid \<and> h_LibvirtPort g \<noteq> h_LibvirtPort h"
    using assms(1) False by (fastforce simp: sound_def ports_ok_def fmpred_iff)
  have hosts: "\<And>p hid. get (ports s) p = Some hid \<Longrightarrow>
      hid \<noteq> h_HostID h \<and> (\<exists>g. get (hosts s) hid = Some g \<and> h_LibvirtPort g = p)"
    using assms(1) False by (fastforce simp: sound_def ports_ok_def fmpred_iff)
  have "fmpred host_ok (hosts ?t)"
    using ok sound_host [OF assms(1)] by (simp add: t fmpred_iff)
  moreover have "ports_ok ?t"
    by (simp add: t ports_ok_def fmpred_iff) (metis ports hosts)
  ultimately show ?thesis by (simp add: sound_def)
qed

lemma sound_RemoveHost:
  assumes "sound s"
  shows "sound (snd (RemoveHost hid s))"
proof (cases "get (hosts s) hid")
  case (Some h)
  let ?t = "snd (RemoveHost hid s)"
  have t: "hosts ?t = fmdrop hid (hosts s)" "ports ?t = fmdrop (h_LibvirtPort h) (ports s)"
    using Some by (simp_all add: RemoveHost_def)
  have ports: "get (hosts s) k = Some g \<Longrightarrow> get (ports s) (h_LibvirtPort g) = Some k" for k g
    using assms by (auto simp: sound_def ports_ok_def fmpred_iff)
  have hosts: "get (ports s) p = Some k \<Longrightarrow> \<exists>g. get (hosts s) k = Some g \<and> h_LibvirtPort g = p" for p k
    using assms by (auto simp: sound_def ports_ok_def fmpred_iff)
  have "fmpred host_ok (hosts ?t)" using assms by (auto simp: t sound_def fmpred_iff split: if_splits)
  moreover have "get (ports ?t) (h_LibvirtPort g) = Some k" if "get (hosts ?t) k = Some g" for k g
    using that ports [OF Some] ports [of k g] by (auto simp: t split: if_splits)
  moreover have "\<exists>g. get (hosts ?t) k = Some g \<and> h_LibvirtPort g = p" if "get (ports ?t) p = Some k" for p k
    using that Some hosts [of p k] by (auto simp: t split: if_splits)
  ultimately have "fmpred host_ok (hosts ?t)" "ports_ok ?t"
    by (simp_all add: ports_ok_def fmpred_iff)
  then show ?thesis by (simp add: sound_def)
qed (simp add: RemoveHost_def assms)

lemma sound_host_change:
  assumes "sound s" "get (hosts s) hid = Some h" "h_HostID h' = h_HostID h" "h_Domains h' = h_Domains h"
    "h_LibvirtPort h' = h_LibvirtPort h" "within_limits h'"
  shows "sound (s\<lparr>hosts := fmupd hid h' (hosts s)\<rparr>)"
  using assms by (fastforce simp: sound_def ports_ok_def fmpred_iff host_ok_def split: if_splits)

lemma sound_set_host:
  assumes "sound s"
  shows "sound (set_host_state hid st s)"
    and "orderly s (now, SetHostConfigReq hid c m) \<Longrightarrow> sound (set_host_config hid c m s)"
proof -
  have "within_limits (h\<lparr>h_State := st\<rparr>)" if "within_limits h" for h
    using that by (simp add: within_limits_def vcpu_sum_def mem_sum_def AvailableVCPUs_def
        AvailableMemoryMB_def TotalVCPUs_def)
  then show "sound (set_host_state hid st s)"
    using assms sound_host [OF assms, of hid]
    by (auto simp: set_host_state_def host_ok_def split: option.split intro!: sound_host_change)
  show "sound (set_host_config hid c m s)" if "orderly s (now, SetHostConfigReq hid c m)"
    using assms that
    by (auto simp: set_host_config_def split: option.splits intro!: sound_host_change)
qed

text \<open>A change of state of a domain that keeps its size and does not make an inactive one active.\<close>

definition tame :: "Domain \<Rightarrow> Domain \<Rightarrow> bool" where
  "tame d d' \<longleftrightarrow> d_UUID d' = d_UUID d \<and> d_VCPUs d' = d_VCPUs d \<and> d_MemoryKiB d' = d_MemoryKiB d \<and>
     (active d' \<longrightarrow> active d) \<and> (d_MigrationState d' = MigrationStatePrepared \<longrightarrow> active d')"

lemma host_ok_tame:
  assumes "host_ok hid h" "get (h_Domains h) u = Some d" "tame d d'"
  shows "host_ok hid (h\<lparr>h_Domains := fmupd u d' (h_Domains h)\<rparr>)"
proof (rule host_ok_put [OF assms(1)])
  have "domain_ok u d" using assms(1,2) by (auto simp: host_ok_def)
  then show "domain_ok u d'"
    using assms(3) by (auto simp: domain_ok_def tame_def modest_def UUIDString_def)
qed (use assms(2,3) in \<open>auto simp: tame_def\<close>)

lemma GetHost_iff [simp]: "GetHost hid s = Inr h \<longleftrightarrow> get (hosts s) hid = Some h"
  by (auto simp: GetHost_def split: option.split)

lemma sound_change_domain:
  assumes "sound s"
    and "\<And>d d'. GetDomain hid u s = Inr d \<Longrightarrow> f d = Inr d' \<Longrightarrow> tame d d'"
  shows "sound (snd (change_domain f hid u s))"
proof (cases "get (hosts s) hid")
  case (Some h)
  then show ?thesis
    using assms sound_host [OF assms(1) Some] assms(2)
    by (auto simp: change_domain_def GetHost_def GetDomain_def split: option.split sum.split
        intro!: sound_put [OF assms(1) Some] host_ok_tame)
qed (simp add: change_domain_def GetHost_def assms)

lemma prepared_active:
  assumes "sound s" "GetDomain hid u s = Inr d" "d_MigrationState d = MigrationStatePrepared"
  shows "active d"
  using assms sound_domain [OF assms(1), of hid _ u d]
  by (auto simp: GetDomain_def GetHost_def domain_ok_def split: option.splits)

lemma sound_transitions:
  assumes "sound s"
  shows "\<not> prepared s hid u \<Longrightarrow> sound (snd (DestroyDomain hid u s))"
    and "\<not> prepared s hid u \<Longrightarrow> sound (snd (ShutdownDomain hid u s))"
    and "sound (snd (SuspendDomain hid u s))" and "sound (snd (ResumeDomain hid u s))"
  unfolding DestroyDomain_def ShutdownDomain_def SuspendDomain_def ResumeDomain_def
  by (rule sound_change_domain [OF assms];
      use prepared_active [OF assms, of hid u] in
      \<open>auto simp: Destroy_def Shutdown_def Suspend_def Resume_def tame_def active_def prepared_def
        split: if_splits\<close>)+

lemma sound_DefineDomain:
  assumes "sound s" "orderly s (now, DefineReq hid d)"
  shows "sound (snd (DefineDomain now' hid d s))"
proof (cases "get (hosts s) hid")
  case (Some h)
  let ?d = "d\<lparr>d_State := DomainStateShutoff, d_ID := - 1, d_CreatedAt := now'\<rparr>"
  have "host_ok hid (h\<lparr>h_Domains := fmupd (UUIDString ?d) ?d (h_Domains h)\<rparr>)"
    by (rule host_ok_put [OF sound_host [OF assms(1) Some]])
      (use assms(2) in \<open>auto simp: domain_ok_def modest_def UUIDString_def active_def\<close>)
  with Some show ?thesis
    by (simp add: DefineDomain_def GetHost_def Let_def sound_put [OF assms(1) Some])
qed (simp add: DefineDomain_def GetHost_def assms)

lemma take_id_keeps [simp]:
  "hosts (snd (take_id s)) = hosts s" "ports (snd (take_id s)) = ports s"
  by (simp_all add: take_id_def Let_def)

lemma sound_StartDomain:
  assumes "sound s"
  shows "sound (snd (StartDomain now hid u s))"
proof (cases "\<exists>h d. get (hosts s) hid = Some h \<and> get (h_Domains h) u = Some d \<and>
    d_State d = DomainStateShutoff \<and> has_resources h d")
  case False
  then have "snd (StartDomain now hid u s) = s"
    by (auto simp: StartDomain_def GetHost_def split: option.split prod.split)
  with assms show ?thesis by simp
next
  case True
  then obtain h d where h: "get (hosts s) hid = Some h" and d: "get (h_Domains h) u = Some d"
    and off: "d_State d = DomainStateShutoff" "has_resources h d" by blast
  let ?d = "d\<lparr>d_State := DomainStateRunning, d_ID := fst (take_id s), d_StartedAt := now\<rparr>"
  have "host_ok hid (h\<lparr>h_Domains := fmupd u ?d (h_Domains h)\<rparr>)"
    by (rule host_ok_put [OF sound_host [OF assms h]])
      (use sound_domain [OF assms h d] off in \<open>auto simp: domain_ok_def modest_def UUIDString_def
        active_def has_resources_def mem_MB_def\<close>)
  with h d off show ?thesis
    by (simp add: StartDomain_def GetHost_def case_prod_beta sound_put [OF assms h])
qed

lemma sound_removals:
  assumes "sound s"
  shows "sound (snd (UndefineDomain hid u s))" and "sound (snd (MigrateConfirm hid u s))"
  by (auto simp: UndefineDomain_def MigrateConfirm_def GetHost_def assms sound_drop [OF assms]
      split: option.split)

lemma sound_MigratePrepare:
  assumes "sound s" "modest vm"
  shows "sound (snd (MigratePrepare hid vm s))"
proof (cases "\<exists>h. get (hosts s) hid = Some h \<and> h_State h = HostStateOnline \<and>
    get (h_Domains h) (UUIDString vm) = None \<and> has_resources h vm")
  case False
  then have "snd (MigratePrepare hid vm s) = s"
    by (auto simp: MigratePrepare_def GetHost_def split: option.split)
  with assms show ?thesis by simp
next
  case True
  then obtain h where h: "get (hosts s) hid = Some h" and ok: "h_State h = HostStateOnline"
    "get (h_Domains h) (UUIDString vm) = None" "has_resources h vm" by blast
  let ?d = "\<lparr>d_Name = d_Name vm, d_UUID = d_UUID vm, d_ID = - 1, d_State = DomainStatePaused,
      d_VCPUs = d_VCPUs vm, d_MemoryKiB = d_MemoryKiB vm, d_XML = d_XML vm,
      d_CreatedAt = d_CreatedAt vm, d_StartedAt = 0, d_InterfaceIDs = d_InterfaceIDs vm,
      d_MigrationState = MigrationStatePrepared, d_MigrationCookie = UUIDString vm\<rparr>"
  have "host_ok hid (h\<lparr>h_Domains := fmupd (UUIDString vm) ?d (h_Domains h)\<rparr>)"
    by (rule host_ok_put [OF sound_host [OF assms(1) h]])
      (use assms(2) ok(3) in \<open>auto simp: domain_ok_def modest_def UUIDString_def active_def
        has_resources_def mem_MB_def\<close>)
  with h ok show ?thesis
    by (simp add: MigratePrepare_def GetHost_def sound_put [OF assms(1) h])
qed

lemma sound_MigratePerform:
  assumes "sound s"
  shows "sound (snd (MigratePerform hid u s))"
proof (cases "get (hosts s) hid")
  case (Some h)
  have "tame d (d\<lparr>d_MigrationState := MigrationStatePerforming, d_MigrationCookie := u\<rparr>)" for d
    by (simp add: tame_def active_def)
  with assms show ?thesis
    by (auto simp: MigratePerform_def GetHost_def Some split: option.split
        intro!: sound_put [OF assms Some] host_ok_tame [OF sound_host [OF assms Some]])
qed (simp add: MigratePerform_def GetHost_def assms)

lemma sound_MigrateFinish:
  assumes "sound s"
  shows "sound (snd (MigrateFinish now hid u s))"
proof (cases "get (hosts s) hid")
  case (Some h)
  show ?thesis
  proof (cases "\<exists>d. get (h_Domains h) u = Some d \<and> d_MigrationState d = MigrationStatePrepared")
    case True
    then obtain d where d: "get (h_Domains h) u = Some d" "d_MigrationState d = MigrationStatePrepared"
      by blast
    then have "active d" using sound_domain [OF assms Some d(1)] by (simp add: domain_ok_def)
    then have "tame d (d\<lparr>d_State := DomainStateRunning, d_ID := n, d_StartedAt := now,
        d_MigrationState := MigrationStateNone, d_MigrationCookie := ''''\<rparr>)" for n
      by (simp add: tame_def active_def)
    then show ?thesis
      using d host_ok_tame [OF sound_host [OF assms Some] d(1)]
      by (simp add: MigrateFinish_def GetHost_def Some case_prod_beta Let_def sound_put [OF assms Some])
  qed (use assms in \<open>auto simp: MigrateFinish_def GetHost_def Some split: option.split\<close>)
qed (simp add: MigrateFinish_def GetHost_def assms)

lemma exec_lv_sound:
  assumes "sound s" "orderly s (now, r)"
  shows "sound (exec_lv now r s)"
proof -
  have "sound (SetMigrationConfig cfg s)" "sound (SetMigrationSpeed n s)" "sound (Reset_lv s)" for cfg n
    using assms(1) by (simp_all add: sound_def ports_ok_def SetMigrationConfig_def SetMigrationSpeed_def
        Reset_lv_def)
  then show ?thesis
    using assms
    by (cases r) (auto intro: sound_AddHost sound_RemoveHost sound_set_host sound_DefineDomain
        sound_StartDomain sound_transitions sound_removals sound_MigratePrepare sound_MigratePerform
        sound_MigrateFinish)
qed

interpretation libvirt: kept_by_steps lv_step orderly sound
  by unfold_locales (auto simp: lv_step_def intro: exec_lv_sound)

lemma sound_NewStore: "sound NewStore_lv"
  by (simp add: sound_def ports_ok_def NewStore_lv_def)

section \<open>Identifiers of running domains\<close>

text \<open>
  A step writes at most one domain, and gives it the identifier it had, none, or a fresh one.
\<close>

definition id_granted :: "Store_lv \<Rightarrow> Store_lv \<Rightarrow> string \<Rightarrow> string \<Rightarrow> Domain \<Rightarrow> bool" where
  "id_granted s t hid u d' \<longleftrightarrow>
     d_ID d' = - 1 \<or> (\<exists>d. domain_at s hid u d \<and> d_ID d = d_ID d') \<or>
     nextDomainID s \<le> d_ID d' \<and> d_ID d' < nextDomainID t"

lemma ids_write:
  assumes ids: "ids_distinct s" and mono: "nextDomainID s \<le> nextDomainID t"
    and writes: "\<And>k v e. domain_at t k v e \<Longrightarrow> domain_at s k v e \<or> k = hid \<and> v = u \<and> e = d'"
    and d': "id_granted s t hid u d'"
  shows "ids_distinct t"
proof -
  have known: "domain_at s k v e \<Longrightarrow> id_known s (d_ID e)" for k v e
    using ids by (simp add: ids_distinct_def)
  have uniq: "domain_at s k v e \<Longrightarrow> domain_at s k' v' e' \<Longrightarrow> d_ID e = d_ID e' \<Longrightarrow>
      d_ID e = - 1 \<or> k = k' \<and> v = v'" for k v e k' v' e'
    using ids unfolding ids_distinct_def by blast
  have pos: "0 < nextDomainID s" using ids by (simp add: ids_distinct_def)
  have new: "id_known t (d_ID d')"
    using d' known mono pos by (fastforce simp: id_granted_def id_known_def)
  have apart: "d_ID d' = - 1 \<or> k = hid \<and> v = u" if "domain_at s k v e" "d_ID e = d_ID d'" for k v e
    using d' uniq [OF that(1)] known [OF that(1)] that(2) by (auto simp: id_granted_def id_known_def)
  have "id_known t (d_ID e)" if "domain_at t k v e" for k v e
    using writes [OF that] known [of k v e] new mono by (auto simp: id_known_def)
  moreover have "d_ID e = - 1 \<or> k = k' \<and> v = v'"
    if "domain_at t k v e" "domain_at t k' v' e'" "d_ID e = d_ID e'" for k v e k' v' e'
    using writes [OF that(1)] writes [OF that(2)] uniq [of k v e k' v' e'] apart [of k v e] apart [of k' v' e'] that(3)
    by auto
  ultimately show ?thesis
    using pos mono unfolding ids_distinct_def by auto
qed

lemma ids_fewer:
  assumes "ids_distinct s" "nextDomainID t = nextDomainID s"
    and "\<And>k v e. domain_at t k v e \<Longrightarrow> domain_at s k v e"
  shows "ids_distinct t"
  using assms unfolding ids_distinct_def id_known_def by metis

lemma domain_at_put:
  "get (hosts s) hid = Some h \<Longrightarrow> hosts t = hosts s \<Longrightarrow> domain_at (put_domain hid h u d t) k v e \<Longrightarrow>
     domain_at s k v e \<or> k = hid \<and> v = u \<and> e = d"
  by (auto simp: domain_at_def put_domain_def split: if_splits)

lemma domain_at_drop:
  "get (hosts s) hid = Some h \<Longrightarrow> domain_at (drop_domain hid h u s) k v e \<Longrightarrow> domain_at s k v e"
  by (auto simp: domain_at_def drop_domain_def split: if_splits)

lemma put_domain_next [simp]: "nextDomainID (put_domain hid h u d t) = nextDomainID t"
  by (simp add: put_domain_def)

lemma ids_put:
  assumes "ids_distinct s" "get (hosts s) hid = Some h"
    and "d_ID d = - 1 \<or> (\<exists>e. get (h_Domains h) u = Some e \<and> d_ID e = d_ID d)"
  shows "ids_distinct (put_domain hid h u d s)"
  by (rule ids_write [OF assms(1), where hid = hid and u = u and d' = d])
    (use assms(2,3) domain_at_put [OF assms(2)] in \<open>auto simp: id_granted_def domain_at_def\<close>)

lemma ids_put_fresh:
  assumes "ids_distinct s" "get (hosts s) hid = Some h" "nextDomainID s < 2147483647"
    and "d_ID d = fst (take_id s)"
  shows "ids_distinct (put_domain hid h u d (snd (take_id s)))"
proof -
  have "int32 (nextDomainID s + 1) = nextDomainID s + 1" "int32 (nextDomainID s) = nextDomainID s"
    using assms(1,3) by (auto simp: ids_distinct_def int_wrap)
  then have id: "fst (take_id s) = nextDomainID s" "nextDomainID (snd (take_id s)) = nextDomainID s + 1"
    by (simp_all add: take_id_def Let_def)
  show ?thesis
    by (rule ids_write [OF assms(1), where hid = hid and u = u and d' = d])
      (use assms(2,4) id domain_at_put [OF assms(2) take_id_keeps(1), of u d] in
        \<open>auto simp: id_granted_def\<close>)
qed

lemma ids_drop:
  assumes "ids_distinct s" "get (hosts s) hid = Some h"
  shows "ids_distinct (drop_domain hid h u s)"
  by (rule ids_fewer [OF assms(1)]) (use domain_at_drop [OF assms(2)] in \<open>auto simp: drop_domain_def\<close>)

lemma ids_change_domain:
  assumes "ids_distinct s" "\<And>d d'. f d = Inr d' \<Longrightarrow> d_ID d' = - 1 \<or> d_ID d' = d_ID d"
  shows "ids_distinct (snd (change_domain f hid u s))"
  by (auto simp: change_domain_def GetHost_def assms(1) split: option.split sum.split
      intro!: ids_put [OF assms(1)] dest: assms(2))

lemma ids_host_change:
  assumes "ids_distinct s" "get (hosts s) hid = Some h" "h_Domains h' = h_Domains h"
  shows "ids_distinct (s\<lparr>hosts := fmupd hid h' (hosts s)\<rparr>)"
  by (rule ids_fewer [OF assms(1)]) (use assms(2,3) in \<open>auto simp: domain_at_def split: if_splits\<close>)

definition can_count_lv :: "Store_lv \<Rightarrow> int \<times> lv_request \<Rightarrow> bool" where
  "can_count_lv s l \<longleftrightarrow> nextDomainID s < 2147483647 \<and>
     (case snd l of AddHostReq h \<Rightarrow> h_Domains h = fmempty | _ \<Rightarrow> True)"

lemma exec_lv_ids:
  assumes ids: "ids_distinct s" and c: "can_count_lv s (now, r)"
  shows "ids_distinct (exec_lv now r s)"
proof (cases r)
  case (AddHostReq h)
  with c have "h_Domains h = fmempty" by (simp add: can_count_lv_def)
  then have "ids_distinct (snd (AddHost h s))"
    by (intro ids_fewer [OF ids]) (auto simp: AddHost_def domain_at_def split: if_splits)
  with AddHostReq show ?thesis by simp
next
  case (RemoveHostReq hid)
  have "ids_distinct (snd (RemoveHost hid s))"
    by (rule ids_fewer [OF ids]) (auto simp: RemoveHost_def domain_at_def split: if_splits option.splits)
  with RemoveHostReq show ?thesis by simp
next
  case ResetLvReq
  then show ?thesis by (simp add: Reset_lv_def ids_distinct_def domain_at_def)
next
  case (StartReq hid u)
  have "ids_distinct (snd (StartDomain now hid u s))"
    using ids c by (auto simp: StartDomain_def GetHost_def case_prod_beta can_count_lv_def
        split: option.split intro!: ids_put_fresh)
  with StartReq show ?thesis by simp
next
  case (FinishReq hid u)
  have "ids_distinct (snd (MigrateFinish now hid u s))"
    using ids c by (auto simp: MigrateFinish_def GetHost_def case_prod_beta can_count_lv_def Let_def
        split: option.split intro!: ids_put_fresh)
  with FinishReq show ?thesis by simp
qed (use ids in \<open>auto simp: set_host_state_def set_host_config_def SetMigrationConfig_def
      SetMigrationSpeed_def DefineDomain_def DestroyDomain_def ShutdownDomain_def SuspendDomain_def
      ResumeDomain_def Destroy_def Shutdown_def Suspend_def Resume_def UndefineDomain_def
      MigrateConfirm_def MigratePrepare_def MigratePerform_def GetHost_def Let_def
      split: option.split if_splits intro!: ids_host_change ids_change_domain ids_put ids_drop
      intro: ids_fewer [OF ids] simp: domain_at_def\<close>)

interpretation lv_naming: kept_by_steps lv_step can_count_lv ids_distinct
  by unfold_locales (auto simp: lv_step_def intro: exec_lv_ids)

interpretation lv_player: playable lv_step "\<lambda>l s. Some (exec_lv (fst l) (snd l) s)"
  by unfold_locales (auto simp: lv_step_def)

end
