(* ===== verification/RPC_Handlers.thy ===== *)
theory RPC_Handlers
  imports XDR Libvirt_Invariant
begin

text \<open>
  The RPC service of libvirt-sim: \<^verbatim>\<open>rpc/events.go\<close>, \<^verbatim>\<open>rpc/handlers.go\<close>,
  \<^verbatim>\<open>rpc/handlers_migration.go\<close> and the connection loop of \<^verbatim>\<open>rpc/server.go\<close>. A handler
  reads the body of a call and gives a reply, the new world (the store and the event bus) and
  the event messages it sent. A reply is the body of a successful answer, or an error code with
  the reason, whose text is an argument \<open>text\<close>. What the language or the environment leaves
  open is a parameter \<open>env\<close>: the clock, the XML parser and the order in which each map is
  met. A connection is a number. The delays of the migration handlers are not modelled: a
  handler is one step.
\<close>

section \<open>Procedure numbers\<close>

abbreviation (input) ProcConnectOpen :: int where "ProcConnectOpen \<equiv> 1"
abbreviation (input) ProcConnectClose :: int where "ProcConnectClose \<equiv> 2"
abbreviation (input) ProcConnectGetVersion :: int where "ProcConnectGetVersion \<equiv> 4"
abbreviation (input) ProcNodeGetInfo :: int where "ProcNodeGetInfo \<equiv> 6"
abbreviation (input) ProcConnectGetCapabilities :: int where "ProcConnectGetCapabilities \<equiv> 7"
abbreviation (input) ProcDomainGetXMLDesc :: int where "ProcDomainGetXMLDesc \<equiv> 14"
abbreviation (input) ProcDomainGetInfo :: int where "ProcDomainGetInfo \<equiv> 16"
abbreviation (input) ProcDomainLookupByName :: int where "ProcDomainLookupByName \<equiv> 23"
abbreviation (input) ProcDomainLookupByUUID :: int where "ProcDomainLookupByUUID \<equiv> 24"
abbreviation (input) ProcDomainReboot :: int where "ProcDomainReboot \<equiv> 27"
abbreviation (input) ProcDomainResume :: int where "ProcDomainResume \<equiv> 28"
abbreviation (input) ProcDomainSuspend :: int where "ProcDomainSuspend \<equiv> 34"
abbreviation (input) ProcConnectGetHostname :: int where "ProcConnectGetHostname \<equiv> 59"
abbreviation (input) ProcNodeGetFreeMemory :: int where "ProcNodeGetFreeMemory \<equiv> 102"
abbreviation (input) ProcDomainCreateWithFlags :: int where "ProcDomainCreateWithFlags \<equiv> 196"
abbreviation (input) ProcDomainGetState :: int where "ProcDomainGetState \<equiv> 212"
abbreviation (input) ProcNodeGetCPUStats :: int where "ProcNodeGetCPUStats \<equiv> 227"
abbreviation (input) ProcNodeGetMemoryStats :: int where "ProcNodeGetMemoryStats \<equiv> 228"
abbreviation (input) ProcDomainUndefineFlags :: int where "ProcDomainUndefineFlags \<equiv> 231"
abbreviation (input) ProcDomainDestroyFlags :: int where "ProcDomainDestroyFlags \<equiv> 234"
abbreviation (input) ProcDomainShutdownFlags :: int where "ProcDomainShutdownFlags \<equiv> 258"
abbreviation (input) ProcDomainListAllDomains :: int where "ProcDomainListAllDomains \<equiv> 273"
abbreviation (input) ProcConnectDomainEventRegisterAny :: int where "ProcConnectDomainEventRegisterAny \<equiv> 167"
abbreviation (input) ProcConnectDomainEventDeregisterAny :: int where "ProcConnectDomainEventDeregisterAny \<equiv> 168"
abbreviation (input) ProcDomainMigrateSetMaxSpeed :: int where "ProcDomainMigrateSetMaxSpeed \<equiv> 207"
abbreviation (input) ProcDomainMigrateGetMaxSpeed :: int where "ProcDomainMigrateGetMaxSpeed \<equiv> 242"
abbreviation (input) ProcDomainEventLifecycle :: int where "ProcDomainEventLifecycle \<equiv> 107"
abbreviation (input) ProcDomainMigratePrepare3Params :: int where "ProcDomainMigratePrepare3Params \<equiv> 303"
abbreviation (input) ProcDomainMigratePerform3Params :: int where "ProcDomainMigratePerform3Params \<equiv> 305"
abbreviation (input) ProcDomainMigrateFinish3Params :: int where "ProcDomainMigrateFinish3Params \<equiv> 306"
abbreviation (input) ProcDomainMigrateConfirm3Params :: int where "ProcDomainMigrateConfirm3Params \<equiv> 307"
abbreviation (input) ProcConnectGetAllDomainStats :: int where "ProcConnectGetAllDomainStats \<equiv> 344"
abbreviation (input) ProcDomainDefineXMLFlags :: int where "ProcDomainDefineXMLFlags \<equiv> 350"
abbreviation (input) ProcAuthList :: int where "ProcAuthList \<equiv> 66"
abbreviation (input) ProcConnectGetLibVersion :: int where "ProcConnectGetLibVersion \<equiv> 157"

section \<open>Events\<close>

abbreviation (input) DomainEventDefined :: int where "DomainEventDefined \<equiv> 0"
abbreviation (input) DomainEventUndefined :: int where "DomainEventUndefined \<equiv> 1"
abbreviation (input) DomainEventStarted :: int where "DomainEventStarted \<equiv> 2"
abbreviation (input) DomainEventSuspended :: int where "DomainEventSuspended \<equiv> 3"
abbreviation (input) DomainEventResumed :: int where "DomainEventResumed \<equiv> 4"
abbreviation (input) DomainEventStopped :: int where "DomainEventStopped \<equiv> 5"
abbreviation (input) VirDomainEventIDLifecycle :: int where "VirDomainEventIDLifecycle \<equiv> 0"

record EventCallback =
  cb_CallbackID :: int
  cb_EventID :: int

record ClientEvents =
  ce_callbacks :: "(int, EventCallback) gomap"
  ce_nextCBID :: int
  ce_hostID :: string

type_synonym conn = nat

type_synonym EventBus = "(conn, ClientEvents) gomap"

definition NewClientEvents :: "string \<Rightarrow> ClientEvents" where
  "NewClientEvents hostID = \<lparr>ce_callbacks = fmempty, ce_nextCBID = 1, ce_hostID = hostID\<rparr>"

definition Register :: "int \<Rightarrow> ClientEvents \<Rightarrow> int \<times> ClientEvents" where
  "Register eventID ce =
     (let n = int32 (ce_nextCBID ce + 1); cbID = int32 (n - 1)
      in (cbID, ce\<lparr>ce_nextCBID := n,
            ce_callbacks := fmupd cbID \<lparr>cb_CallbackID = cbID, cb_EventID = eventID\<rparr> (ce_callbacks ce)\<rparr>))"

definition Deregister :: "int \<Rightarrow> ClientEvents \<Rightarrow> bool \<times> ClientEvents" where
  "Deregister callbackID ce =
     (if get (ce_callbacks ce) callbackID = None then (False, ce)
      else (True, ce\<lparr>ce_callbacks := fmdrop callbackID (ce_callbacks ce)\<rparr>))"

definition DeregisterByEventID :: "int \<Rightarrow> ClientEvents \<Rightarrow> bool \<times> ClientEvents" where
  "DeregisterByEventID eventID ce =
     range_fold (\<lambda>cbID cb (found, ce').
        if cb_EventID cb = eventID
        then (True, ce'\<lparr>ce_callbacks := fmdrop cbID (ce_callbacks ce')\<rparr>) else (found, ce'))
      (ce_callbacks ce) (False, ce)"

definition GetCallbacksForEvent :: "int list \<Rightarrow> int \<Rightarrow> ClientEvents \<Rightarrow> int list" where
  "GetCallbacksForEvent ks eventID ce =
     map cb_CallbackID (filter (\<lambda>cb. cb_EventID cb = eventID) (values_along (ce_callbacks ce) ks))"

definition RegisterClient :: "conn \<Rightarrow> string \<Rightarrow> EventBus \<Rightarrow> EventBus" where
  "RegisterClient c hostID eb = fmupd c (NewClientEvents hostID) eb"

definition UnregisterClient :: "conn \<Rightarrow> EventBus \<Rightarrow> EventBus" where
  "UnregisterClient c eb = fmdrop c eb"

definition GetClientEvents :: "conn \<Rightarrow> EventBus \<Rightarrow> ClientEvents option" where
  "GetClientEvents c eb = get eb c"

definition buildLifecycleEventMessage :: "int \<Rightarrow> Domain \<Rightarrow> int \<Rightarrow> int \<Rightarrow> Message" where
  "buildLifecycleEventMessage callbackID d event detail =
     \<lparr>msg_Header = \<lparr>Program = RemoteProgram, Version = RemoteProtocolVersion,
        Procedure = ProcDomainEventLifecycle, Type = MessageTypeMessage, Serial = 0, Status = StatusOK\<rparr>,
      msg_Body = WriteInt32 detail (WriteInt32 event (WriteInt32 (d_ID d) (WriteUUID (d_UUID d)
        (WriteString (d_Name d) (WriteInt32 callbackID [])))))\<rparr>"

record environment =
  env_now :: int
  env_unmarshal :: "string \<Rightarrow> DomainXML option"
  env_hosts :: "(string, Host) gomap \<Rightarrow> string list"
  env_domains :: "(string, Domain) gomap \<Rightarrow> string list"
  env_clients :: "EventBus \<Rightarrow> conn list"
  env_callbacks :: "(int, EventCallback) gomap \<Rightarrow> int list"

definition EmitDomainLifecycleEvent ::
    "environment \<Rightarrow> string \<Rightarrow> Domain \<Rightarrow> int \<Rightarrow> int \<Rightarrow> EventBus \<Rightarrow> (conn \<times> Message) list" where
  "EmitDomainLifecycleEvent env hostID d event detail eb =
     concat (map (\<lambda>c. case get eb c of
          None \<Rightarrow> []
        | Some ce \<Rightarrow>
            if ce_hostID ce \<noteq> hostID then []
            else map (\<lambda>cbID. (c, buildLifecycleEventMessage cbID d event detail))
                   (GetCallbacksForEvent (env_callbacks env (ce_callbacks ce)) VirDomainEventIDLifecycle ce))
       (env_clients env eb))"

section \<open>Replies\<close>

abbreviation (input) VirErrNoDomain :: int where "VirErrNoDomain \<equiv> 42"
abbreviation (input) VirErrOperationInvalid :: int where "VirErrOperationInvalid \<equiv> 55"
abbreviation (input) VirErrOperationDenied :: int where "VirErrOperationDenied \<equiv> 6"
abbreviation (input) VirErrInternalError :: int where "VirErrInternalError \<equiv> 1"
abbreviation (input) VirFromQemu :: int where "VirFromQemu \<equiv> 18"

datatype reason =
    ReadFailed string
  | XMLFailed xml_error
  | StoreFailed lv_error
  | CannotReboot int
  | SourceNotFound
  | UUIDRequired
  | EventsNotInitialized
  | EventNotRegistered int
  | UnhandledProcedure int

datatype reply = Okay "byte list" | Failed int reason

definition errorReply :: "Header \<Rightarrow> int \<Rightarrow> string \<Rightarrow> Message" where
  "errorReply req code message =
     (let b1 = WriteInt32 code []; b2 = WriteInt32 VirFromQemu b1;
          b3 = WriteOptionalString (Some message) b2; b4 = WriteInt32 2 b3;
          b5 = WriteOptionalString None b4; b6 = WriteOptionalString None b5;
          b7 = WriteOptionalString None b6; b8 = WriteOptionalString None b7;
          b9 = WriteInt32 0 b8; b10 = WriteInt32 0 b9; b11 = WriteOptionalString None b10
      in NewReply req StatusError b11)"

fun reply_message :: "(reason \<Rightarrow> string) \<Rightarrow> Header \<Rightarrow> reply \<Rightarrow> Message" where
  "reply_message text req (Okay body) = NewReply req StatusOK body"
| "reply_message text req (Failed code why) = errorReply req code (text why)"

record World =
  w_store :: Store_lv
  w_bus :: EventBus

type_synonym outcome = "reply \<times> World \<times> (conn \<times> Message) list"

definition answer :: "reply \<Rightarrow> World \<Rightarrow> outcome" where
  "answer r w = (r, w, [])"

definition encodeDomainRef :: "Domain \<Rightarrow> byte list \<Rightarrow> byte list" where
  "encodeDomainRef d enc = WriteInt32 (d_ID d) (WriteUUID (d_UUID d) (WriteString (d_Name d) enc))"

definition domainReply :: "Domain \<Rightarrow> reply" where
  "domainReply d = Okay (encodeDomainRef d [])"

definition readDomainRef :: "string \<Rightarrow> byte list \<Rightarrow> Store_lv \<Rightarrow> reason + Domain" where
  "readDomainRef hostID body s =
     (case ReadString (NewXDRDecoder body) of
        (None, _) \<Rightarrow> Inl (ReadFailed ''domain name'')
      | (Some _, d1) \<Rightarrow>
          (case ReadUUID d1 of
             (None, _) \<Rightarrow> Inl (ReadFailed ''domain UUID'')
           | (Some uuid, d2) \<Rightarrow>
               (case ReadInt32 d2 of
                  (None, _) \<Rightarrow> Inl (ReadFailed ''domain ID'')
                | (Some _, _) \<Rightarrow>
                    (case GetDomain hostID (uuid_string uuid) s of
                       Inl e \<Rightarrow> Inl (StoreFailed e)
                     | Inr d \<Rightarrow> Inr d))))"

definition emitEvent :: "environment \<Rightarrow> string \<Rightarrow> Domain \<Rightarrow> int \<Rightarrow> int \<Rightarrow> World \<Rightarrow> (conn \<times> Message) list" where
  "emitEvent env hostID d event detail w = EmitDomainLifecycleEvent env hostID d event detail (w_bus w)"

section \<open>Calls about the host\<close>

definition handleAuthList :: reply where
  "handleAuthList = Okay (WriteUint32 0 (WriteUint32 1 []))"

definition handleConnectGetLibVersion :: reply where
  "handleConnectGetLibVersion = Okay (WriteUint64 9000000 [])"

definition handleConnectOpen :: reply where
  "handleConnectOpen = Okay []"

definition handleConnectClose :: reply where
  "handleConnectClose = Okay []"

definition handleGetHostname :: "string \<Rightarrow> reply" where
  "handleGetHostname hostID = Okay (WriteString hostID [])"

definition handleConnectGetVersion :: reply where
  "handleConnectGetVersion = Okay (WriteInt64 9000000 [])"

definition quoted :: "string \<Rightarrow> string" where
  "quoted s = CHR 0x27 # s @ [CHR 0x27]"

definition lines_of :: "string list \<Rightarrow> string" where
  "lines_of ls = concat (case ls of [] \<Rightarrow> [] | l # ls' \<Rightarrow> l # map (\<lambda>x. CHR 0x0A # x) ls')"

definition capsXML :: "Host \<Rightarrow> string" where
  "capsXML h = lines_of
     [''<capabilities>'', ''  <host>'', ''    <cpu>'', ''      <arch>x86_64</arch>'',
      ''      <model>'' @ h_CPUModel h @ ''</model>'', ''    </cpu>'', ''    <topology>'',
      ''      <cells num='' @ quoted ''1'' @ ''>'', ''        <cell id='' @ quoted ''0'' @ ''>'',
      ''          <memory unit='' @ quoted ''KiB'' @ ''>'' @ fmt_0d 0 (int64 (h_MemoryMB h * 1024)) @ ''</memory>'',
      ''          <cpus num='' @ quoted (fmt_0d 0 (TotalVCPUs h)) @ ''/>'', ''        </cell>'',
      ''      </cells>'', ''    </topology>'', ''  </host>'', ''  <guest>'',
      ''    <os_type>hvm</os_type>'', ''    <arch name='' @ quoted ''x86_64'' @ ''>'',
      ''      <wordsize>64</wordsize>'', ''      <domain type='' @ quoted ''kvm'' @ ''/>'',
      ''    </arch>'', ''  </guest>'', ''</capabilities>'']"

definition handleGetCapabilities :: "string \<Rightarrow> Store_lv \<Rightarrow> reply" where
  "handleGetCapabilities hostID s =
     (case GetHost hostID s of
        Inl e \<Rightarrow> Failed VirErrInternalError (StoreFailed e)
      | Inr h \<Rightarrow> Okay (WriteString (capsXML h) []))"

definition handleNodeGetInfo :: "string \<Rightarrow> Store_lv \<Rightarrow> reply" where
  "handleNodeGetInfo hostID s =
     (case GetHost hostID s of
        Inl e \<Rightarrow> Failed VirErrInternalError (StoreFailed e)
      | Inr h \<Rightarrow>
          let modelBytes = take 32 (bytes_of (h_CPUModel h) @ replicate 32 0);
              b1 = foldl (\<lambda>enc b. WriteInt32 (sint b) enc) [] modelBytes;
              b2 = WriteUint64 (word_of_int (h_MemoryMB h) * 1024) b1;
              b3 = WriteUint32 (word_of_int (TotalVCPUs h)) b2;
              b4 = WriteUint32 2100 b3; b5 = WriteUint32 1 b4;
              b6 = WriteUint32 (word_of_int (h_CPUSockets h)) b5;
              b7 = WriteUint32 (word_of_int (h_CoresPerSocket h)) b6
          in Okay (WriteUint32 (word_of_int (h_ThreadsPerCore h)) b7))"

definition handleNodeGetFreeMemory :: "string \<Rightarrow> Store_lv \<Rightarrow> reply" where
  "handleNodeGetFreeMemory hostID s =
     (case GetHost hostID s of
        Inl e \<Rightarrow> Failed VirErrInternalError (StoreFailed e)
      | Inr h \<Rightarrow>
          let freeMemKiB = int64 (int64 (AvailableMemoryMB h - UsedMemoryMB h) * 1024);
              freeMemKiB' = (if freeMemKiB < 0 then 0 else freeMemKiB)
          in Okay (WriteUint64 (word_of_int freeMemKiB' * 1024) []))"

definition writeParam :: "string \<Rightarrow> 64 word \<Rightarrow> byte list \<Rightarrow> byte list" where
  "writeParam field v enc = WriteUint64 v (WriteString field enc)"

definition handleNodeGetCPUStats :: "string \<Rightarrow> Store_lv \<Rightarrow> reply" where
  "handleNodeGetCPUStats hostID s =
     (case GetHost hostID s of
        Inl e \<Rightarrow> Failed VirErrInternalError (StoreFailed e)
      | Inr h \<Rightarrow>
          let totalCPUs = TotalVCPUs h; usedCPUs = UsedVCPUs h;
              b1 = writeParam ''kernel'' 0 (WriteUint32 4 []);
              b2 = writeParam ''user'' (word_of_int usedCPUs * 1000000000) b1;
              b3 = writeParam ''idle'' (word_of_int (int64 (totalCPUs - usedCPUs)) * 1000000000) b2;
              b4 = writeParam ''iowait'' 0 b3
          in Okay (WriteInt32 4 b4))"

definition handleNodeGetMemoryStats :: "string \<Rightarrow> Store_lv \<Rightarrow> reply" where
  "handleNodeGetMemoryStats hostID s =
     (case GetHost hostID s of
        Inl e \<Rightarrow> Failed VirErrInternalError (StoreFailed e)
      | Inr h \<Rightarrow>
          let totalKB = word_of_int (h_MemoryMB h) * 1024;
              usedKB = word_of_int (UsedMemoryMB h) * 1024;
              b1 = writeParam ''total'' totalKB (WriteUint32 4 []);
              b2 = writeParam ''free'' (totalKB - usedKB) b1;
              b3 = writeParam ''cached'' 0 (writeParam ''buffers'' 0 b2)
          in Okay (WriteInt32 4 b3))"

section \<open>Calls about domains\<close>

definition handleDomainDefineXMLFlags :: "environment \<Rightarrow> string \<Rightarrow> byte list \<Rightarrow> World \<Rightarrow> outcome" where
  "handleDomainDefineXMLFlags env hostID body w =
     (case ReadString (NewXDRDecoder body) of
        (None, _) \<Rightarrow> answer (Failed VirErrInternalError (ReadFailed ''XML'')) w
      | (Some xmlStr, _) \<Rightarrow>
          (case ParseDomainXML (env_unmarshal env) xmlStr of
             Inl e \<Rightarrow> answer (Failed VirErrInternalError (XMLFailed e)) w
           | Inr domDef \<Rightarrow>
               (case ParseUUID (x_UUID domDef) of
                  Inl e \<Rightarrow> answer (Failed VirErrInternalError (XMLFailed e)) w
                | Inr uuid \<Rightarrow>
                    let d = \<lparr>d_Name = x_Name domDef, d_UUID = uuid, d_ID = 0, d_State = DomainStateNoState,
                             d_VCPUs = x_VCPU domDef, d_MemoryKiB = MemoryKiB domDef, d_XML = xmlStr,
                             d_CreatedAt = 0, d_StartedAt = 0, d_InterfaceIDs = InterfaceIDs domDef,
                             d_MigrationState = MigrationStateNone, d_MigrationCookie = ''''\<rparr>
                    in case DefineDomain (env_now env) hostID d (w_store w) of
                         (Inl e, s') \<Rightarrow> answer (Failed VirErrInternalError (StoreFailed e)) (w\<lparr>w_store := s'\<rparr>)
                       | (Inr d', s') \<Rightarrow>
                           (domainReply d', w\<lparr>w_store := s'\<rparr>,
                            emitEvent env hostID d' DomainEventDefined 0 w))))"

text \<open>The domain behind the pointer that a handler goes on using after a store operation.\<close>

definition refetch :: "string \<Rightarrow> Domain \<Rightarrow> Store_lv \<Rightarrow> Domain" where
  "refetch hostID d s = (case GetDomain hostID (UUIDString d) s of Inl _ \<Rightarrow> d | Inr d' \<Rightarrow> d')"

definition start_code :: "lv_error \<Rightarrow> int" where
  "start_code e = (if e = ErrOperationDenied then VirErrOperationDenied
     else if e = ErrOperationInvalid then VirErrOperationInvalid else VirErrInternalError)"

definition invalid_code :: "lv_error \<Rightarrow> int" where
  "invalid_code e = (if e = ErrOperationInvalid then VirErrOperationInvalid else VirErrInternalError)"

definition handleDomainCreateWithFlags :: "environment \<Rightarrow> string \<Rightarrow> byte list \<Rightarrow> World \<Rightarrow> outcome" where
  "handleDomainCreateWithFlags env hostID body w =
     (case readDomainRef hostID body (w_store w) of
        Inl why \<Rightarrow> answer (Failed VirErrNoDomain why) w
      | Inr d \<Rightarrow>
          (case StartDomain (env_now env) hostID (UUIDString d) (w_store w) of
             (Inl e, s') \<Rightarrow> answer (Failed (start_code e) (StoreFailed e)) (w\<lparr>w_store := s'\<rparr>)
           | (Inr _, s') \<Rightarrow>
               let d' = refetch hostID d s'
               in (domainReply d', w\<lparr>w_store := s'\<rparr>,
                   emitEvent env hostID d' DomainEventStarted 0 w @
                   emitEvent env hostID d' DomainEventResumed 0 w)))"

text \<open>
  Destroy, shutdown, suspend and resume are the same handler but for the store operation and the
  event.
\<close>

definition handle_transition ::
    "(string \<Rightarrow> string \<Rightarrow> Store_lv \<Rightarrow> unit lv_result \<times> Store_lv) \<Rightarrow> int \<Rightarrow> int \<Rightarrow>
     environment \<Rightarrow> string \<Rightarrow> byte list \<Rightarrow> World \<Rightarrow> outcome" where
  "handle_transition f event detail env hostID body w =
     (case readDomainRef hostID body (w_store w) of
        Inl why \<Rightarrow> answer (Failed VirErrNoDomain why) w
      | Inr d \<Rightarrow>
          (case f hostID (UUIDString d) (w_store w) of
             (Inl e, s') \<Rightarrow> answer (Failed (invalid_code e) (StoreFailed e)) (w\<lparr>w_store := s'\<rparr>)
           | (Inr _, s') \<Rightarrow>
               (Okay [], w\<lparr>w_store := s'\<rparr>, emitEvent env hostID (refetch hostID d s') event detail w)))"

definition handleDomainDestroyFlags :: "environment \<Rightarrow> string \<Rightarrow> byte list \<Rightarrow> World \<Rightarrow> outcome" where
  "handleDomainDestroyFlags = handle_transition DestroyDomain DomainEventStopped 1"

definition handleDomainShutdownFlags :: "environment \<Rightarrow> string \<Rightarrow> byte list \<Rightarrow> World \<Rightarrow> outcome" where
  "handleDomainShutdownFlags = handle_transition ShutdownDomain DomainEventStopped 0"

definition handleDomainSuspend :: "environment \<Rightarrow> string \<Rightarrow> byte list \<Rightarrow> World \<Rightarrow> outcome" where
  "handleDomainSuspend = handle_transition SuspendDomain DomainEventSuspended 0"

definition handleDomainResume :: "environment \<Rightarrow> string \<Rightarrow> byte list \<Rightarrow> World \<Rightarrow> outcome" where
  "handleDomainResume = handle_transition ResumeDomain DomainEventResumed 0"

text \<open>Once undefined the domain is not found again, and the event tells of the domain as it was.\<close>

definition handleDomainUndefineFlags :: "environment \<Rightarrow> string \<Rightarrow> byte list \<Rightarrow> World \<Rightarrow> outcome" where
  "handleDomainUndefineFlags = handle_transition UndefineDomain DomainEventUndefined 0"

definition handleDomainReboot :: "string \<Rightarrow> byte list \<Rightarrow> Store_lv \<Rightarrow> reply" where
  "handleDomainReboot hostID body s =
     (case readDomainRef hostID body s of
        Inl why \<Rightarrow> Failed VirErrNoDomain why
      | Inr d \<Rightarrow>
          if d_State d \<noteq> DomainStateRunning then Failed VirErrOperationInvalid (CannotReboot (d_State d))
          else Okay [])"

definition handleDomainGetState :: "string \<Rightarrow> byte list \<Rightarrow> Store_lv \<Rightarrow> reply" where
  "handleDomainGetState hostID body s =
     (case readDomainRef hostID body s of
        Inl why \<Rightarrow> Failed VirErrNoDomain why
      | Inr d \<Rightarrow> Okay (WriteInt32 0 (WriteInt32 (d_State d) [])))"

definition handleDomainGetInfo :: "string \<Rightarrow> byte list \<Rightarrow> Store_lv \<Rightarrow> reply" where
  "handleDomainGetInfo hostID body s =
     (case readDomainRef hostID body s of
        Inl why \<Rightarrow> Failed VirErrNoDomain why
      | Inr d \<Rightarrow>
          Okay (WriteUint64 0 (WriteUint16 (word_of_int (d_VCPUs d))
            (WriteUint64 (word_of_int (d_MemoryKiB d)) (WriteUint64 (word_of_int (d_MemoryKiB d))
              (WriteUint8 (word_of_int (d_State d)) []))))))"

definition handleDomainGetXMLDesc :: "string \<Rightarrow> byte list \<Rightarrow> Store_lv \<Rightarrow> reply" where
  "handleDomainGetXMLDesc hostID body s =
     (case readDomainRef hostID body s of
        Inl why \<Rightarrow> Failed VirErrNoDomain why
      | Inr d \<Rightarrow> Okay (WriteString (d_XML d) []))"

definition handleDomainLookupByUUID :: "string \<Rightarrow> byte list \<Rightarrow> Store_lv \<Rightarrow> reply" where
  "handleDomainLookupByUUID hostID body s =
     (case ReadUUID (NewXDRDecoder body) of
        (None, _) \<Rightarrow> Failed VirErrInternalError (ReadFailed ''UUID'')
      | (Some uuid, _) \<Rightarrow>
          (case GetDomain hostID (uuid_string uuid) s of
             Inl e \<Rightarrow> Failed VirErrNoDomain (StoreFailed e)
           | Inr d \<Rightarrow> domainReply d))"

definition handleDomainLookupByName :: "environment \<Rightarrow> string \<Rightarrow> byte list \<Rightarrow> Store_lv \<Rightarrow> reply" where
  "handleDomainLookupByName env hostID body s =
     (case ReadString (NewXDRDecoder body) of
        (None, _) \<Rightarrow> Failed VirErrInternalError (ReadFailed ''name'')
      | (Some name, _) \<Rightarrow>
          (case get (hosts s) hostID of
             None \<Rightarrow> Failed VirErrNoDomain (StoreFailed ErrHostNotFound)
           | Some h \<Rightarrow>
               (case GetDomainByName (env_domains env (h_Domains h)) hostID name s of
                  Inl e \<Rightarrow> Failed VirErrNoDomain (StoreFailed e)
                | Inr d \<Rightarrow> domainReply d)))"

definition domains_of :: "environment \<Rightarrow> string \<Rightarrow> Store_lv \<Rightarrow> Domain list lv_result" where
  "domains_of env hostID s =
     ListDomains (case get (hosts s) hostID of None \<Rightarrow> [] | Some h \<Rightarrow> env_domains env (h_Domains h)) hostID s"

definition handleDomainListAllDomains :: "environment \<Rightarrow> string \<Rightarrow> Store_lv \<Rightarrow> reply" where
  "handleDomainListAllDomains env hostID s =
     (case domains_of env hostID s of
        Inl e \<Rightarrow> Failed VirErrInternalError (StoreFailed e)
      | Inr ds \<Rightarrow>
          let b1 = WriteUint32 (word_of_nat (length ds)) [];
              b2 = foldl (\<lambda>enc d. encodeDomainRef d enc) b1 ds
          in Okay (WriteInt32 (int32 (int (length ds))) b2))"

definition handleGetAllDomainStats :: "environment \<Rightarrow> string \<Rightarrow> Store_lv \<Rightarrow> reply" where
  "handleGetAllDomainStats env hostID s =
     (case domains_of env hostID s of
        Inl e \<Rightarrow> Failed VirErrInternalError (StoreFailed e)
      | Inr ds \<Rightarrow>
          Okay (foldl (\<lambda>enc d. WriteInt32 0 (encodeDomainRef d enc))
            (WriteUint32 (word_of_nat (length ds)) []) ds))"

section \<open>Migration calls\<close>

text \<open>
  The array of typed parameters that the four migration calls start with: the string parameters
  in the order they come; a value of any other type is skipped.
\<close>

fun typed_params :: "nat \<Rightarrow> XDRDecoder \<Rightarrow> reason + (string \<times> string) list" where
  "typed_params 0 dec = Inr []"
| "typed_params (Suc n) dec =
     (case ReadString dec of
        (None, _) \<Rightarrow> Inl (ReadFailed ''param name'')
      | (Some field, d1) \<Rightarrow>
          (case ReadInt32 d1 of
             (None, _) \<Rightarrow> Inl (ReadFailed ''param type'')
           | (Some paramType, d2) \<Rightarrow>
               if paramType = 7 then
                 (case ReadString d2 of
                    (None, _) \<Rightarrow> Inl (ReadFailed ''param string value'')
                  | (Some val, d3) \<Rightarrow>
                      (case typed_params n d3 of Inl e \<Rightarrow> Inl e | Inr ps \<Rightarrow> Inr ((field, val) # ps)))
               else
                 (case ReadUint64 d2 of
                    (None, _) \<Rightarrow> Inl (ReadFailed ''param value'')
                  | (Some _, d3) \<Rightarrow> typed_params n d3)))"

definition read_params :: "byte list \<Rightarrow> reason + (string \<times> string) list" where
  "read_params body =
     (case ReadUint32 (NewXDRDecoder body) of
        (None, _) \<Rightarrow> Inl (ReadFailed ''nparams'')
      | (Some nparams, d1) \<Rightarrow> typed_params (unat nparams) d1)"

text \<open>The variable a loop assigns from the parameters: the last value wins, and it starts empty.\<close>

definition param :: "string \<Rightarrow> (string \<times> string) list \<Rightarrow> string" where
  "param field ps = foldl (\<lambda>v (f, x). if f = field then x else v) '''' ps"

fun first_found :: "(string \<Rightarrow> Domain lv_result) \<Rightarrow> string list \<Rightarrow> Domain option" where
  "first_found f [] = None"
| "first_found f (h # hs) = (case f h of Inr d \<Rightarrow> Some d | Inl _ \<Rightarrow> first_found f hs)"

definition find_source :: "environment \<Rightarrow> string \<Rightarrow> string \<Rightarrow> Store_lv \<Rightarrow> Domain option" where
  "find_source env domUUID domName s =
     (let hids = map h_HostID (ListHosts (env_hosts env (hosts s)) s);
          by_uuid = (if domUUID \<noteq> '''' then first_found (\<lambda>h. GetDomain h domUUID s) hids else None)
      in case by_uuid of
           Some d \<Rightarrow> Some d
         | None \<Rightarrow>
             if domName \<noteq> '''' then
               first_found (\<lambda>h. GetDomainByName
                 (case get (hosts s) h of None \<Rightarrow> [] | Some x \<Rightarrow> env_domains env (h_Domains x)) h domName s) hids
             else None)"

definition writeCookie :: "string \<Rightarrow> byte list \<Rightarrow> byte list" where
  "writeCookie cookie enc =
     WriteUint32 (word_of_nat (length cookie)) enc @ bytes_of cookie @ replicate (pad4 (length cookie)) 0"

definition handleMigratePrepare3Params :: "environment \<Rightarrow> string \<Rightarrow> byte list \<Rightarrow> World \<Rightarrow> outcome" where
  "handleMigratePrepare3Params env hostID body w =
     (case read_params body of
        Inl why \<Rightarrow> answer (Failed VirErrInternalError why) w
      | Inr ps \<Rightarrow>
          (case find_source env (param ''domain_uuid'' ps) (param ''domain_name'' ps) (w_store w) of
             None \<Rightarrow> answer (Failed VirErrNoDomain SourceNotFound) w
           | Some d \<Rightarrow>
               (case MigratePrepare hostID d (w_store w) of
                  (Inl e, s') \<Rightarrow> answer (Failed (start_code e) (StoreFailed e)) (w\<lparr>w_store := s'\<rparr>)
                | (Inr _, s') \<Rightarrow>
                    answer (Okay (WriteOptionalString None (writeCookie (UUIDString d) [])))
                      (w\<lparr>w_store := s'\<rparr>))))"

definition migrate_code :: "lv_error \<Rightarrow> int" where
  "migrate_code e = (if e = ErrNoDomain then VirErrNoDomain
     else if e = ErrOperationInvalid then VirErrOperationInvalid else VirErrInternalError)"

definition perform_code :: "lv_error \<Rightarrow> int" where
  "perform_code e = (if e = ErrNoDomain then VirErrNoDomain
     else if e = ErrOperationInvalid then VirErrOperationInvalid
     else if e = ErrMigrationInProgress then VirErrOperationInvalid else VirErrInternalError)"

definition handleMigratePerform3Params :: "environment \<Rightarrow> string \<Rightarrow> byte list \<Rightarrow> World \<Rightarrow> outcome" where
  "handleMigratePerform3Params env hostID body w =
     (case read_params body of
        Inl why \<Rightarrow> answer (Failed VirErrInternalError why) w
      | Inr ps \<Rightarrow>
          let domUUID = param ''domain_uuid'' ps in
          if domUUID = '''' then answer (Failed VirErrInternalError UUIDRequired) w
          else case MigratePerform hostID domUUID (w_store w) of
            (Inl e, s') \<Rightarrow> answer (Failed (perform_code e) (StoreFailed e)) (w\<lparr>w_store := s'\<rparr>)
          | (Inr _, s') \<Rightarrow>
              (Okay (writeCookie domUUID []), w\<lparr>w_store := s'\<rparr>,
               (case GetDomain hostID domUUID s' of
                  Inl _ \<Rightarrow> []
                | Inr d \<Rightarrow> emitEvent env hostID d DomainEventSuspended 1 w)))"

definition handleMigrateFinish3Params :: "environment \<Rightarrow> string \<Rightarrow> byte list \<Rightarrow> World \<Rightarrow> outcome" where
  "handleMigrateFinish3Params env hostID body w =
     (case read_params body of
        Inl why \<Rightarrow> answer (Failed VirErrInternalError why) w
      | Inr ps \<Rightarrow>
          let domUUID = param ''domain_uuid'' ps in
          if domUUID = '''' then answer (Failed VirErrInternalError UUIDRequired) w
          else case MigrateFinish (env_now env) hostID domUUID (w_store w) of
            (Inl e, s') \<Rightarrow> answer (Failed (migrate_code e) (StoreFailed e)) (w\<lparr>w_store := s'\<rparr>)
          | (Inr d, s') \<Rightarrow>
              (domainReply d, w\<lparr>w_store := s'\<rparr>,
               emitEvent env hostID d DomainEventStarted 1 w @ emitEvent env hostID d DomainEventResumed 1 w))"

definition handleMigrateConfirm3Params :: "environment \<Rightarrow> string \<Rightarrow> byte list \<Rightarrow> World \<Rightarrow> outcome" where
  "handleMigrateConfirm3Params env hostID body w =
     (case read_params body of
        Inl why \<Rightarrow> answer (Failed VirErrInternalError why) w
      | Inr ps \<Rightarrow>
          let domUUID = param ''domain_uuid'' ps; found = GetDomain hostID domUUID (w_store w) in
          if domUUID = '''' then answer (Failed VirErrInternalError UUIDRequired) w
          else case MigrateConfirm hostID domUUID (w_store w) of
            (Inl e, s') \<Rightarrow> answer (Failed (migrate_code e) (StoreFailed e)) (w\<lparr>w_store := s'\<rparr>)
          | (Inr _, s') \<Rightarrow>
              (Okay [], w\<lparr>w_store := s'\<rparr>,
               (case found of Inl _ \<Rightarrow> [] | Inr d \<Rightarrow> emitEvent env hostID d DomainEventStopped 1 w)))"

definition handleMigrateGetMaxSpeed :: "string \<Rightarrow> byte list \<Rightarrow> Store_lv \<Rightarrow> reply" where
  "handleMigrateGetMaxSpeed hostID body s =
     (case readDomainRef hostID body s of
        Inl why \<Rightarrow> Failed VirErrNoDomain why
      | Inr _ \<Rightarrow> Okay (WriteUint64 (GetMigrationSpeed s) []))"

definition handleMigrateSetMaxSpeed :: "byte list \<Rightarrow> World \<Rightarrow> outcome" where
  "handleMigrateSetMaxSpeed body w =
     (case ReadString (NewXDRDecoder body) of
        (None, _) \<Rightarrow> answer (Failed VirErrInternalError (ReadFailed ''domain name'')) w
      | (Some _, d1) \<Rightarrow>
          (case ReadUUID d1 of
             (None, _) \<Rightarrow> answer (Failed VirErrInternalError (ReadFailed ''domain UUID'')) w
           | (Some _, d2) \<Rightarrow>
               (case ReadInt32 d2 of
                  (None, _) \<Rightarrow> answer (Failed VirErrInternalError (ReadFailed ''domain ID'')) w
                | (Some _, d3) \<Rightarrow>
                    (case ReadUint64 d3 of
                       (None, _) \<Rightarrow> answer (Failed VirErrInternalError (ReadFailed ''bandwidth'')) w
                     | (Some bandwidth, _) \<Rightarrow>
                         answer (Okay []) (w\<lparr>w_store := SetMigrationSpeed bandwidth (w_store w)\<rparr>)))))"

section \<open>Event registration\<close>

definition handleDomainEventRegisterAny :: "conn \<Rightarrow> byte list \<Rightarrow> World \<Rightarrow> outcome" where
  "handleDomainEventRegisterAny c body w =
     (case ReadInt32 (NewXDRDecoder body) of
        (None, _) \<Rightarrow> answer (Failed VirErrInternalError (ReadFailed ''eventID'')) w
      | (Some eventID, _) \<Rightarrow>
          (case GetClientEvents c (w_bus w) of
             None \<Rightarrow> answer (Failed VirErrInternalError EventsNotInitialized) w
           | Some ce \<Rightarrow>
               (case Register eventID ce of (cbID, ce') \<Rightarrow>
                  answer (Okay (WriteInt32 cbID [])) (w\<lparr>w_bus := fmupd c ce' (w_bus w)\<rparr>))))"

definition handleDomainEventDeregisterAny :: "conn \<Rightarrow> byte list \<Rightarrow> World \<Rightarrow> outcome" where
  "handleDomainEventDeregisterAny c body w =
     (case ReadInt32 (NewXDRDecoder body) of
        (None, _) \<Rightarrow> answer (Failed VirErrInternalError (ReadFailed ''eventID'')) w
      | (Some eventID, _) \<Rightarrow>
          (case GetClientEvents c (w_bus w) of
             None \<Rightarrow> answer (Failed VirErrInternalError EventsNotInitialized) w
           | Some ce \<Rightarrow>
               (case DeregisterByEventID eventID ce of (found, ce') \<Rightarrow>
                  if \<not> found
                  then answer (Failed VirErrInternalError (EventNotRegistered eventID))
                         (w\<lparr>w_bus := fmupd c ce' (w_bus w)\<rparr>)
                  else answer (Okay []) (w\<lparr>w_bus := fmupd c ce' (w_bus w)\<rparr>))))"

section \<open>Dispatch and connections\<close>

definition dispatch :: "environment \<Rightarrow> string \<Rightarrow> conn \<Rightarrow> int \<Rightarrow> byte list \<Rightarrow> World \<Rightarrow> outcome" where
  "dispatch env hostID c proc body w =
     (let s = w_store w in
      if proc = ProcAuthList then answer handleAuthList w
      else if proc = ProcConnectOpen then answer handleConnectOpen w
      else if proc = ProcConnectClose then answer handleConnectClose w
      else if proc = ProcConnectGetHostname then answer (handleGetHostname hostID) w
      else if proc = ProcConnectGetCapabilities then answer (handleGetCapabilities hostID s) w
      else if proc = ProcNodeGetInfo then answer (handleNodeGetInfo hostID s) w
      else if proc = ProcDomainDefineXMLFlags then handleDomainDefineXMLFlags env hostID body w
      else if proc = ProcDomainCreateWithFlags then handleDomainCreateWithFlags env hostID body w
      else if proc = ProcDomainDestroyFlags then handleDomainDestroyFlags env hostID body w
      else if proc = ProcDomainShutdownFlags then handleDomainShutdownFlags env hostID body w
      else if proc = ProcDomainSuspend then handleDomainSuspend env hostID body w
      else if proc = ProcDomainResume then handleDomainResume env hostID body w
      else if proc = ProcDomainReboot then answer (handleDomainReboot hostID body s) w
      else if proc = ProcDomainGetState then answer (handleDomainGetState hostID body s) w
      else if proc = ProcDomainGetInfo then answer (handleDomainGetInfo hostID body s) w
      else if proc = ProcDomainGetXMLDesc then answer (handleDomainGetXMLDesc hostID body s) w
      else if proc = ProcDomainLookupByUUID then answer (handleDomainLookupByUUID hostID body s) w
      else if proc = ProcDomainLookupByName then answer (handleDomainLookupByName env hostID body s) w
      else if proc = ProcDomainListAllDomains then answer (handleDomainListAllDomains env hostID s) w
      else if proc = ProcDomainUndefineFlags then handleDomainUndefineFlags env hostID body w
      else if proc = ProcConnectGetVersion then answer handleConnectGetVersion w
      else if proc = ProcConnectGetLibVersion then answer handleConnectGetLibVersion w
      else if proc = ProcNodeGetFreeMemory then answer (handleNodeGetFreeMemory hostID s) w
      else if proc = ProcNodeGetCPUStats then answer (handleNodeGetCPUStats hostID s) w
      else if proc = ProcNodeGetMemoryStats then answer (handleNodeGetMemoryStats hostID s) w
      else if proc = ProcConnectGetAllDomainStats then answer (handleGetAllDomainStats env hostID s) w
      else if proc = ProcConnectDomainEventRegisterAny then handleDomainEventRegisterAny c body w
      else if proc = ProcConnectDomainEventDeregisterAny then handleDomainEventDeregisterAny c body w
      else if proc = ProcDomainMigratePrepare3Params then handleMigratePrepare3Params env hostID body w
      else if proc = ProcDomainMigratePerform3Params then handleMigratePerform3Params env hostID body w
      else if proc = ProcDomainMigrateFinish3Params then handleMigrateFinish3Params env hostID body w
      else if proc = ProcDomainMigrateConfirm3Params then handleMigrateConfirm3Params env hostID body w
      else if proc = ProcDomainMigrateGetMaxSpeed then answer (handleMigrateGetMaxSpeed hostID body s) w
      else if proc = ProcDomainMigrateSetMaxSpeed then handleMigrateSetMaxSpeed body w
      else answer (Failed VirErrInternalError (UnhandledProcedure proc)) w)"

definition HandleMessage ::
    "environment \<Rightarrow> (reason \<Rightarrow> string) \<Rightarrow> string \<Rightarrow> conn \<Rightarrow> Message \<Rightarrow> World \<Rightarrow> Message \<times> World \<times> (conn \<times> Message) list" where
  "HandleMessage env text hostID c msg w =
     (case dispatch env hostID c (Procedure (msg_Header msg)) (msg_Body msg) w of
        (r, w', evs) \<Rightarrow> (reply_message text (msg_Header msg) r, w', evs))"

text \<open>
  The loop of \<^verbatim>\<open>handleConnection\<close> on one connection: it answers the messages of the stream one
  after the other until the stream ends or is malformed, or the client closes. What it sends is
  collected in order, events before the reply of the call that caused them.
\<close>

lemma ReadMessage_consumes: "ReadMessage conn = (Inr m, rest) \<Longrightarrow> length rest < length conn"
  by (auto simp: ReadMessage_def ReadFull_def Let_def split: if_splits sum.splits)

function connectionLoop ::
    "environment \<Rightarrow> (reason \<Rightarrow> string) \<Rightarrow> string \<Rightarrow> conn \<Rightarrow> byte list \<Rightarrow> World \<Rightarrow> (conn \<times> Message) list \<times> World" where
  "connectionLoop env text hostID c stream w =
     (case ReadMessage stream of
        (Inl _, _) \<Rightarrow> ([], w)
      | (Inr msg, rest) \<Rightarrow>
          (case HandleMessage env text hostID c msg w of
             (reply, w', evs) \<Rightarrow>
               if Procedure (msg_Header msg) = ProcConnectClose then (evs @ [(c, reply)], w')
               else (case connectionLoop env text hostID c rest w' of
                       (out, w'') \<Rightarrow> (evs @ (c, reply) # out, w''))))"
  by pat_completeness auto
termination
  by (relation "measure (\<lambda>(env, text, hostID, c, stream, w). length stream)")
    (auto dest!: sym [THEN ReadMessage_consumes])

declare connectionLoop.simps [simp del]

definition handleConnection ::
    "environment \<Rightarrow> (reason \<Rightarrow> string) \<Rightarrow> string \<Rightarrow> conn \<Rightarrow> byte list \<Rightarrow> World \<Rightarrow> (conn \<times> Message) list \<times> World" where
  "handleConnection env text hostID c stream w =
     (case connectionLoop env text hostID c stream (w\<lparr>w_bus := RegisterClient c hostID (w_bus w)\<rparr>) of
        (out, w') \<Rightarrow> (out, w'\<lparr>w_bus := UnregisterClient c (w_bus w')\<rparr>))"

end
