(* ===== verification/Libvirt_Theorems.thy ===== *)
theory Libvirt_Theorems
  imports Libvirt_Invariant Domain_XML
begin

text \<open>
  What libvirt-sim promises of its hosts and domains, stated over its operations and its runs.
\<close>

section \<open>Every run\<close>

text \<open>C5: After any sequence of orderly requests (sizes that do not overflow, no overcommit ratio
  lowered below what is in use, no prepared migration target stopped before the migration
  finishes), the vCPUs and the memory of the running and paused domains of every host, as the
  code counts them, are their exact sums and do not exceed what the host offers.\<close>

theorem host_resources_respected:
  assumes "guarded_run lv_step orderly NewStore_lv ls s" and "get (hosts s) hid = Some h"
  shows "UsedVCPUs h = vcpu_sum h \<and> UsedVCPUs h \<le> AvailableVCPUs h \<and>
    UsedMemoryMB h = mem_sum h \<and> UsedMemoryMB h \<le> AvailableMemoryMB h"
proof -
  have "sound s" by (rule libvirt.run_keeps [OF assms(1) sound_NewStore])
  from sound_host [OF this assms(2)] have "host_ok hid h" .
  then show ?thesis using used_exact by (simp add: host_ok_def within_limits_def)
qed

definition plain_host :: "string \<Rightarrow> int \<Rightarrow> Host" where
  "plain_host hid port = \<lparr>h_HostID = hid, h_LibvirtPort = port, h_CPUModel = ''sim'', h_CPUSockets = 1,
     h_CoresPerSocket = 4, h_ThreadsPerCore = 1, h_MemoryMB = 4096, h_CPUOvercommitRatio = Fin 1,
     h_MemOvercommitRatio = Fin 1, h_NUMATopology = [], h_GPUs = [], h_State = ''online'',
     h_Domains = fmempty\<rparr>"

definition plain_domain :: "byte \<Rightarrow> Domain" where
  "plain_domain b = \<lparr>d_Name = ''vm'', d_UUID = replicate 16 b, d_ID = - 1, d_State = 0, d_VCPUs = 3,
     d_MemoryKiB = 1048576, d_XML = '''', d_CreatedAt = 0, d_StartedAt = 0, d_InterfaceIDs = [],
     d_MigrationState = 0, d_MigrationCookie = ''''\<rparr>"

definition vm :: "byte \<Rightarrow> string" where
  "vm b = uuid_string (replicate 16 b)"

lemma plain_offers:
  "AvailableVCPUs (plain_host hid port\<lparr>h_Domains := m\<rparr>) = 4"
  "AvailableMemoryMB (plain_host hid port\<lparr>h_Domains := m\<rparr>) = 4096"
  "AvailableVCPUs (plain_host hid port) = 4" "AvailableMemoryMB (plain_host hid port) = 4096"
  by (simp_all add: AvailableVCPUs_def AvailableMemoryMB_def TotalVCPUs_def plain_host_def int_wrap scale_by_one)

abbreviation play_lv :: "(Store_lv \<Rightarrow> int \<times> lv_request \<Rightarrow> bool) \<Rightarrow> (int \<times> lv_request) list \<Rightarrow> Store_lv \<Rightarrow> Store_lv option" where
  "play_lv \<equiv> play (\<lambda>l s. Some (exec_lv (fst l) (snd l) s))"

lemmas lv_eval = plain_host_def plain_domain_def vm_def NewStore_lv_def AddHost_def host_defaults_def
  DefineDomain_def StartDomain_def MigratePrepare_def MigratePerform_def MigrateFinish_def
  MigrateConfirm_def DestroyDomain_def Destroy_def change_domain_def GetHost_def GetDomain_def
  UUIDString_def put_domain_def drop_domain_def take_id_def has_resources_def UsedVCPUs_def
  UsedMemoryMB_def range_fold_add_if sum_if_fmupd active_def mem_MB_def go_div_def prepared_def
  AvailableVCPUs_def AvailableMemoryMB_def TotalVCPUs_def scale_by_one offers_ok_def modest_def
  can_count_lv_def Let_def int_wrap

definition one_running :: "(int \<times> lv_request) list" where
  "one_running = [(0, AddHostReq (plain_host ''h1'' 16509)), (0, AddHostReq (plain_host ''h2'' 16510)),
     (0, DefineReq ''h1'' (plain_domain 7)), (0, StartReq ''h1'' (vm 7))]"

theorem host_resources_respected_witness:
  "\<exists>h. get (hosts (the (play_lv orderly one_running NewStore_lv))) ''h1'' = Some h \<and>
     UsedVCPUs h \<le> AvailableVCPUs h \<and> UsedVCPUs h = 3"
proof -
  let ?s = "the (play_lv orderly one_running NewStore_lv)"
  have run: "guarded_run lv_step orderly NewStore_lv one_running ?s"
    by (rule lv_player.play_SomeI) (simp add: one_running_def lv_eval)
  have "\<exists>h. get (hosts ?s) ''h1'' = Some h \<and> UsedVCPUs h = 3"
    by (simp add: one_running_def lv_eval)
  with host_resources_respected [OF run] show ?thesis by blast
qed

text \<open>C22: After any sequence of requests (up to 2^31 started domains), two domains anywhere on the
  hosts never share an identifier, except the -1 of domains that were not started here.\<close>

theorem domain_ids_unique:
  assumes "guarded_run lv_step can_count_lv NewStore_lv ls s"
    and "GetDomain hid u s = Inr d" and "GetDomain hid' u' s = Inr d'"
    and "d_ID d = d_ID d'" and "d_ID d \<noteq> - 1"
  shows "hid = hid' \<and> u = u'"
proof -
  have "ids_distinct NewStore_lv" by (simp add: ids_distinct_def NewStore_lv_def domain_at_def)
  from lv_naming.run_keeps [OF assms(1) this] have "ids_distinct s" .
  moreover have "domain_at s hid u d" "domain_at s hid' u' d'"
    using assms(2,3) by (auto simp: GetDomain_def GetHost_def domain_at_def split: option.splits)
  ultimately show ?thesis using assms(4,5) unfolding ids_distinct_def by blast
qed

definition two_running :: "(int \<times> lv_request) list" where
  "two_running = one_running @ [(0, DefineReq ''h2'' (plain_domain 9)), (0, StartReq ''h2'' (vm 9))]"

theorem domain_ids_unique_witness:
  "\<exists>d d'. GetDomain ''h1'' (vm 7) (the (play_lv can_count_lv two_running NewStore_lv)) = Inr d \<and>
     GetDomain ''h2'' (vm 9) (the (play_lv can_count_lv two_running NewStore_lv)) = Inr d' \<and> d_ID d \<noteq> d_ID d'"
proof -
  let ?s = "the (play_lv can_count_lv two_running NewStore_lv)"
  have run: "guarded_run lv_step can_count_lv NewStore_lv two_running ?s"
    by (rule lv_player.play_SomeI) (simp add: two_running_def one_running_def lv_eval)
  obtain d d' where d: "GetDomain ''h1'' (vm 7) ?s = Inr d" "d_ID d \<noteq> - 1" "GetDomain ''h2'' (vm 9) ?s = Inr d'"
    by (simp add: two_running_def one_running_def lv_eval)
  from domain_ids_unique [OF run d(1,3)] d show ?thesis by auto
qed

text \<open>After any sequence of orderly requests, looking a host up by its port never yields a nil
  host: it fails or gives a registered host that listens on that port; and the host of every
  identifier is found again by its own port.\<close>

theorem ports_and_hosts_agree:
  assumes "guarded_run lv_step orderly NewStore_lv ls s"
  shows "(\<forall>p x. GetHostByPort p s = Inr x \<longrightarrow> (\<exists>h. x = Some h \<and> h_LibvirtPort h = p \<and> GetHost (h_HostID h) s = Inr h)) \<and>
    (\<forall>hid h. GetHost hid s = Inr h \<longrightarrow> GetHostByPort (h_LibvirtPort h) s = Inr (Some h) \<and> h_HostID h = hid)"
proof -
  have s: "sound s" by (rule libvirt.run_keeps [OF assms sound_NewStore])
  have ids: "h_HostID h = hid" if "get (hosts s) hid = Some h" for hid h
    using sound_host [OF s that] by (simp add: host_ok_def)
  have ports: "get (ports s) (h_LibvirtPort h) = Some hid" if "get (hosts s) hid = Some h" for hid h
    using s that by (auto simp: sound_def ports_ok_def fmpred_iff)
  have hosts: "\<exists>h. get (hosts s) hid = Some h \<and> h_LibvirtPort h = p" if "get (ports s) p = Some hid" for p hid
    using s that by (auto simp: sound_def ports_ok_def fmpred_iff)
  have "\<exists>h. x = Some h \<and> h_LibvirtPort h = p \<and> GetHost (h_HostID h) s = Inr h"
    if "GetHostByPort p s = Inr x" for p x
    using that hosts [of p] ids by (auto simp: GetHostByPort_def split: option.splits)
  moreover have "GetHostByPort (h_LibvirtPort h) s = Inr (Some h) \<and> h_HostID h = hid"
    if "GetHost hid s = Inr h" for hid h
    using that ports [of hid h] ids [of hid h] by (simp add: GetHostByPort_def)
  ultimately show ?thesis by blast
qed

theorem ports_and_hosts_agree_witness:
  "\<exists>h. GetHostByPort 16510 (the (play_lv orderly one_running NewStore_lv)) = Inr (Some h) \<and> h_HostID h = ''h2''"
proof -
  let ?s = "the (play_lv orderly one_running NewStore_lv)"
  have run: "guarded_run lv_step orderly NewStore_lv one_running ?s"
    by (rule lv_player.play_SomeI) (simp add: one_running_def lv_eval)
  obtain h where h: "GetHost ''h2'' ?s = Inr h" "h_LibvirtPort h = 16510"
    by (simp add: one_running_def lv_eval)
  from ports_and_hosts_agree [OF run, THEN conjunct2, rule_format, OF h(1)] h(2) show ?thesis
    by (simp del: play.simps)
qed

section \<open>Migration between hosts\<close>

definition handover ::
    "int \<Rightarrow> string \<Rightarrow> string \<Rightarrow> Domain \<Rightarrow> Store_lv \<Rightarrow> (unit lv_result \<times> unit lv_result \<times> Domain lv_result \<times> unit lv_result) \<times> Store_lv" where
  "handover now src dest d s =
     (let (r1, s1) = MigratePrepare dest d s;
          (r2, s2) = MigratePerform src (UUIDString d) s1;
          (r3, s3) = MigrateFinish now dest (UUIDString d) s2;
          (r4, s4) = MigrateConfirm src (UUIDString d) s3
      in ((r1, r2, r3, r4), s4))"

text \<open>C6: The four-phase migration protocol moves a running domain: when the destination is another
  host that is online, has the resources and does not hold the domain, all four phases succeed;
  afterwards the domain runs on the destination with its name, identity, size, configuration
  and interfaces, it is gone from the source, and every other domain is as before.\<close>

theorem migration_protocol_moves_domain:
  assumes "src \<noteq> dest" and "GetDomain src u s = Inr d" and "UUIDString d = u"
    and "d_State d = DomainStateRunning" and "d_MigrationState d = MigrationStateNone"
    and "GetHost dest s = Inr g" and "h_State g = HostStateOnline" and "has_resources g d"
    and "get (h_Domains g) u = None"
  shows "\<exists>d' s'. handover now src dest d s = ((Inr (), Inr (), Inr d', Inr ()), s') \<and>
    GetDomain dest u s' = Inr d' \<and> d_State d' = DomainStateRunning \<and>
    d_Name d' = d_Name d \<and> d_UUID d' = d_UUID d \<and> d_VCPUs d' = d_VCPUs d \<and>
    d_MemoryKiB d' = d_MemoryKiB d \<and> d_XML d' = d_XML d \<and> d_InterfaceIDs d' = d_InterfaceIDs d \<and>
    d_MigrationState d' = MigrationStateNone \<and>
    GetDomain src u s' = Inl ErrNoDomain \<and>
    (\<forall>k v. (k, v) \<noteq> (src, u) \<longrightarrow> (k, v) \<noteq> (dest, u) \<longrightarrow> GetDomain k v s' = GetDomain k v s)"
proof -
  obtain h where h: "get (hosts s) src = Some h" "get (h_Domains h) u = Some d"
    using assms(2) by (auto simp: GetDomain_def GetHost_def split: option.splits)
  have g: "get (hosts s) dest = Some g" using assms(6) by simp
  show ?thesis
    using assms(1,3-5,7-9) h g
    by (simp add: handover_def MigratePrepare_def MigratePerform_def MigrateFinish_def MigrateConfirm_def
        GetHost_def put_domain_def drop_domain_def take_id_def Let_def UUIDString_def)
      (auto simp: GetDomain_def GetHost_def)
qed

theorem migration_protocol_moves_domain_witness:
  "\<exists>d d' s'. GetDomain ''h1'' (vm 7) (the (play_lv orderly one_running NewStore_lv)) = Inr d \<and>
     handover 5 ''h1'' ''h2'' d (the (play_lv orderly one_running NewStore_lv)) = ((Inr (), Inr (), Inr d', Inr ()), s') \<and>
     GetDomain ''h2'' (vm 7) s' = Inr d' \<and> GetDomain ''h1'' (vm 7) s' = Inl ErrNoDomain"
proof -
  let ?s = "the (play_lv orderly one_running NewStore_lv)"
  obtain d g where "GetDomain ''h1'' (vm 7) ?s = Inr d" "UUIDString d = vm 7"
    "d_State d = DomainStateRunning" "d_MigrationState d = MigrationStateNone"
    "GetHost ''h2'' ?s = Inr g" "h_State g = HostStateOnline" "has_resources g d"
    "get (h_Domains g) (vm 7) = None"
    by (simp add: one_running_def lv_eval)
  from migration_protocol_moves_domain [OF _ this, of 5] this show ?thesis by auto
qed

text \<open>A prepared migration target can be destroyed and still be finished: the finishing phase
  starts it again without looking at the host's resources. Here a host that offers 4 vCPUs ends
  up running 6.\<close>

theorem finish_after_destroy_overcommits:
  "\<exists>s h. play_lv (\<lambda>_ _. True)
      ([(0, AddHostReq (plain_host ''h2'' 16510)), (0, PrepareReq ''h2'' (plain_domain 7)),
        (0, DestroyReq ''h2'' (vm 7)), (0, DefineReq ''h2'' (plain_domain 9)),
        (0, StartReq ''h2'' (vm 9)), (0, FinishReq ''h2'' (vm 7))]) NewStore_lv = Some s \<and>
    get (hosts s) ''h2'' = Some h \<and> UsedVCPUs h = 6 \<and> AvailableVCPUs h = 4"
  by (simp add: lv_eval uuid_string_inj)

section \<open>Life cycle of a domain\<close>

text \<open>The life cycle as a table: the state an operation leads to, where it is allowed.\<close>

datatype lifecycle_op = DoDestroy | DoShutdown | DoSuspend | DoResume

fun next_state :: "lifecycle_op \<Rightarrow> int \<Rightarrow> int option" where
  "next_state DoDestroy st = (if st = DomainStateRunning \<or> st = DomainStatePaused then Some DomainStateShutoff else None)"
| "next_state DoShutdown st = (if st = DomainStateRunning then Some DomainStateShutoff else None)"
| "next_state DoSuspend st = (if st = DomainStateRunning then Some DomainStatePaused else None)"
| "next_state DoResume st = (if st = DomainStatePaused then Some DomainStateRunning else None)"

fun lifecycle :: "lifecycle_op \<Rightarrow> string \<Rightarrow> string \<Rightarrow> Store_lv \<Rightarrow> unit lv_result \<times> Store_lv" where
  "lifecycle DoDestroy hid u s = DestroyDomain hid u s"
| "lifecycle DoShutdown hid u s = ShutdownDomain hid u s"
| "lifecycle DoSuspend hid u s = SuspendDomain hid u s"
| "lifecycle DoResume hid u s = ResumeDomain hid u s"

text \<open>C24: Destroy, shutdown, suspend and resume implement the life-cycle table: they succeed exactly
  where the table has an entry, and then the domain is in the state of the entry, with no
  identifier once it is off, and nothing else of any domain has changed; otherwise they report
  an invalid operation and leave the store alone.\<close>

theorem lifecycle_refines_table:
  assumes "GetDomain hid u s = Inr d"
  shows "case next_state op (d_State d) of
      None \<Rightarrow> lifecycle op hid u s = (Inl ErrOperationInvalid, s)
    | Some st \<Rightarrow> \<exists>s' d'. lifecycle op hid u s = (Inr (), s') \<and> GetDomain hid u s' = Inr d' \<and>
        d' = d\<lparr>d_State := st, d_ID := (if st = DomainStateShutoff then - 1 else d_ID d)\<rparr> \<and>
        (\<forall>k v. (k, v) \<noteq> (hid, u) \<longrightarrow> GetDomain k v s' = GetDomain k v s)"
proof -
  obtain h where h: "get (hosts s) hid = Some h" "get (h_Domains h) u = Some d"
    using assms by (auto simp: GetDomain_def GetHost_def split: option.splits)
  show ?thesis
    by (cases op) (auto simp: h DestroyDomain_def ShutdownDomain_def SuspendDomain_def ResumeDomain_def
        change_domain_def Destroy_def Shutdown_def Suspend_def Resume_def GetHost_def GetDomain_def
        put_domain_def)
qed

theorem lifecycle_refines_table_witness:
  "\<exists>d d' s'. GetDomain ''h1'' (vm 7) (the (play_lv orderly one_running NewStore_lv)) = Inr d \<and>
     SuspendDomain ''h1'' (vm 7) (the (play_lv orderly one_running NewStore_lv)) = (Inr (), s') \<and>
     GetDomain ''h1'' (vm 7) s' = Inr d' \<and> d_State d' = DomainStatePaused"
proof -
  let ?s = "the (play_lv orderly one_running NewStore_lv)"
  obtain d where d: "GetDomain ''h1'' (vm 7) ?s = Inr d" "d_State d = DomainStateRunning"
    by (simp add: one_running_def lv_eval)
  from lifecycle_refines_table [OF d(1), of DoSuspend] d show ?thesis by auto
qed

end
