(* ===== verification/RPC_Theorems.thy ===== *)
theory RPC_Theorems
  imports RPC_Handlers Libvirt_Theorems
begin

text \<open>
  What the RPC service of libvirt-sim promises its clients: the wire format is read back, calls
  are answered in order, an error answer means that nothing happened, a call is at most one
  operation of the store, the reference a call returns finds its domain again, and an event goes
  to the registered clients of its host and to nobody else.
\<close>

section \<open>Failure leaves the store alone\<close>

lemma failed_change_domain: "change_domain f hid u s = (Inl e, t) \<Longrightarrow> t = s"
  by (auto simp: change_domain_def split: sum.splits option.splits)

lemma failed_transitions:
  "DestroyDomain hid u s = (Inl e, t) \<Longrightarrow> t = s" "ShutdownDomain hid u s = (Inl e, t) \<Longrightarrow> t = s"
  "SuspendDomain hid u s = (Inl e, t) \<Longrightarrow> t = s" "ResumeDomain hid u s = (Inl e, t) \<Longrightarrow> t = s"
  "UndefineDomain hid u s = (Inl e, t) \<Longrightarrow> t = s"
  by (auto simp: DestroyDomain_def ShutdownDomain_def SuspendDomain_def ResumeDomain_def
      UndefineDomain_def dest: failed_change_domain split: sum.splits option.splits if_splits)

lemma failed_operations:
  "DefineDomain now hid d s = (Inl e, t) \<Longrightarrow> t = s" "StartDomain now hid u s = (Inl e, t) \<Longrightarrow> t = s"
  "MigratePrepare hid d s = (Inl e, t) \<Longrightarrow> t = s" "MigratePerform hid u s = (Inl e, t) \<Longrightarrow> t = s"
  "MigrateFinish now hid u s = (Inl e, t) \<Longrightarrow> t = s" "MigrateConfirm hid u s = (Inl e, t) \<Longrightarrow> t = s"
  by (auto simp: DefineDomain_def StartDomain_def MigratePrepare_def MigratePerform_def
      MigrateFinish_def MigrateConfirm_def Let_def split: sum.splits option.splits if_splits prod.splits)

lemmas failed_keeps = failed_transitions failed_operations

section \<open>Registrations\<close>

text \<open>The callbacks that a deregistration leaves, and what it answers.\<close>

definition drop_callback :: "int \<Rightarrow> int \<Rightarrow> EventCallback \<Rightarrow> bool \<times> ClientEvents \<Rightarrow> bool \<times> ClientEvents" where
  "drop_callback eventID cbID cb = (\<lambda>(found, ce').
     if cb_EventID cb = eventID
     then (True, ce'\<lparr>ce_callbacks := fmdrop cbID (ce_callbacks ce')\<rparr>) else (found, ce'))"

interpretation drop_callback_loop: order_free_loop "drop_callback eventID"
  by unfold_locales (auto simp: drop_callback_def fmdrop_commute split: prod.split)

lemma drop_callback_loop_result:
  "distinct ks \<Longrightarrow> loop_over (drop_callback eventID) m ks (found, ce) =
     (found \<or> (\<exists>k\<in>set ks. \<exists>cb. get m k = Some cb \<and> cb_EventID cb = eventID),
      ce\<lparr>ce_callbacks := fmfilter (\<lambda>k. \<not> (k \<in> set ks \<and> (\<exists>cb. get m k = Some cb \<and> cb_EventID cb = eventID)))
           (ce_callbacks ce)\<rparr>)"
proof (induction ks arbitrary: found ce)
  case Nil
  then show ?case by (simp add: fmfilter_true)
next
  case (Cons k ks)
  show ?case
  proof (cases "\<exists>cb. get m k = Some cb \<and> cb_EventID cb = eventID")
    case True
    then show ?thesis
      using Cons by (auto simp: drop_callback_def intro!: ClientEvents.equality fmap_ext)
  next
    case False
    then show ?thesis
      using Cons by (auto simp: drop_callback_def intro!: ClientEvents.equality fmap_ext split: option.split)
  qed
qed

lemma DeregisterByEventID_result:
  "DeregisterByEventID eventID ce =
     (\<exists>k cb. get (ce_callbacks ce) k = Some cb \<and> cb_EventID cb = eventID,
      ce\<lparr>ce_callbacks := fmfilter (\<lambda>k. \<forall>cb. get (ce_callbacks ce) k = Some cb \<longrightarrow> cb_EventID cb \<noteq> eventID)
           (ce_callbacks ce)\<rparr>)"
proof -
  let ?m = "ce_callbacks ce" and ?ks = "keys_in_order (ce_callbacks ce)"
  have ks: "distinct ?ks" "set ?ks = fmdom' ?m"
    using iteration_order_keys_in_order [of ?m] by (simp_all add: iteration_order_def)
  have "DeregisterByEventID eventID ce = loop_over (drop_callback eventID) ?m ?ks (False, ce)"
    by (simp add: DeregisterByEventID_def range_fold_def drop_callback_def [abs_def])
  also have "\<dots> = (\<exists>k\<in>set ?ks. \<exists>cb. get ?m k = Some cb \<and> cb_EventID cb = eventID,
      ce\<lparr>ce_callbacks := fmfilter (\<lambda>k. \<not> (k \<in> set ?ks \<and> (\<exists>cb. get ?m k = Some cb \<and> cb_EventID cb = eventID))) ?m\<rparr>)"
    unfolding drop_callback_loop_result [OF ks(1)] by simp
  finally show ?thesis
    by (auto simp: ks(2) fmdom'I intro!: ClientEvents.equality fmap_ext)
qed

lemma nothing_deregistered:
  "DeregisterByEventID eventID ce = (False, ce') \<Longrightarrow> ce' = ce"
  by (auto simp: DeregisterByEventID_result intro!: ClientEvents.equality fmap_ext)

section \<open>A call is at most one operation of the store\<close>

text \<open>Which operation a call asks of the store, read off its procedure number and its body.\<close>

definition defined_in :: "environment \<Rightarrow> byte list \<Rightarrow> Domain option" where
  "defined_in env body =
     (case ReadString (NewXDRDecoder body) of
        (None, _) \<Rightarrow> None
      | (Some xmlStr, _) \<Rightarrow>
          (case ParseDomainXML (env_unmarshal env) xmlStr of
             Inl _ \<Rightarrow> None
           | Inr x \<Rightarrow>
               (case ParseUUID (x_UUID x) of
                  Inl _ \<Rightarrow> None
                | Inr uuid \<Rightarrow>
                    Some \<lparr>d_Name = x_Name x, d_UUID = uuid, d_ID = 0, d_State = DomainStateNoState,
                      d_VCPUs = x_VCPU x, d_MemoryKiB = MemoryKiB x, d_XML = xmlStr, d_CreatedAt = 0,
                      d_StartedAt = 0, d_InterfaceIDs = InterfaceIDs x,
                      d_MigrationState = MigrationStateNone, d_MigrationCookie = ''''\<rparr>)))"

definition referred :: "string \<Rightarrow> byte list \<Rightarrow> Store_lv \<Rightarrow> string option" where
  "referred hostID body s = (case readDomainRef hostID body s of Inl _ \<Rightarrow> None | Inr d \<Rightarrow> Some (UUIDString d))"

definition migrating :: "byte list \<Rightarrow> string option" where
  "migrating body =
     (case read_params body of
        Inl _ \<Rightarrow> None
      | Inr ps \<Rightarrow> if param ''domain_uuid'' ps = '''' then None else Some (param ''domain_uuid'' ps))"

definition source_of :: "environment \<Rightarrow> byte list \<Rightarrow> Store_lv \<Rightarrow> Domain option" where
  "source_of env body s =
     (case read_params body of
        Inl _ \<Rightarrow> None
      | Inr ps \<Rightarrow> find_source env (param ''domain_uuid'' ps) (param ''domain_name'' ps) s)"

definition speed_in :: "byte list \<Rightarrow> 64 word option" where
  "speed_in body = map_option (snd \<circ> snd \<circ> snd)
     (fst (then_read ReadString (then_read ReadUUID (then_read ReadInt32 ReadUint64)) (NewXDRDecoder body)))"

definition request_made :: "environment \<Rightarrow> string \<Rightarrow> int \<Rightarrow> byte list \<Rightarrow> Store_lv \<Rightarrow> lv_request option" where
  "request_made env hostID proc body s =
     (if proc = ProcDomainDefineXMLFlags then map_option (DefineReq hostID) (defined_in env body)
      else if proc = ProcDomainCreateWithFlags then map_option (StartReq hostID) (referred hostID body s)
      else if proc = ProcDomainDestroyFlags then map_option (DestroyReq hostID) (referred hostID body s)
      else if proc = ProcDomainShutdownFlags then map_option (ShutdownReq hostID) (referred hostID body s)
      else if proc = ProcDomainSuspend then map_option (SuspendReq hostID) (referred hostID body s)
      else if proc = ProcDomainResume then map_option (ResumeReq hostID) (referred hostID body s)
      else if proc = ProcDomainUndefineFlags then map_option (UndefineReq hostID) (referred hostID body s)
      else if proc = ProcDomainMigratePrepare3Params then map_option (PrepareReq hostID) (source_of env body s)
      else if proc = ProcDomainMigratePerform3Params then map_option (PerformReq hostID) (migrating body)
      else if proc = ProcDomainMigrateFinish3Params then map_option (FinishReq hostID) (migrating body)
      else if proc = ProcDomainMigrateConfirm3Params then map_option (ConfirmReq hostID) (migrating body)
      else if proc = ProcDomainMigrateSetMaxSpeed then map_option SetMigrationSpeedReq (speed_in body)
      else None)"

definition carried_out :: "int \<Rightarrow> lv_request option \<Rightarrow> Store_lv \<Rightarrow> Store_lv" where
  "carried_out now r s = (case r of None \<Rightarrow> s | Some req \<Rightarrow> exec_lv now req s)"

lemma carried_out_simps [simp]:
  "carried_out now None s = s" "carried_out now (Some req) s = exec_lv now req s"
  by (simp_all add: carried_out_def)

text \<open>What every handler has in common.\<close>

definition honest :: "int \<Rightarrow> lv_request option \<Rightarrow> World \<Rightarrow> outcome \<Rightarrow> bool" where
  "honest now req w = (\<lambda>(r, w', evs). w_store w' = carried_out now req (w_store w) \<and>
     (case r of Okay _ \<Rightarrow> True | Failed _ _ \<Rightarrow> w' = w \<and> evs = []))"

lemma honest_answer: "honest now None w (answer r w)"
  by (simp add: honest_def answer_def split: reply.split)

lemma honest_transition:
  assumes "\<And>u e t. f hostID u (w_store w) = (Inl e, t) \<Longrightarrow> t = w_store w"
    and "\<And>u. exec_lv now (req u) (w_store w) = snd (f hostID u (w_store w))"
  shows "honest now (map_option req (referred hostID body (w_store w))) w
    (handle_transition f event detail env hostID body w)"
  using assms
  by (auto simp: honest_def handle_transition_def answer_def referred_def split: sum.splits prod.splits)

lemma honest_define:
  "honest (env_now env) (map_option (DefineReq hostID) (defined_in env body)) w
     (handleDomainDefineXMLFlags env hostID body w)"
  by (auto simp: honest_def handleDomainDefineXMLFlags_def answer_def defined_in_def domainReply_def Let_def
      dest: failed_keeps split: sum.splits prod.splits option.splits)

lemma honest_create:
  "honest (env_now env) (map_option (StartReq hostID) (referred hostID body (w_store w))) w
     (handleDomainCreateWithFlags env hostID body w)"
  by (auto simp: honest_def handleDomainCreateWithFlags_def answer_def referred_def domainReply_def Let_def
      dest: failed_keeps split: sum.splits prod.splits option.splits)

lemma honest_prepare:
  "honest (env_now env) (map_option (PrepareReq hostID) (source_of env body (w_store w))) w
     (handleMigratePrepare3Params env hostID body w)"
  by (auto simp: honest_def handleMigratePrepare3Params_def answer_def source_of_def Let_def
      dest: failed_keeps split: sum.splits prod.splits option.splits)

lemma honest_migration:
  "honest (env_now env) (map_option (PerformReq hostID) (migrating body)) w
     (handleMigratePerform3Params env hostID body w)"
  "honest (env_now env) (map_option (FinishReq hostID) (migrating body)) w
     (handleMigrateFinish3Params env hostID body w)"
  "honest (env_now env) (map_option (ConfirmReq hostID) (migrating body)) w
     (handleMigrateConfirm3Params env hostID body w)"
  by (auto simp: honest_def handleMigratePerform3Params_def handleMigrateFinish3Params_def
      handleMigrateConfirm3Params_def answer_def migrating_def domainReply_def Let_def
      dest: failed_keeps split: sum.splits prod.splits option.splits)

lemma honest_speed:
  "honest (env_now env) (map_option SetMigrationSpeedReq (speed_in body)) w (handleMigrateSetMaxSpeed body w)"
  by (auto simp: honest_def handleMigrateSetMaxSpeed_def answer_def speed_in_def then_read_def
      split: prod.splits option.splits)

lemma honest_registration:
  "honest now None w (handleDomainEventRegisterAny c body w)"
  "honest now None w (handleDomainEventDeregisterAny c body w)"
  by (auto simp: honest_def handleDomainEventRegisterAny_def handleDomainEventDeregisterAny_def answer_def
      GetClientEvents_def fmupd_same dest!: nothing_deregistered split: prod.splits option.splits)

lemmas handlers_honest = honest_answer honest_define honest_create honest_prepare honest_migration
  honest_speed honest_registration

lemma dispatch_honest:
  "honest (env_now env) (request_made env hostID proc body (w_store w)) w (dispatch env hostID c proc body w)"
proof -
  have "honest (env_now env) (map_option (DestroyReq hostID) (referred hostID body (w_store w))) w
      (handleDomainDestroyFlags env hostID body w)"
    "honest (env_now env) (map_option (ShutdownReq hostID) (referred hostID body (w_store w))) w
      (handleDomainShutdownFlags env hostID body w)"
    "honest (env_now env) (map_option (SuspendReq hostID) (referred hostID body (w_store w))) w
      (handleDomainSuspend env hostID body w)"
    "honest (env_now env) (map_option (ResumeReq hostID) (referred hostID body (w_store w))) w
      (handleDomainResume env hostID body w)"
    "honest (env_now env) (map_option (UndefineReq hostID) (referred hostID body (w_store w))) w
      (handleDomainUndefineFlags env hostID body w)"
    unfolding handleDomainDestroyFlags_def handleDomainShutdownFlags_def handleDomainSuspend_def
      handleDomainResume_def handleDomainUndefineFlags_def
    by (rule honest_transition; simp add: failed_keeps)+
  then show ?thesis
    by (simp add: dispatch_def request_made_def Let_def handlers_honest)
qed

section \<open>The wire format\<close>

text \<open>A header is exactly its 24 bytes: decoding yields a header just when there are that many
  bytes, and these are the encoding of that header, with its signed fields in 32 bits.\<close>

theorem header_codec_exact:
  "DecodeHeader bs = Inr h \<longleftrightarrow> 24 \<le> length bs \<and> header_ok h \<and> Encode h = take 24 bs"
proof
  assume a: "DecodeHeader bs = Inr h"
  then have "24 \<le> length bs" by (auto simp: DecodeHeader_def split: if_splits)
  with Encode_DecodeHeader [OF a] show "24 \<le> length bs \<and> header_ok h \<and> Encode h = take 24 bs" by simp
next
  assume "24 \<le> length bs \<and> header_ok h \<and> Encode h = take 24 bs"
  then show "DecodeHeader bs = Inr h"
    using DecodeHeader_Encode [of h "drop 24 bs"] by simp
qed

lemma framing_only_if:
  assumes "ReadMessage stream = (Inr m, rest)"
  shows "message_ok m \<and> stream = WriteMessage m @ rest"
proof -
  let ?n = "unat (Uint32 (take 4 stream))"
  let ?p = "take (?n - 4) (drop 4 stream)"
  have n: "4 \<le> length stream" "28 \<le> ?n" "?n \<le> 4194304" "?n - 4 \<le> length (drop 4 stream)"
    and h: "DecodeHeader (take 24 ?p) = Inr (msg_Header m)" "msg_Body m = drop 24 ?p"
    and rest: "rest = drop (?n - 4) (drop 4 stream)"
    using assms by (auto simp: ReadMessage_def ReadFull_def Let_def split: if_splits sum.splits)
  have len: "length ?p = ?n - 4" using n(4) by simp
  have enc: "Encode (msg_Header m) = take 24 ?p" "header_ok (msg_Header m)"
    using Encode_DecodeHeader [OF h(1)] by simp_all
  have body: "length (msg_Body m) = ?n - 28" using len by (simp add: h(2))
  have tot: "4 + length (Encode (msg_Header m)) + length (msg_Body m) = ?n" using body n(2) by simp
  have "Encode (msg_Header m) @ msg_Body m = ?p" by (simp only: enc(1) h(2) append_take_drop_id)
  then have "WriteMessage m = PutUint32 (word_of_nat ?n) @ ?p" by (simp only: WriteMessage_def Let_def tot)
  also have "PutUint32 (word_of_nat ?n) = take 4 stream"
    using n(1) by (simp add: PutUint32_Uint32)
  finally have "WriteMessage m @ rest = stream" by (simp add: rest del: drop_drop)
  moreover have "message_ok m" using enc(2) body n(2,3) by (simp add: message_ok_def)
  ultimately show ?thesis by simp
qed

text \<open>C13: Framing is exact: reading a stream yields a message and a rest just when the stream is that
  message as it would be written, followed by that rest, and the message fits the size limit.
  So messages written one after the other are read back one by one, and bytes that no writer
  produces are refused.\<close>

theorem message_framing_exact:
  "ReadMessage stream = (Inr m, rest) \<longleftrightarrow> message_ok m \<and> stream = WriteMessage m @ rest"
  using framing_only_if ReadMessage_WriteMessage by blast

lemma ParseUUID_16: "ParseUUID s = Inr u \<Longrightarrow> length u = 16"
proof -
  have dec: "DecodeString s = Some b \<Longrightarrow> length s = 2 * length b" for s b
    by (induction s arbitrary: b rule: DecodeString.induct) (auto split: option.splits)
  show "ParseUUID s = Inr u \<Longrightarrow> length u = 16"
    by (auto simp: ParseUUID_def Let_def dest!: dec split: if_splits option.splits)
qed

text \<open>Printing a UUID and parsing it again gives the same bytes, exactly for the byte strings that
  are UUIDs (sixteen bytes).\<close>

theorem uuid_text_roundtrip:
  "ParseUUID (uuid_string u) = Inr u \<longleftrightarrow> length u = 16"
  using ParseUUID_16 ParseUUID_uuid_string by blast

section \<open>Replies\<close>

text \<open>C16: Every call is answered by a reply with the procedure and the serial number of the call, and
  an error reply means that nothing happened: the store, the hosts, the domains and the
  registrations are as before and no event was sent.\<close>

theorem reply_matches_call:
  "case HandleMessage env text hostID c msg w of (reply, w', evs) \<Rightarrow>
     Procedure (msg_Header reply) = Procedure (msg_Header msg) \<and>
     Serial (msg_Header reply) = Serial (msg_Header msg) \<and>
     Type (msg_Header reply) = MessageTypeReply \<and> Program (msg_Header reply) = RemoteProgram \<and>
     (Status (msg_Header reply) = StatusOK \<or>
      Status (msg_Header reply) = StatusError \<and> w' = w \<and> evs = [])"
proof -
  obtain r w' evs where d: "dispatch env hostID c (Procedure (msg_Header msg)) (msg_Body msg) w = (r, w', evs)"
    using prod_cases3 by blast
  have "case r of Okay _ \<Rightarrow> True | Failed _ _ \<Rightarrow> w' = w \<and> evs = []"
    using dispatch_honest [of env hostID "Procedure (msg_Header msg)" "msg_Body msg" w c]
    by (simp add: d honest_def)
  then show ?thesis
    by (cases r) (simp_all add: HandleMessage_def d NewReply_def errorReply_def Let_def)
qed

lemma HandleMessage_store:
  "w_store (fst (snd (HandleMessage env text hostID c msg w))) =
     carried_out (env_now env)
       (request_made env hostID (Procedure (msg_Header msg)) (msg_Body msg) (w_store w)) (w_store w)"
  using dispatch_honest [of env hostID "Procedure (msg_Header msg)" "msg_Body msg" w c]
  by (simp add: HandleMessage_def honest_def split: prod.splits)

text \<open>C9: A call is at most one operation of the store: the one its procedure number and body ask
  for (none for a query, a registration, an unknown procedure or a malformed body), run with
  the host of the connection. The service adds nothing to the store's own rules.\<close>

theorem call_refines_store_operation:
  "w_store (fst (snd (HandleMessage env text hostID c msg w))) =
     carried_out (env_now env)
       (request_made env hostID (Procedure (msg_Header msg)) (msg_Body msg) (w_store w)) (w_store w)"
  by (rule HandleMessage_store)

section \<open>Connections\<close>

text \<open>What a call can reach: the domains of the host it was made on.\<close>

definition settings :: "Host \<Rightarrow> Host" where
  "settings h = h\<lparr>h_Domains := fmempty\<rparr>"

lemma settings_domains [simp]: "settings (h\<lparr>h_Domains := m\<rparr>) = settings h"
  by (simp add: settings_def)

definition confined :: "string \<Rightarrow> Store_lv \<Rightarrow> Store_lv \<Rightarrow> bool" where
  "confined hid s t \<longleftrightarrow> ports t = ports s \<and>
     (\<forall>k. k \<noteq> hid \<longrightarrow> get (hosts t) k = get (hosts s) k) \<and>
     map_option settings (get (hosts t) hid) = map_option settings (get (hosts s) hid)"

lemma confined_same: "ports t = ports s \<Longrightarrow> hosts t = hosts s \<Longrightarrow> confined hid s t"
  by (simp add: confined_def)

lemma confined_refl [simp]: "confined hid s s"
  by (simp add: confined_same)

lemma confined_trans: "confined hid s t \<Longrightarrow> confined hid t u \<Longrightarrow> confined hid s u"
  by (simp add: confined_def)

lemma confined_put:
  "get (hosts s) hid = Some h \<Longrightarrow> hosts t = hosts s \<Longrightarrow> ports t = ports s \<Longrightarrow> confined hid s (put_domain hid h u d t)"
  by (auto simp: confined_def put_domain_def)

lemma confined_drop: "get (hosts s) hid = Some h \<Longrightarrow> confined hid s (drop_domain hid h u s)"
  by (auto simp: confined_def drop_domain_def)

lemma confined_change_domain: "confined hid s (snd (change_domain f hid u s))"
  by (auto simp: change_domain_def GetHost_def intro: confined_put split: sum.split option.split)

fun on_host :: "string \<Rightarrow> lv_request \<Rightarrow> bool" where
  "on_host hid (DefineReq k _) \<longleftrightarrow> k = hid"
| "on_host hid (StartReq k _) \<longleftrightarrow> k = hid"
| "on_host hid (DestroyReq k _) \<longleftrightarrow> k = hid"
| "on_host hid (ShutdownReq k _) \<longleftrightarrow> k = hid"
| "on_host hid (SuspendReq k _) \<longleftrightarrow> k = hid"
| "on_host hid (ResumeReq k _) \<longleftrightarrow> k = hid"
| "on_host hid (UndefineReq k _) \<longleftrightarrow> k = hid"
| "on_host hid (PrepareReq k _) \<longleftrightarrow> k = hid"
| "on_host hid (PerformReq k _) \<longleftrightarrow> k = hid"
| "on_host hid (FinishReq k _) \<longleftrightarrow> k = hid"
| "on_host hid (ConfirmReq k _) \<longleftrightarrow> k = hid"
| "on_host hid (SetMigrationSpeedReq _) \<longleftrightarrow> True"
| "on_host hid _ \<longleftrightarrow> False"

lemma request_on_host: "request_made env hostID proc body s = Some req \<Longrightarrow> on_host hostID req"
  by (auto simp: request_made_def split: if_splits)

lemma exec_confined: "on_host hid req \<Longrightarrow> confined hid s (exec_lv now req s)"
  by (cases req) (auto simp: DefineDomain_def StartDomain_def DestroyDomain_def ShutdownDomain_def
      SuspendDomain_def ResumeDomain_def UndefineDomain_def MigratePrepare_def MigratePerform_def
      MigrateFinish_def MigrateConfirm_def SetMigrationSpeed_def GetHost_def Let_def case_prod_beta
      confined_put confined_drop confined_same intro: confined_change_domain split: option.split)

lemma next_id_change_domain: "nextDomainID (snd (change_domain f hid u s)) = nextDomainID s"
  by (simp add: change_domain_def put_domain_def split: sum.split option.split)

lemma exec_next_id:
  assumes "on_host hid req" "0 < nextDomainID s" "nextDomainID s < 2147483647"
  shows "nextDomainID (exec_lv now req s) \<le> nextDomainID s + 1"
proof -
  have "nextDomainID (snd (take_id s)) \<le> nextDomainID s + 1"
    using assms(2,3) by (simp add: take_id_def Let_def int_wrap)
  then show ?thesis
    using assms(1) by (cases req) (auto simp: DefineDomain_def StartDomain_def DestroyDomain_def
      ShutdownDomain_def SuspendDomain_def ResumeDomain_def UndefineDomain_def MigratePrepare_def
      MigratePerform_def MigrateFinish_def MigrateConfirm_def SetMigrationSpeed_def GetHost_def Let_def
      case_prod_beta drop_domain_def next_id_change_domain split: option.split)
qed

text \<open>One message, as the loop sees it.\<close>

lemma message_confined:
  assumes "HandleMessage env text hostID c msg w = (reply, w', evs)"
  shows "confined hostID (w_store w) (w_store w')"
  using HandleMessage_store [of env "text" hostID c msg w] assms
  by (auto simp: carried_out_def exec_confined dest: request_on_host split: option.splits)

lemma message_ids:
  assumes "HandleMessage env text hostID c msg w = (reply, w', evs)"
    and "ids_distinct (w_store w)" "nextDomainID (w_store w) < 2147483647"
  shows "ids_distinct (w_store w') \<and> nextDomainID (w_store w') \<le> nextDomainID (w_store w) + 1"
proof (cases "request_made env hostID (Procedure (msg_Header msg)) (msg_Body msg) (w_store w)")
  case None
  then show ?thesis using HandleMessage_store [of env "text" hostID c msg w] assms by simp
next
  case (Some req)
  have "on_host hostID req" using Some by (rule request_on_host)
  then have "can_count_lv (w_store w) (env_now env, req)"
    using assms(3) by (cases req) (auto simp: can_count_lv_def)
  then have "ids_distinct (exec_lv (env_now env) req (w_store w))" by (rule exec_lv_ids [OF assms(2)])
  moreover have "nextDomainID (exec_lv (env_now env) req (w_store w)) \<le> nextDomainID (w_store w) + 1"
    using assms(2,3) by (intro exec_next_id [OF \<open>on_host hostID req\<close>]) (simp_all add: ids_distinct_def)
  ultimately show ?thesis
    using HandleMessage_store [of env "text" hostID c msg w] assms(1) by (simp add: Some)
qed

lemma loop_confined:
  "connectionLoop env text hostID c stream w = (out, w') \<Longrightarrow> confined hostID (w_store w) (w_store w')"
proof (induction env "text" hostID c stream w arbitrary: out w' rule: connectionLoop.induct)
  case (1 env "text" hostID c stream w)
  note run = 1(2) [unfolded connectionLoop.simps [of env "text" hostID c stream w]]
  show ?case
    by (use run 1(1) message_confined in
        \<open>fastforce split: prod.splits sum.splits if_splits intro: confined_trans\<close>)
qed

lemma loop_ids:
  "connectionLoop env text hostID c stream w = (out, w') \<Longrightarrow> ids_distinct (w_store w) \<Longrightarrow>
     nextDomainID (w_store w) + int (length stream) < 2147483647 \<Longrightarrow> ids_distinct (w_store w')"
proof (induction env "text" hostID c stream w arbitrary: out w' rule: connectionLoop.induct)
  case (1 env "text" hostID c stream w)
  note run = 1(2) [unfolded connectionLoop.simps [of env "text" hostID c stream w]]
  show ?case
  proof (cases "ReadMessage stream")
    case (Pair r rest)
    show ?thesis
    proof (cases r)
      case (Inl e)
      then show ?thesis using run Pair 1(3) by simp
    next
      case (Inr msg)
      obtain reply w1 evs where h: "HandleMessage env text hostID c msg w = (reply, w1, evs)"
        using prod_cases3 by blast
      have len: "length rest < length stream" using Pair Inr by (simp add: ReadMessage_consumes)
      have ids: "ids_distinct (w_store w1)" "nextDomainID (w_store w1) + int (length rest) < 2147483647"
        using message_ids [OF h 1(3)] 1(4) len by auto
      show ?thesis
      proof (cases "Procedure (msg_Header msg) = ProcConnectClose")
        case True
        then show ?thesis using run Pair Inr h ids by simp
      next
        case False
        then obtain out' where "connectionLoop env text hostID c rest w1 = (out', w')"
          using run Pair Inr h by (auto split: prod.splits)
        from 1(1) [OF Pair [symmetric] Inr h [symmetric] _ False this ids] show ?thesis by simp
      qed
    qed
  qed
qed

text \<open>A call touches no registration but those of its own connection.\<close>

definition own_bus :: "conn \<Rightarrow> World \<Rightarrow> World \<Rightarrow> bool" where
  "own_bus c w w' \<longleftrightarrow> fmdrop c (w_bus w') = fmdrop c (w_bus w)"

lemma own_bus_refl [simp]: "own_bus c w w" "own_bus c w (w\<lparr>w_store := s\<rparr>)"
  by (simp_all add: own_bus_def)

lemma own_bus_upd [simp]: "own_bus c w (w\<lparr>w_bus := fmupd c ce (w_bus w)\<rparr>)"
  by (simp add: own_bus_def)

lemma handlers_own_bus:
  "own_bus c w (fst (snd (answer r w)))"
  "own_bus c w (fst (snd (handleDomainDefineXMLFlags env hostID body w)))"
  "own_bus c w (fst (snd (handleDomainCreateWithFlags env hostID body w)))"
  "own_bus c w (fst (snd (handle_transition f event detail env hostID body w)))"
  "own_bus c w (fst (snd (handleMigratePrepare3Params env hostID body w)))"
  "own_bus c w (fst (snd (handleMigratePerform3Params env hostID body w)))"
  "own_bus c w (fst (snd (handleMigrateFinish3Params env hostID body w)))"
  "own_bus c w (fst (snd (handleMigrateConfirm3Params env hostID body w)))"
  "own_bus c w (fst (snd (handleMigrateSetMaxSpeed body w)))"
  "own_bus c w (fst (snd (handleDomainEventRegisterAny c body w)))"
  "own_bus c w (fst (snd (handleDomainEventDeregisterAny c body w)))"
  by (simp_all add: answer_def handleDomainDefineXMLFlags_def handleDomainCreateWithFlags_def
      handle_transition_def handleMigratePrepare3Params_def handleMigratePerform3Params_def
      handleMigrateFinish3Params_def handleMigrateConfirm3Params_def handleMigrateSetMaxSpeed_def
      handleDomainEventRegisterAny_def handleDomainEventDeregisterAny_def Let_def
      split: prod.split sum.split option.split)

lemma message_own_bus:
  assumes "HandleMessage env text hostID c msg w = (reply, w', evs)"
  shows "own_bus c w w'"
proof -
  have "own_bus c w (fst (snd (dispatch env hostID c (Procedure (msg_Header msg)) (msg_Body msg) w)))"
    by (simp add: dispatch_def Let_def handleDomainDestroyFlags_def handleDomainShutdownFlags_def
        handleDomainSuspend_def handleDomainResume_def handleDomainUndefineFlags_def handlers_own_bus)
  then show ?thesis using assms by (auto simp: HandleMessage_def split: prod.splits)
qed

lemma loop_own_bus:
  "connectionLoop env text hostID c stream w = (out, w') \<Longrightarrow> own_bus c w w'"
proof (induction env "text" hostID c stream w arbitrary: out w' rule: connectionLoop.induct)
  case (1 env "text" hostID c stream w)
  note run = 1(2) [unfolded connectionLoop.simps [of env "text" hostID c stream w]]
  show ?case
    by (use run 1(1) message_own_bus in
        \<open>fastforce split: prod.splits sum.splits if_splits simp: own_bus_def\<close>)
qed


text \<open>Whatever bytes a client sends, running domains keep different identifiers, as long as the
  counter cannot reach the end of its 32 bits within the stream.\<close>

theorem connection_keeps_ids_unique:
  assumes "ids_distinct (w_store w)"
    and "nextDomainID (w_store w) + int (length stream) < 2147483647"
  shows "ids_distinct (w_store (snd (handleConnection env text hostID c stream w)))"
proof -
  let ?w = "w\<lparr>w_bus := RegisterClient c hostID (w_bus w)\<rparr>"
  obtain out w' where l: "connectionLoop env text hostID c stream ?w = (out, w')" by fastforce
  from loop_ids [OF l] assms show ?thesis by (simp add: handleConnection_def l)
qed

definition silent_env :: environment where
  "silent_env = \<lparr>env_now = 0, env_unmarshal = (\<lambda>_. None), env_hosts = (\<lambda>_. []), env_domains = (\<lambda>_. []),
     env_clients = (\<lambda>_. []), env_callbacks = (\<lambda>_. [])\<rparr>"

definition call :: "int \<Rightarrow> 32 word \<Rightarrow> byte list \<Rightarrow> Message" where
  "call proc serial body = \<lparr>msg_Header = \<lparr>Program = RemoteProgram, Version = RemoteProtocolVersion,
     Procedure = proc, Type = MessageTypeCall, Serial = serial, Status = StatusOK\<rparr>, msg_Body = body\<rparr>"

text \<open>A reference to the domain with sixteen equal bytes as its UUID, as a client writes it.\<close>

definition ref_body :: "byte \<Rightarrow> byte list" where
  "ref_body b = WriteInt32 1 (WriteUUID (replicate 16 b) (WriteString ''vm'' []))"

definition busy_world :: World where
  "busy_world = \<lparr>w_store = the (play_lv can_count_lv two_running NewStore_lv), w_bus = fmempty\<rparr>"

theorem connection_keeps_ids_unique_witness:
  "ids_distinct (w_store (snd (handleConnection silent_env (\<lambda>_. ''failed'') ''h1'' 0
     (WriteMessage (call 234 1 (ref_body 7))) busy_world)))"
proof (rule connection_keeps_ids_unique)
  have run: "guarded_run lv_step can_count_lv NewStore_lv two_running (w_store busy_world)"
    unfolding busy_world_def World.simps
    by (rule lv_player.play_SomeI) (simp add: two_running_def one_running_def lv_eval)
  have "ids_distinct NewStore_lv" by (simp add: ids_distinct_def NewStore_lv_def domain_at_def)
  from lv_naming.run_keeps [OF run this] show "ids_distinct (w_store busy_world)" .
  have "nextDomainID (w_store busy_world) = 3"
    by (simp add: busy_world_def two_running_def one_running_def lv_eval)
  then show "nextDomainID (w_store busy_world) + int (length (WriteMessage (call 234 1 (ref_body 7)))) < 2147483647"
    by (simp add: WriteMessage_def call_def ref_body_def Let_def WriteInt32_def WriteUUID_def WriteString_def
        WriteUint32_def pad4_def)
qed

text \<open>Answering a list of calls one after the other.\<close>

fun serve_all ::
    "environment \<Rightarrow> (reason \<Rightarrow> string) \<Rightarrow> string \<Rightarrow> conn \<Rightarrow> Message list \<Rightarrow> World \<Rightarrow> (conn \<times> Message) list \<times> World" where
  "serve_all env text hostID c [] w = ([], w)"
| "serve_all env text hostID c (m # ms) w =
     (case HandleMessage env text hostID c m w of
        (reply, w', evs) \<Rightarrow>
          (case serve_all env text hostID c ms w' of (out, w'') \<Rightarrow> (evs @ (c, reply) # out, w'')))"

lemma loop_serves:
  assumes "list_all message_ok ms" "list_all (\<lambda>m. Procedure (msg_Header m) \<noteq> ProcConnectClose) ms"
    and "message_ok bye" "Procedure (msg_Header bye) = ProcConnectClose"
  shows "connectionLoop env text hostID c (concat (map WriteMessage (ms @ [bye])) @ junk) w =
    serve_all env text hostID c (ms @ [bye]) w"
  using assms(1,2)
proof (induction ms arbitrary: w)
  case Nil
  show ?case
    using assms(3,4)
    by (subst connectionLoop.simps) (simp add: ReadMessage_WriteMessage split: prod.split)
next
  case (Cons m ms)
  then show ?case
    by (subst connectionLoop.simps)
      (simp add: ReadMessage_WriteMessage split: prod.split)
qed

text \<open>C18: A connection answers the calls of its stream in the order they were sent, each on the world
  the call before it left, up to the call that closes it, and reads nothing after that.\<close>

theorem connection_serves_in_order:
  assumes "list_all message_ok ms" "list_all (\<lambda>m. Procedure (msg_Header m) \<noteq> ProcConnectClose) ms"
    and "message_ok bye" "Procedure (msg_Header bye) = ProcConnectClose"
  shows "handleConnection env text hostID c (concat (map WriteMessage (ms @ [bye])) @ junk) w =
    apsnd (\<lambda>w'. w'\<lparr>w_bus := fmdrop c (w_bus w')\<rparr>)
      (serve_all env text hostID c (ms @ [bye]) (w\<lparr>w_bus := RegisterClient c hostID (w_bus w)\<rparr>))"
  unfolding handleConnection_def loop_serves [OF assms]
  by (simp add: UnregisterClient_def split: prod.split)

theorem connection_serves_in_order_witness:
  "map (\<lambda>(c, m). (c, Serial (msg_Header m), Status (msg_Header m)))
     (fst (handleConnection silent_env (\<lambda>_. ''failed'') ''h1'' 0
        (concat (map WriteMessage ([call 1 1 [], call 9999 2 []] @ [call 2 3 []])) @ [0, 0]) busy_world)) =
   [(0, 1, StatusOK), (0, 2, StatusError), (0, 3, StatusOK)]"
proof -
  have ok: "list_all message_ok [call 1 1 [], call 9999 2 []]" "message_ok (call 2 3 [])"
    "list_all (\<lambda>m. Procedure (msg_Header m) \<noteq> ProcConnectClose) [call 1 1 [], call 9999 2 []]"
    "Procedure (msg_Header (call 2 3 [])) = ProcConnectClose"
    by (simp_all add: message_ok_def header_ok_def is_int32_def call_def)
  show ?thesis
    unfolding connection_serves_in_order [OF ok(1,3,2,4)]
    by (simp add: HandleMessage_def dispatch_def call_def answer_def handleConnectOpen_def
        handleConnectClose_def NewReply_def errorReply_def Let_def)
qed

section \<open>References to domains\<close>

text \<open>The two triples a client and the service exchange are codecs built from the codecs of their parts.\<close>


interpretation uuid_id: xdr_pair WriteUUID ReadUUID "\<lambda>u. length u = 16" WriteInt32 ReadInt32 is_int32
  by unfold_locales

interpretation domain_ref: xdr_pair WriteString ReadString short
    "then_write WriteUUID WriteInt32" "then_read ReadUUID ReadInt32" "\<lambda>p. length (fst p) = 16 \<and> is_int32 (snd p)"
  by unfold_locales

lemma encodeDomainRef_codec:
  "encodeDomainRef d buf = then_write WriteString (then_write WriteUUID WriteInt32) (d_Name d, d_UUID d, d_ID d) buf"
  by (simp add: encodeDomainRef_def then_write_def)

lemma readDomainRef_codec:
  assumes "fst (then_read ReadString (then_read ReadUUID ReadInt32) (NewXDRDecoder body)) = Some (name, uuid, n)"
  shows "readDomainRef hostID body s =
    (case GetDomain hostID (uuid_string uuid) s of Inl e \<Rightarrow> Inl (StoreFailed e) | Inr d \<Rightarrow> Inr d)"
  using assms by (auto simp: readDomainRef_def then_read_def split: prod.splits option.splits)

lemma reference_found_again:
  assumes "short (d_Name d)" "length (d_UUID d) = 16" "is_int32 (d_ID d)"
  shows "readDomainRef hostID (encodeDomainRef d [] @ rest) s =
    (case GetDomain hostID (UUIDString d) s of Inl e \<Rightarrow> Inl (StoreFailed e) | Inr e \<Rightarrow> Inr e)"
proof -
  let ?v = "(d_Name d, d_UUID d, d_ID d)"
  have "then_read ReadString (then_read ReadUUID ReadInt32) (NewXDRDecoder (encodeDomainRef d [] @ rest)) =
      (Some ?v, \<lparr>dec_data = encodeDomainRef d [] @ rest, dec_pos = length (encodeDomainRef d [])\<rparr>)"
    unfolding encodeDomainRef_codec using assms by (intro domain_ref.reads_first) simp
  then show ?thesis
    by (simp add: readDomainRef_codec [of _ "d_Name d" "d_UUID d" "d_ID d"] UUIDString_def)
qed

lemma DefineDomain_result:
  assumes "DefineDomain now hid d s = (Inr d', s')"
  shows "GetDomain hid (UUIDString d) s' = Inr d' \<and>
    d' = d\<lparr>d_State := DomainStateShutoff, d_ID := - 1, d_CreatedAt := now\<rparr>"
  using assms by (auto simp: DefineDomain_def GetDomain_def GetHost_def put_domain_def UUIDString_def Let_def
      split: option.splits sum.splits)

lemma define_result:
  assumes "handleDomainDefineXMLFlags env hostID body w = (Okay ref, w', evs)"
  shows "\<exists>d. defined_in env body = Some d \<and> length (d_UUID d) = 16 \<and>
    GetDomain hostID (UUIDString d) (w_store w') =
      Inr (d\<lparr>d_State := DomainStateShutoff, d_ID := - 1, d_CreatedAt := env_now env\<rparr>) \<and>
    ref = encodeDomainRef (d\<lparr>d_State := DomainStateShutoff, d_ID := - 1, d_CreatedAt := env_now env\<rparr>) []"
  using assms
  by (auto simp: handleDomainDefineXMLFlags_def defined_in_def answer_def Let_def domainReply_def
      dest!: DefineDomain_result dest: ParseUUID_16 split: prod.splits option.splits sum.splits)

text \<open>The answer to a define call is a usable reference: put at the front of a later call on the
  same host, it finds the domain just defined, shut off, without an identifier, and with the
  name, the UUID, the size and the text that the XML gave.\<close>

theorem define_reply_refers_to_domain:
  assumes "handleDomainDefineXMLFlags env hostID body w = (Okay ref, w', evs)"
    and "defined_in env body = Some d" and "short (d_Name d)"
  shows "\<exists>d'. readDomainRef hostID (ref @ args) (w_store w') = Inr d' \<and>
    d_State d' = DomainStateShutoff \<and> d_ID d' = - 1 \<and> d_Name d' = d_Name d \<and> d_UUID d' = d_UUID d \<and>
    d_VCPUs d' = d_VCPUs d \<and> d_MemoryKiB d' = d_MemoryKiB d \<and> d_XML d' = d_XML d"
  using define_result [OF assms(1)] assms(2,3)
  by (auto simp: reference_found_again is_int32_def UUIDString_def)

text \<open>A parser that takes every text for the same small domain.\<close>

definition small_document :: DomainXML where
  "small_document = \<lparr>x_Type = ''kvm'', x_Name = ''vm'', x_UUID = vm 7,
     x_Memory = \<lparr>mem_Unit = ''mib'', mem_Value = 512\<rparr>, x_VCPU = 2,
     x_Devices = \<lparr>dd_Disks = [], dd_Interfaces = [], dd_HostDevs = []\<rparr>\<rparr>"

definition parsing_env :: environment where
  "parsing_env = silent_env\<lparr>env_unmarshal := (\<lambda>_. Some small_document)\<rparr>"

theorem define_reply_refers_to_domain_witness:
  "\<exists>ref w' evs d'. handleDomainDefineXMLFlags parsing_env ''h1'' (WriteString ''<domain/>'' [])
       \<lparr>w_store = snd (AddHost (plain_host ''h1'' 16509) NewStore_lv), w_bus = fmempty\<rparr> = (Okay ref, w', evs) \<and>
     readDomainRef ''h1'' (ref @ PutUint32 0) (w_store w') = Inr d' \<and> d_MemoryKiB d' = 524288"
proof -
  let ?w = "\<lparr>w_store = snd (AddHost (plain_host ''h1'' 16509) NewStore_lv), w_bus = fmempty\<rparr>"
  have read: "fst (ReadString (NewXDRDecoder (WriteString ''<domain/>'' []))) = Some ''<domain/>''"
    using str.reads_first [of "''<domain/>''" "[]"] by (simp add: short_def)
  have "MemoryKiB small_document = 524288" "ParseUUID (vm 7) = Inr (replicate 16 7)"
    by (simp_all add: MemoryKiB_def small_document_def lower_def int_wrap vm_def ParseUUID_uuid_string Let_def)
  then have d: "\<exists>d. defined_in parsing_env (WriteString ''<domain/>'' []) = Some d \<and> d_Name d = ''vm'' \<and>
      d_MemoryKiB d = 524288"
    using read by (auto simp: defined_in_def parsing_env_def ParseDomainXML_def small_document_def
        split: prod.splits)
  then obtain ref w' evs where run: "handleDomainDefineXMLFlags parsing_env ''h1'' (WriteString ''<domain/>'' []) ?w =
      (Okay ref, w', evs)"
    by (auto simp: defined_in_def handleDomainDefineXMLFlags_def domainReply_def DefineDomain_def
        AddHost_def plain_host_def NewStore_lv_def GetHost_def Let_def host_defaults_def
        split: prod.splits option.splits sum.splits)
  from d show ?thesis
    using run define_reply_refers_to_domain [OF run, of _ "PutUint32 0"] by (fastforce simp: short_def)
qed

section \<open>Events\<close>

lemma callbacks_set:
  assumes "iteration_order (ce_callbacks ce) ks"
  shows "set (GetCallbacksForEvent ks e ce) =
    {cb_CallbackID cb | cb. \<exists>k. get (ce_callbacks ce) k = Some cb \<and> cb_EventID cb = e}"
  using values_along_set [OF assms] by (auto simp: GetCallbacksForEvent_def)

text \<open>Taking back the registrations for one kind of event succeeds exactly when there was one;
  afterwards there is none for that kind, and those for every other kind are as before,
  whatever the order in which the registrations are met.\<close>

theorem deregister_exact:
  assumes "iteration_order (ce_callbacks ce) ks" "iteration_order (ce_callbacks ce') ks'"
    and "DeregisterByEventID eventID ce = (found, ce')"
  shows "(found \<longleftrightarrow> GetCallbacksForEvent ks eventID ce \<noteq> []) \<and> GetCallbacksForEvent ks' eventID ce' = [] \<and>
    (\<forall>other. other \<noteq> eventID \<longrightarrow>
       set (GetCallbacksForEvent ks' other ce') = set (GetCallbacksForEvent ks other ce))"
proof -
  have left: "get (ce_callbacks ce') k = Some cb \<longleftrightarrow> get (ce_callbacks ce) k = Some cb \<and> cb_EventID cb \<noteq> eventID"
    for k cb
  proof -
    have "ce_callbacks ce' = fmfilter (\<lambda>k. \<forall>cb. get (ce_callbacks ce) k = Some cb \<longrightarrow> cb_EventID cb \<noteq> eventID)
        (ce_callbacks ce)"
      using assms(3) by (auto simp: DeregisterByEventID_result)
    then show ?thesis by (cases "get (ce_callbacks ce) k") auto
  qed
  have "found \<longleftrightarrow> (\<exists>k cb. get (ce_callbacks ce) k = Some cb \<and> cb_EventID cb = eventID)"
    using assms(3) by (simp add: DeregisterByEventID_result)
  then have "found \<longleftrightarrow> set (GetCallbacksForEvent ks eventID ce) \<noteq> {}"
    unfolding callbacks_set [OF assms(1)] by blast
  moreover have "set (GetCallbacksForEvent ks' eventID ce') = {}"
    unfolding callbacks_set [OF assms(2)] left by blast
  moreover have "set (GetCallbacksForEvent ks' other ce') = set (GetCallbacksForEvent ks other ce)"
    if "other \<noteq> eventID" for other
    unfolding callbacks_set [OF assms(1)] callbacks_set [OF assms(2)] left using that by blast
  ultimately show ?thesis by simp
qed

definition two_callbacks :: ClientEvents where
  "two_callbacks = snd (Register 0 (snd (Register 4 (NewClientEvents ''h1''))))"

theorem deregister_exact_witness:
  "fst (DeregisterByEventID 0 two_callbacks) \<and>
   set (GetCallbacksForEvent [1] 4 (snd (DeregisterByEventID 0 two_callbacks))) =
     set (GetCallbacksForEvent [1, 2] 4 two_callbacks)"
proof -
  have order: "iteration_order (ce_callbacks two_callbacks) [1, 2]"
    "iteration_order (ce_callbacks (snd (DeregisterByEventID 0 two_callbacks))) [1]"
    by (auto simp: two_callbacks_def iteration_order_def Register_def NewClientEvents_def Let_def int_wrap
        DeregisterByEventID_result fmlookup_dom'_iff split: if_splits)
  have "GetCallbacksForEvent [1, 2] 0 two_callbacks \<noteq> []"
    by (simp add: two_callbacks_def GetCallbacksForEvent_def values_along_def List.map_filter_def
        Register_def NewClientEvents_def Let_def int_wrap)
  with deregister_exact [OF order, of 0 "fst (DeregisterByEventID 0 two_callbacks)"] show ?thesis by simp
qed

text \<open>The body of an event message is a codec too.\<close>

interpretation two_ints: xdr_pair WriteInt32 ReadInt32 is_int32 WriteInt32 ReadInt32 is_int32
  by unfold_locales

interpretation ref_and_ints: xdr_pair "then_write WriteString (then_write WriteUUID WriteInt32)"
    "then_read ReadString (then_read ReadUUID ReadInt32)"
    "\<lambda>p. short (fst p) \<and> length (fst (snd p)) = 16 \<and> is_int32 (snd (snd p))"
    "then_write WriteInt32 WriteInt32" "then_read ReadInt32 ReadInt32" "\<lambda>p. is_int32 (fst p) \<and> is_int32 (snd p)"
  by unfold_locales

definition write_event :: "int \<times> (string \<times> byte list \<times> int) \<times> int \<times> int \<Rightarrow> byte list \<Rightarrow> byte list" where
  "write_event = then_write WriteInt32 (then_write (then_write WriteString (then_write WriteUUID WriteInt32))
     (then_write WriteInt32 WriteInt32))"

definition read_event :: "(int \<times> (string \<times> byte list \<times> int) \<times> int \<times> int) reading" where
  "read_event = then_read ReadInt32 (then_read (then_read ReadString (then_read ReadUUID ReadInt32))
     (then_read ReadInt32 ReadInt32))"

interpretation event_body: xdr_pair WriteInt32 ReadInt32 is_int32
    "then_write (then_write WriteString (then_write WriteUUID WriteInt32)) (then_write WriteInt32 WriteInt32)"
    "then_read (then_read ReadString (then_read ReadUUID ReadInt32)) (then_read ReadInt32 ReadInt32)"
    "\<lambda>p. (short (fst (fst p)) \<and> length (fst (snd (fst p))) = 16 \<and> is_int32 (snd (snd (fst p)))) \<and>
       is_int32 (fst (snd p)) \<and> is_int32 (snd (snd p))"
  by unfold_locales

lemma event_body_written:
  "msg_Body (buildLifecycleEventMessage cbID d event detail) =
     write_event (cbID, (d_Name d, d_UUID d, d_ID d), event, detail) []"
  by (simp add: buildLifecycleEventMessage_def write_event_def then_write_def)

text \<open>A client that decodes the body of an event message gets back the number of its
  registration, the name, UUID and identifier of the domain, the event and its detail.\<close>

theorem event_message_read_back:
  assumes "is_int32 cbID" "short (d_Name d)" "length (d_UUID d) = 16" "is_int32 (d_ID d)" "is_int32 event" "is_int32 detail"
  shows "fst (read_event (NewXDRDecoder (msg_Body (buildLifecycleEventMessage cbID d event detail)))) =
    Some (cbID, (d_Name d, d_UUID d, d_ID d), event, detail)"
  using event_body.reads_first [of "(cbID, (d_Name d, d_UUID d, d_ID d), event, detail)" "[]"] assms
  by (simp add: event_body_written write_event_def read_event_def)

theorem event_message_read_back_witness:
  "fst (read_event (NewXDRDecoder (msg_Body (buildLifecycleEventMessage 2 (plain_domain 7) DomainEventStopped 1)))) =
     Some (2, (''vm'', replicate 16 7, - 1), DomainEventStopped, 1)"
  using event_message_read_back [of 2 "plain_domain 7" DomainEventStopped 1]
  by (simp add: plain_domain_def is_int32_def short_def)

text \<open>C31: A domain event goes exactly to the connections of that host that have a registration for
  lifecycle events, whatever the order in which they are met, and each copy carries the number of its registration
  and tells the domain, the event and its detail.\<close>

theorem event_delivery_exact:
  assumes "iteration_order eb (env_clients env eb)"
    and "\<And>m. iteration_order m (env_callbacks env m)"
  shows "(c, m) \<in> set (EmitDomainLifecycleEvent env hostID d event detail eb) \<longleftrightarrow>
    (\<exists>ce k cb. get eb c = Some ce \<and> ce_hostID ce = hostID \<and> get (ce_callbacks ce) k = Some cb \<and>
       cb_EventID cb = VirDomainEventIDLifecycle \<and>
       m = buildLifecycleEventMessage (cb_CallbackID cb) d event detail)"
proof -
  have "(c, m) \<in> set (EmitDomainLifecycleEvent env hostID d event detail eb) \<longleftrightarrow>
      (\<exists>ce. get eb c = Some ce \<and> ce_hostID ce = hostID \<and>
         (\<exists>n\<in>set (GetCallbacksForEvent (env_callbacks env (ce_callbacks ce)) VirDomainEventIDLifecycle ce).
            m = buildLifecycleEventMessage n d event detail))"
  proof -
    have "set (env_clients env eb) = fmdom' eb" using assms(1) by (simp add: iteration_order_def)
    then show ?thesis
      by (cases "get eb c")
        (auto simp: EmitDomainLifecycleEvent_def fmlookup_dom'_iff split: option.splits if_splits
          intro!: bexI [of _ c] fmdom'I)
  qed
  then show ?thesis unfolding callbacks_set [OF assms(2)] by blast
qed

definition keyed_env :: environment where
  "keyed_env = silent_env\<lparr>env_clients := keys_in_order, env_callbacks := keys_in_order\<rparr>"

definition two_clients :: EventBus where
  "two_clients = fmupd 3 two_callbacks (RegisterClient 4 ''h1'' fmempty)"

theorem event_delivery_exact_witness:
  "(3, buildLifecycleEventMessage 2 (plain_domain 7) DomainEventStarted 0) \<in>
     set (EmitDomainLifecycleEvent keyed_env ''h1'' (plain_domain 7) DomainEventStarted 0 two_clients) \<and>
   (\<forall>m. (4, m) \<notin> set (EmitDomainLifecycleEvent keyed_env ''h1'' (plain_domain 7) DomainEventStarted 0 two_clients))"
proof -
  have order: "iteration_order two_clients (env_clients keyed_env two_clients)"
    "\<And>m. iteration_order m (env_callbacks keyed_env m)"
    by (simp_all add: keyed_env_def iteration_order_keys_in_order)
  have "get two_clients 3 = Some two_callbacks" "ce_hostID two_callbacks = ''h1''"
    "get (ce_callbacks two_callbacks) 2 = Some \<lparr>cb_CallbackID = 2, cb_EventID = 0\<rparr>"
    "get two_clients 4 = Some (NewClientEvents ''h1'')" "ce_callbacks (NewClientEvents ''h1'') = fmempty"
    by (simp_all add: two_clients_def two_callbacks_def Register_def NewClientEvents_def RegisterClient_def
        Let_def int_wrap)
  then show ?thesis unfolding event_delivery_exact [OF order] by force
qed

end
