(* ===== verification/Libvirt_Management.thy ===== *)
theory Libvirt_Management
  imports RPC_Theorems
begin

text \<open>
  The management interface of libvirt-sim (\<^verbatim>\<open>handler/management.go\<close>) and the listeners of
  its RPC server (\<^verbatim>\<open>rpc/server.go\<close>). A handler takes what it reads of the request (the path
  value and the JSON body, \<open>None\<close> when it does not decode) and gives a status, a body and
  the new world: the store, the event bus and the listeners. Whether the operating system lets
  the server listen on a port is the argument \<open>listen\<close>.
\<close>

section \<open>Listeners\<close>

record Plant = World +
  w_listeners :: "(string, int) gomap"

datatype listen_error = ListenerExists | ListenFailed | NoListener

definition NewServer :: "Store_lv \<Rightarrow> Plant" where
  "NewServer s = \<lparr>w_store = s, w_bus = fmempty, w_listeners = fmempty\<rparr>"

definition StartListener :: "(int \<Rightarrow> bool) \<Rightarrow> string \<Rightarrow> int \<Rightarrow> Plant \<Rightarrow> (listen_error + unit) \<times> Plant" where
  "StartListener listen hostID port p =
     (if get (w_listeners p) hostID \<noteq> None then (Inl ListenerExists, p)
      else if \<not> listen port then (Inl ListenFailed, p)
      else (Inr (), p\<lparr>w_listeners := fmupd hostID port (w_listeners p)\<rparr>))"

definition StopListener :: "string \<Rightarrow> Plant \<Rightarrow> (listen_error + unit) \<times> Plant" where
  "StopListener hostID p =
     (if get (w_listeners p) hostID = None then (Inl NoListener, p)
      else (Inr (), p\<lparr>w_listeners := fmdrop hostID (w_listeners p)\<rparr>))"

definition StopAll :: "Plant \<Rightarrow> Plant" where
  "StopAll p = p\<lparr>w_listeners := fmempty\<rparr>"

section \<open>Requests and responses\<close>

record CreateHostRequest =
  ch_HostID :: string
  ch_LibvirtPort :: int
  ch_CPUModel :: string
  ch_CPUSockets :: int
  ch_CoresPerSocket :: int
  ch_ThreadsPerCore :: int
  ch_MemoryMB :: int
  ch_CPUOvercommitRatio :: f64
  ch_MemOvercommitRatio :: f64
  ch_NUMATopology :: "NUMANode list"
  ch_GPUs :: "GPU list"

record UpdateHostConfigRequest =
  uc_CPUOvercommitRatio :: "f64 option"
  uc_MemOvercommitRatio :: "f64 option"

datatype message_lv =
    InvalidBody_lv
  | HostIDRequired
  | PortRequired
  | StoreFailure lv_error
  | StartListenerFailed listen_error
  | InvalidState string

datatype body_lv =
    ErrorBody_lv message_lv
  | HostBody Host
  | InfoBody HostInfo
  | InfosBody "HostInfo list"
  | StatsBody_lv Stats_lv
  | MigrationConfigBody MigrationConfig
  | StatusOkBody

type_synonym response_lv = "nat \<times> body_lv"

definition writeJSON_lv :: "nat \<Rightarrow> body_lv \<Rightarrow> response_lv" where
  "writeJSON_lv st b = (st, b)"

definition writeError_lv :: "nat \<Rightarrow> message_lv \<Rightarrow> response_lv" where
  "writeError_lv st m = writeJSON_lv st (ErrorBody_lv m)"

text \<open>Whether the text of an error of \<^verbatim>\<open>AddHost\<close> contains the word \<^verbatim>\<open>already\<close>.\<close>

definition says_already :: "lv_error \<Rightarrow> bool" where
  "says_already e \<longleftrightarrow> e = ErrHostExists \<or> e = ErrPortInUse"

section \<open>Handlers\<close>

definition host_of :: "CreateHostRequest \<Rightarrow> Host" where
  "host_of req = \<lparr>h_HostID = ch_HostID req, h_LibvirtPort = ch_LibvirtPort req, h_CPUModel = ch_CPUModel req,
     h_CPUSockets = ch_CPUSockets req, h_CoresPerSocket = ch_CoresPerSocket req,
     h_ThreadsPerCore = ch_ThreadsPerCore req, h_MemoryMB = ch_MemoryMB req,
     h_CPUOvercommitRatio = ch_CPUOvercommitRatio req, h_MemOvercommitRatio = ch_MemOvercommitRatio req,
     h_NUMATopology = ch_NUMATopology req, h_GPUs = ch_GPUs req, h_State = '''', h_Domains = fmempty\<rparr>"

definition handleCreateHost ::
    "(int \<Rightarrow> bool) \<Rightarrow> CreateHostRequest option \<Rightarrow> Plant \<Rightarrow> response_lv \<times> Plant" where
  "handleCreateHost listen body p =
     (case body of
        None \<Rightarrow> (writeError_lv 400 InvalidBody_lv, p)
      | Some req \<Rightarrow>
          if ch_HostID req = '''' then (writeError_lv 400 HostIDRequired, p)
          else if ch_LibvirtPort req = 0 then (writeError_lv 400 PortRequired, p)
          else let h = host_of req in
            case AddHost h (w_store p) of
              (Inl e, s') \<Rightarrow>
                (writeError_lv (if says_already e then 409 else 500) (StoreFailure e), p\<lparr>w_store := s'\<rparr>)
            | (Inr _, s') \<Rightarrow>
                (case StartListener listen (h_HostID h) (h_LibvirtPort h) (p\<lparr>w_store := s'\<rparr>) of
                   (Inl e, p') \<Rightarrow>
                     (writeError_lv 500 (StartListenerFailed e),
                      p'\<lparr>w_store := snd (RemoveHost (h_HostID h) (w_store p'))\<rparr>)
                 | (Inr _, p') \<Rightarrow> (writeJSON_lv 201 (HostBody (host_defaults h)), p')))"

definition handleListHosts :: "string list \<Rightarrow> Plant \<Rightarrow> response_lv" where
  "handleListHosts ks p = writeJSON_lv 200 (InfosBody (map Info (ListHosts ks (w_store p))))"

definition handleGetHost :: "string \<Rightarrow> Plant \<Rightarrow> response_lv" where
  "handleGetHost hostID p =
     (case GetHost hostID (w_store p) of
        Inl e \<Rightarrow> writeError_lv 404 (StoreFailure e)
      | Inr h \<Rightarrow> writeJSON_lv 200 (InfoBody (Info h)))"

definition handleUpdateHostState :: "string \<Rightarrow> string option \<Rightarrow> Plant \<Rightarrow> response_lv \<times> Plant" where
  "handleUpdateHostState hostID body p =
     (case GetHost hostID (w_store p) of
        Inl e \<Rightarrow> (writeError_lv 404 (StoreFailure e), p)
      | Inr h \<Rightarrow>
          (case body of
             None \<Rightarrow> (writeError_lv 400 InvalidBody_lv, p)
           | Some st \<Rightarrow>
               if st = HostStateOnline \<or> st = HostStateOffline \<or> st = HostStateMaintenance
               then (writeJSON_lv 200 (InfoBody (Info (h\<lparr>h_State := st\<rparr>))),
                     p\<lparr>w_store := set_host_state hostID st (w_store p)\<rparr>)
               else (writeError_lv 400 (InvalidState st), p)))"

definition handleUpdateHostConfig ::
    "string \<Rightarrow> UpdateHostConfigRequest option \<Rightarrow> Plant \<Rightarrow> response_lv \<times> Plant" where
  "handleUpdateHostConfig hostID body p =
     (case GetHost hostID (w_store p) of
        Inl e \<Rightarrow> (writeError_lv 404 (StoreFailure e), p)
      | Inr h \<Rightarrow>
          (case body of
             None \<Rightarrow> (writeError_lv 400 InvalidBody_lv, p)
           | Some req \<Rightarrow>
               (writeJSON_lv 200 (InfoBody (Info (host_config (uc_CPUOvercommitRatio req) (uc_MemOvercommitRatio req) h))),
                p\<lparr>w_store := set_host_config hostID (uc_CPUOvercommitRatio req) (uc_MemOvercommitRatio req) (w_store p)\<rparr>)))"

definition handleGetStats_lv :: "Plant \<Rightarrow> response_lv" where
  "handleGetStats_lv p = writeJSON_lv 200 (StatsBody_lv (GetStats_lv (w_store p)))"

definition handleReset_lv :: "Plant \<Rightarrow> response_lv \<times> Plant" where
  "handleReset_lv p =
     (let p1 = StopAll p in (writeJSON_lv 200 StatusOkBody, p1\<lparr>w_store := Reset_lv (w_store p1)\<rparr>))"

definition handleGetMigrationConfig :: "Plant \<Rightarrow> response_lv" where
  "handleGetMigrationConfig p = writeJSON_lv 200 (MigrationConfigBody (GetMigrationConfig (w_store p)))"

definition handleUpdateMigrationConfig :: "MigrationConfig option \<Rightarrow> Plant \<Rightarrow> response_lv \<times> Plant" where
  "handleUpdateMigrationConfig body p =
     (case body of
        None \<Rightarrow> (writeError_lv 400 InvalidBody_lv, p)
      | Some cfg \<Rightarrow> (writeJSON_lv 200 (MigrationConfigBody cfg), p\<lparr>w_store := SetMigrationConfig cfg (w_store p)\<rparr>))"

section \<open>The whole simulator\<close>

text \<open>Calls of the management interface, in the order of \<^verbatim>\<open>RegisterRoutes\<close>.\<close>

datatype route =
    CreateHost "int \<Rightarrow> bool" "CreateHostRequest option"
  | ListHostsRoute "string list"
  | GetHostRoute string
  | UpdateHostState string "string option"
  | UpdateHostConfig string "UpdateHostConfigRequest option"
  | GetStatsRoute
  | ResetRoute
  | UpdateMigrationConfig "MigrationConfig option"
  | GetMigrationConfigRoute

fun RegisterRoutes :: "route \<Rightarrow> Plant \<Rightarrow> response_lv \<times> Plant" where
  "RegisterRoutes (CreateHost listen body) p = handleCreateHost listen body p"
| "RegisterRoutes (ListHostsRoute ks) p = (handleListHosts ks p, p)"
| "RegisterRoutes (GetHostRoute hid) p = (handleGetHost hid p, p)"
| "RegisterRoutes (UpdateHostState hid body) p = handleUpdateHostState hid body p"
| "RegisterRoutes (UpdateHostConfig hid body) p = handleUpdateHostConfig hid body p"
| "RegisterRoutes GetStatsRoute p = (handleGetStats_lv p, p)"
| "RegisterRoutes ResetRoute p = handleReset_lv p"
| "RegisterRoutes (UpdateMigrationConfig body) p = handleUpdateMigrationConfig body p"
| "RegisterRoutes GetMigrationConfigRoute p = (handleGetMigrationConfig p, p)"

text \<open>What happens to the simulator: a management call, or a whole RPC connection to a host.\<close>

datatype plant_event =
    Http route
  | Connection environment "reason \<Rightarrow> string" string conn "byte list"

definition world_of :: "Plant \<Rightarrow> World" where
  "world_of p = \<lparr>w_store = w_store p, w_bus = w_bus p\<rparr>"

fun happen :: "plant_event \<Rightarrow> Plant \<Rightarrow> Plant" where
  "happen (Http r) p = snd (RegisterRoutes r p)"
| "happen (Connection env tx hid c stream) p =
     (case handleConnection env tx hid c stream (world_of p) of
        (_, w') \<Rightarrow> p\<lparr>w_store := w_store w', w_bus := w_bus w'\<rparr>)"

definition plant_step :: "Plant \<Rightarrow> plant_event \<Rightarrow> Plant \<Rightarrow> bool" where
  "plant_step p e q \<longleftrightarrow> q = happen e p"

definition served :: "Plant \<Rightarrow> bool" where
  "served p \<longleftrightarrow> w_listeners p = fmmap h_LibvirtPort (hosts (w_store p))"

lemma rollback:
  assumes "AddHost h s = (Inr (), s')"
  shows "snd (RemoveHost (h_HostID h) s') = s"
proof -
  have new: "get (hosts s) (h_HostID h) = None" "get (ports s) (h_LibvirtPort h) = None"
    and s': "s' = s\<lparr>hosts := fmupd (h_HostID h) (host_defaults h) (hosts s),
      ports := fmupd (h_LibvirtPort h) (h_HostID h) (ports s)\<rparr>"
    using assms by (auto simp: AddHost_def split: if_splits)
  show ?thesis using new by (simp add: RemoveHost_def s' fmdrop_absent)
qed

lemma failed_add: "AddHost h s = (Inl e, s') \<Longrightarrow> s' = s"
  by (auto simp: AddHost_def split: if_splits)

lemma served_create: "served p \<Longrightarrow> served (snd (handleCreateHost listen body p))"
  by (auto simp: handleCreateHost_def StartListener_def served_def Let_def rollback AddHost_def host_of_def
      RemoveHost_def fmdrop_absent fmmap_fmupd split: option.split prod.splits sum.splits if_splits)

lemma served_same_ports:
  assumes "served p" "fmmap h_LibvirtPort (hosts s) = fmmap h_LibvirtPort (hosts (w_store p))"
  shows "served (p\<lparr>w_store := s, w_bus := b\<rparr>)" "served (p\<lparr>w_store := s\<rparr>)"
  using assms by (simp_all add: served_def)

lemma same_ports_upd:
  "get m k = Some h \<Longrightarrow> h_LibvirtPort h' = h_LibvirtPort h \<Longrightarrow>
     fmmap h_LibvirtPort (fmupd k h' m) = fmmap h_LibvirtPort m"
  by (intro fmap_ext) auto

lemma connection_same_ports:
  assumes "handleConnection env tx hid c stream w = (out, w')"
  shows "fmmap h_LibvirtPort (hosts (w_store w')) = fmmap h_LibvirtPort (hosts (w_store w))"
proof -
  have "confined hid (w_store w) (w_store w')"
    using assms loop_confined [of env tx hid c stream "w\<lparr>w_bus := RegisterClient c hid (w_bus w)\<rparr>"]
    by (auto simp: handleConnection_def split: prod.splits)
  moreover have "h_LibvirtPort \<circ> settings = h_LibvirtPort" by (auto simp: settings_def)
  ultimately have "map_option h_LibvirtPort (get (hosts (w_store w')) k) =
      map_option h_LibvirtPort (get (hosts (w_store w)) k)" for k
    unfolding confined_def by (metis option.map_comp)
  then show ?thesis by (intro fmap_ext) simp
qed

lemma happen_served: "served p \<Longrightarrow> served (happen e p)"
proof (cases e)
  case (Http r)
  assume "served p"
  then have "served (snd (RegisterRoutes r p))"
    by (cases r) (auto simp: served_create [unfolded served_def] handleUpdateHostState_def handleUpdateHostConfig_def
        handleReset_lv_def handleUpdateMigrationConfig_def set_host_state_def set_host_config_def Reset_lv_def
        StopAll_def SetMigrationConfig_def served_def same_ports_upd split: sum.split option.split)
  with Http show ?thesis by simp
next
  case (Connection env tx hid c stream)
  assume "served p"
  moreover obtain out w' where run: "handleConnection env tx hid c stream (world_of p) = (out, w')" by fastforce
  ultimately show ?thesis
    using served_same_ports(1) [of p "w_store w'" "w_bus w'"] connection_same_ports [OF run]
    by (simp add: Connection run world_of_def)
qed

interpretation serving: kept_by_steps plant_step "\<lambda>_ _. True" served
  by unfold_locales (simp add: plant_step_def happen_served)

section \<open>Promises\<close>

text \<open>Whatever management calls are made and whatever clients send over RPC, the server listens
  for exactly the registered hosts, each on its own port.\<close>

theorem hosts_have_listeners:
  assumes "guarded_run plant_step (\<lambda>_ _. True) (NewServer NewStore_lv) es p"
  shows "get (w_listeners p) hid = Some port \<longleftrightarrow>
    (\<exists>h. GetHost hid (w_store p) = Inr h \<and> h_LibvirtPort h = port)"
proof -
  have "served (NewServer NewStore_lv)" by (simp add: served_def NewServer_def NewStore_lv_def)
  from serving.run_keeps [OF assms this] show ?thesis
    by (auto simp: served_def GetHost_def split: option.splits)
qed

definition small_request :: "string \<Rightarrow> int \<Rightarrow> CreateHostRequest" where
  "small_request hid port = \<lparr>ch_HostID = hid, ch_LibvirtPort = port, ch_CPUModel = ''sim'', ch_CPUSockets = 1,
     ch_CoresPerSocket = 4, ch_ThreadsPerCore = 1, ch_MemoryMB = 4096, ch_CPUOvercommitRatio = Fin 0,
     ch_MemOvercommitRatio = Fin 0, ch_NUMATopology = [], ch_GPUs = []\<rparr>"

definition three_creations :: "plant_event list" where
  "three_creations = [Http (CreateHost (\<lambda>_. True) (Some (small_request ''h1'' 16509))),
     Http (CreateHost (\<lambda>_. False) (Some (small_request ''h2'' 16510))),
     Http (CreateHost (\<lambda>_. True) (Some (small_request ''h3'' 16509)))]"

interpretation plant_player: playable plant_step "\<lambda>e p. Some (happen e p)"
  by unfold_locales (auto simp: plant_step_def)

theorem hosts_have_listeners_witness:
  "\<exists>p. guarded_run plant_step (\<lambda>_ _. True) (NewServer NewStore_lv) three_creations p \<and>
     (\<exists>h. GetHost ''h1'' (w_store p) = Inr h \<and> h_LibvirtPort h = 16509)"
proof -
  let ?p = "the (play (\<lambda>e p. Some (happen e p)) (\<lambda>_ _. True) three_creations (NewServer NewStore_lv))"
  have run: "guarded_run plant_step (\<lambda>_ _. True) (NewServer NewStore_lv) three_creations ?p"
    by (rule plant_player.play_SomeI) (simp add: three_creations_def)
  have "get (w_listeners ?p) ''h1'' = Some 16509"
    by (simp add: three_creations_def handleCreateHost_def small_request_def host_of_def AddHost_def
        NewServer_def NewStore_lv_def StartListener_def RemoveHost_def host_defaults_def Let_def)
  with hosts_have_listeners [OF run] run show ?thesis by blast
qed

text \<open>A management call that answers with an error has no effect on the store, the listeners or
  the registrations; this includes a host whose port cannot be listened on, whose registration
  is rolled back.\<close>

theorem failed_management_call_changes_nothing:
  assumes "RegisterRoutes r p = ((st, b), p')" and "400 \<le> st"
  shows "p' = p"
proof (cases r)
  case (CreateHost listen body)
  then show ?thesis
    using assms
    by (auto simp: handleCreateHost_def writeError_lv_def writeJSON_lv_def StartListener_def Let_def rollback
        dest: failed_add split: option.splits prod.splits sum.splits if_splits)
qed (use assms in \<open>auto simp: handleUpdateHostState_def handleUpdateHostConfig_def handleReset_lv_def
      handleUpdateMigrationConfig_def writeError_lv_def writeJSON_lv_def Let_def
      split: option.splits sum.splits if_splits\<close>)

theorem failed_management_call_changes_nothing_witness:
  "RegisterRoutes (CreateHost (\<lambda>_. False) (Some (small_request ''h1'' 16509))) (NewServer NewStore_lv) =
     ((500, ErrorBody_lv (StartListenerFailed ListenFailed)), NewServer NewStore_lv)"
proof -
  let ?r = "CreateHost (\<lambda>_. False) (Some (small_request ''h1'' 16509))"
  obtain st b p' where r: "RegisterRoutes ?r (NewServer NewStore_lv) = ((st, b), p')"
    using prod.exhaust by metis
  moreover have "st = 500" "b = ErrorBody_lv (StartListenerFailed ListenFailed)"
    using r by (auto simp: handleCreateHost_def small_request_def host_of_def AddHost_def NewServer_def
        NewStore_lv_def StartListener_def writeError_lv_def writeJSON_lv_def Let_def)
  ultimately show ?thesis using failed_management_call_changes_nothing [OF r] by simp
qed

end
