(* ===== verification/Go_Values.thy ===== *)
theory Go_Values
  imports Prelude Float64
begin

text \<open>
  The values that \<^verbatim>\<open>encoding/json\<close> puts into an \<^verbatim>\<open>interface{}\<close>, and how
  \<^verbatim>\<open>fmt.Sprintf("%v", x)\<close> prints them. A decoded number is a \<^verbatim>\<open>float64\<close>; a nil interface and
  a JSON null are the same value. Slices are values: every function of the simulators that
  changes one builds a new slice or appends to one that no other row holds.
\<close>

datatype json =
    JNull
  | JBool bool
  | JNum f64
  | JStr string
  | JArr "json list"
  | JObj "(string, json) gomap"

section \<open>Printing floating point numbers\<close>

text \<open>
  The shortest decimal that reads back as the number, in the notation of \<^verbatim>\<open>%v\<close>: with an
  exponent part when the decimal exponent is below -4 or at least 6. The sign of zero is not kept.
\<close>

definition pow10 :: "int \<Rightarrow> rat" where
  "pow10 e = (if 0 \<le> e then 10 ^ nat e else 1 / 10 ^ nat (- e))"

definition ilog10 :: "rat \<Rightarrow> int" where
  "ilog10 r =
     (let e = ilog2 r * 1233 div 4096
      in if r < pow10 e then e - 1 else if pow10 (e + 1) \<le> r then e + 1 else e)"

text \<open>
  One more digit after the other: cutting off and rounding up are tried, and the one that reads
  back as the number is taken, the nearer one when both do. Seventeen digits always suffice.
\<close>

fun shortest_from :: "nat \<Rightarrow> nat \<Rightarrow> int \<Rightarrow> rat \<Rightarrow> nat \<times> nat" where
  "shortest_from 0 n e r = (nat (round_half_even (r * pow10 (16 - e))), 17)"
| "shortest_from (Suc k) n e r =
     (let p = int n - 1 - e; f = \<lfloor>r * pow10 p\<rfloor>;
          down = round64 (of_int f / pow10 p) = Fin r;
          up = round64 (of_int (f + 1) / pow10 p) = Fin r
      in if down \<and> up then (nat (round_half_even (r * pow10 p)), n)
         else if down then (nat f, n)
         else if up then (nat (f + 1), n)
         else shortest_from k (n + 1) e r)"

fun strip_zeros :: "string \<Rightarrow> string" where
  "strip_zeros s = rev (dropWhile (\<lambda>c. c = CHR ''0'') (rev s))"

text \<open>The digits of a positive number and its decimal exponent.\<close>

definition shortest :: "rat \<Rightarrow> string \<times> int" where
  "shortest r =
     (let e = ilog10 r; (m, n) = shortest_from 16 1 e r; ds = show_base 10 m
      in (strip_zeros ds, e + int (length ds) - int n))"

definition show_exponent :: "int \<Rightarrow> string" where
  "show_exponent x = CHR ''e'' # (if x < 0 then CHR ''-'' else CHR ''+'') # zero_pad 2 (show_base 10 (nat \<bar>x\<bar>))"

definition show_positive :: "rat \<Rightarrow> string" where
  "show_positive r =
     (let (ds, x) = shortest r in
      if x < - 4 \<or> 6 \<le> x
      then hd ds # (if tl ds = [] then [] else CHR ''.'' # tl ds) @ show_exponent x
      else if x < 0 then ''0.'' @ replicate (nat (- x - 1)) CHR ''0'' @ ds
      else let i = nat x + 1
           in take i (ds @ replicate i CHR ''0'') @ (if length ds \<le> i then [] else CHR ''.'' # drop i ds))"

fun show_f64 :: "f64 \<Rightarrow> string" where
  "show_f64 (Fin r) =
     (if r = 0 then ''0'' else if r < 0 then CHR ''-'' # show_positive (- r) else show_positive r)"
| "show_f64 (Inf neg) = (if neg then ''-Inf'' else ''+Inf'')"
| "show_f64 NaN = ''NaN''"

section \<open>Printing values\<close>

fun spaced :: "string list \<Rightarrow> string" where
  "spaced [] = []"
| "spaced [x] = x"
| "spaced (x # xs) = x @ CHR '' '' # spaced xs"

primrec sprint_v :: "json \<Rightarrow> string" where
  "sprint_v JNull = ''<nil>''"
| "sprint_v (JBool b) = (if b then ''true'' else ''false'')"
| "sprint_v (JNum x) = show_f64 x"
| "sprint_v (JStr s) = s"
| "sprint_v (JArr xs) = CHR ''['' # spaced (map sprint_v xs) @ '']''"
| "sprint_v (JObj m) =
     (let shown = fmmap sprint_v m
      in ''map['' @ spaced (map (\<lambda>k. k @ CHR '':'' # the (get shown k)) (keys_in_order shown)) @ '']'')"

section \<open>Reading integers\<close>

text \<open>\<^verbatim>\<open>strconv.Atoi\<close>: an optional sign and decimal digits, within 64 bits.\<close>

definition digit_value :: "char \<Rightarrow> nat option" where
  "digit_value c = (if CHR ''0'' \<le> c \<and> c \<le> CHR ''9'' then Some (of_char c - 48) else None)"

definition digits_value :: "string \<Rightarrow> nat option" where
  "digits_value ds = (if ds = [] then None else map_option (value_of 10) (those (map digit_value ds)))"

definition Atoi :: "string \<Rightarrow> int option" where
  "Atoi t =
     (let n = (case t of
          c # cs \<Rightarrow> if c = CHR ''-'' then map_option (\<lambda>k. - int k) (digits_value cs)
                    else if c = CHR ''+'' then map_option int (digits_value cs)
                    else map_option int (digits_value t)
        | [] \<Rightarrow> None)
      in case n of Some k \<Rightarrow> if MinInt64 \<le> k \<and> k \<le> MaxInt64 then Some k else None | None \<Rightarrow> None)"

lemma digit_value_char: "d < 10 \<Longrightarrow> digit_value (digit_char d) = Some d"
proof -
  assume "d < 10"
  then have "d \<in> {0, 1, 2, 3, 4, 5, 6, 7, 8, 9}" by auto
  then show ?thesis by (auto simp: digit_value_def digit_char_def less_eq_char_def)
qed

lemma those_digits: "\<forall>d\<in>set ds. d < 10 \<Longrightarrow> those (map (digit_value \<circ> digit_char) ds) = Some ds"
  by (induction ds) (simp_all add: digit_value_char)

lemma digits_rev_nonempty: "digits_rev b n \<noteq> []"
  by (subst digits_rev.simps) simp

lemma digits_value_show: "digits_value (show_base 10 n) = Some n"
proof -
  have "those (map digit_value (show_base 10 n)) = Some (rev (digits_rev 10 n))"
    using those_digits [of "rev (digits_rev 10 n)"] digits_rev_less [of 10 _ n] by (simp add: show_base_def rev_map)
  then show ?thesis
    by (simp add: digits_value_def value_of_digits show_base_def digits_rev_nonempty)
qed

lemma show_base_chars: "c \<in> set (show_base 10 n) \<Longrightarrow> CHR ''0'' \<le> c \<and> c \<le> CHR ''9''"
  using digits_rev_less [of 10 _ n] digit_value_char
  by (force simp: show_base_def digit_value_def split: if_splits)

lemma Atoi_fmt: "MinInt64 \<le> n \<Longrightarrow> n \<le> MaxInt64 \<Longrightarrow> Atoi (fmt_0d 0 n) = Some n"
proof (cases "n < 0")
  case False
  assume range: "MinInt64 \<le> n" "n \<le> MaxInt64"
  obtain c cs where s: "show_base 10 (nat n) = c # cs"
    using digits_rev_nonempty [of 10 "nat n"] by (cases "show_base 10 (nat n)") (auto simp: show_base_def)
  then have "CHR ''0'' \<le> c" using show_base_chars [of c "nat n"] by simp
  then have "c \<noteq> CHR ''-''" "c \<noteq> CHR ''+''" by (auto simp: less_eq_char_def)
  then show ?thesis
    using False range s digits_value_show [of "nat n"] by (simp add: Atoi_def fmt_0d_def zero_pad_def)
qed (simp add: Atoi_def fmt_0d_def zero_pad_def digits_value_show)

end
