(* ===== verification/OVSDB_Store.thy ===== *)
theory OVSDB_Store
  imports Go_Values
begin

text \<open>
  The table store of ovn-sim: \<^verbatim>\<open>ovn-sim/internal/ovsdb/store.go\<close> and the schemas of
  \<^verbatim>\<open>schema.go\<close>. A row is a map from columns to values, a table a map from UUIDs to rows. The
  UUID that \<^verbatim>\<open>uuid.New()\<close> of the uuid package draws is an argument of \<open>Insert\<close>; the order
  in which a loop meets the rows of a table is an argument where the outcome depends on it.
  An operation returns, reports an error, or panics.
\<close>

section \<open>Schemas\<close>

record ColumnSchema =
  col_Type :: string
  col_KeyType :: string
  col_ValueType :: string
  col_RefTable :: string
  col_Optional :: bool

record TableSchema =
  ts_Columns :: "(string, ColumnSchema) gomap"

definition typed :: "string \<Rightarrow> ColumnSchema" where
  "typed t = \<lparr>col_Type = t, col_KeyType = '''', col_ValueType = '''', col_RefTable = '''', col_Optional = False\<rparr>"

definition maybe :: "string \<Rightarrow> ColumnSchema" where
  "maybe t = (typed t)\<lparr>col_Optional := True\<rparr>"

definition set_of :: "string \<Rightarrow> ColumnSchema" where
  "set_of k = (typed ''set'')\<lparr>col_KeyType := k\<rparr>"

definition refs_to :: "string \<Rightarrow> ColumnSchema" where
  "refs_to t = (set_of ''uuid'')\<lparr>col_RefTable := t\<rparr>"

definition ref_to :: "string \<Rightarrow> ColumnSchema" where
  "ref_to t = (maybe ''uuid'')\<lparr>col_RefTable := t\<rparr>"

definition strings_map :: ColumnSchema where
  "strings_map = (typed ''map'')\<lparr>col_KeyType := ''string'', col_ValueType := ''string''\<rparr>"

definition table :: "(string \<times> ColumnSchema) list \<Rightarrow> TableSchema" where
  "table cols = \<lparr>ts_Columns = fmap_of_list cols\<rparr>"

definition OVNNBTables :: "(string, TableSchema) gomap" where
  "OVNNBTables = fmap_of_list
     [(''Logical_Switch'', table
        [(''name'', typed ''string''), (''ports'', refs_to ''Logical_Switch_Port''), (''acls'', refs_to ''ACL''),
         (''dns_records'', refs_to ''DNS''), (''other_config'', strings_map), (''external_ids'', strings_map)]),
      (''Logical_Switch_Port'', table
        [(''name'', typed ''string''), (''type'', typed ''string''), (''addresses'', set_of ''string''),
         (''port_security'', set_of ''string''), (''up'', maybe ''boolean''), (''enabled'', maybe ''boolean''),
         (''dhcpv4_options'', ref_to ''DHCP_Options''), (''options'', strings_map),
         (''external_ids'', strings_map), (''tag'', maybe ''integer'')]),
      (''Logical_Router'', table
        [(''name'', typed ''string''), (''ports'', refs_to ''Logical_Router_Port''),
         (''static_routes'', refs_to ''Logical_Router_Static_Route''), (''nat'', refs_to ''NAT''),
         (''enabled'', maybe ''boolean''), (''options'', strings_map), (''external_ids'', strings_map)]),
      (''Logical_Router_Port'', table
        [(''name'', typed ''string''), (''mac'', typed ''string''), (''networks'', set_of ''string''),
         (''options'', strings_map), (''external_ids'', strings_map)]),
      (''Logical_Router_Static_Route'', table
        [(''ip_prefix'', typed ''string''), (''nexthop'', typed ''string''), (''output_port'', maybe ''string''),
         (''external_ids'', strings_map)]),
      (''ACL'', table
        [(''action'', typed ''string''), (''direction'', typed ''string''), (''match'', typed ''string''),
         (''priority'', typed ''integer''), (''external_ids'', strings_map)]),
      (''NAT'', table
        [(''type'', typed ''string''), (''external_ip'', typed ''string''), (''logical_ip'', typed ''string''),
         (''logical_port'', maybe ''string''), (''external_ids'', strings_map)]),
      (''DHCP_Options'', table
        [(''cidr'', typed ''string''), (''options'', strings_map), (''external_ids'', strings_map)]),
      (''DNS'', table [(''records'', strings_map), (''external_ids'', strings_map)]),
      (''Load_Balancer'', table
        [(''name'', typed ''string''), (''vips'', strings_map), (''protocol'', maybe ''string''),
         (''external_ids'', strings_map)]),
      (''Address_Set'', table
        [(''name'', typed ''string''), (''addresses'', set_of ''string''), (''external_ids'', strings_map)]),
      (''Port_Group'', table
        [(''name'', typed ''string''), (''ports'', set_of ''uuid''), (''acls'', refs_to ''ACL''),
         (''external_ids'', strings_map)]),
      (''Gateway_Chassis'', table
        [(''name'', typed ''string''), (''chassis_name'', typed ''string''), (''priority'', typed ''integer''),
         (''external_ids'', strings_map)])]"

definition OVNICTables :: "(string, TableSchema) gomap" where
  "OVNICTables = fmap_of_list
     [(''Transit_Switch'', table [(''name'', typed ''string''), (''external_ids'', strings_map)]),
      (''Availability_Zone'', table [(''name'', typed ''string''), (''external_ids'', strings_map)]),
      (''Route'', table
        [(''ip_prefix'', typed ''string''), (''nexthop'', typed ''string''),
         (''availability_zone'', ref_to ''Availability_Zone''), (''transit_switch'', ref_to ''Transit_Switch''),
         (''external_ids'', strings_map)]),
      (''Port_Binding'', table
        [(''logical_port'', typed ''string''), (''transit_switch'', ref_to ''Transit_Switch''),
         (''availability_zone'', ref_to ''Availability_Zone''), (''address'', set_of ''string''),
         (''external_ids'', strings_map)])]"

definition obj :: "(string \<times> json) list \<Rightarrow> json" where
  "obj kvs = JObj (fmap_of_list kvs)"

definition scalar_type :: "string \<Rightarrow> bool \<Rightarrow> json" where
  "scalar_type t optional =
     (if optional then obj [(''key'', JStr t), (''min'', JNum (Fin 0)), (''max'', JNum (Fin 1))] else JStr t)"

definition buildColumnType :: "ColumnSchema \<Rightarrow> json" where
  "buildColumnType cs =
     (let t = col_Type cs;
          key = (\<lambda>k. obj ((''type'', JStr k) # (if col_RefTable cs \<noteq> '''' then [(''refTable'', JStr (col_RefTable cs))] else [])))
      in if t = ''string'' \<or> t = ''integer'' \<or> t = ''boolean'' \<or> t = ''real'' then scalar_type t (col_Optional cs)
         else if t = ''uuid'' then
           (if col_Optional cs
            then obj [(''key'', key ''uuid''), (''min'', JNum (Fin 0)), (''max'', JNum (Fin 1))]
            else obj [(''key'', key ''uuid'')])
         else if t = ''set'' then
           obj [(''key'', key (col_KeyType cs)), (''min'', JNum (Fin 0)), (''max'', JStr ''unlimited'')]
         else if t = ''map'' then
           obj [(''key'', JStr (col_KeyType cs)), (''value'', JStr (col_ValueType cs)),
                (''min'', JNum (Fin 0)), (''max'', JStr ''unlimited'')]
         else JStr t)"

definition schema_document :: "string \<Rightarrow> string \<Rightarrow> (string, TableSchema) gomap \<Rightarrow> json" where
  "schema_document name version tbls =
     obj [(''name'', JStr name), (''version'', JStr version),
          (''tables'', JObj (fmmap (\<lambda>ts. obj [(''columns'',
             JObj (fmmap (\<lambda>cs. obj [(''type'', buildColumnType cs)]) (ts_Columns ts)))]) tbls))]"

definition SchemaJSON :: json where
  "SchemaJSON = schema_document ''OVN_Northbound'' ''7.3.0'' OVNNBTables"

definition ICSchemaJSON :: json where
  "ICSchemaJSON = schema_document ''OVN_IC_Northbound'' ''1.0.0'' OVNICTables"

section \<open>Rows, conditions and mutations\<close>

type_synonym Row = "(string, json) gomap"

definition normalizeForCompare :: "json \<Rightarrow> json" where
  "normalizeForCompare v =
     (case v of JArr [JStr tag, x] \<Rightarrow> if tag = ''uuid'' then x else v | _ \<Rightarrow> v)"

definition toFloat64 :: "json \<Rightarrow> f64 option" where
  "toFloat64 v = (case v of JNum n \<Rightarrow> Some n | _ \<Rightarrow> None)"

definition compareValues :: "json \<Rightarrow> json \<Rightarrow> int" where
  "compareValues a b =
     (case (toFloat64 a, toFloat64 b) of
        (Some x, Some y) \<Rightarrow> if f64_less x y then - 1 else if f64_less y x then 1 else 0
      | _ \<Rightarrow> let as = sprint_v a; bs = sprint_v b in if as < bs then - 1 else if as > bs then 1 else 0)"

text \<open>The elements of a value \<^verbatim>\<open>["set", [...]]\<close>.\<close>

definition set_elems :: "json \<Rightarrow> json list option" where
  "set_elems v =
     (case v of JArr [JStr tag, JArr elems] \<Rightarrow> if tag = ''set'' then Some elems else None | _ \<Rightarrow> None)"

definition setIncludes :: "json \<Rightarrow> json \<Rightarrow> bool" where
  "setIncludes actual expected =
     (let shown = sprint_v (normalizeForCompare expected) in
      case set_elems actual of
        Some elems \<Rightarrow> list_ex (\<lambda>e. sprint_v (normalizeForCompare e) = shown) elems
      | None \<Rightarrow> sprint_v (normalizeForCompare actual) = shown)"

definition evalCondition :: "json \<Rightarrow> string \<Rightarrow> json \<Rightarrow> bool" where
  "evalCondition actual fn expected =
     (let a = normalizeForCompare actual; e = normalizeForCompare expected in
      if fn = ''=='' then compareValues a e = 0
      else if fn = ''!='' then compareValues a e \<noteq> 0
      else if fn = ''<'' then compareValues a e < 0
      else if fn = ''>'' then compareValues a e > 0
      else if fn = ''<='' then compareValues a e \<le> 0
      else if fn = ''>='' then compareValues a e \<ge> 0
      else if fn = ''includes'' then setIncludes actual expected
      else if fn = ''excludes'' then \<not> setIncludes actual expected
      else False)"

definition string_or_empty :: "json \<Rightarrow> string" where
  "string_or_empty v = (case v of JStr s \<Rightarrow> s | _ \<Rightarrow> '''')"

definition matches :: "Row \<Rightarrow> json \<Rightarrow> bool" where
  "matches row cond =
     (case cond of
        JArr [c, f, expected] \<Rightarrow>
          (case get row (string_or_empty c) of
             None \<Rightarrow> string_or_empty f = ''!=''
           | Some actual \<Rightarrow> evalCondition actual (string_or_empty f) expected)
      | _ \<Rightarrow> False)"

definition matchWhere :: "Row \<Rightarrow> json list \<Rightarrow> bool" where
  "matchWhere row wh = list_all (matches row) wh"

datatype db_error =
    UnknownTable string
  | InvalidMutation
  | NonNumeric string
  | DivisionByZero string
  | UnknownMutator string
  | UnknownOperation string

datatype 'a ret = Ret 'a | Err db_error | Panic

text \<open>An absent column reads as nil.\<close>

definition column :: "Row \<Rightarrow> string \<Rightarrow> json" where
  "column row col = (case get row col of None \<Rightarrow> JNull | Some v \<Rightarrow> v)"

definition the_set :: "json list \<Rightarrow> json" where
  "the_set elems = JArr [JStr ''set'', JArr elems]"

definition mutateSetInsert :: "Row \<Rightarrow> string \<Rightarrow> json \<Rightarrow> json \<Rightarrow> Row" where
  "mutateSetInsert row col current val =
     (case set_elems current of
        Some elems \<Rightarrow> fmupd col (the_set (elems @ [val])) row
      | None \<Rightarrow>
          if current = JNull then fmupd col (the_set [val]) row
          else fmupd col (the_set [current, val]) row)"

definition mutateSetDelete :: "Row \<Rightarrow> string \<Rightarrow> json \<Rightarrow> json \<Rightarrow> Row" where
  "mutateSetDelete row col current val =
     (case set_elems current of
        Some elems \<Rightarrow>
          fmupd col (the_set (filter (\<lambda>e. sprint_v (normalizeForCompare e) \<noteq>
            sprint_v (normalizeForCompare val)) elems)) row
      | None \<Rightarrow> row)"

text \<open>
  The remainder is taken on integers: a divisor between -1 and 1 passes the test for zero as a
  \<^verbatim>\<open>float64\<close> and is zero as an \<^verbatim>\<open>int64\<close>, and Go panics.
\<close>

definition applyMutation :: "Row \<Rightarrow> string \<Rightarrow> string \<Rightarrow> json \<Rightarrow> Row ret" where
  "applyMutation row col opr val =
     (let current = column row col; nums = (toFloat64 current, toFloat64 val) in
      if opr = ''+='' then
        (case nums of (Some c, Some v) \<Rightarrow> Ret (fmupd col (JNum (c + v)) row)
                    | _ \<Rightarrow> Ret (mutateSetInsert row col current val))
      else if opr = ''-='' then
        (case nums of (Some c, Some v) \<Rightarrow> Ret (fmupd col (JNum (c - v)) row)
                    | _ \<Rightarrow> Ret (mutateSetDelete row col current val))
      else if opr = ''*='' then
        (case nums of (Some c, Some v) \<Rightarrow> Ret (fmupd col (JNum (c * v)) row)
                    | _ \<Rightarrow> Err (NonNumeric col))
      else if opr = ''/='' then
        (case nums of
           (Some c, Some v) \<Rightarrow>
             if v = Fin 0 then Err (DivisionByZero col) else Ret (fmupd col (JNum (c div v)) row)
         | _ \<Rightarrow> Err (NonNumeric col))
      else if opr = ''%='' then
        (case nums of
           (Some c, Some v) \<Rightarrow>
             if v = Fin 0 then Err (DivisionByZero col)
             else if int64_of_f64 v = 0 then Panic
             else Ret (fmupd col (JNum (f64_of_int (go_mod (int64_of_f64 c) (int64_of_f64 v)))) row)
         | _ \<Rightarrow> Err (NonNumeric col))
      else if opr = ''insert'' then Ret (mutateSetInsert row col current val)
      else if opr = ''delete'' then Ret (mutateSetDelete row col current val)
      else Err (UnknownMutator opr))"

section \<open>The store\<close>

record Table =
  Rows :: "(string, Row) gomap"

record Store_db =
  tables :: "(string, Table) gomap"
  schema :: "(string, TableSchema) gomap"

definition empty_table :: Table where
  "empty_table = \<lparr>Rows = fmempty\<rparr>"

definition NewStore_db :: "(string, TableSchema) gomap \<Rightarrow> Store_db" where
  "NewStore_db sch = \<lparr>tables = fmmap (\<lambda>_. empty_table) sch, schema = sch\<rparr>"

definition with_rows :: "string \<Rightarrow> (string, Row) gomap \<Rightarrow> Store_db \<Rightarrow> Store_db" where
  "with_rows tbl rows s = s\<lparr>tables := fmupd tbl \<lparr>Rows = rows\<rparr> (tables s)\<rparr>"

definition uuid_value :: "string \<Rightarrow> json" where
  "uuid_value u = JArr [JStr ''uuid'', JStr u]"

definition Insert :: "string \<Rightarrow> string \<Rightarrow> Row \<Rightarrow> Store_db \<Rightarrow> string ret \<times> Store_db" where
  "Insert new_uuid tbl row s =
     (case get (tables s) tbl of
        None \<Rightarrow> (Err (UnknownTable tbl), s)
      | Some t \<Rightarrow>
          (Ret new_uuid,
           with_rows tbl (fmupd new_uuid (fmupd ''_uuid'' (uuid_value new_uuid) row) (Rows t)) s))"

definition Select :: "((string, Row) gomap \<Rightarrow> string list) \<Rightarrow> string \<Rightarrow> json list \<Rightarrow> Store_db \<Rightarrow> Row list ret" where
  "Select order tbl wh s =
     (case get (tables s) tbl of
        None \<Rightarrow> Err (UnknownTable tbl)
      | Some t \<Rightarrow> Ret (filter (\<lambda>row. matchWhere row wh) (values_along (Rows t) (order (Rows t)))))"

text \<open>The loops of \<^verbatim>\<open>Update\<close> and \<^verbatim>\<open>Delete\<close> change the matching rows and count them.\<close>

definition on_match ::
    "json list \<Rightarrow> (string \<Rightarrow> Row \<Rightarrow> (string, Row) gomap \<Rightarrow> (string, Row) gomap) \<Rightarrow>
     string \<Rightarrow> Row \<Rightarrow> (string, Row) gomap \<times> int \<Rightarrow> (string, Row) gomap \<times> int" where
  "on_match wh f u row st =
     (if matchWhere row wh then (f u row (fst st), int64 (snd st + 1)) else st)"

definition update_row :: "Row \<Rightarrow> string \<Rightarrow> Row \<Rightarrow> (string, Row) gomap \<Rightarrow> (string, Row) gomap" where
  "update_row vals u row rows = fmupd u (row ++\<^sub>f vals) rows"

definition Update :: "string \<Rightarrow> json list \<Rightarrow> Row \<Rightarrow> Store_db \<Rightarrow> int ret \<times> Store_db" where
  "Update tbl wh vals s =
     (case get (tables s) tbl of
        None \<Rightarrow> (Err (UnknownTable tbl), s)
      | Some t \<Rightarrow>
          (case range_fold (on_match wh (update_row vals)) (Rows t) (Rows t, 0) of
             (rows, count) \<Rightarrow> (Ret count, with_rows tbl rows s)))"

definition delete_row :: "string \<Rightarrow> Row \<Rightarrow> (string, Row) gomap \<Rightarrow> (string, Row) gomap" where
  "delete_row u row rows = fmdrop u rows"

definition Delete :: "string \<Rightarrow> json list \<Rightarrow> Store_db \<Rightarrow> int ret \<times> Store_db" where
  "Delete tbl wh s =
     (case get (tables s) tbl of
        None \<Rightarrow> (Err (UnknownTable tbl), s)
      | Some t \<Rightarrow>
          (case range_fold (on_match wh delete_row) (Rows t) (Rows t, 0) of
             (rows, count) \<Rightarrow> (Ret count, with_rows tbl rows s)))"

text \<open>The mutations of one row; the row keeps what was done to it before a failure.\<close>

fun mutate_row :: "json list \<Rightarrow> Row \<Rightarrow> unit ret \<times> Row" where
  "mutate_row [] row = (Ret (), row)"
| "mutate_row (m # ms) row =
     (case m of
        JArr [c, f, val] \<Rightarrow>
          (case applyMutation row (string_or_empty c) (string_or_empty f) val of
             Ret row' \<Rightarrow> mutate_row ms row'
           | Err e \<Rightarrow> (Err e, row)
           | Panic \<Rightarrow> (Panic, row))
      | _ \<Rightarrow> (Err InvalidMutation, row))"

fun mutate_rows ::
    "json list \<Rightarrow> json list \<Rightarrow> string list \<Rightarrow> (string, Row) gomap \<Rightarrow> int \<Rightarrow> int ret \<times> (string, Row) gomap" where
  "mutate_rows wh muts [] rows count = (Ret count, rows)"
| "mutate_rows wh muts (u # us) rows count =
     (case get rows u of
        None \<Rightarrow> mutate_rows wh muts us rows count
      | Some row \<Rightarrow>
          if matchWhere row wh then
            (case mutate_row muts row of
               (Ret _, row') \<Rightarrow> mutate_rows wh muts us (fmupd u row' rows) (int64 (count + 1))
             | (Err e, row') \<Rightarrow> (Err e, fmupd u row' rows)
             | (Panic, row') \<Rightarrow> (Panic, fmupd u row' rows))
          else mutate_rows wh muts us rows count)"

definition Mutate ::
    "((string, Row) gomap \<Rightarrow> string list) \<Rightarrow> string \<Rightarrow> json list \<Rightarrow> json list \<Rightarrow> Store_db \<Rightarrow> int ret \<times> Store_db" where
  "Mutate order tbl wh muts s =
     (case get (tables s) tbl of
        None \<Rightarrow> (Err (UnknownTable tbl), s)
      | Some t \<Rightarrow>
          (case mutate_rows wh muts (order (Rows t)) (Rows t) 0 of
             (r, rows) \<Rightarrow> (r, with_rows tbl rows s)))"

definition GetRow :: "string \<Rightarrow> string \<Rightarrow> Store_db \<Rightarrow> Row option" where
  "GetRow tbl u s =
     (case get (tables s) tbl of None \<Rightarrow> None | Some t \<Rightarrow> get (Rows t) u)"

definition AllRows :: "string \<Rightarrow> Store_db \<Rightarrow> (string, Row) gomap ret" where
  "AllRows tbl s = (case get (tables s) tbl of None \<Rightarrow> Err (UnknownTable tbl) | Some t \<Rightarrow> Ret (Rows t))"

definition Reset_db :: "Store_db \<Rightarrow> Store_db" where
  "Reset_db s = s\<lparr>tables := fmmap (\<lambda>_. empty_table) (tables s)\<rparr>"

definition RowExists :: "string \<Rightarrow> string \<Rightarrow> Store_db \<Rightarrow> bool" where
  "RowExists tbl u s =
     (case get (tables s) tbl of None \<Rightarrow> False | Some t \<Rightarrow> get (Rows t) u \<noteq> None)"

definition Stats_db :: "Store_db \<Rightarrow> (string, int) gomap" where
  "Stats_db s = fmmap (\<lambda>t. map_len (Rows t)) (tables s)"

section \<open>What the loops do, whatever their order\<close>

definition matching :: "json list \<Rightarrow> (string, Row) gomap \<Rightarrow> string set" where
  "matching wh rows = {u. \<exists>row. get rows u = Some row \<and> matchWhere row wh}"

lemma matching_dom: "matching wh rows \<subseteq> fmdom' rows" "finite (matching wh rows)"
proof -
  show "matching wh rows \<subseteq> fmdom' rows" by (auto simp: matching_def fmdom'I)
  then show "finite (matching wh rows)" by (rule finite_subset) simp
qed

interpretation update_loop: order_free_loop "on_match wh (update_row vals)"
  by unfold_locales (auto simp: on_match_def update_row_def intro: fmap_ext)

interpretation delete_loop: order_free_loop "on_match wh delete_row"
  by unfold_locales (auto simp: on_match_def delete_row_def fmdrop_commute)

text \<open>
  The interface of a row change that concerns one row at a time: what becomes of the row that
  is met, while the others stay.
\<close>

locale row_change =
  fixes f :: "string \<Rightarrow> Row \<Rightarrow> (string, Row) gomap \<Rightarrow> (string, Row) gomap" and g :: "Row \<Rightarrow> Row option"
  assumes changes_one: "get (f u row rows) k = (if k = u then g row else get rows k)"
begin

lemma loop_rows:
  "distinct us \<Longrightarrow> get (fst (loop_over (on_match wh f) rows us st)) k =
     (if k \<in> set us \<and> k \<in> matching wh rows then g (the (get rows k)) else get (fst st) k)"
proof (induction us arbitrary: st)
  case (Cons u us)
  show ?case
  proof (cases "get rows u")
    case None
    then show ?thesis using Cons by (auto simp: matching_def)
  next
    case (Some row)
    then have "loop_over (on_match wh f) rows (u # us) st = loop_over (on_match wh f) rows us (on_match wh f u row st)"
      by simp
    then show ?thesis
      using Cons Some by (auto simp: on_match_def matching_def changes_one)
  qed
qed simp

lemma loop_count:
  "distinct us \<Longrightarrow> int64 (snd (loop_over (on_match wh f) rows us st)) =
     int64 (snd st + int (card (set us \<inter> matching wh rows)))"
proof (induction us arbitrary: st)
  case (Cons u us)
  have "card (set (u # us) \<inter> matching wh rows) =
      card (set us \<inter> matching wh rows) + (if u \<in> matching wh rows then 1 else 0)"
    using Cons.prems by simp
  then show ?case
    using Cons by (auto simp: on_match_def matching_def algebra_simps split: option.splits)
qed simp

lemma loop_wrapped:
  "int64 (snd st) = snd st \<Longrightarrow> int64 (snd (loop_over (on_match wh f) rows us st)) =
     snd (loop_over (on_match wh f) rows us st)"
  by (induction us arbitrary: st) (auto simp: on_match_def split: option.splits)

lemma whole_loop:
  "get (fst (range_fold (on_match wh f) rows (rows, 0))) k =
     (if k \<in> matching wh rows then g (the (get rows k)) else get rows k)"
  "snd (range_fold (on_match wh f) rows (rows, 0)) = int64 (int (card (matching wh rows)))"
proof -
  have ks: "distinct (keys_in_order rows)" "set (keys_in_order rows) = fmdom' rows"
    using iteration_order_keys_in_order [of rows] by (simp_all add: iteration_order_def)
  show "get (fst (range_fold (on_match wh f) rows (rows, 0))) k =
      (if k \<in> matching wh rows then g (the (get rows k)) else get rows k)"
    using matching_dom(1) [of wh rows] by (auto simp: range_fold_def loop_rows [OF ks(1)] ks(2))
  have "fmdom' rows \<inter> matching wh rows = matching wh rows" using matching_dom(1) by blast
  then show "snd (range_fold (on_match wh f) rows (rows, 0)) = int64 (int (card (matching wh rows)))"
    using loop_count [OF ks(1), of wh rows "(rows, 0)"] loop_wrapped [of "(rows, 0)" wh rows "keys_in_order rows"]
    by (simp add: range_fold_def ks(2))
qed

end

interpretation update_rows: row_change "update_row vals" "\<lambda>row. Some (row ++\<^sub>f vals)"
  by unfold_locales (simp add: update_row_def)

interpretation delete_rows: row_change delete_row "\<lambda>row. None"
  by unfold_locales (simp add: delete_row_def)

end
