(* ===== verification/OVSDB_Transact.thy ===== *)
theory OVSDB_Transact
  imports OVSDB_Store
begin

text \<open>
  Transactions of ovn-sim: \<^verbatim>\<open>ovn-sim/internal/ovsdb/transact.go\<close>. The operations of a
  transaction run one after the other on the store itself; a failure writes the tables back
  from the copies taken at the start. The UUID that operation number \<open>i\<close> draws if it is an
  insert is \<open>ids i\<close>. A nil row and an empty one, and a nil list of conditions and an empty
  one, behave alike and are one value here.
\<close>

section \<open>Operations\<close>

record TransactOp =
  op_Op :: string
  op_Table :: string
  op_Row :: Row
  op_Where :: "json list"
  op_UUIDName :: string
  op_Mutations :: "json list"
  op_Columns :: "string list"

datatype op_result =
    UUIDResult string
  | RowsResult "Row list"
  | CountResult int
  | ErrorResult db_error
  | EmptyResult
  | NilResult

record Change =
  ch_Table :: string
  ch_UUID :: string
  ch_Type :: string
  ch_OldRow :: "Row option"
  ch_NewRow :: "Row option"

type_synonym row_order = "(string, Row) gomap \<Rightarrow> string list"

type_synonym op_outcome = "(op_result \<times> Change list) ret \<times> Store_db"

definition extractUUID :: "Row \<Rightarrow> string" where
  "extractUUID row =
     (case get row ''_uuid'' of Some (JArr [a, b]) \<Rightarrow> string_or_empty b | _ \<Rightarrow> '''')"

definition execInsert :: "string \<Rightarrow> TransactOp \<Rightarrow> Store_db \<Rightarrow> op_outcome" where
  "execInsert new_uuid oper s =
     (case Insert new_uuid (op_Table oper) (op_Row oper) s of
        (Ret u, s') \<Rightarrow>
          (Ret (UUIDResult u,
             [\<lparr>ch_Table = op_Table oper, ch_UUID = u, ch_Type = ''insert'', ch_OldRow = None,
               ch_NewRow = GetRow (op_Table oper) u s'\<rparr>]), s')
      | (Err e, s') \<Rightarrow> (Err e, s')
      | (Panic, s') \<Rightarrow> (Panic, s'))"

definition execSelect :: "row_order \<Rightarrow> TransactOp \<Rightarrow> Store_db \<Rightarrow> op_result ret" where
  "execSelect order oper s =
     (case Select order (op_Table oper) (op_Where oper) s of
        Ret rows \<Rightarrow>
          Ret (RowsResult (if op_Columns oper \<noteq> []
            then map (fmfilter (\<lambda>col. col \<in> set (op_Columns oper) \<or> col = ''_uuid'')) rows else rows))
      | Err e \<Rightarrow> Err e
      | Panic \<Rightarrow> Panic)"

definition updated :: "string \<Rightarrow> Row list \<Rightarrow> Store_db \<Rightarrow> Change list" where
  "updated tbl oldRows s' =
     List.map_filter
       (\<lambda>oldRow. let u = extractUUID oldRow in
          if u = '''' then None
          else Some \<lparr>ch_Table = tbl, ch_UUID = u, ch_Type = ''update'', ch_OldRow = Some oldRow,
                     ch_NewRow = GetRow tbl u s'\<rparr>) oldRows"

definition execUpdate :: "row_order \<Rightarrow> TransactOp \<Rightarrow> Store_db \<Rightarrow> op_outcome" where
  "execUpdate order oper s =
     (case Select order (op_Table oper) (op_Where oper) s of
        Ret oldRows \<Rightarrow>
          (case Update (op_Table oper) (op_Where oper) (op_Row oper) s of
             (Ret count, s') \<Rightarrow> (Ret (CountResult count, updated (op_Table oper) oldRows s'), s')
           | (Err e, s') \<Rightarrow> (Err e, s')
           | (Panic, s') \<Rightarrow> (Panic, s'))
      | Err e \<Rightarrow> (Err e, s)
      | Panic \<Rightarrow> (Panic, s))"

definition execDelete :: "row_order \<Rightarrow> TransactOp \<Rightarrow> Store_db \<Rightarrow> op_outcome" where
  "execDelete order oper s =
     (case Select order (op_Table oper) (op_Where oper) s of
        Ret rows \<Rightarrow>
          (case Delete (op_Table oper) (op_Where oper) s of
             (Ret count, s') \<Rightarrow>
               (Ret (CountResult count,
                  map (\<lambda>row. \<lparr>ch_Table = op_Table oper, ch_UUID = extractUUID row, ch_Type = ''delete'',
                     ch_OldRow = Some row, ch_NewRow = None\<rparr>) rows), s')
           | (Err e, s') \<Rightarrow> (Err e, s')
           | (Panic, s') \<Rightarrow> (Panic, s'))
      | Err e \<Rightarrow> (Err e, s)
      | Panic \<Rightarrow> (Panic, s))"

definition execMutate :: "row_order \<Rightarrow> TransactOp \<Rightarrow> Store_db \<Rightarrow> op_outcome" where
  "execMutate order oper s =
     (case Select order (op_Table oper) (op_Where oper) s of
        Ret oldRows \<Rightarrow>
          (case Mutate order (op_Table oper) (op_Where oper) (op_Mutations oper) s of
             (Ret count, s') \<Rightarrow> (Ret (CountResult count, updated (op_Table oper) oldRows s'), s')
           | (Err e, s') \<Rightarrow> (Err e, s')
           | (Panic, s') \<Rightarrow> (Panic, s'))
      | Err e \<Rightarrow> (Err e, s)
      | Panic \<Rightarrow> (Panic, s))"

definition exec_op :: "row_order \<Rightarrow> string \<Rightarrow> TransactOp \<Rightarrow> Store_db \<Rightarrow> op_outcome" where
  "exec_op order new_uuid oper s =
     (if op_Op oper = ''insert'' then execInsert new_uuid oper s
      else if op_Op oper = ''select'' then
        ((case execSelect order oper s of Ret r \<Rightarrow> Ret (r, []) | Err e \<Rightarrow> Err e | Panic \<Rightarrow> Panic), s)
      else if op_Op oper = ''update'' then execUpdate order oper s
      else if op_Op oper = ''delete'' then execDelete order oper s
      else if op_Op oper = ''mutate'' then execMutate order oper s
      else (Err (UnknownOperation (op_Op oper)), s))"

section \<open>Named UUIDs\<close>

fun resolveNamedUUIDValue :: "(string, string) gomap \<Rightarrow> json \<Rightarrow> json" where
  "resolveNamedUUIDValue named (JArr [JStr tag, JStr name]) =
     (if tag = ''named-uuid''
      then case get named name of Some u \<Rightarrow> uuid_value u | None \<Rightarrow> JArr [JStr tag, JStr name]
      else JArr [JStr tag, JStr name])"
| "resolveNamedUUIDValue named (JArr [JStr tag, JArr elems]) =
     (if tag = ''set'' then the_set (map (resolveNamedUUIDValue named) elems) else JArr [JStr tag, JArr elems])"
| "resolveNamedUUIDValue named v = v"

definition resolveNamedUUIDs :: "(string, string) gomap \<Rightarrow> Row \<Rightarrow> Row" where
  "resolveNamedUUIDs named row = fmmap (resolveNamedUUIDValue named) row"

definition resolveNamedUUIDsInWhere :: "(string, string) gomap \<Rightarrow> json list \<Rightarrow> json list" where
  "resolveNamedUUIDsInWhere named wh =
     map (\<lambda>cond. case cond of JArr [c, f, v] \<Rightarrow> JArr [c, f, resolveNamedUUIDValue named v] | _ \<Rightarrow> cond) wh"

definition resolve_op :: "(string, string) gomap \<Rightarrow> TransactOp \<Rightarrow> TransactOp" where
  "resolve_op named oper =
     oper\<lparr>op_Row := resolveNamedUUIDs named (op_Row oper),
          op_Where := resolveNamedUUIDsInWhere named (op_Where oper)\<rparr>"

definition note_uuid :: "TransactOp \<Rightarrow> string \<Rightarrow> (string, string) gomap \<Rightarrow> (string, string) gomap" where
  "note_uuid oper u named =
     (if op_Op oper = ''insert'' \<and> op_UUIDName oper \<noteq> '''' then fmupd (op_UUIDName oper) u named else named)"

section \<open>Transactions\<close>

datatype txn_end = Committed "op_result list" "Change list" | FailedAt nat db_error | Crashed

fun run_ops ::
    "row_order \<Rightarrow> (nat \<Rightarrow> string) \<Rightarrow> nat \<Rightarrow> TransactOp list \<Rightarrow> (string, string) gomap \<Rightarrow> Store_db \<Rightarrow> txn_end \<times> Store_db" where
  "run_ops order ids i [] named s = (Committed [] [], s)"
| "run_ops order ids i (oper # opers) named s =
     (case exec_op order (ids i) (resolve_op named oper) s of
        (Ret (r, chs), s') \<Rightarrow>
          (case run_ops order ids (Suc i) opers (note_uuid oper (ids i) named) s' of
             (Committed rs cs, s'') \<Rightarrow> (Committed (r # rs) (chs @ cs), s'')
           | (FailedAt j e, s'') \<Rightarrow> (FailedAt j e, s'')
           | (Crashed, s'') \<Rightarrow> (Crashed, s''))
      | (Err e, s') \<Rightarrow> (FailedAt i e, s')
      | (Panic, s') \<Rightarrow> (Crashed, s'))"

type_synonym snapshots = "(string, (string, Row) gomap) gomap"

definition take_snapshots :: "TransactOp list \<Rightarrow> Store_db \<Rightarrow> snapshots" where
  "take_snapshots opers s =
     foldl (\<lambda>snaps oper.
        if get snaps (op_Table oper) \<noteq> None then snaps
        else case AllRows (op_Table oper) s of Ret rows \<Rightarrow> fmupd (op_Table oper) rows snaps | _ \<Rightarrow> snaps)
      fmempty opers"

definition restore_table :: "string \<Rightarrow> (string, Row) gomap \<Rightarrow> (string, Table) gomap \<Rightarrow> (string, Table) gomap" where
  "restore_table name rows tbls = (if get tbls name = None then tbls else fmupd name \<lparr>Rows = rows\<rparr> tbls)"

definition rollback :: "snapshots \<Rightarrow> Store_db \<Rightarrow> Store_db" where
  "rollback snaps s = s\<lparr>tables := range_fold restore_table snaps (tables s)\<rparr>"

definition errorResults :: "nat \<Rightarrow> nat \<Rightarrow> db_error \<Rightarrow> op_result list" where
  "errorResults n failIdx e =
     replicate failIdx EmptyResult @ ErrorResult e # replicate (n - failIdx - 1) NilResult"

definition Transact ::
    "row_order \<Rightarrow> (nat \<Rightarrow> string) \<Rightarrow> TransactOp list \<Rightarrow> Store_db \<Rightarrow> (op_result list \<times> Change list) ret \<times> Store_db" where
  "Transact order ids opers s =
     (let snaps = take_snapshots opers s in
      case run_ops order ids 0 opers fmempty s of
        (Committed rs cs, s') \<Rightarrow> (Ret (rs, cs), s')
      | (FailedAt i e, s') \<Rightarrow> (Ret (errorResults (length opers) i e, []), rollback snaps s')
      | (Crashed, s') \<Rightarrow> (Panic, s'))"

end
