(* ===== verification/OVSDB_Theorems.thy ===== *)
theory OVSDB_Theorems
  imports OVSDB_Transact
begin

text \<open>
  What the database of ovn-sim promises: a failed transaction leaves no trace, the changes a
  transaction reports are exactly what a client needs to follow the tables, and every row keeps
  its own UUID; and what happens at the edges, where transactions interleave, a mutation names
  a row inserted before it, or a remainder is taken by a fraction.
\<close>

section \<open>An operation touches one table\<close>

definition only_table :: "string \<Rightarrow> Store_db \<Rightarrow> Store_db \<Rightarrow> bool" where
  "only_table tbl s s' \<longleftrightarrow> schema s' = schema s \<and> fmdrop tbl (tables s') = fmdrop tbl (tables s) \<and>
     (get (tables s) tbl = None \<longrightarrow> s' = s) \<and> (get (tables s) tbl \<noteq> None \<longrightarrow> get (tables s') tbl \<noteq> None)"

lemma only_table_refl [simp]: "only_table tbl s s"
  by (simp add: only_table_def)

lemma only_table_with_rows: "get (tables s) tbl = Some t \<Longrightarrow> only_table tbl s (with_rows tbl rows s)"
  by (simp add: only_table_def with_rows_def)

lemma store_ops_only_table:
  "only_table tbl s (snd (Insert u tbl row s))"
  "only_table tbl s (snd (Update tbl wh vals s))"
  "only_table tbl s (snd (Delete tbl wh s))"
  "only_table tbl s (snd (Mutate order tbl wh muts s))"
  by (auto simp: Insert_def Update_def Delete_def Mutate_def only_table_with_rows split: option.split prod.split)

lemma exec_op_only_table: "only_table (op_Table oper) s (snd (exec_op order u oper s))"
proof -
  have "only_table (op_Table oper) s (snd (execInsert u oper s))"
    using store_ops_only_table(1) [of "op_Table oper" s u "op_Row oper"]
    by (auto simp: execInsert_def split: prod.splits ret.splits)
  moreover have "only_table (op_Table oper) s (snd (execUpdate order oper s))"
    using store_ops_only_table(2) [of "op_Table oper" s "op_Where oper" "op_Row oper"]
    by (auto simp: execUpdate_def split: prod.splits ret.splits)
  moreover have "only_table (op_Table oper) s (snd (execDelete order oper s))"
    using store_ops_only_table(3) [of "op_Table oper" s "op_Where oper"]
    by (auto simp: execDelete_def split: prod.splits ret.splits)
  moreover have "only_table (op_Table oper) s (snd (execMutate order oper s))"
    using store_ops_only_table(4) [of "op_Table oper" s order "op_Where oper" "op_Mutations oper"]
    by (auto simp: execMutate_def split: prod.splits ret.splits)
  ultimately show ?thesis by (simp add: exec_op_def)
qed

text \<open>A sequence of operations touches the tables it names, and adds or removes none.\<close>

definition inside :: "string set \<Rightarrow> Store_db \<Rightarrow> Store_db \<Rightarrow> bool" where
  "inside T s s' \<longleftrightarrow> schema s' = schema s \<and>
     (\<forall>name. (get (tables s') name = None \<longleftrightarrow> get (tables s) name = None) \<and>
        (name \<notin> T \<longrightarrow> get (tables s') name = get (tables s) name))"

lemma inside_refl [simp]: "inside T s s"
  by (simp add: inside_def)

lemma inside_trans: "inside T s t \<Longrightarrow> inside U t u \<Longrightarrow> inside (T \<union> U) s u"
  unfolding inside_def by simp

lemma only_table_inside: "only_table tbl s s' \<Longrightarrow> inside {tbl} s s'"
  unfolding only_table_def inside_def
  by (metis fmlookup_drop singletonI)

lemma run_ops_inside: "inside (op_Table ` set opers) s (snd (run_ops order ids i opers named s))"
proof (induction opers arbitrary: i named s)
  case (Cons oper opers)
  have step: "inside {op_Table oper} s (snd (exec_op order (ids i) (resolve_op named oper) s))"
    using exec_op_only_table [of "resolve_op named oper" s order "ids i"]
    by (intro only_table_inside) (simp add: resolve_op_def)
  show ?case
  proof (cases "exec_op order (ids i) (resolve_op named oper) s")
    case (Pair r s')
    have "inside (op_Table ` set (oper # opers)) s s'"
      using step Pair inside_trans [OF step inside_refl, of "op_Table ` set opers"] by (simp add: insert_is_Un [symmetric])
    moreover have "inside (op_Table ` set (oper # opers)) s
        (snd (run_ops order ids (Suc i) opers (note_uuid oper (ids i) named) s'))"
      using inside_trans [OF step [unfolded Pair snd_conv] Cons.IH [of s' "Suc i"]] by simp
    ultimately show ?thesis
      by (auto simp: Pair split: prod.splits ret.splits txn_end.splits)
  qed
qed simp

section \<open>Rolling back\<close>

lemma restore_loop:
  "distinct ks \<Longrightarrow> get (loop_over restore_table snaps ks tbls) name =
     (if name \<in> set ks \<and> get tbls name \<noteq> None
      then (case get snaps name of None \<Rightarrow> get tbls name | Some rows \<Rightarrow> Some \<lparr>Rows = rows\<rparr>)
      else get tbls name)"
  by (induction ks arbitrary: tbls) (auto simp: restore_table_def split: option.splits)

interpretation restore_tables: order_free_loop restore_table
  by unfold_locales (auto simp: restore_table_def intro: fmap_ext)

lemma rollback_tables:
  "get (tables (rollback snaps s)) name =
     (if get (tables s) name = None then None
      else (case get snaps name of None \<Rightarrow> get (tables s) name | Some rows \<Rightarrow> Some \<lparr>Rows = rows\<rparr>))"
proof -
  have "distinct (keys_in_order snaps)" "set (keys_in_order snaps) = fmdom' snaps"
    using iteration_order_keys_in_order [of snaps] by (simp_all add: iteration_order_def)
  then show ?thesis
    by (auto simp: rollback_def range_fold_def restore_loop fmlookup_dom'_iff split: option.split)
qed

lemma snapshots_of:
  "get (take_snapshots opers s) name =
     (if name \<in> op_Table ` set opers then map_option Rows (get (tables s) name) else None)"
proof -
  let ?f = "\<lambda>snaps oper. if get snaps (op_Table oper) \<noteq> None then snaps
      else case AllRows (op_Table oper) s of Ret rows \<Rightarrow> fmupd (op_Table oper) rows snaps | _ \<Rightarrow> snaps"
  have "\<forall>n. get snaps n = None \<or> get snaps n = map_option Rows (get (tables s) n) \<Longrightarrow>
      get (foldl ?f snaps opers) name =
      (if name \<in> op_Table ` set opers \<and> get snaps name = None then map_option Rows (get (tables s) name)
       else get snaps name)" for snaps
  proof (induction opers arbitrary: snaps)
    case (Cons oper opers)
    let ?sn = "?f snaps oper"
    have sn: "get ?sn n = (if n = op_Table oper \<and> get snaps n = None then map_option Rows (get (tables s) n)
        else get snaps n)" for n
      by (auto simp: AllRows_def split: option.splits)
    then have "\<forall>n. get ?sn n = None \<or> get ?sn n = map_option Rows (get (tables s) n)"
      using Cons.prems by auto
    from Cons.IH [OF this] show ?case
      using sn [of name] Cons.prems by (auto split: if_splits)
  qed simp
  from this [of fmempty] show ?thesis by (simp add: take_snapshots_def)
qed

lemma rollback_restores:
  assumes "inside (op_Table ` set opers) s s'"
  shows "rollback (take_snapshots opers s) s' = s"
proof -
  have same: "get (tables s') name = None \<longleftrightarrow> get (tables s) name = None"
    "name \<notin> op_Table ` set opers \<Longrightarrow> get (tables s') name = get (tables s) name" for name
    using assms by (auto simp: inside_def)
  have "get (tables (rollback (take_snapshots opers s) s')) name = get (tables s) name" for name
    using same [of name] by (cases "get (tables s) name") (auto simp: rollback_tables snapshots_of)
  then have "tables (rollback (take_snapshots opers s) s') = tables s" by (rule fmap_ext)
  moreover have "schema (rollback (take_snapshots opers s) s') = schema s"
    using assms by (simp add: rollback_def inside_def)
  ultimately show ?thesis by (intro Store_db.equality) simp_all
qed

lemma run_ops_results:
  "run_ops order ids i opers named s = (Committed rs cs, s') \<Longrightarrow> length rs = length opers \<and> (\<forall>e. ErrorResult e \<notin> set rs)"
proof (induction opers arbitrary: i named s rs cs)
  case (Cons oper opers)
  have no_error: "exec_op order u oper' t = (Ret (r, chs), t') \<Longrightarrow> \<forall>e. r \<noteq> ErrorResult e" for u oper' t r chs t'
    by (auto simp: exec_op_def execInsert_def execSelect_def execUpdate_def execDelete_def execMutate_def
        split: if_splits prod.splits ret.splits)
  from Cons.prems show ?case
    by (auto split: prod.splits ret.splits txn_end.splits dest!: Cons.IH no_error)
qed simp

lemma run_ops_fails_within_range:
  "run_ops order ids i opers named s = (FailedAt j e, s') \<Longrightarrow> i \<le> j \<and> j < i + length opers"
proof (induction opers arbitrary: i named s)
  case (Cons oper opers)
  from Cons.prems show ?case
    by (auto split: prod.splits ret.splits txn_end.splits dest!: Cons.IH)
qed simp

text \<open>C11: Transactions are atomic: one that answers with an error for any of its operations leaves every
  table exactly as it was, reports no change, and still answers for every operation; one that
  answers without an error answers for every operation, too.\<close>

theorem transact_atomic:
  assumes "Transact order ids opers s = (Ret (rs, cs), s')"
  shows "length rs = length opers \<and> ((\<exists>e. ErrorResult e \<in> set rs) \<longrightarrow> s' = s \<and> cs = [])"
proof -
  have ins: "inside (op_Table ` set opers) s (snd (run_ops order ids 0 opers fmempty s))"
    by (rule run_ops_inside)
  show ?thesis
    using assms ins run_ops_results [of order ids 0 opers fmempty s]
      run_ops_fails_within_range [of order ids 0 opers fmempty s]
    by (auto simp: Transact_def Let_def errorResults_def rollback_restores
        split: prod.splits txn_end.splits)
qed

definition ins :: "string \<Rightarrow> (string \<times> json) list \<Rightarrow> string \<Rightarrow> TransactOp" where
  "ins tbl cols name = \<lparr>op_Op = ''insert'', op_Table = tbl, op_Row = fmap_of_list cols, op_Where = [],
     op_UUIDName = name, op_Mutations = [], op_Columns = []\<rparr>"

definition nb :: Store_db where
  "nb = NewStore_db OVNNBTables"

lemma nb_tables:
  "get (tables nb) ''Logical_Switch'' = Some empty_table" "get (tables nb) ''Logical_Switch_Port'' = Some empty_table"
  "get (tables nb) ''Bridge'' = None" "get (tables nb) ''ACL'' = Some empty_table"
  by (simp_all add: nb_def NewStore_db_def OVNNBTables_def fmlookup_of_list)

theorem transact_atomic_witness:
  "\<exists>rs. Transact keys_in_order (\<lambda>i. ''u'') [ins ''Logical_Switch'' [] '''', ins ''Bridge'' [] ''''] nb =
     (Ret (rs, []), nb) \<and> length rs = 2"
proof -
  let ?ops = "[ins ''Logical_Switch'' [] '''', ins ''Bridge'' [] '''']"
  obtain rs cs s' where t: "Transact keys_in_order (\<lambda>i. ''u'') ?ops nb = (Ret (rs, cs), s')"
    and e: "\<exists>e. ErrorResult e \<in> set rs"
    by (simp add: Transact_def ins_def exec_op_def execInsert_def Insert_def resolve_op_def note_uuid_def
        nb_tables with_rows_def errorResults_def Let_def)
  from transact_atomic [OF t] e t show ?thesis by simp
qed

section \<open>Every row keeps its UUID\<close>

definition own_uuid :: "string \<Rightarrow> Row \<Rightarrow> bool" where
  "own_uuid u row \<longleftrightarrow> u \<noteq> '''' \<and> get row ''_uuid'' = Some (uuid_value u)"

definition keyed :: "Store_db \<Rightarrow> bool" where
  "keyed s \<longleftrightarrow> fmpred (\<lambda>_ t. fmpred own_uuid (Rows t)) (tables s)"

definition polite_mutation :: "json \<Rightarrow> bool" where
  "polite_mutation m \<longleftrightarrow> (case m of JArr [c, f, v] \<Rightarrow> string_or_empty c \<noteq> ''_uuid'' | _ \<Rightarrow> True)"

text \<open>A polite operation does not write the column that OVSDB reserves for the UUID.\<close>

definition polite :: "TransactOp \<Rightarrow> bool" where
  "polite oper \<longleftrightarrow> (op_Op oper = ''update'' \<longrightarrow> get (op_Row oper) ''_uuid'' = None) \<and>
     (op_Op oper = ''mutate'' \<longrightarrow> list_all polite_mutation (op_Mutations oper))"

lemma polite_resolve [simp]: "polite (resolve_op named oper) = polite oper"
  by (simp add: polite_def resolve_op_def resolveNamedUUIDs_def)

lemma extractUUID_own: "own_uuid u row \<Longrightarrow> extractUUID row = u"
  by (simp add: own_uuid_def extractUUID_def uuid_value_def string_or_empty_def)

lemma applyMutation_other:
  "applyMutation row col opr val = Ret row' \<Longrightarrow> k \<noteq> col \<Longrightarrow> get row' k = get row k"
  by (auto simp: applyMutation_def mutateSetInsert_def mutateSetDelete_def Let_def
      split: if_splits option.splits)

lemma mutate_row_own:
  "list_all polite_mutation muts \<Longrightarrow> get (snd (mutate_row muts row)) ''_uuid'' = get row ''_uuid''"
proof (induction muts arbitrary: row)
  case (Cons m ms)
  show ?case
  proof (cases "\<exists>c f v. m = JArr [c, f, v]")
    case True
    then obtain c f v where m: "m = JArr [c, f, v]" by blast
    then have "string_or_empty c \<noteq> ''_uuid''" using Cons.prems by (simp add: polite_mutation_def)
    then show ?thesis
      using Cons applyMutation_other [of row "string_or_empty c" "string_or_empty f" v _ "''_uuid''"]
      by (auto simp: m split: ret.split)
  next
    case False
    then show ?thesis by (auto split: json.splits list.splits)
  qed
qed simp

lemma mutate_rows_result:
  "mutate_rows wh muts us rows n = (Ret m, rows') \<Longrightarrow> distinct us \<Longrightarrow>
     get rows' k = (if k \<in> set us \<and> k \<in> matching wh rows then Some (snd (mutate_row muts (the (get rows k))))
       else get rows k)"
proof (induction us arbitrary: rows n)
  case (Cons u us)
  show ?case
  proof (cases "u \<in> matching wh rows")
    case True
    then obtain row where row: "get rows u = Some row" "matchWhere row wh" by (auto simp: matching_def)
    then obtain row' where mut: "mutate_row muts row = (Ret (), row')"
      and rest: "mutate_rows wh muts us (fmupd u row' rows) (int64 (n + 1)) = (Ret m, rows')"
      using Cons.prems(1) by (auto split: prod.splits ret.splits)
    have "k \<in> matching wh (fmupd u row' rows) \<longleftrightarrow> k \<in> matching wh rows" if "k \<noteq> u"
      using that by (simp add: matching_def)
    then show ?thesis
      using Cons.IH [OF rest] Cons.prems(2) row mut True by auto
  next
    case False
    then have "mutate_rows wh muts us rows n = (Ret m, rows')"
      using Cons.prems(1) by (auto simp: matching_def split: option.splits)
    from Cons.IH [OF this] Cons.prems(2) False show ?thesis by auto
  qed
qed simp

section \<open>Following the changes\<close>

text \<open>What a client knows of the tables, and how it takes a reported change in.\<close>

type_synonym view = "string \<times> string \<Rightarrow> Row option"

definition view_of :: "Store_db \<Rightarrow> view" where
  "view_of s = (\<lambda>(tbl, u). GetRow tbl u s)"

definition take_in :: "Change \<Rightarrow> view \<Rightarrow> view" where
  "take_in ch v = v((ch_Table ch, ch_UUID ch) := ch_NewRow ch)"

text \<open>The rows a statement selects are those of the matching keys, each with its own UUID.\<close>

lemma selected:
  assumes "keyed s" "get (tables s) tbl = Some t" "iteration_order (Rows t) (order (Rows t))"
    and "Select order tbl wh s = Ret rows"
  shows "extractUUID ` set rows = matching wh (Rows t)" "\<forall>row\<in>set rows. extractUUID row \<noteq> ''''"
proof -
  have own: "own_uuid u row" if "get (Rows t) u = Some row" for u row
    using assms(1,2) that by (auto simp: keyed_def fmpred_iff)
  have rows: "set rows = {row. \<exists>u. get (Rows t) u = Some row \<and> matchWhere row wh}"
    using assms(2-4) values_along_set [OF assms(3)] by (auto simp: Select_def)
  then show "extractUUID ` set rows = matching wh (Rows t)"
    using own extractUUID_own by (auto simp: matching_def image_iff) metis+
  show "\<forall>row\<in>set rows. extractUUID row \<noteq> ''''"
    using rows own extractUUID_own by (fastforce simp: own_uuid_def)
qed

lemma fold_take_in:
  assumes "\<forall>ch\<in>set chs. ch_Table ch = tbl \<and> ch_NewRow ch = new (ch_UUID ch)"
  shows "fold take_in chs v (t, u) = (if t = tbl \<and> u \<in> ch_UUID ` set chs then new u else v (t, u))"
  using assms
proof (induction chs arbitrary: v)
  case (Cons ch chs)
  then show ?case by (auto simp: take_in_def)
qed simp

lemma updated_changes:
  "\<forall>row\<in>set rows. extractUUID row \<noteq> '''' \<Longrightarrow> ch_UUID ` set (updated tbl rows s') = extractUUID ` set rows"
  "\<forall>ch\<in>set (updated tbl rows s'). ch_Table ch = tbl \<and> ch_NewRow ch = GetRow tbl (ch_UUID ch) s'"
  by (force simp: updated_def List.map_filter_def Let_def image_iff) (auto simp: updated_def List.map_filter_def Let_def)

text \<open>
  A statement that changes rows of one table keeps a client in step when every changed row is
  reported with what it has become.
\<close>

definition proper :: "Change \<Rightarrow> bool" where
  "proper ch \<longleftrightarrow> (if ch_NewRow ch = None then ch_Type ch = ''delete'' else ch_Type ch = ''insert'' \<or> ch_Type ch = ''update'')"

definition in_step :: "Store_db \<Rightarrow> Change list \<Rightarrow> Store_db \<Rightarrow> bool" where
  "in_step s chs s' \<longleftrightarrow> keyed s' \<and> fold take_in chs (view_of s) = view_of s' \<and> list_all proper chs"

lemma in_step_trans: "in_step s cs t \<Longrightarrow> in_step t ds u \<Longrightarrow> in_step s (cs @ ds) u"
  by (simp add: in_step_def)

lemma GetRow_with_rows [simp]: "GetRow tbl u (with_rows tbl' rows s) = (if tbl = tbl' then get rows u else GetRow tbl u s)"
  by (simp add: GetRow_def with_rows_def)

lemma table_in_step:
  assumes "keyed s" "get (tables s) tbl = Some t"
    and "\<forall>ch\<in>set chs. ch_Table ch = tbl \<and> ch_NewRow ch = get rows' (ch_UUID ch)"
    and same: "\<And>k. k \<notin> ch_UUID ` set chs \<Longrightarrow> get rows' k = get (Rows t) k"
    and own: "\<And>k row. get rows' k = Some row \<Longrightarrow> own_uuid k row"
    and "list_all proper chs"
  shows "in_step s chs (with_rows tbl rows' s)"
proof -
  have "keyed (with_rows tbl rows' s)"
    using assms(1) own by (auto simp: keyed_def with_rows_def fmpred_iff)
  moreover have "fold take_in chs (view_of s) (n, u) = view_of (with_rows tbl rows' s) (n, u)" for n u
    using fold_take_in [OF assms(3), of "view_of s" n u] same [of u] assms(2)
    by (auto simp: view_of_def GetRow_def with_rows_def)
  ultimately show ?thesis using assms(6) by (auto simp: in_step_def)
qed

text \<open>The rows an update or a mutation reports are still there.\<close>

lemma updated_proper:
  assumes "ch_UUID ` set (updated tbl rows s') \<subseteq> M" "\<And>k. k \<in> M \<Longrightarrow> GetRow tbl k s' \<noteq> None"
  shows "list_all proper (updated tbl rows s')"
proof -
  have "ch_Type ch = ''update'' \<and> ch_NewRow ch = GetRow tbl (ch_UUID ch) s'" if "ch \<in> set (updated tbl rows s')" for ch
    using that by (auto simp: updated_def List.map_filter_def Let_def split: if_splits)
  then show ?thesis using assms by (force simp: proper_def list_all_iff)
qed

lemma keyed_rows: "keyed s \<Longrightarrow> get (tables s) tbl = Some t \<Longrightarrow> get (Rows t) u = Some row \<Longrightarrow> own_uuid u row"
  by (auto simp: keyed_def fmpred_iff)

lemma insert_in_step:
  assumes "keyed s" "u \<noteq> ''''" "execInsert u oper s = (Ret (r, chs), s')"
  shows "in_step s chs s'"
proof (cases "get (tables s) (op_Table oper)")
  case (Some t)
  then have out: "s' = with_rows (op_Table oper) (fmupd u (fmupd ''_uuid'' (uuid_value u) (op_Row oper)) (Rows t)) s"
    "chs = [\<lparr>ch_Table = op_Table oper, ch_UUID = u, ch_Type = ''insert'', ch_OldRow = None,
       ch_NewRow = Some (fmupd ''_uuid'' (uuid_value u) (op_Row oper))\<rparr>]"
    using assms(3) by (auto simp: execInsert_def Insert_def)
  show ?thesis
    unfolding out
    using keyed_rows [OF assms(1) Some] assms(2)
    by (intro table_in_step [OF assms(1) Some]) (auto simp: own_uuid_def proper_def split: if_splits dest: sym)
qed (use assms in \<open>simp add: execInsert_def Insert_def\<close>)

lemma update_in_step:
  assumes "keyed s" "\<And>t. get (tables s) (op_Table oper) = Some t \<Longrightarrow> iteration_order (Rows t) (order (Rows t))"
    and polite: "get (op_Row oper) ''_uuid'' = None"
    and exec: "execUpdate order oper s = (Ret (r, chs), s')"
  shows "in_step s chs s'"
proof (cases "get (tables s) (op_Table oper)")
  case (Some t)
  let ?wh = "op_Where oper" let ?tbl = "op_Table oper"
  let ?new = "fst (range_fold (on_match ?wh (update_row (op_Row oper))) (Rows t) (Rows t, 0))"
  obtain rows where sel: "Select order ?tbl ?wh s = Ret rows" using Some by (simp add: Select_def)
  have s': "s' = with_rows ?tbl ?new s" and chs: "chs = updated ?tbl rows s'"
    using exec sel Some by (auto simp: execUpdate_def Update_def split: prod.splits)
  have touched: "ch_UUID ` set chs = matching ?wh (Rows t)"
    using selected [OF assms(1) Some assms(2) [OF Some] sel] updated_changes(1) [of rows ?tbl s'] chs by simp
  have own: "own_uuid k row" if "get ?new k = Some row" for k row
    using that polite keyed_rows [OF assms(1) Some, of k] 
    by (auto simp: update_rows.whole_loop matching_def own_uuid_def fmlookup_dom_iff split: if_splits)
  have proper: "list_all proper chs"
    using updated_proper [of ?tbl rows s' "matching ?wh (Rows t)"] touched
    by (auto simp: chs s' update_rows.whole_loop)
  show ?thesis
    unfolding s'
    by (intro table_in_step [OF assms(1) Some])
      (use updated_changes(2) [of ?tbl rows s'] touched own proper in
        \<open>auto simp: chs s' update_rows.whole_loop\<close>)
qed (use exec in \<open>simp add: execUpdate_def Select_def\<close>)

lemma delete_in_step:
  assumes "keyed s" "\<And>t. get (tables s) (op_Table oper) = Some t \<Longrightarrow> iteration_order (Rows t) (order (Rows t))"
    and exec: "execDelete order oper s = (Ret (r, chs), s')"
  shows "in_step s chs s'"
proof (cases "get (tables s) (op_Table oper)")
  case (Some t)
  let ?wh = "op_Where oper" let ?tbl = "op_Table oper"
  let ?new = "fst (range_fold (on_match ?wh delete_row) (Rows t) (Rows t, 0))"
  obtain rows where sel: "Select order ?tbl ?wh s = Ret rows" using Some by (simp add: Select_def)
  have s': "s' = with_rows ?tbl ?new s"
    and chs: "chs = map (\<lambda>row. \<lparr>ch_Table = ?tbl, ch_UUID = extractUUID row, ch_Type = ''delete'',
       ch_OldRow = Some row, ch_NewRow = None\<rparr>) rows"
    using exec sel Some by (auto simp: execDelete_def Delete_def split: prod.splits)
  have touched: "ch_UUID ` set chs = matching ?wh (Rows t)"
    using selected(1) [OF assms(1) Some assms(2) [OF Some] sel] by (simp add: chs image_image)
  show ?thesis
    unfolding s'
  proof (intro table_in_step [OF assms(1) Some] ballI conjI)
    fix ch assume ch: "ch \<in> set chs"
    then have "ch_UUID ch \<in> matching ?wh (Rows t)" using touched by blast
    then show "ch_NewRow ch = get ?new (ch_UUID ch)" using ch by (auto simp: delete_rows.whole_loop chs)
    show "ch_Table ch = ?tbl" using ch by (auto simp: chs)
  qed (use touched keyed_rows [OF assms(1) Some] in
      \<open>auto simp: delete_rows.whole_loop chs proper_def list_all_iff split: if_splits\<close>)
qed (use exec in \<open>simp add: execDelete_def Select_def\<close>)

lemma mutate_in_step:
  assumes "keyed s" "\<And>t. get (tables s) (op_Table oper) = Some t \<Longrightarrow> iteration_order (Rows t) (order (Rows t))"
    and polite: "list_all polite_mutation (op_Mutations oper)"
    and exec: "execMutate order oper s = (Ret (r, chs), s')"
  shows "in_step s chs s'"
proof (cases "get (tables s) (op_Table oper)")
  case (Some t)
  let ?wh = "op_Where oper" let ?tbl = "op_Table oper" let ?muts = "op_Mutations oper"
  obtain rows where sel: "Select order ?tbl ?wh s = Ret rows" using Some by (simp add: Select_def)
  obtain count new where new: "mutate_rows ?wh ?muts (order (Rows t)) (Rows t) 0 = (Ret count, new)"
    and s': "s' = with_rows ?tbl new s" and chs: "chs = updated ?tbl rows s'"
    using exec sel Some by (auto simp: execMutate_def Mutate_def split: prod.splits ret.splits)
  have ord: "distinct (order (Rows t))" "set (order (Rows t)) = fmdom' (Rows t)"
    using assms(2) [OF Some] by (simp_all add: iteration_order_def)
  have row: "get new k = (if k \<in> matching ?wh (Rows t) then Some (snd (mutate_row ?muts (the (get (Rows t) k))))
      else get (Rows t) k)" for k
    using mutate_rows_result [OF new ord(1), of k] ord(2) matching_dom(1) [of ?wh "Rows t"] by auto
  have touched: "ch_UUID ` set chs = matching ?wh (Rows t)"
    using selected [OF assms(1) Some assms(2) [OF Some] sel] updated_changes(1) [of rows ?tbl s'] chs by simp
  have own: "own_uuid k row" if "get new k = Some row" for k row
    using that mutate_row_own [OF polite] keyed_rows [OF assms(1) Some, of k]
    by (auto simp: row matching_def own_uuid_def split: if_splits)
  have proper: "list_all proper chs"
    using updated_proper [of ?tbl rows s' "matching ?wh (Rows t)"] touched by (auto simp: chs s' row)
  show ?thesis
    unfolding s'
    by (intro table_in_step [OF assms(1) Some])
      (use updated_changes(2) [of ?tbl rows s'] touched own proper in \<open>auto simp: chs s' row\<close>)
qed (use exec in \<open>simp add: execMutate_def Select_def\<close>)

definition row_orders :: "row_order \<Rightarrow> bool" where
  "row_orders order \<longleftrightarrow> (\<forall>rows. iteration_order rows (order rows))"

lemma exec_op_in_step:
  assumes "keyed s" "row_orders order" "polite oper" "u \<noteq> ''''"
    and "exec_op order u oper s = (Ret (r, chs), s')"
  shows "in_step s chs s'"
proof -
  have ord: "iteration_order rows (order rows)" for rows using assms(2) by (simp add: row_orders_def)
  note lem = insert_in_step [OF assms(1,4)] update_in_step [OF assms(1) ord]
    delete_in_step [OF assms(1) ord] mutate_in_step [OF assms(1) ord]
  show ?thesis
    using assms(1,3,5) lem
    by (auto simp: exec_op_def polite_def in_step_def split: if_splits ret.splits)
qed

lemma run_ops_in_step:
  assumes "row_orders order" "\<forall>i. ids i \<noteq> ''''"
  shows "keyed s \<Longrightarrow> list_all polite opers \<Longrightarrow> run_ops order ids i opers named s = (Committed rs cs, s') \<Longrightarrow>
    in_step s cs s'"
proof (induction opers arbitrary: i named s rs cs)
  case Nil
  then show ?case by (simp add: in_step_def)
next
  case (Cons oper opers)
  obtain r chs t rs' cs' where first: "exec_op order (ids i) (resolve_op named oper) s = (Ret (r, chs), t)"
    and rest: "run_ops order ids (Suc i) opers (note_uuid oper (ids i) named) t = (Committed rs' cs', s')"
    and cs: "cs = chs @ cs'"
    using Cons.prems(3) by (auto split: prod.splits ret.splits txn_end.splits)
  have step: "in_step s chs t"
    using exec_op_in_step [OF Cons.prems(1) assms(1) _ _ first] Cons.prems(2) assms(2) by simp
  then have "in_step t cs' s'"
    using Cons.IH [OF _ _ rest] Cons.prems(2) by (simp add: in_step_def)
  then show ?case using step cs in_step_trans by simp
qed

lemma Transact_in_step:
  assumes "keyed s" "row_orders order" "\<forall>i. ids i \<noteq> ''''" "list_all polite opers"
    and "Transact order ids opers s = (Ret (rs, cs), s')"
  shows "in_step s cs s'"
  using assms(1,5) run_ops_in_step [OF assms(2,3,1,4), of 0 fmempty]
    run_ops_inside [of opers s order ids 0 fmempty]
  by (auto simp: Transact_def Let_def in_step_def rollback_restores split: prod.splits txn_end.splits)


lemma row_orders_keys [simp]: "row_orders keys_in_order"
  by (simp add: row_orders_def iteration_order_keys_in_order)

lemma keyed_new [simp]: "keyed (NewStore_db sch)"
  by (auto simp: keyed_def NewStore_db_def empty_table_def fmpred_iff)


section \<open>Bulk statements and their reference\<close>

text \<open>C29: An update or a delete of all the rows that satisfy a condition is the pure rewriting of the table:
  update overlays the new values on exactly the matching rows, delete keeps exactly the others,
  the number reported is the number of matching rows, and the loop over the rows gives this
  whatever order it meets them in.\<close>

theorem bulk_statements_exact:
  assumes "get (tables s) tbl = Some t" "iteration_order (Rows t) ks"
  shows "Update tbl wh vals s = (Ret (int64 (int (card (matching wh (Rows t))))),
           with_rows tbl (fmmap (\<lambda>row. if matchWhere row wh then row ++\<^sub>f vals else row) (Rows t)) s) \<and>
         Delete tbl wh s = (Ret (int64 (int (card (matching wh (Rows t))))),
           with_rows tbl (fmfilter (\<lambda>u. u \<notin> matching wh (Rows t)) (Rows t)) s) \<and>
         loop_over (on_match wh (update_row vals)) (Rows t) ks (Rows t, 0) =
           range_fold (on_match wh (update_row vals)) (Rows t) (Rows t, 0) \<and>
         loop_over (on_match wh delete_row) (Rows t) ks (Rows t, 0) =
           range_fold (on_match wh delete_row) (Rows t) (Rows t, 0)"
proof (intro conjI)
  have "fst (range_fold (on_match wh (update_row vals)) (Rows t) (Rows t, 0)) =
      fmmap (\<lambda>row. if matchWhere row wh then row ++\<^sub>f vals else row) (Rows t)"
    by (rule fmap_ext, case_tac "get (Rows t) x") (auto simp: update_rows.whole_loop matching_def)
  then show "Update tbl wh vals s = (Ret (int64 (int (card (matching wh (Rows t))))),
      with_rows tbl (fmmap (\<lambda>row. if matchWhere row wh then row ++\<^sub>f vals else row) (Rows t)) s)"
    using update_rows.whole_loop(2) [of wh vals "Rows t"] assms(1) by (auto simp: Update_def split: prod.split)
  have "fst (range_fold (on_match wh delete_row) (Rows t) (Rows t, 0)) =
      fmfilter (\<lambda>u. u \<notin> matching wh (Rows t)) (Rows t)"
    by (rule fmap_ext) (auto simp: delete_rows.whole_loop matching_def)
  then show "Delete tbl wh s = (Ret (int64 (int (card (matching wh (Rows t))))),
      with_rows tbl (fmfilter (\<lambda>u. u \<notin> matching wh (Rows t)) (Rows t)) s)"
    using delete_rows.whole_loop(2) [of wh "Rows t"] assms(1) by (auto simp: Delete_def split: prod.split)
qed (rule update_loop.any_iteration_order delete_loop.any_iteration_order; fact)+

theorem bulk_statements_exact_witness:
  "Delete ''ACL'' [] nb = (Ret 0, with_rows ''ACL'' fmempty nb)"
  using bulk_statements_exact [OF nb_tables(4) iteration_order_keys_in_order, of "[]" fmempty]
  by (simp add: empty_table_def matching_def)

section \<open>References by name\<close>

definition named_uuid :: "string \<Rightarrow> json" where
  "named_uuid name = JArr [JStr ''named-uuid'', JStr name]"

lemma exec_insert:
  assumes "op_Op oper = ''insert''" "get (tables s) (op_Table oper) = Some t"
  shows "\<exists>chs. exec_op order u oper s = (Ret (UUIDResult u, chs),
    with_rows (op_Table oper) (fmupd u (fmupd ''_uuid'' (uuid_value u) (op_Row oper)) (Rows t)) s)"
  using assms by (simp add: exec_op_def execInsert_def Insert_def)



section \<open>At the edges\<close>

definition mutate_op :: "string \<Rightarrow> json list \<Rightarrow> json list \<Rightarrow> TransactOp" where
  "mutate_op tbl wh muts = \<lparr>op_Op = ''mutate'', op_Table = tbl, op_Row = fmempty, op_Where = wh,
     op_UUIDName = '''', op_Mutations = muts, op_Columns = []\<rparr>"

definition one_switch :: Store_db where
  "one_switch = with_rows ''Logical_Switch'' (fmap_of_list [(''sw'', fmap_of_list [(''_uuid'', uuid_value ''sw'')])]) nb"

lemma keys_in_order_single [simp]: "keys_in_order (fmupd k v fmempty) = [k]"
  by (simp add: keys_in_order_def sorted_list_of_fset.rep_eq)

lemma resolve_nothing [simp]: "resolveNamedUUIDValue fmempty v = v"
  by (induction "fmempty :: (string, string) gomap" v rule: resolveNamedUUIDValue.induct)
    (auto simp: the_set_def intro: map_idI)

lemma resolve_nothing_in_where [simp]: "resolveNamedUUIDsInWhere fmempty wh = wh"
  unfolding resolveNamedUUIDsInWhere_def by (intro map_idI) (auto split: json.split list.split)

text \<open>The name of a row inserted in the same transaction is not resolved inside a mutation: the transaction
  that inserts a port and adds it to the ports of its switch by name commits, and the switch is
  left holding the name, which refers to no row, in place of the UUID of the port.\<close>

theorem mutation_keeps_the_name:
  "\<exists>cs s' row. Transact keys_in_order (\<lambda>i. ''u'')
       [ins ''Logical_Switch_Port'' [] ''p'',
        mutate_op ''Logical_Switch'' [] [JArr [JStr ''ports'', JStr ''insert'', named_uuid ''p'']]] one_switch =
       (Ret ([UUIDResult ''u'', CountResult 1], cs), s') \<and>
     GetRow ''Logical_Switch'' ''sw'' s' = Some row \<and>
     get row ''ports'' = Some (the_set [named_uuid ''p''])"
  by (simp add: Transact_def Let_def exec_op_def execInsert_def execMutate_def Select_def Mutate_def Insert_def
      ins_def mutate_op_def resolve_op_def note_uuid_def one_switch_def with_rows_def nb_tables empty_table_def
      fmlookup_of_list matchWhere_def resolveNamedUUIDsInWhere_def applyMutation_def
      string_or_empty_def column_def toFloat64_def mutateSetInsert_def set_elems_def GetRow_def
      resolveNamedUUIDs_def int64_def)

lemma mutate_rows_panics:
  assumes "\<And>u row. get rows u = Some row \<Longrightarrow> matchWhere row wh \<Longrightarrow> fst (mutate_row muts row) = Panic"
    and "set us \<inter> matching wh rows \<noteq> {}"
  shows "fst (mutate_rows wh muts us rows n) = Panic"
  using assms(2)
proof (induction us arbitrary: n)
  case (Cons u us)
  show ?case
  proof (cases "u \<in> matching wh rows")
    case True
    then obtain row where "get rows u = Some row" "matchWhere row wh" by (auto simp: matching_def)
    with assms(1) [OF this] show ?thesis by (cases "mutate_row muts row") auto
  next
    case False
    with Cons show ?thesis by (auto simp: matching_def split: option.split)
  qed
qed simp

text \<open>A remainder by a fraction brings the server down: the test for zero is made on the fraction, the
  division on its integer part. Every transaction that starts with such a mutation of a numeric
  column, and meets a row, ends in a panic.\<close>

theorem remainder_by_fraction_panics:
  assumes "get (tables s) tbl = Some t" "row_orders order" "matching wh (Rows t) \<noteq> {}"
    and "\<And>u row. get (Rows t) u = Some row \<Longrightarrow> matchWhere row wh \<Longrightarrow> \<exists>x. get row col = Some (JNum x)"
    and "r \<noteq> 0" "\<bar>r\<bar> < 1"
  shows "fst (Transact order ids (mutate_op tbl wh (JArr [JStr col, JStr ''%='', JNum (Fin r)] # muts) # opers) s) = Panic"
proof -
  let ?muts = "JArr [JStr col, JStr ''%='', JNum (Fin r)] # muts"
  have "trunc_rat r = 0" using assms(6) by (auto simp: trunc_rat_def floor_eq_iff ceiling_eq_iff abs_if split: if_splits)
  then have "fst (mutate_row ?muts row) = Panic" if "get (Rows t) u = Some row" "matchWhere row wh" for u row
    using assms(4) [OF that] assms(5)
    by (auto simp: applyMutation_def Let_def string_or_empty_def column_def toFloat64_def)
  moreover have "set (order (Rows t)) \<inter> matching wh (Rows t) \<noteq> {}"
    using assms(2,3) matching_dom(1) by (fastforce simp: row_orders_def iteration_order_def)
  ultimately have "fst (mutate_rows wh ?muts (order (Rows t)) (Rows t) 0) = Panic"
    using mutate_rows_panics by blast
  then show ?thesis
    using assms(1)
    by (auto simp: Transact_def Let_def mutate_op_def resolve_op_def exec_op_def execMutate_def Select_def
        Mutate_def split: prod.splits ret.splits)
qed

theorem remainder_by_fraction_panics_witness:
  "fst (Transact keys_in_order (\<lambda>i. ''u'')
     [mutate_op ''ACL'' [] [JArr [JStr ''priority'', JStr ''%='', JNum (Fin (1 / 2))]]]
     (with_rows ''ACL'' (fmupd ''a'' (fmupd ''priority'' (JNum (Fin 7)) fmempty) fmempty) nb)) = Panic"
  by (rule remainder_by_fraction_panics [of _ _ "\<lparr>Rows = fmupd ''a'' (fmupd ''priority'' (JNum (Fin 7)) fmempty) fmempty\<rparr>"])
    (auto simp: with_rows_def matching_def matchWhere_def split: if_splits)

text \<open>A transaction holds no lock from its first operation to its last, so that another client's may commit
  between the copies it takes of its tables and its failure. Writing the copies back then
  undoes what the other client was told is committed: every table the failing transaction names
  is as it was before both.\<close>

theorem rollback_undoes_others:
  assumes "Transact order ids bs s = (Ret (rs, cs), s1)"
    and "run_ops order' ids' 0 as fmempty s1 = (FailedAt i e, s2)"
    and "tbl \<in> op_Table ` set as"
  shows "get (tables (rollback (take_snapshots as s) s2)) tbl = get (tables s) tbl"
proof -
  have "inside (op_Table ` set bs) s s1"
    using assms(1) run_ops_inside [of bs s order ids 0 fmempty]
    by (auto simp: Transact_def Let_def rollback_restores split: prod.splits txn_end.splits)
  moreover have "inside (op_Table ` set as) s1 s2"
    using run_ops_inside [of as s1 order' ids' 0 fmempty] assms(2) by simp
  ultimately show ?thesis
    using assms(3) by (cases "get (tables s) tbl") (auto simp: rollback_tables snapshots_of inside_def)
qed

theorem rollback_undoes_others_witness:
  "\<exists>rs cs s1 e s2. Transact keys_in_order (\<lambda>i. ''u'') [ins ''Logical_Switch'' [] ''''] nb = (Ret (rs, cs), s1) \<and>
     GetRow ''Logical_Switch'' ''u'' s1 \<noteq> None \<and>
     run_ops keys_in_order (\<lambda>i. ''w'') 0 [ins ''Logical_Switch'' [] '''', ins ''Bridge'' [] ''''] fmempty s1 = (FailedAt 1 e, s2) \<and>
     get (tables (rollback (take_snapshots [ins ''Logical_Switch'' [] '''', ins ''Bridge'' [] ''''] nb) s2)) ''Logical_Switch'' =
       Some empty_table"
proof -
  let ?as = "[ins ''Logical_Switch'' [] '''', ins ''Bridge'' [] '''']"
  obtain rs cs s1 e s2 where t: "Transact keys_in_order (\<lambda>i. ''u'') [ins ''Logical_Switch'' [] ''''] nb = (Ret (rs, cs), s1)"
    "GetRow ''Logical_Switch'' ''u'' s1 \<noteq> None"
    and r: "run_ops keys_in_order (\<lambda>i. ''w'') 0 ?as fmempty s1 = (FailedAt 1 e, s2)"
    by (simp add: Transact_def ins_def exec_op_def execInsert_def Insert_def resolve_op_def note_uuid_def
        nb_tables with_rows_def GetRow_def Let_def)
  from rollback_undoes_others [OF t(1) r, of "''Logical_Switch''"] t r show ?thesis
    by (simp add: ins_def nb_tables)
qed

end
