(* ===== verification/OVSDB_Server.thy ===== *)
theory OVSDB_Server
  imports OVSDB_Transact
begin

text \<open>
  The OVSDB server of ovn-sim: monitors (\<^verbatim>\<open>ovsdb/monitor.go\<close>), the requests and connections of
  \<^verbatim>\<open>ovsdb/server.go\<close>, and the parsing of their parameters. A message to a client is a value that
  the operations return; that a write to a connection fails is only logged by the code and leaves
  no other trace. The orders in which the loops meet the entries of maps, and the UUIDs drawn,
  are the \<open>draw\<close> of a call. Decoding a JSON object into a Go struct is an argument (\<open>decode_op\<close>,
  \<open>decode_monitor\<close>), as is which JSON text a connection carries.
\<close>

section \<open>Monitors\<close>

record MonitorRequest =
  mr_Columns :: "string list"

record MonitorRegistration =
  reg_ID :: string
  reg_Tables :: "(string, MonitorRequest) gomap"

record clientMonitor =
  cm_notifier :: string
  cm_regs :: "(string, MonitorRegistration) gomap"

type_synonym MonitorManager = "(string, clientMonitor) gomap"

record UpdateNotification =
  un_client :: string
  un_monitor :: string
  un_table :: string
  un_uuid :: string
  un_Old :: "Row option"
  un_New :: "Row option"

record draw =
  d_rows :: row_order
  d_tables :: "(string, MonitorRequest) gomap \<Rightarrow> string list"
  d_clients :: "MonitorManager \<Rightarrow> string list"
  d_regs :: "(string, MonitorRegistration) gomap \<Rightarrow> string list"
  d_ids :: "nat \<Rightarrow> string"

definition NewMonitorManager :: MonitorManager where
  "NewMonitorManager = fmempty"

definition filterColumns :: "Row \<Rightarrow> string list \<Rightarrow> Row" where
  "filterColumns row columns =
     (if columns = [] then row else fmfilter (\<lambda>col. col \<in> set columns \<or> col = ''_uuid'') row)"

type_synonym dump = "(string, (string, Row) gomap) gomap"

text \<open>The rows a client is told of when it registers; a table without rows is left out.\<close>

fun build_dump :: "Store_db \<Rightarrow> (string, MonitorRequest) gomap \<Rightarrow> string list \<Rightarrow> dump \<Rightarrow> dump ret" where
  "build_dump s requests [] result = Ret result"
| "build_dump s requests (tbl # tbls) result =
     (case get requests tbl of
        None \<Rightarrow> build_dump s requests tbls result
      | Some req \<Rightarrow>
          (case AllRows tbl s of
             Ret rows \<Rightarrow>
               let tableUpdates = fmmap (\<lambda>row. filterColumns row (mr_Columns req)) rows in
               build_dump s requests tbls (if map_len tableUpdates > 0 then fmupd tbl tableUpdates result else result)
           | Err e \<Rightarrow> Err e
           | Panic \<Rightarrow> Panic))"

definition Register_db ::
    "draw \<Rightarrow> string \<Rightarrow> string \<Rightarrow> string \<Rightarrow> (string, MonitorRequest) gomap \<Rightarrow> Store_db \<Rightarrow> MonitorManager \<Rightarrow>
     dump ret \<times> MonitorManager" where
  "Register_db d clientKey notifier monitorID requests s mm =
     (let cm = (case get mm clientKey of Some cm \<Rightarrow> cm | None \<Rightarrow> \<lparr>cm_notifier = notifier, cm_regs = fmempty\<rparr>);
          cm' = cm\<lparr>cm_regs := fmupd monitorID \<lparr>reg_ID = monitorID, reg_Tables = requests\<rparr> (cm_regs cm)\<rparr>
      in (build_dump s requests (d_tables d requests) fmempty, fmupd clientKey cm' mm))"

datatype monitor_error = UnknownClient string | UnknownMonitor string

definition Cancel :: "string \<Rightarrow> string \<Rightarrow> MonitorManager \<Rightarrow> (monitor_error + unit) \<times> MonitorManager" where
  "Cancel clientKey monitorID mm =
     (case get mm clientKey of
        None \<Rightarrow> (Inl (UnknownClient clientKey), mm)
      | Some cm \<Rightarrow>
          if get (cm_regs cm) monitorID = None then (Inl (UnknownMonitor monitorID), mm)
          else let regs = fmdrop monitorID (cm_regs cm) in
            (Inr (), if map_len regs = 0 then fmdrop clientKey mm
                     else fmupd clientKey (cm\<lparr>cm_regs := regs\<rparr>) mm))"

definition RemoveClient :: "string \<Rightarrow> MonitorManager \<Rightarrow> MonitorManager" where
  "RemoveClient clientKey mm = fmdrop clientKey mm"

text \<open>The loops of the three notifying operations over the clients and their registrations.\<close>

definition reg_update ::
    "string \<Rightarrow> string \<Rightarrow> string \<Rightarrow> Row option \<Rightarrow> Row option \<Rightarrow> string \<Rightarrow> MonitorRegistration \<Rightarrow>
     UpdateNotification option" where
  "reg_update notifier tbl u old new monID reg =
     (case get (reg_Tables reg) tbl of
        None \<Rightarrow> None
      | Some req \<Rightarrow>
          Some \<lparr>un_client = notifier, un_monitor = monID, un_table = tbl, un_uuid = u,
                un_Old = map_option (\<lambda>row. filterColumns row (mr_Columns req)) old,
                un_New = map_option (\<lambda>row. filterColumns row (mr_Columns req)) new\<rparr>)"

definition client_updates ::
    "draw \<Rightarrow> string \<Rightarrow> string \<Rightarrow> Row option \<Rightarrow> Row option \<Rightarrow> clientMonitor \<Rightarrow> UpdateNotification list" where
  "client_updates d tbl u old new cm =
     List.map_filter (\<lambda>monID. case get (cm_regs cm) monID of
         None \<Rightarrow> None | Some reg \<Rightarrow> reg_update (cm_notifier cm) tbl u old new monID reg)
       (d_regs d (cm_regs cm))"

definition notify ::
    "draw \<Rightarrow> string \<Rightarrow> string \<Rightarrow> Row option \<Rightarrow> Row option \<Rightarrow> MonitorManager \<Rightarrow> UpdateNotification list" where
  "notify d tbl u old new mm = concat (map (client_updates d tbl u old new) (values_along mm (d_clients d mm)))"

text \<open>A nil row is an empty one to \<^verbatim>\<open>filterColumns\<close>.\<close>

definition row_or_empty :: "Row option \<Rightarrow> Row" where
  "row_or_empty r = (case r of None \<Rightarrow> fmempty | Some row \<Rightarrow> row)"

definition NotifyInsert :: "draw \<Rightarrow> string \<Rightarrow> string \<Rightarrow> Row option \<Rightarrow> MonitorManager \<Rightarrow> UpdateNotification list" where
  "NotifyInsert d tbl u row mm = notify d tbl u None (Some (row_or_empty row)) mm"

definition NotifyUpdate ::
    "draw \<Rightarrow> string \<Rightarrow> string \<Rightarrow> Row option \<Rightarrow> Row option \<Rightarrow> MonitorManager \<Rightarrow> UpdateNotification list" where
  "NotifyUpdate d tbl u oldRow newRow mm =
     notify d tbl u (Some (row_or_empty oldRow)) (Some (row_or_empty newRow)) mm"

definition NotifyDelete :: "draw \<Rightarrow> string \<Rightarrow> string \<Rightarrow> Row option \<Rightarrow> MonitorManager \<Rightarrow> UpdateNotification list" where
  "NotifyDelete d tbl u row mm = notify d tbl u (Some (row_or_empty row)) None mm"

section \<open>Parameters\<close>

datatype parse_error =
    NotAnArray
  | NoDatabaseName
  | InvalidDbName
  | InvalidOperation nat
  | TooFewParams nat
  | InvalidMonitorID
  | InvalidTableRequests

text \<open>
  Decoding into a slice, a string and a map: null leaves the zero value, and a message without
  parameters has nothing to decode.
\<close>

definition as_array :: "json option \<Rightarrow> json list option" where
  "as_array v = (case v of Some (JArr xs) \<Rightarrow> Some xs | Some JNull \<Rightarrow> Some [] | _ \<Rightarrow> None)"

definition as_string :: "json \<Rightarrow> string option" where
  "as_string v = (case v of JStr t \<Rightarrow> Some t | JNull \<Rightarrow> Some '''' | _ \<Rightarrow> None)"

definition as_object :: "json \<Rightarrow> (string, json) gomap option" where
  "as_object v = (case v of JObj m \<Rightarrow> Some m | JNull \<Rightarrow> Some fmempty | _ \<Rightarrow> None)"

definition as_strings :: "json option \<Rightarrow> string list option" where
  "as_strings v = (case as_array v of None \<Rightarrow> None | Some xs \<Rightarrow> those (map as_string xs))"

fun decode_ops :: "(json \<Rightarrow> TransactOp option) \<Rightarrow> nat \<Rightarrow> json list \<Rightarrow> parse_error + TransactOp list" where
  "decode_ops decode_op i [] = Inr []"
| "decode_ops decode_op i (v # vs) =
     (case decode_op v of
        None \<Rightarrow> Inl (InvalidOperation i)
      | Some oper \<Rightarrow>
          (case decode_ops decode_op (Suc i) vs of Inl e \<Rightarrow> Inl e | Inr opers \<Rightarrow> Inr (oper # opers)))"

definition ParseTransactParams ::
    "(json \<Rightarrow> TransactOp option) \<Rightarrow> json option \<Rightarrow> parse_error + string \<times> TransactOp list" where
  "ParseTransactParams decode_op params =
     (case as_array params of
        None \<Rightarrow> Inl NotAnArray
      | Some [] \<Rightarrow> Inl NoDatabaseName
      | Some (v # vs) \<Rightarrow>
          (case as_string v of
             None \<Rightarrow> Inl InvalidDbName
           | Some db \<Rightarrow>
               (case decode_ops decode_op 0 vs of Inl e \<Rightarrow> Inl e | Inr opers \<Rightarrow> Inr (db, opers))))"

text \<open>
  A table request that is neither an object nor an array with one is the empty request: all the
  columns. A failed decoding of the object may have filled it in part: \<open>decode_monitor\<close> gives
  what the struct then holds, and whether it succeeded.
\<close>

definition monitor_request :: "(json \<Rightarrow> bool \<times> MonitorRequest) \<Rightarrow> json \<Rightarrow> MonitorRequest" where
  "monitor_request decode_monitor v =
     (case decode_monitor v of
        (True, req) \<Rightarrow> req
      | (False, req) \<Rightarrow>
          (case as_array (Some v) of
             Some (x # xs) \<Rightarrow>
               if list_all (fst \<circ> decode_monitor) (x # xs) then snd (decode_monitor x) else req
           | _ \<Rightarrow> req))"

definition ParseMonitorParams ::
    "(json \<Rightarrow> bool \<times> MonitorRequest) \<Rightarrow> json option \<Rightarrow>
     parse_error + string \<times> string \<times> (string, MonitorRequest) gomap" where
  "ParseMonitorParams decode_monitor params =
     (case as_array params of
        None \<Rightarrow> Inl NotAnArray
      | Some (a # b # c # _) \<Rightarrow>
          (case as_string a of
             None \<Rightarrow> Inl InvalidDbName
           | Some db \<Rightarrow>
               (case as_string b of
                  None \<Rightarrow> Inl InvalidMonitorID
                | Some monitorID \<Rightarrow>
                    (case as_object c of
                       None \<Rightarrow> Inl InvalidTableRequests
                     | Some tableReqs \<Rightarrow> Inr (db, monitorID, fmmap (monitor_request decode_monitor) tableReqs))))
      | Some xs \<Rightarrow> Inl (TooFewParams (length xs)))"

section \<open>Requests\<close>

record Request_db =
  rq_Method :: string
  rq_Params :: "json option"
  rq_ID :: "json option"

datatype details =
    NoDetails
  | TextDetails string
  | ParseDetails parse_error
  | StoreDetails db_error
  | MonitorDetails monitor_error

datatype reply_db =
    DbNames "string list"
  | SchemaReply json
  | EchoReply json
  | TransactReply "op_result list"
  | DumpReply dump
  | EmptyReply
  | ErrorReply string details

type_synonym Response_db = "reply_db \<times> json option"

record Server_db =
  sv_store :: Store_db
  sv_monitors :: MonitorManager
  sv_listeners :: "(string, int) gomap"
  sv_clients :: "string fset"
  sv_clientSeq :: int

definition NewServer_db :: "Store_db \<Rightarrow> Server_db" where
  "NewServer_db s = \<lparr>sv_store = s, sv_monitors = NewMonitorManager, sv_listeners = fmempty,
     sv_clients = {||}, sv_clientSeq = 0\<rparr>"

definition handleGetSchema :: "Request_db \<Rightarrow> Response_db" where
  "handleGetSchema req =
     (case as_strings (rq_Params req) of
        Some (db # _) \<Rightarrow>
          if db \<noteq> ''OVN_Northbound'' then (ErrorReply ''unknown database'' (TextDetails db), rq_ID req)
          else (SchemaReply SchemaJSON, rq_ID req)
      | _ \<Rightarrow> (ErrorReply ''invalid params'' NoDetails, rq_ID req))"

definition handleEcho :: "Request_db \<Rightarrow> Response_db" where
  "handleEcho req =
     (case rq_Params req of
        Some (JArr xs) \<Rightarrow> (EchoReply (JArr xs), rq_ID req)
      | Some JNull \<Rightarrow> (EchoReply JNull, rq_ID req)
      | _ \<Rightarrow> (EchoReply (JArr []), rq_ID req))"

definition notify_change :: "draw \<Rightarrow> MonitorManager \<Rightarrow> Change \<Rightarrow> UpdateNotification list" where
  "notify_change d mm ch =
     (if ch_Type ch = ''insert'' then NotifyInsert d (ch_Table ch) (ch_UUID ch) (ch_NewRow ch) mm
      else if ch_Type ch = ''update'' then
        NotifyUpdate d (ch_Table ch) (ch_UUID ch) (ch_OldRow ch) (ch_NewRow ch) mm
      else if ch_Type ch = ''delete'' then NotifyDelete d (ch_Table ch) (ch_UUID ch) (ch_OldRow ch) mm
      else [])"

text \<open>
  The outcome of a request: the response, the notifications sent before it, and the new server.
  A panic inside a transaction ends the process.
\<close>

type_synonym outcome_db = "(Response_db \<times> UpdateNotification list) ret \<times> Server_db"

definition handleTransact ::
    "(json \<Rightarrow> TransactOp option) \<Rightarrow> draw \<Rightarrow> Request_db \<Rightarrow> Server_db \<Rightarrow> outcome_db" where
  "handleTransact decode_op d req sv =
     (case ParseTransactParams decode_op (rq_Params req) of
        Inl e \<Rightarrow> (Ret ((ErrorReply ''invalid params'' (ParseDetails e), rq_ID req), []), sv)
      | Inr (db, opers) \<Rightarrow>
          if db \<noteq> ''OVN_Northbound''
          then (Ret ((ErrorReply ''unknown database'' (TextDetails db), rq_ID req), []), sv)
          else
            (case Transact (d_rows d) (d_ids d) opers (sv_store sv) of
               (Ret (results, changes), s') \<Rightarrow>
                 (Ret ((TransactReply results, rq_ID req), concat (map (notify_change d (sv_monitors sv)) changes)),
                  sv\<lparr>sv_store := s'\<rparr>)
             | (Err e, s') \<Rightarrow>
                 (Ret ((ErrorReply ''transaction failed'' (StoreDetails e), rq_ID req), []), sv\<lparr>sv_store := s'\<rparr>)
             | (Panic, s') \<Rightarrow> (Panic, sv\<lparr>sv_store := s'\<rparr>)))"

definition handleMonitor ::
    "(json \<Rightarrow> bool \<times> MonitorRequest) \<Rightarrow> draw \<Rightarrow> string \<Rightarrow> Request_db \<Rightarrow> Server_db \<Rightarrow> outcome_db" where
  "handleMonitor decode_monitor d clientKey req sv =
     (case ParseMonitorParams decode_monitor (rq_Params req) of
        Inl e \<Rightarrow> (Ret ((ErrorReply ''invalid params'' (ParseDetails e), rq_ID req), []), sv)
      | Inr (db, monitorID, requests) \<Rightarrow>
          if db \<noteq> ''OVN_Northbound''
          then (Ret ((ErrorReply ''unknown database'' (TextDetails db), rq_ID req), []), sv)
          else
            (case Register_db d clientKey clientKey monitorID requests (sv_store sv) (sv_monitors sv) of
               (Ret result, mm) \<Rightarrow> (Ret ((DumpReply result, rq_ID req), []), sv\<lparr>sv_monitors := mm\<rparr>)
             | (Err e, mm) \<Rightarrow>
                 (Ret ((ErrorReply ''monitor failed'' (StoreDetails e), rq_ID req), []), sv\<lparr>sv_monitors := mm\<rparr>)
             | (Panic, mm) \<Rightarrow> (Panic, sv\<lparr>sv_monitors := mm\<rparr>)))"

definition handleMonitorCancel :: "string \<Rightarrow> Request_db \<Rightarrow> Server_db \<Rightarrow> outcome_db" where
  "handleMonitorCancel clientKey req sv =
     (case as_strings (rq_Params req) of
        Some (monitorID # _) \<Rightarrow>
          (case Cancel clientKey monitorID (sv_monitors sv) of
             (Inl e, mm) \<Rightarrow>
               (Ret ((ErrorReply ''monitor_cancel failed'' (MonitorDetails e), rq_ID req), []), sv\<lparr>sv_monitors := mm\<rparr>)
           | (Inr _, mm) \<Rightarrow> (Ret ((EmptyReply, rq_ID req), []), sv\<lparr>sv_monitors := mm\<rparr>))
      | _ \<Rightarrow> (Ret ((ErrorReply ''invalid params'' NoDetails, rq_ID req), []), sv))"

record decoders =
  dec_op :: "json \<Rightarrow> TransactOp option"
  dec_monitor :: "json \<Rightarrow> bool \<times> MonitorRequest"

definition handleRequest :: "decoders \<Rightarrow> draw \<Rightarrow> string \<Rightarrow> Request_db \<Rightarrow> Server_db \<Rightarrow> outcome_db" where
  "handleRequest dec d clientKey req sv =
     (let m = rq_Method req in
      if m = ''list_dbs'' then (Ret ((DbNames [''OVN_Northbound''], rq_ID req), []), sv)
      else if m = ''get_schema'' then (Ret (handleGetSchema req, []), sv)
      else if m = ''echo'' then (Ret (handleEcho req, []), sv)
      else if m = ''transact'' then handleTransact (dec_op dec) d req sv
      else if m = ''monitor'' then handleMonitor (dec_monitor dec) d clientKey req sv
      else if m = ''monitor_cancel'' then handleMonitorCancel clientKey req sv
      else (Ret ((ErrorReply ''unknown method'' (TextDetails m), rq_ID req), []), sv))"

section \<open>Connections and listeners\<close>

definition Listen :: "(int \<Rightarrow> bool) \<Rightarrow> string \<Rightarrow> int \<Rightarrow> Server_db \<Rightarrow> bool \<times> Server_db" where
  "Listen listen ident port sv =
     (if listen port then (True, sv\<lparr>sv_listeners := fmupd ident port (sv_listeners sv)\<rparr>) else (False, sv))"

definition Stop :: "string \<Rightarrow> Server_db \<Rightarrow> Server_db" where
  "Stop ident sv = sv\<lparr>sv_listeners := fmdrop ident (sv_listeners sv)\<rparr>"

definition StopAll_db :: "Server_db \<Rightarrow> Server_db" where
  "StopAll_db sv = sv\<lparr>sv_listeners := fmempty, sv_clients := {||}\<rparr>"

text \<open>The start and the end of \<^verbatim>\<open>handleConn\<close>; between them every request that decodes is handled.\<close>

definition client_key :: "int \<Rightarrow> string" where
  "client_key n = ''client-'' @ fmt_0d 0 n"

definition connect :: "Server_db \<Rightarrow> string \<times> Server_db" where
  "connect sv =
     (let seqno = int64 (sv_clientSeq sv + 1); key = client_key seqno in
      (key, sv\<lparr>sv_clientSeq := seqno, sv_clients := finsert key (sv_clients sv)\<rparr>))"

definition disconnect :: "string \<Rightarrow> Server_db \<Rightarrow> Server_db" where
  "disconnect key sv =
     sv\<lparr>sv_monitors := RemoveClient key (sv_monitors sv), sv_clients := sv_clients sv |-| {|key|}\<rparr>"

fun serve_requests ::
    "decoders \<Rightarrow> string \<Rightarrow> (draw \<times> Request_db) list \<Rightarrow> Server_db \<Rightarrow>
     (Response_db list \<times> UpdateNotification list) ret \<times> Server_db" where
  "serve_requests dec key [] sv = (Ret ([], []), sv)"
| "serve_requests dec key ((d, req) # reqs) sv =
     (case handleRequest dec d key req sv of
        (Ret (resp, notes), sv') \<Rightarrow>
          (case serve_requests dec key reqs sv' of
             (Ret (resps, rest), sv'') \<Rightarrow> (Ret (resp # resps, notes @ rest), sv'')
           | (Err e, sv'') \<Rightarrow> (Err e, sv'')
           | (Panic, sv'') \<Rightarrow> (Panic, sv''))
      | (Err e, sv') \<Rightarrow> (Err e, sv')
      | (Panic, sv') \<Rightarrow> (Panic, sv'))"

definition handleConn ::
    "decoders \<Rightarrow> (draw \<times> Request_db) list \<Rightarrow> Server_db \<Rightarrow>
     (Response_db list \<times> UpdateNotification list) ret \<times> Server_db" where
  "handleConn dec reqs sv =
     (case connect sv of
        (key, sv1) \<Rightarrow>
          (case serve_requests dec key reqs sv1 of (r, sv2) \<Rightarrow> (r, disconnect key sv2)))"

end
