(* ===== verification/OVN_Clusters.thy ===== *)
theory OVN_Clusters
  imports OVSDB_Server
begin

text \<open>
  The clusters of ovn-sim and their management interface: \<^verbatim>\<open>ovn-sim/internal/state/cluster.go\<close>
  and \<^verbatim>\<open>ovn-sim/internal/handler/management.go\<close>. The store of a cluster is the store of its
  server. A handler takes what it reads of the request and gives a status, a body and the new
  manager; whether the operating system lets a server listen on a port is the argument \<open>listen\<close>.
\<close>

section \<open>Clusters\<close>

record Cluster =
  cl_ID :: string
  cl_Port :: int
  cl_Server :: Server_db

record ClusterInfo =
  ci_ID :: string
  ci_Port :: int

record Manager =
  clusters :: "(string, Cluster) gomap"

definition NewManager :: Manager where
  "NewManager = \<lparr>clusters = fmempty\<rparr>"

datatype cluster_error = ClusterExists string | ClusterListenFailed

definition start_cluster ::
    "(int \<Rightarrow> bool) \<Rightarrow> (string, TableSchema) gomap \<Rightarrow> string \<Rightarrow> int \<Rightarrow> Manager \<Rightarrow> (cluster_error + Cluster) \<times> Manager" where
  "start_cluster listen sch ident port m =
     (if get (clusters m) ident \<noteq> None then (Inl (ClusterExists ident), m)
      else
        (case Listen listen ident port (NewServer_db (NewStore_db sch)) of
           (False, _) \<Rightarrow> (Inl ClusterListenFailed, m)
         | (True, server) \<Rightarrow>
             let c = \<lparr>cl_ID = ident, cl_Port = port, cl_Server = server\<rparr> in
             (Inr c, m\<lparr>clusters := fmupd ident c (clusters m)\<rparr>)))"

definition CreateCluster ::
    "(int \<Rightarrow> bool) \<Rightarrow> string \<Rightarrow> int \<Rightarrow> Manager \<Rightarrow> (cluster_error + Cluster) \<times> Manager" where
  "CreateCluster listen ident port m = start_cluster listen OVNNBTables ident port m"

definition GetCluster :: "string \<Rightarrow> Manager \<Rightarrow> Cluster option" where
  "GetCluster ident m = get (clusters m) ident"

definition ListClusters :: "string list \<Rightarrow> Manager \<Rightarrow> ClusterInfo list" where
  "ListClusters ks m = map (\<lambda>c. \<lparr>ci_ID = cl_ID c, ci_Port = cl_Port c\<rparr>) (values_along (clusters m) ks)"

definition port_condition :: "string \<Rightarrow> json list" where
  "port_condition u = [JArr [JStr ''_uuid'', JStr ''=='', uuid_value u]]"

text \<open>One round of the loop of \<^verbatim>\<open>setPortState\<close>: whether the port is in this cluster, and what is sent.\<close>

definition server_port_state ::
    "draw \<Rightarrow> string \<Rightarrow> bool \<Rightarrow> Server_db \<Rightarrow> bool \<times> UpdateNotification list \<times> Server_db" where
  "server_port_state d portUUID up sv =
     (case GetRow ''Logical_Switch_Port'' portUUID (sv_store sv) of
        None \<Rightarrow> (False, [], sv)
      | Some oldRow \<Rightarrow>
          (case Update ''Logical_Switch_Port'' (port_condition portUUID) (fmap_of_list [(''up'', JBool up)]) (sv_store sv) of
             (Ret _, s') \<Rightarrow>
               (True,
                NotifyUpdate d ''Logical_Switch_Port'' portUUID (Some oldRow)
                  (GetRow ''Logical_Switch_Port'' portUUID s') (sv_monitors sv),
                sv\<lparr>sv_store := s'\<rparr>)
           | (_, s') \<Rightarrow> (True, [], sv\<lparr>sv_store := s'\<rparr>)))"

fun set_port_states ::
    "draw \<Rightarrow> string \<Rightarrow> bool \<Rightarrow> string list \<Rightarrow> (string, Cluster) gomap \<Rightarrow>
     bool \<times> UpdateNotification list \<times> (string, Cluster) gomap" where
  "set_port_states d portUUID up [] cs = (False, [], cs)"
| "set_port_states d portUUID up (k # ks) cs =
     (case get cs k of
        None \<Rightarrow> set_port_states d portUUID up ks cs
      | Some c \<Rightarrow>
          (case server_port_state d portUUID up (cl_Server c) of
             (found, notes, sv) \<Rightarrow>
               (case set_port_states d portUUID up ks (fmupd k (c\<lparr>cl_Server := sv\<rparr>) cs) of
                  (found', notes', cs') \<Rightarrow> (found \<or> found', notes @ notes', cs'))))"

definition setPortState ::
    "draw \<Rightarrow> string list \<Rightarrow> string \<Rightarrow> bool \<Rightarrow> Manager \<Rightarrow> bool \<times> UpdateNotification list \<times> Manager" where
  "setPortState d ks portUUID up m =
     (case set_port_states d portUUID up ks (clusters m) of
        (found, notes, cs) \<Rightarrow> (found, notes, m\<lparr>clusters := cs\<rparr>))"

definition SetPortUp :: "draw \<Rightarrow> string list \<Rightarrow> string \<Rightarrow> Manager \<Rightarrow> bool \<times> UpdateNotification list \<times> Manager" where
  "SetPortUp d ks portUUID m = setPortState d ks portUUID True m"

definition SetPortDown :: "draw \<Rightarrow> string list \<Rightarrow> string \<Rightarrow> Manager \<Rightarrow> bool \<times> UpdateNotification list \<times> Manager" where
  "SetPortDown d ks portUUID m = setPortState d ks portUUID False m"

record ManagerStats =
  cluster_count :: int
  cluster_stats :: "(string, (string, int) gomap) gomap"

definition Stats_ovn :: "Manager \<Rightarrow> ManagerStats" where
  "Stats_ovn m = \<lparr>cluster_count = map_len (clusters m),
     cluster_stats = fmmap (\<lambda>c. Stats_db (sv_store (cl_Server c))) (clusters m)\<rparr>"

text \<open>One availability zone per connected cluster; the \<open>i\<close>-th insert draws \<open>ids i\<close>.\<close>

fun insert_zones :: "(nat \<Rightarrow> string) \<Rightarrow> nat \<Rightarrow> string list \<Rightarrow> Store_db \<Rightarrow> Store_db" where
  "insert_zones ids i [] s = s"
| "insert_zones ids i (c # cs) s =
     insert_zones ids (Suc i) cs (snd (Insert (ids i) ''Availability_Zone'' (fmap_of_list [(''name'', JStr c)]) s))"

definition CreateICCluster ::
    "(int \<Rightarrow> bool) \<Rightarrow> (nat \<Rightarrow> string) \<Rightarrow> string \<Rightarrow> int \<Rightarrow> string list \<Rightarrow> Manager \<Rightarrow> (cluster_error + Cluster) \<times> Manager" where
  "CreateICCluster listen ids ident port connects m =
     (case start_cluster listen OVNICTables ident port m of
        (Inl e, m') \<Rightarrow> (Inl e, m')
      | (Inr c, m') \<Rightarrow>
          let sv = cl_Server c;
              c' = c\<lparr>cl_Server := sv\<lparr>sv_store := insert_zones ids 0 connects (sv_store sv)\<rparr>\<rparr>
          in (Inr c', m'\<lparr>clusters := fmupd ident c' (clusters m')\<rparr>))"

text \<open>Every cluster is stopped and forgotten.\<close>

definition reset_one :: "string \<Rightarrow> Cluster \<Rightarrow> (string, Cluster) gomap \<Rightarrow> (string, Cluster) gomap" where
  "reset_one ident c cs = fmdrop ident cs"

definition Reset_ovn :: "Manager \<Rightarrow> Manager" where
  "Reset_ovn m = m\<lparr>clusters := range_fold reset_one (clusters m) (clusters m)\<rparr>"

section \<open>Management interface\<close>

record createClusterRequest =
  cc_ClusterID :: string
  cc_OVSDBPort :: int

record createICConnectionRequest =
  ic_ICClusterID :: string
  ic_Port :: int
  ic_Connects :: "string list"

datatype message_ovn =
    InvalidBody_ovn
  | ClusterIDRequired
  | OVSDBPortRequired
  | PortUUIDRequired
  | PortNotFound string
  | ICClusterIDRequired
  | PortRequired_ovn
  | ClusterFailure cluster_error

datatype body_ovn =
    ErrorBody_ovn message_ovn
  | ClusterBody ClusterInfo
  | ClustersBody "ClusterInfo list"
  | PortBody string string
  | StatsBody_ovn ManagerStats
  | ResetBody

type_synonym response_ovn = "nat \<times> body_ovn"

definition writeJSON_ovn :: "nat \<Rightarrow> body_ovn \<Rightarrow> response_ovn" where
  "writeJSON_ovn st b = (st, b)"

definition writeError_ovn :: "nat \<Rightarrow> message_ovn \<Rightarrow> response_ovn" where
  "writeError_ovn st msg = writeJSON_ovn st (ErrorBody_ovn msg)"

definition createCluster :: "(int \<Rightarrow> bool) \<Rightarrow> createClusterRequest option \<Rightarrow> Manager \<Rightarrow> response_ovn \<times> Manager" where
  "createCluster listen body m =
     (case body of
        None \<Rightarrow> (writeError_ovn 400 InvalidBody_ovn, m)
      | Some req \<Rightarrow>
          if cc_ClusterID req = '''' then (writeError_ovn 400 ClusterIDRequired, m)
          else if cc_OVSDBPort req = 0 then (writeError_ovn 400 OVSDBPortRequired, m)
          else
            (case CreateCluster listen (cc_ClusterID req) (cc_OVSDBPort req) m of
               (Inl e, m') \<Rightarrow> (writeError_ovn 409 (ClusterFailure e), m')
             | (Inr c, m') \<Rightarrow> (writeJSON_ovn 201 (ClusterBody \<lparr>ci_ID = cl_ID c, ci_Port = cl_Port c\<rparr>), m')))"

definition listClusters :: "string list \<Rightarrow> Manager \<Rightarrow> response_ovn" where
  "listClusters ks m = writeJSON_ovn 200 (ClustersBody (ListClusters ks m))"

definition setPortUp ::
    "draw \<Rightarrow> string list \<Rightarrow> string \<Rightarrow> Manager \<Rightarrow> response_ovn \<times> UpdateNotification list \<times> Manager" where
  "setPortUp d ks u m =
     (if u = '''' then (writeError_ovn 400 PortUUIDRequired, [], m)
      else
        (case SetPortUp d ks u m of
           (False, notes, m') \<Rightarrow> (writeError_ovn 404 (PortNotFound u), notes, m')
         | (True, notes, m') \<Rightarrow> (writeJSON_ovn 200 (PortBody ''up'' u), notes, m')))"

definition setPortDown ::
    "draw \<Rightarrow> string list \<Rightarrow> string \<Rightarrow> Manager \<Rightarrow> response_ovn \<times> UpdateNotification list \<times> Manager" where
  "setPortDown d ks u m =
     (if u = '''' then (writeError_ovn 400 PortUUIDRequired, [], m)
      else
        (case SetPortDown d ks u m of
           (False, notes, m') \<Rightarrow> (writeError_ovn 404 (PortNotFound u), notes, m')
         | (True, notes, m') \<Rightarrow> (writeJSON_ovn 200 (PortBody ''down'' u), notes, m')))"

definition createICConnection ::
    "(int \<Rightarrow> bool) \<Rightarrow> (nat \<Rightarrow> string) \<Rightarrow> createICConnectionRequest option \<Rightarrow> Manager \<Rightarrow> response_ovn \<times> Manager" where
  "createICConnection listen ids body m =
     (case body of
        None \<Rightarrow> (writeError_ovn 400 InvalidBody_ovn, m)
      | Some req \<Rightarrow>
          if ic_ICClusterID req = '''' then (writeError_ovn 400 ICClusterIDRequired, m)
          else if ic_Port req = 0 then (writeError_ovn 400 PortRequired_ovn, m)
          else
            (case CreateICCluster listen ids (ic_ICClusterID req) (ic_Port req) (ic_Connects req) m of
               (Inl e, m') \<Rightarrow> (writeError_ovn 409 (ClusterFailure e), m')
             | (Inr c, m') \<Rightarrow> (writeJSON_ovn 201 (ClusterBody \<lparr>ci_ID = cl_ID c, ci_Port = cl_Port c\<rparr>), m')))"

definition getStats_ovn :: "Manager \<Rightarrow> response_ovn" where
  "getStats_ovn m = writeJSON_ovn 200 (StatsBody_ovn (Stats_ovn m))"

definition reset_ovn :: "Manager \<Rightarrow> response_ovn \<times> Manager" where
  "reset_ovn m = (writeJSON_ovn 200 ResetBody, Reset_ovn m)"

text \<open>Calls of the management interface, in the order of \<^verbatim>\<open>RegisterRoutes\<close>.\<close>

datatype route_ovn =
    CreateClusterCall "int \<Rightarrow> bool" "createClusterRequest option"
  | ListClustersCall "string list"
  | SetPortUpCall draw "string list" string
  | SetPortDownCall draw "string list" string
  | CreateICConnectionCall "int \<Rightarrow> bool" "nat \<Rightarrow> string" "createICConnectionRequest option"
  | GetStatsCall
  | ResetCall

fun RegisterRoutes_ovn :: "route_ovn \<Rightarrow> Manager \<Rightarrow> response_ovn \<times> UpdateNotification list \<times> Manager" where
  "RegisterRoutes_ovn (CreateClusterCall listen body) m = (case createCluster listen body m of (r, m') \<Rightarrow> (r, [], m'))"
| "RegisterRoutes_ovn (ListClustersCall ks) m = (listClusters ks m, [], m)"
| "RegisterRoutes_ovn (SetPortUpCall d ks u) m = setPortUp d ks u m"
| "RegisterRoutes_ovn (SetPortDownCall d ks u) m = setPortDown d ks u m"
| "RegisterRoutes_ovn (CreateICConnectionCall listen ids body) m =
     (case createICConnection listen ids body m of (r, m') \<Rightarrow> (r, [], m'))"
| "RegisterRoutes_ovn GetStatsCall m = (getStats_ovn m, [], m)"
| "RegisterRoutes_ovn ResetCall m = (case reset_ovn m of (r, m') \<Rightarrow> (r, [], m'))"

end
