(* ===== verification/OVSDB_Monitoring.thy ===== *)
theory OVSDB_Monitoring
  imports OVSDB_Theorems OVN_Clusters
begin

text \<open>
  What a client that monitors tables can rely on: from the rows it is given when it registers
  and the notifications it is sent, it can rebuild the tables it asked for, whatever the other
  clients and the management interface do.
\<close>

section \<open>One notification per change\<close>

definition draws :: "draw \<Rightarrow> bool" where
  "draws d \<longleftrightarrow> row_orders (d_rows d) \<and> (\<forall>i. d_ids d i \<noteq> '''') \<and> (\<forall>m. iteration_order m (d_tables d m)) \<and>
     (\<forall>m. iteration_order m (d_clients d m)) \<and> (\<forall>m. iteration_order m (d_regs d m))"

text \<open>Every client is notified on its own connection, and a registration knows its own number.\<close>

definition addressed :: "MonitorManager \<Rightarrow> bool" where
  "addressed mm \<longleftrightarrow> fmpred (\<lambda>key cm. cm_notifier cm = key) mm"

definition registered :: "string \<Rightarrow> string \<Rightarrow> (string, MonitorRequest) gomap \<Rightarrow> MonitorManager \<Rightarrow> bool" where
  "registered key mon requests mm \<longleftrightarrow>
     (\<exists>cm reg. get mm key = Some cm \<and> get (cm_regs cm) mon = Some reg \<and> reg_Tables reg = requests)"

definition mine :: "string \<Rightarrow> string \<Rightarrow> UpdateNotification \<Rightarrow> bool" where
  "mine key mon n \<longleftrightarrow> un_client n = key \<and> un_monitor n = mon"

lemma filter_concat_single:
  assumes "distinct xs" "x \<in> set xs" "\<And>y. y \<in> set xs \<Longrightarrow> y \<noteq> x \<Longrightarrow> filter P (f y) = []"
  shows "filter P (concat (map f xs)) = filter P (f x)"
proof -
  obtain us vs where xs: "xs = us @ x # vs" using assms(2) by (auto dest: split_list)
  have "filter P (concat (map f ys)) = []" if "set ys \<subseteq> set xs" "x \<notin> set ys" for ys
    using that assms(3) by (induction ys) auto
  from this [of us] this [of vs] show ?thesis using assms(1) by (simp add: xs subset_insertI2)
qed

lemma map_filter_concat: "List.map_filter f xs = concat (map (\<lambda>x. case f x of None \<Rightarrow> [] | Some y \<Rightarrow> [y]) xs)"
  by (induction xs) (auto split: option.split)

lemma client_updates_mine:
  assumes "iteration_order (cm_regs cm) (d_regs d (cm_regs cm))" "get (cm_regs cm) mon = Some reg"
    and "cm_notifier cm = key"
  shows "filter (mine key mon) (client_updates d tbl u old new cm) =
     (case reg_update key tbl u old new mon reg of None \<Rightarrow> [] | Some n \<Rightarrow> [n])"
proof -
  let ?f = "\<lambda>m. case get (cm_regs cm) m of None \<Rightarrow> None | Some reg \<Rightarrow> reg_update (cm_notifier cm) tbl u old new m reg"
  let ?g = "\<lambda>m. case ?f m of None \<Rightarrow> [] | Some n \<Rightarrow> [n]"
  have other: "filter (mine key mon) (?g m) = []" if "m \<noteq> mon" for m
    using that by (auto simp: reg_update_def mine_def split: option.split)
  have "distinct (d_regs d (cm_regs cm))" "mon \<in> set (d_regs d (cm_regs cm))"
    using assms(1,2) by (auto simp: iteration_order_def fmdom'I)
  then have "filter (mine key mon) (concat (map ?g (d_regs d (cm_regs cm)))) = filter (mine key mon) (?g mon)"
    by (rule filter_concat_single) (rule other)
  then show ?thesis
    using assms(2,3) by (auto simp: client_updates_def map_filter_concat reg_update_def mine_def split: option.split)
qed

lemma client_updates_others:
  "cm_notifier cm \<noteq> key \<Longrightarrow> filter (mine key mon) (client_updates d tbl u old new cm) = []"
  by (auto simp: client_updates_def List.map_filter_def reg_update_def mine_def filter_empty_conv split: option.splits)

lemma concat_values_along:
  "concat (map f (values_along m ks)) = concat (map (\<lambda>k. case get m k of None \<Rightarrow> [] | Some v \<Rightarrow> f v) ks)"
  unfolding values_along_def by (induction ks) (auto split: option.split)

lemma notify_mine:
  assumes "draws d" "addressed mm" "registered key mon requests mm"
  shows "filter (mine key mon) (notify d tbl u old new mm) =
     (case get requests tbl of
        None \<Rightarrow> []
      | Some req \<Rightarrow> [\<lparr>un_client = key, un_monitor = mon, un_table = tbl, un_uuid = u,
          un_Old = map_option (\<lambda>row. filterColumns row (mr_Columns req)) old,
          un_New = map_option (\<lambda>row. filterColumns row (mr_Columns req)) new\<rparr>])"
proof -
  obtain cm reg where cm: "get mm key = Some cm" "get (cm_regs cm) mon = Some reg" "reg_Tables reg = requests"
    using assms(3) by (auto simp: registered_def)
  let ?g = "\<lambda>k. case get mm k of None \<Rightarrow> [] | Some c \<Rightarrow> client_updates d tbl u old new c"
  have owner: "cm_notifier c = k" if "get mm k = Some c" for k c
    using assms(2) that by (auto simp: addressed_def fmpred_iff)
  have ord: "distinct (d_clients d mm)" "key \<in> set (d_clients d mm)"
    using assms(1) cm(1) by (auto simp: draws_def iteration_order_def fmdom'I)
  have "notify d tbl u old new mm = concat (map ?g (d_clients d mm))"
    by (simp add: notify_def concat_values_along)
  then have "filter (mine key mon) (notify d tbl u old new mm) = filter (mine key mon) (?g key)"
    using filter_concat_single [OF ord, of "mine key mon" ?g] client_updates_others owner
    by (auto split: option.split)
  also have "\<dots> = (case reg_update key tbl u old new mon reg of None \<Rightarrow> [] | Some n \<Rightarrow> [n])"
    using client_updates_mine [of cm d mon reg key] assms(1) cm owner by (simp add: draws_def)
  finally show ?thesis using cm(3) by (auto simp: reg_update_def split: option.split)
qed

section \<open>The mirror of a client\<close>

text \<open>What a registration shows of the tables, and how its client takes a notification in.\<close>

definition shown :: "(string, MonitorRequest) gomap \<Rightarrow> view \<Rightarrow> view" where
  "shown requests v = (\<lambda>(tbl, u). case get requests tbl of
     None \<Rightarrow> None | Some req \<Rightarrow> map_option (\<lambda>row. filterColumns row (mr_Columns req)) (v (tbl, u)))"

definition take_note :: "UpdateNotification \<Rightarrow> view \<Rightarrow> view" where
  "take_note n v = v((un_table n, un_uuid n) := un_New n)"

definition dump_view :: "dump \<Rightarrow> view" where
  "dump_view dmp = (\<lambda>(tbl, u). case get dmp tbl of None \<Rightarrow> None | Some rows \<Rightarrow> get rows u)"

definition mirror :: "string \<Rightarrow> string \<Rightarrow> UpdateNotification list \<Rightarrow> view \<Rightarrow> view" where
  "mirror key mon notes v = fold take_note (filter (mine key mon) notes) v"

lemma mirror_append: "mirror key mon (xs @ ys) v = mirror key mon ys (mirror key mon xs v)"
  by (simp add: mirror_def)

lemma mirror_change:
  assumes "draws d" "addressed mm" "registered key mon requests mm" "proper ch"
  shows "mirror key mon (notify_change d mm ch) (shown requests v) = shown requests (take_in ch v)"
proof -
  have "filter (mine key mon) (notify_change d mm ch) =
      (case get requests (ch_Table ch) of None \<Rightarrow> []
       | Some req \<Rightarrow> [\<lparr>un_client = key, un_monitor = mon, un_table = ch_Table ch, un_uuid = ch_UUID ch,
           un_Old = (if ch_Type ch = ''insert'' then None
             else Some (filterColumns (row_or_empty (ch_OldRow ch)) (mr_Columns req))),
           un_New = map_option (\<lambda>row. filterColumns row (mr_Columns req)) (ch_NewRow ch)\<rparr>])"
    using assms(4) notify_mine [OF assms(1-3)]
    by (auto simp: notify_change_def proper_def NotifyInsert_def NotifyUpdate_def NotifyDelete_def
        row_or_empty_def split: if_splits option.split)
  then show ?thesis
    by (auto simp: mirror_def shown_def take_note_def take_in_def fun_eq_iff split: option.split)
qed

lemma mirror_changes:
  assumes "draws d" "addressed mm" "registered key mon requests mm"
  shows "list_all proper chs \<Longrightarrow>
    mirror key mon (concat (map (notify_change d mm) chs)) (shown requests v) = shown requests (fold take_in chs v)"
proof (induction chs arbitrary: v)
  case Nil
  then show ?case by (simp add: mirror_def)
next
  case (Cons ch chs)
  then show ?case using mirror_change [OF assms] by (simp add: mirror_append)
qed

lemma map_len_positive: "0 < map_len m \<longleftrightarrow> (\<exists>k. get m k \<noteq> None)"
  by (auto simp: map_len_def card_gt_0_iff fmlookup_dom'_iff dest: fmdom'I)

lemma build_dump_view:
  assumes "build_dump s requests ks acc = Ret dmp" "distinct ks" "\<forall>k\<in>set ks. get acc k = None"
  shows "dump_view dmp (tbl, u) =
    (if tbl \<in> set ks then shown requests (view_of s) (tbl, u) else dump_view acc (tbl, u))"
  using assms
proof (induction ks arbitrary: acc)
  case (Cons k ks)
  show ?case
  proof (cases "get requests k")
    case None
    then show ?thesis using Cons by (auto simp: dump_view_def shown_def)
  next
    case (Some req)
    then obtain t where t: "get (tables s) k = Some t"
      using Cons.prems(1) by (auto simp: AllRows_def split: option.splits)
    let ?up = "fmmap (\<lambda>row. filterColumns row (mr_Columns req)) (Rows t)"
    let ?acc = "if map_len ?up > 0 then fmupd k ?up acc else acc"
    have rest: "build_dump s requests ks ?acc = Ret dmp"
      using Cons.prems(1) Some t by (simp add: AllRows_def Let_def)
    have "\<forall>x\<in>set ks. get ?acc x = None" using Cons.prems(2,3) by auto
    note IH = Cons.IH [OF rest _ this]
    have here: "dump_view ?acc (k, u) = map_option (\<lambda>row. filterColumns row (mr_Columns req)) (get (Rows t) u)"
      using Cons.prems(3) map_len_positive [of ?up] by (cases "get (Rows t) u") (auto simp: dump_view_def)
    show ?thesis
      using IH here Cons.prems(2) Some t by (auto simp: shown_def view_of_def GetRow_def dump_view_def)
  qed
qed simp

section \<open>Servers\<close>

definition healthy :: "Server_db \<Rightarrow> bool" where
  "healthy sv \<longleftrightarrow> keyed (sv_store sv) \<and> addressed (sv_monitors sv)"

text \<open>
  What happens to a server: a client comes or goes, sends a request, or the management interface
  changes the state of a port.
\<close>

datatype server_event =
    Comes
  | Goes string
  | Asks draw string Request_db
  | PortTurns draw string bool

fun serve_event :: "decoders \<Rightarrow> server_event \<Rightarrow> Server_db \<Rightarrow> UpdateNotification list ret \<times> Server_db" where
  "serve_event dec Comes sv = (Ret [], snd (connect sv))"
| "serve_event dec (Goes key) sv = (Ret [], disconnect key sv)"
| "serve_event dec (Asks d key req) sv =
     (case handleRequest dec d key req sv of
        (Ret (_, notes), sv') \<Rightarrow> (Ret notes, sv') | (Err e, sv') \<Rightarrow> (Err e, sv') | (Panic, sv') \<Rightarrow> (Panic, sv'))"
| "serve_event dec (PortTurns d u up) sv = (case server_port_state d u up sv of (_, notes, sv') \<Rightarrow> (Ret notes, sv'))"

fun serve_events :: "decoders \<Rightarrow> server_event list \<Rightarrow> Server_db \<Rightarrow> UpdateNotification list ret \<times> Server_db" where
  "serve_events dec [] sv = (Ret [], sv)"
| "serve_events dec (ev # evs) sv =
     (case serve_event dec ev sv of
        (Ret notes, sv') \<Rightarrow>
          (case serve_events dec evs sv' of
             (Ret rest, sv'') \<Rightarrow> (Ret (notes @ rest), sv'') | (Err e, sv'') \<Rightarrow> (Err e, sv'') | (Panic, sv'') \<Rightarrow> (Panic, sv''))
      | (Err e, sv') \<Rightarrow> (Err e, sv')
      | (Panic, sv') \<Rightarrow> (Panic, sv'))"

text \<open>
  Events that leave a given monitor alone and do not write the reserved column: its client
  neither leaves, nor registers the same monitor again, nor cancels it.
\<close>

definition leaves_alone :: "decoders \<Rightarrow> string \<Rightarrow> string \<Rightarrow> string \<Rightarrow> Request_db \<Rightarrow> bool" where
  "leaves_alone dec key mon who req \<longleftrightarrow>
     (rq_Method req = ''transact'' \<longrightarrow>
        (case ParseTransactParams (dec_op dec) (rq_Params req) of Inl _ \<Rightarrow> True | Inr (_, opers) \<Rightarrow> list_all polite opers)) \<and>
     (rq_Method req = ''monitor'' \<and> who = key \<longrightarrow>
        (case ParseMonitorParams (dec_monitor dec) (rq_Params req) of Inl _ \<Rightarrow> True | Inr (_, mon', _) \<Rightarrow> mon' \<noteq> mon)) \<and>
     (rq_Method req = ''monitor_cancel'' \<and> who = key \<longrightarrow>
        (case as_strings (rq_Params req) of Some (mon' # _) \<Rightarrow> mon' \<noteq> mon | _ \<Rightarrow> True))"

fun undisturbing :: "decoders \<Rightarrow> string \<Rightarrow> string \<Rightarrow> server_event \<Rightarrow> bool" where
  "undisturbing dec key mon Comes = True"
| "undisturbing dec key mon (Goes who) = (who \<noteq> key)"
| "undisturbing dec key mon (Asks d who req) = (draws d \<and> leaves_alone dec key mon who req)"
| "undisturbing dec key mon (PortTurns d u up) = draws d"

definition follows :: "string \<Rightarrow> string \<Rightarrow> (string, MonitorRequest) gomap \<Rightarrow> Server_db \<Rightarrow> UpdateNotification list \<Rightarrow> Server_db \<Rightarrow> bool" where
  "follows key mon requests sv notes sv' \<longleftrightarrow> healthy sv' \<and> registered key mon requests (sv_monitors sv') \<and>
     mirror key mon notes (shown requests (view_of (sv_store sv))) = shown requests (view_of (sv_store sv'))"

lemma follows_still:
  assumes "healthy sv" "registered key mon requests (sv_monitors sv)"
    and "sv_store sv' = sv_store sv" "addressed (sv_monitors sv')" "registered key mon requests (sv_monitors sv')"
  shows "follows key mon requests sv [] sv'"
  using assms by (simp add: follows_def healthy_def mirror_def)

lemma Register_effect:
  assumes "Register_db d who who mon' reqs s mm = (r, mm')" "addressed mm"
  shows "addressed mm'" "registered key mon requests mm \<Longrightarrow> who = key \<longrightarrow> mon' \<noteq> mon \<Longrightarrow> registered key mon requests mm'"
    "registered who mon' reqs mm'"
  using assms by (auto simp: Register_db_def Let_def addressed_def registered_def fmpred_iff split: option.splits if_splits)

lemma Cancel_effect:
  assumes "Cancel who mon' mm = (r, mm')" "addressed mm"
  shows "addressed mm'" "registered key mon requests mm \<Longrightarrow> who = key \<longrightarrow> mon' \<noteq> mon \<Longrightarrow> registered key mon requests mm'"
proof -
  show "addressed mm'"
    using assms by (auto simp: Cancel_def Let_def addressed_def fmpred_iff split: option.splits if_splits)
  assume reg: "registered key mon requests mm" "who = key \<longrightarrow> mon' \<noteq> mon"
  then obtain cm reg where cm: "get mm key = Some cm" "get (cm_regs cm) mon = Some reg" "reg_Tables reg = requests"
    by (auto simp: registered_def)
  have "map_len (fmdrop mon' (cm_regs cm)) \<noteq> 0" if "who = key"
  proof -
    have "get (fmdrop mon' (cm_regs cm)) mon \<noteq> None" using cm(2) reg(2) that by simp
    then have "0 < map_len (fmdrop mon' (cm_regs cm))" using map_len_positive by blast
    then show ?thesis by simp
  qed
  then show "registered key mon requests mm'"
    using assms(1) cm reg(2) by (auto simp: Cancel_def Let_def registered_def split: option.splits if_splits)
qed

lemma Transact_no_error: "fst (Transact order ids opers s) \<noteq> Err e"
  by (simp add: Transact_def Let_def split: prod.splits txn_end.splits)

lemma transact_follows:
  assumes sv: "healthy sv" "registered key mon requests (sv_monitors sv)" and d: "draws d"
    and polite: "case ParseTransactParams decode_op (rq_Params req) of Inl _ \<Rightarrow> True | Inr (_, opers) \<Rightarrow> list_all polite opers"
    and out: "handleTransact decode_op d req sv = (Ret (resp, notes), sv')"
  shows "follows key mon requests sv notes sv'"
proof -
  have still: "follows key mon requests sv [] sv" using sv by (simp add: follows_def mirror_def)
  show ?thesis
  proof (cases "ParseTransactParams decode_op (rq_Params req)")
    case (Inl e)
    then show ?thesis using out still by (simp add: handleTransact_def)
  next
    case (Inr p)
    obtain db opers where p: "p = (db, opers)" by (cases p)
    show ?thesis
    proof (cases "db = ''OVN_Northbound''")
      case False
      then show ?thesis using out still Inr p by (simp add: handleTransact_def)
    next
      case True
      let ?txn = "Transact (d_rows d) (d_ids d) opers (sv_store sv)"
      obtain rs cs where txn: "?txn = (Ret (rs, cs), sv_store sv')"
        and rest: "notes = concat (map (notify_change d (sv_monitors sv)) cs)" "sv_monitors sv' = sv_monitors sv"
        using out Inr p True Transact_no_error [of "d_rows d" "d_ids d" opers "sv_store sv"]
        by (cases ?txn; cases "fst ?txn") (auto simp: handleTransact_def)
      have "in_step (sv_store sv) cs (sv_store sv')"
        using Transact_in_step [OF _ _ _ _ txn] sv(1) d polite Inr p by (simp add: healthy_def draws_def)
      then show ?thesis
        using mirror_changes [OF d _ sv(2), of cs "view_of (sv_store sv)"] sv rest
        by (simp add: follows_def healthy_def in_step_def)
    qed
  qed
qed

lemma port_condition_matches: "own_uuid k row \<Longrightarrow> matchWhere row (port_condition u) \<longleftrightarrow> k = u"
  by (auto simp: matchWhere_def port_condition_def matches_def own_uuid_def string_or_empty_def uuid_value_def
      evalCondition_def normalizeForCompare_def compareValues_def toFloat64_def Let_def)

lemma port_loop:
  assumes "healthy sv" "get (tables (sv_store sv)) tbl = Some t" "get (Rows t) u = Some row"
  shows "get (fst (range_fold (on_match (port_condition u) (update_row vals)) (Rows t) (Rows t, 0))) k =
    (if k = u then Some (row ++\<^sub>f vals) else get (Rows t) k)"
proof -
  have own: "own_uuid k r" if "get (Rows t) k = Some r" for k r
    using keyed_rows [OF _ assms(2) that] assms(1) by (simp add: healthy_def)
  have "k \<in> matching (port_condition u) (Rows t) \<longleftrightarrow> k = u" for k
    using assms(3) own [of k] port_condition_matches [of k _ u] by (auto simp: matching_def)
  then show ?thesis
    using update_rows.whole_loop(1) [of "port_condition u" vals "Rows t" k] assms(3) by simp
qed

lemma port_follows:
  assumes sv: "healthy sv" "registered key mon requests (sv_monitors sv)" and d: "draws d"
    and out: "server_port_state d u up sv = (found, notes, sv')"
  shows "follows key mon requests sv notes sv'"
proof (cases "GetRow ''Logical_Switch_Port'' u (sv_store sv)")
  case None
  then show ?thesis using sv out by (simp add: server_port_state_def follows_def mirror_def)
next
  case (Some row)
  let ?tbl = "''Logical_Switch_Port''" let ?vals = "fmap_of_list [(''up'', JBool up)]"
  obtain t where t: "get (tables (sv_store sv)) ?tbl = Some t" and row: "get (Rows t) u = Some row"
    using Some by (auto simp: GetRow_def split: option.splits)
  have own: "own_uuid k r" if "get (Rows t) k = Some r" for k r
    using keyed_rows [OF _ t that] sv(1) by (simp add: healthy_def)
  let ?new = "fst (range_fold (on_match (port_condition u) (update_row ?vals)) (Rows t) (Rows t, 0))"
  have new: "get ?new k = (if k = u then Some (row ++\<^sub>f ?vals) else get (Rows t) k)" for k
    using port_loop [OF sv(1) t row] .
  let ?ch = "\<lparr>ch_Table = ?tbl, ch_UUID = u, ch_Type = ''update'', ch_OldRow = Some row, ch_NewRow = get ?new u\<rparr>"
  have sv': "sv' = sv\<lparr>sv_store := with_rows ?tbl ?new (sv_store sv)\<rparr>"
    and sent: "notes = notify_change d (sv_monitors sv) ?ch"
    using out Some t by (auto simp: server_port_state_def Update_def notify_change_def split: prod.splits)
  have "in_step (sv_store sv) [?ch] (with_rows ?tbl ?new (sv_store sv))"
    using sv(1) new own row
    by (intro table_in_step [OF _ t]) (auto simp: healthy_def proper_def own_uuid_def split: if_splits)
  then show ?thesis
    using mirror_changes [OF d _ sv(2), of "[?ch]" "view_of (sv_store sv)"] sv
    by (simp add: follows_def healthy_def in_step_def sv' sent)
qed

lemma request_follows:
  assumes sv: "healthy sv" "registered key mon requests (sv_monitors sv)" and d: "draws d"
    and alone: "leaves_alone dec key mon who req"
    and out: "handleRequest dec d who req sv = (Ret (resp, notes), sv')"
  shows "follows key mon requests sv notes sv'"
proof -
  have adr: "addressed (sv_monitors sv)" using sv(1) by (simp add: healthy_def)
  have monitor: "follows key mon requests sv notes sv'"
    if m: "rq_Method req = ''monitor''" "handleMonitor (dec_monitor dec) d who req sv = (Ret (resp, notes), sv')"
  proof (cases "ParseMonitorParams (dec_monitor dec) (rq_Params req)")
    case (Inr p)
    obtain db mon' reqs where p: "p = (db, mon', reqs)" by (cases p)
    obtain r mm where reg: "Register_db d who who mon' reqs (sv_store sv) (sv_monitors sv) = (r, mm)"
      by (rule prod.exhaust)
    have "notes = [] \<and> sv_store sv' = sv_store sv \<and> (sv_monitors sv' = mm \<or> sv_monitors sv' = sv_monitors sv)"
      using m(2) Inr p reg by (auto simp: handleMonitor_def split: if_splits ret.splits)
    then show ?thesis
      using follows_still [OF sv] Register_effect [OF reg adr] sv(2) adr alone m(1) Inr p
      by (auto simp: leaves_alone_def)
  qed (use m sv follows_still adr in \<open>simp add: handleMonitor_def\<close>)
  have cancel: "follows key mon requests sv notes sv'"
    if m: "rq_Method req = ''monitor_cancel''" "handleMonitorCancel who req sv = (Ret (resp, notes), sv')"
  proof (cases "\<exists>mon' ms. as_strings (rq_Params req) = Some (mon' # ms)")
    case True
    then obtain mon' ms where ps: "as_strings (rq_Params req) = Some (mon' # ms)" by blast
    obtain r mm where c: "Cancel who mon' (sv_monitors sv) = (r, mm)" by (rule prod.exhaust)
    have "notes = [] \<and> sv_store sv' = sv_store sv \<and> sv_monitors sv' = mm"
      using m(2) ps c by (auto simp: handleMonitorCancel_def split: sum.splits)
    then show ?thesis
      using follows_still [OF sv] Cancel_effect [OF c adr] sv(2) alone m(1) ps by (auto simp: leaves_alone_def)
  next
    case False
    then show ?thesis
      using m(2) sv follows_still adr
      by (auto simp: handleMonitorCancel_def split: option.splits list.splits)
  qed
  show ?thesis
    using out alone transact_follows [OF sv d] monitor cancel follows_still [OF sv] adr sv(2)
    by (auto simp: handleRequest_def Let_def leaves_alone_def split: if_splits)
qed

lemma serve_follows:
  assumes sv: "healthy sv" "registered key mon requests (sv_monitors sv)"
    and "undisturbing dec key mon ev" "serve_event dec ev sv = (Ret notes, sv')"
  shows "follows key mon requests sv notes sv'"
proof (cases ev)
  case Comes
  then show ?thesis using assms(4) sv by (auto simp: connect_def Let_def healthy_def intro!: follows_still)
next
  case (Goes who)
  then show ?thesis
    using assms(3,4) sv
    by (auto simp: disconnect_def RemoveClient_def healthy_def addressed_def registered_def intro!: follows_still)
next
  case (Asks d who req)
  then show ?thesis
    using assms(3,4) request_follows [OF sv] by (auto split: prod.splits ret.splits)
next
  case (PortTurns d u up)
  then show ?thesis
    using assms(3,4) port_follows [OF sv] by (auto split: prod.splits)
qed

lemma serve_events_follow:
  "healthy sv \<Longrightarrow> registered key mon requests (sv_monitors sv) \<Longrightarrow> list_all (undisturbing dec key mon) evs \<Longrightarrow>
     serve_events dec evs sv = (Ret ns, sv') \<Longrightarrow> follows key mon requests sv ns sv'"
proof (induction evs arbitrary: sv ns)
  case Nil
  then show ?case by (simp add: follows_def mirror_def)
next
  case (Cons ev evs)
  obtain n1 sv1 n2 where one: "serve_event dec ev sv = (Ret n1, sv1)" and two: "serve_events dec evs sv1 = (Ret n2, sv')"
    and n: "ns = n1 @ n2"
    using Cons.prems(4) by (auto split: prod.splits ret.splits)
  have "follows key mon requests sv n1 sv1"
    using serve_follows [OF Cons.prems(1,2) _ one] Cons.prems(3) by simp
  moreover from this have "follows key mon requests sv1 n2 sv'"
    using Cons.IH [OF _ _ _ two] Cons.prems(3) by (simp add: follows_def)
  ultimately show ?case by (simp add: follows_def n mirror_append)
qed

lemma Register_dump:
  assumes "Register_db d key key mon requests s mm = (Ret dmp, mm')" "draws d"
  shows "dump_view dmp = shown requests (view_of s)"
proof
  fix p :: "string \<times> string"
  obtain tbl u where p: "p = (tbl, u)" by (cases p)
  have ord: "distinct (d_tables d requests)" "set (d_tables d requests) = fmdom' requests"
    using assms(2) by (simp_all add: draws_def iteration_order_def)
  have "build_dump s requests (d_tables d requests) fmempty = Ret dmp"
    using assms(1) by (simp add: Register_db_def Let_def)
  from build_dump_view [OF this ord(1), of tbl u] show "dump_view dmp p = shown requests (view_of s) p"
    by (auto simp: p ord(2) dump_view_def shown_def fmlookup_dom'_iff split: option.split)
qed


definition plain_draw :: draw where
  "plain_draw = \<lparr>d_rows = keys_in_order, d_tables = keys_in_order, d_clients = keys_in_order,
     d_regs = keys_in_order, d_ids = (\<lambda>i. ''u'')\<rparr>"

lemma draws_plain: "draws plain_draw"
  by (simp add: draws_def plain_draw_def iteration_order_keys_in_order)

lemma healthy_new: "healthy (NewServer_db (NewStore_db sch))"
  by (simp add: healthy_def NewServer_db_def NewMonitorManager_def addressed_def)

definition some_decoders :: decoders where
  "some_decoders = \<lparr>dec_op = (\<lambda>_. Some (ins ''Logical_Switch'' [] '''')), dec_monitor = (\<lambda>_. (True, \<lparr>mr_Columns = []\<rparr>))\<rparr>"

definition watch_switches :: Request_db where
  "watch_switches = \<lparr>rq_Method = ''monitor'',
     rq_Params = Some (JArr [JStr ''OVN_Northbound'', JStr ''m'', JObj (fmupd ''Logical_Switch'' JNull fmempty)]),
     rq_ID = None\<rparr>"

definition add_switch :: Request_db where
  "add_switch = \<lparr>rq_Method = ''transact'', rq_Params = Some (JArr [JStr ''OVN_Northbound'', JNull]), rq_ID = None\<rparr>"

lemma watch_params:
  "ParseMonitorParams (dec_monitor some_decoders) (rq_Params watch_switches) =
     Inr (''OVN_Northbound'', ''m'', fmupd ''Logical_Switch'' \<lparr>mr_Columns = []\<rparr> fmempty)"
  by (auto simp: ParseMonitorParams_def watch_switches_def as_array_def as_string_def as_object_def
      monitor_request_def some_decoders_def intro: fmap_ext)


section \<open>Ports and registrations\<close>

text \<open>A monitor request that names a table the database does not have is answered with an error, and the
  monitor is registered all the same: the client will be notified of the other tables it named.\<close>

theorem failed_registration_stays:
  assumes "draws d" "ParseMonitorParams decode_monitor (rq_Params req) = Inr (''OVN_Northbound'', mon, requests)"
    and "get requests tbl \<noteq> None" "get (tables (sv_store sv)) tbl = None"
  shows "\<exists>e sv'. handleMonitor decode_monitor d key req sv =
       (Ret ((ErrorReply ''monitor failed'' (StoreDetails e), rq_ID req), []), sv') \<and>
     registered key mon requests (sv_monitors sv')"
proof -
  have "\<exists>e. build_dump (sv_store sv) requests ks acc = Err e" if "tbl \<in> set ks" for ks acc
    using that assms(3,4)
  proof (induction ks arbitrary: acc)
    case (Cons k ks)
    then show ?case
      by (cases "k = tbl") (auto simp: AllRows_def Let_def split: option.split)
  qed simp
  moreover have "tbl \<in> set (d_tables d requests)"
    using assms(1,3) by (auto simp: draws_def iteration_order_def fmdom'I)
  ultimately obtain e where "build_dump (sv_store sv) requests (d_tables d requests) fmempty = Err e" by blast
  then show ?thesis
    using assms(2) by (auto simp: handleMonitor_def Register_db_def Let_def registered_def)
qed

theorem failed_registration_stays_witness:
  "\<exists>e sv'. handleMonitor (dec_monitor some_decoders) plain_draw ''a'' watch_switches (NewServer_db (NewStore_db OVNICTables)) =
       (Ret ((ErrorReply ''monitor failed'' (StoreDetails e), None), []), sv') \<and>
     registered ''a'' ''m'' (fmupd ''Logical_Switch'' \<lparr>mr_Columns = []\<rparr> fmempty) (sv_monitors sv')"
proof -
  show ?thesis
    using failed_registration_stays [OF draws_plain watch_params, of "''Logical_Switch''" "NewServer_db (NewStore_db OVNICTables)" "''a''"]
    by (simp add: NewServer_db_def NewStore_db_def OVNICTables_def fmlookup_of_list watch_switches_def)
qed

text \<open>The state of a port, cluster by cluster.\<close>

definition port_set :: "string \<Rightarrow> bool \<Rightarrow> view \<Rightarrow> view" where
  "port_set u up v = (\<lambda>(tbl, w). if tbl = ''Logical_Switch_Port'' \<and> w = u
     then map_option (fmupd ''up'' (JBool up)) (v (tbl, w)) else v (tbl, w))"

lemma port_state_exact:
  assumes "healthy sv" "server_port_state d u up sv = (found, sent, sv')"
  shows "found \<longleftrightarrow> GetRow ''Logical_Switch_Port'' u (sv_store sv) \<noteq> None"
    "view_of (sv_store sv') = port_set u up (view_of (sv_store sv))"
    "sv_monitors sv' = sv_monitors sv"
proof -
  let ?tbl = "''Logical_Switch_Port''" let ?vals = "fmap_of_list [(''up'', JBool up)]"
  have "(found \<longleftrightarrow> GetRow ?tbl u (sv_store sv) \<noteq> None) \<and>
    view_of (sv_store sv') = port_set u up (view_of (sv_store sv)) \<and> sv_monitors sv' = sv_monitors sv"
  proof (cases "GetRow ?tbl u (sv_store sv)")
    case None
    then show ?thesis using assms(2) by (auto simp: server_port_state_def port_set_def view_of_def)
  next
    case (Some row)
    obtain t where t: "get (tables (sv_store sv)) ?tbl = Some t" and row: "get (Rows t) u = Some row"
      using Some by (auto simp: GetRow_def split: option.splits)
    have new: "get (fst (range_fold (on_match (port_condition u) (update_row ?vals)) (Rows t) (Rows t, 0))) k =
        (if k = u then Some (row ++\<^sub>f ?vals) else get (Rows t) k)" for k
      using port_loop [OF assms(1) t row] .
    have "row ++\<^sub>f ?vals = fmupd ''up'' (JBool up) row" by (rule fmap_ext) simp
    moreover have "GetRow ?tbl k (sv_store sv) = get (Rows t) k" for k using t by (simp add: GetRow_def)
    ultimately show ?thesis
      using assms(2) Some t new
      by (auto simp: server_port_state_def Update_def port_set_def view_of_def fun_eq_iff split: prod.splits)
  qed
  then show "found \<longleftrightarrow> GetRow ''Logical_Switch_Port'' u (sv_store sv) \<noteq> None"
    "view_of (sv_store sv') = port_set u up (view_of (sv_store sv))"
    "sv_monitors sv' = sv_monitors sv" by simp_all
qed

lemma set_port_states_exact:
  assumes "set_port_states d u up ks cs = (found, sent, cs')" "distinct ks"
    and "\<forall>k\<in>set ks. \<forall>c. get cs k = Some c \<longrightarrow> healthy (cl_Server c)"
  shows "(found \<longleftrightarrow> (\<exists>k\<in>set ks. \<exists>c. get cs k = Some c \<and>
           GetRow ''Logical_Switch_Port'' u (sv_store (cl_Server c)) \<noteq> None)) \<and>
    (\<forall>k c. get cs k = Some c \<longrightarrow> (\<exists>c'. get cs' k = Some c' \<and>
       view_of (sv_store (cl_Server c')) =
         (if k \<in> set ks then port_set u up else id) (view_of (sv_store (cl_Server c)))))"
  using assms
proof (induction ks arbitrary: cs found sent)
  case Nil
  then show ?case by simp
next
  case (Cons k ks)
  show ?case
  proof (cases "get cs k")
    case None
    then have rest: "set_port_states d u up ks cs = (found, sent, cs')" using Cons.prems(1) by simp
    have IH: "(found \<longleftrightarrow> (\<exists>k\<in>set ks. \<exists>c. get cs k = Some c \<and>
           GetRow ''Logical_Switch_Port'' u (sv_store (cl_Server c)) \<noteq> None)) \<and>
        (\<forall>k c. get cs k = Some c \<longrightarrow> (\<exists>c'. get cs' k = Some c' \<and> view_of (sv_store (cl_Server c')) =
         (if k \<in> set ks then port_set u up else id) (view_of (sv_store (cl_Server c)))))"
      using Cons.prems(2,3) by (intro Cons.IH [OF rest]) auto
    moreover have "k' \<in> set (k # ks) \<longleftrightarrow> k' \<in> set ks" if "get cs k' = Some c0" for k' c0
      using that None by auto
    ultimately show ?thesis using None by auto
  next
    case (Some c)
    obtain f1 n1 sv1 where one: "server_port_state d u up (cl_Server c) = (f1, n1, sv1)" by (rule prod_cases3)
    let ?cs = "fmupd k (c\<lparr>cl_Server := sv1\<rparr>) cs"
    obtain f2 n2 where two: "set_port_states d u up ks ?cs = (f2, n2, cs')" and f: "found = (f1 \<or> f2)"
      using Cons.prems(1) Some one by (auto split: prod.splits)
    have same: "get ?cs k' = get cs k'" if "k' \<in> set ks" for k' using that Cons.prems(2) by auto
    then have IH: "(f2 \<longleftrightarrow> (\<exists>k\<in>set ks. \<exists>c. get ?cs k = Some c \<and>
           GetRow ''Logical_Switch_Port'' u (sv_store (cl_Server c)) \<noteq> None)) \<and>
        (\<forall>k c. get ?cs k = Some c \<longrightarrow> (\<exists>c'. get cs' k = Some c' \<and> view_of (sv_store (cl_Server c')) =
         (if k \<in> set ks then port_set u up else id) (view_of (sv_store (cl_Server c)))))"
      using Cons.prems(2,3) by (intro Cons.IH [OF two]) auto
    have c: "f1 \<longleftrightarrow> GetRow ''Logical_Switch_Port'' u (sv_store (cl_Server c)) \<noteq> None"
      "view_of (sv_store sv1) = port_set u up (view_of (sv_store (cl_Server c)))"
      using port_state_exact [OF _ one] Cons.prems(3) Some by simp_all
    have "found \<longleftrightarrow> (\<exists>k\<in>set (k # ks). \<exists>c. get cs k = Some c \<and>
           GetRow ''Logical_Switch_Port'' u (sv_store (cl_Server c)) \<noteq> None)"
      using IH same c(1) Some f by auto
    moreover have "\<exists>c'. get cs' k' = Some c' \<and> view_of (sv_store (cl_Server c')) =
        (if k' \<in> set (k # ks) then port_set u up else id) (view_of (sv_store (cl_Server c0)))"
      if "get cs k' = Some c0" for k' c0
    proof (cases "k' = k")
      case True
      then have "get ?cs k' = Some (c\<lparr>cl_Server := sv1\<rparr>)" by simp
      from conjunct2 [OF IH, rule_format, OF this] show ?thesis using True that Some c(2) Cons.prems(2) by auto
    next
      case False
      then have "get ?cs k' = Some c0" using that by simp
      from conjunct2 [OF IH, rule_format, OF this] show ?thesis using False by auto
    qed
    ultimately show ?thesis by blast
  qed
qed

text \<open>Turning a port up or down reaches the port wherever it is: the answer says whether any cluster has it,
  and afterwards, in every cluster, the row of the port has the new state in the column
  \<^verbatim>\<open>up\<close> and is otherwise as it was, and no other row of any table has changed.\<close>

theorem port_state_reaches_port:
  assumes "fmpred (\<lambda>_ c. healthy (cl_Server c)) (clusters m)" "iteration_order (clusters m) ks"
    and "setPortState d ks u up m = (found, sent, m')"
  shows "(found \<longleftrightarrow> (\<exists>k c. get (clusters m) k = Some c \<and>
       GetRow ''Logical_Switch_Port'' u (sv_store (cl_Server c)) \<noteq> None)) \<and>
    (\<forall>k c. get (clusters m) k = Some c \<longrightarrow> (\<exists>c'. get (clusters m') k = Some c' \<and>
       (\<forall>tbl w. GetRow tbl w (sv_store (cl_Server c')) =
          (if tbl = ''Logical_Switch_Port'' \<and> w = u
           then map_option (fmupd ''up'' (JBool up)) (GetRow tbl w (sv_store (cl_Server c)))
           else GetRow tbl w (sv_store (cl_Server c))))))"
proof -
  obtain cs where run: "set_port_states d u up ks (clusters m) = (found, sent, cs)" and m': "m' = m\<lparr>clusters := cs\<rparr>"
    using assms(3) by (auto simp: setPortState_def split: prod.splits)
  have ks: "distinct ks" "k \<in> set ks \<longleftrightarrow> get (clusters m) k \<noteq> None" for k
    using assms(2) by (auto simp: iteration_order_def fmlookup_dom'_iff)
  have view: "view_of s' = port_set u up (view_of s) \<longleftrightarrow> (\<forall>tbl w. GetRow tbl w s' =
      (if tbl = ''Logical_Switch_Port'' \<and> w = u then map_option (fmupd ''up'' (JBool up)) (GetRow tbl w s)
       else GetRow tbl w s))" for s s'
    by (auto simp: view_of_def port_set_def fun_eq_iff)
  have "\<forall>k\<in>set ks. \<forall>c. get (clusters m) k = Some c \<longrightarrow> healthy (cl_Server c)"
    using assms(1) by (auto simp: fmpred_iff)
  note exact = set_port_states_exact [OF run ks(1) this]
  have "found \<longleftrightarrow> (\<exists>k c. get (clusters m) k = Some c \<and>
       GetRow ''Logical_Switch_Port'' u (sv_store (cl_Server c)) \<noteq> None)"
    unfolding conjunct1 [OF exact] Bex_def ks(2) by blast
  moreover have "\<exists>c'. get (clusters m') k = Some c' \<and>
      view_of (sv_store (cl_Server c')) = port_set u up (view_of (sv_store (cl_Server c)))"
    if "get (clusters m) k = Some c" for k c
    using conjunct2 [OF exact, rule_format, OF that] ks(2) [of k] that by (simp add: m')
  ultimately show ?thesis unfolding view [symmetric] by blast
qed

definition port_cluster :: Cluster where
  "port_cluster = \<lparr>cl_ID = ''east'', cl_Port = 6641, cl_Server = NewServer_db
     (with_rows ''Logical_Switch_Port'' (fmupd ''p'' (fmupd ''_uuid'' (uuid_value ''p'') fmempty) fmempty) nb)\<rparr>"

theorem port_state_reaches_port_witness:
  "\<exists>sent m' c' row. setPortState plain_draw [''east''] ''p'' True \<lparr>clusters = fmupd ''east'' port_cluster fmempty\<rparr> = (True, sent, m') \<and>
     get (clusters m') ''east'' = Some c' \<and> GetRow ''Logical_Switch_Port'' ''p'' (sv_store (cl_Server c')) = Some row \<and>
     get row ''up'' = Some (JBool True)"
proof -
  let ?m = "\<lparr>clusters = fmupd ''east'' port_cluster fmempty\<rparr>"
  obtain found sent m' where run: "setPortState plain_draw [''east''] ''p'' True ?m = (found, sent, m')"
    by (rule prod_cases3)
  have "keyed (with_rows ''Logical_Switch_Port'' (fmupd ''p'' (fmupd ''_uuid'' (uuid_value ''p'') fmempty) fmempty) nb)"
    using keyed_new [of OVNNBTables] by (auto simp: keyed_def with_rows_def fmpred_iff nb_def own_uuid_def split: if_splits)
  then have "healthy (cl_Server port_cluster)"
    by (simp add: port_cluster_def healthy_def NewServer_db_def NewMonitorManager_def addressed_def)
  then have ok: "fmpred (\<lambda>_ c. healthy (cl_Server c)) (clusters ?m)" by (auto simp: fmpred_iff split: if_splits)
  have "iteration_order (clusters ?m) [''east'']" by (simp add: iteration_order_def)
  note exact = port_state_reaches_port [OF ok this run]
  have port: "GetRow ''Logical_Switch_Port'' ''p'' (sv_store (cl_Server port_cluster)) =
      Some (fmupd ''_uuid'' (uuid_value ''p'') fmempty)"
    by (simp add: port_cluster_def NewServer_db_def)
  have "get (clusters ?m) ''east'' = Some port_cluster" by simp
  moreover from conjunct2 [OF exact, rule_format, OF this] obtain c' where "get (clusters m') ''east'' = Some c'"
    "GetRow ''Logical_Switch_Port'' ''p'' (sv_store (cl_Server c')) =
       Some (fmupd ''up'' (JBool True) (fmupd ''_uuid'' (uuid_value ''p'') fmempty))"
    using port by auto
  ultimately show ?thesis
    using conjunct1 [OF exact] run port by auto
qed

text \<open>A cluster for OVN interconnection holds the tables of the interconnection database, and its server
  presents them as the northbound database: the interconnection database is unknown to it, and
  the schema it gives for the database it does name describes tables it does not have.\<close>

theorem ic_cluster_misnamed:
  assumes "CreateICCluster listen ids ident port connects m = (Inr c, m')"
  shows "fmdom' (tables (sv_store (cl_Server c))) = fmdom' OVNICTables \<and>
    fmdom' OVNICTables \<inter> fmdom' OVNNBTables = {} \<and>
    handleRequest dec d key \<lparr>rq_Method = ''list_dbs'', rq_Params = ps, rq_ID = rid\<rparr> (cl_Server c) =
      (Ret ((DbNames [''OVN_Northbound''], rid), []), cl_Server c) \<and>
    handleRequest dec d key \<lparr>rq_Method = ''get_schema'', rq_Params = Some (JArr [JStr ''OVN_IC_Northbound'']), rq_ID = rid\<rparr>
        (cl_Server c) = (Ret ((ErrorReply ''unknown database'' (TextDetails ''OVN_IC_Northbound''), rid), []), cl_Server c) \<and>
    handleRequest dec d key \<lparr>rq_Method = ''get_schema'', rq_Params = Some (JArr [JStr ''OVN_Northbound'']), rq_ID = rid\<rparr>
        (cl_Server c) = (Ret ((SchemaReply SchemaJSON, rid), []), cl_Server c)"
proof -
  have zones: "fmdom' (tables (insert_zones ids i cs s)) = fmdom' (tables s)" for i cs s
  proof (induction cs arbitrary: i s)
    case (Cons z zs)
    show ?case
      by (cases "get (tables s) ''Availability_Zone''")
        (auto simp: Cons Insert_def with_rows_def fmdom'I)
  qed simp
  have "sv_store (cl_Server c) = insert_zones ids 0 connects (NewStore_db OVNICTables)"
    using assms by (auto simp: CreateICCluster_def start_cluster_def Listen_def NewServer_db_def Let_def
        split: if_splits prod.splits bool.splits)
  then have "fmdom' (tables (sv_store (cl_Server c))) = fmdom' OVNICTables"
    by (simp add: zones NewStore_db_def)
  moreover have "fmdom' OVNICTables \<inter> fmdom' OVNNBTables = {}"
    by (simp add: OVNICTables_def OVNNBTables_def)
  ultimately show ?thesis
    by (simp add: handleRequest_def handleGetSchema_def as_strings_def as_array_def as_string_def Let_def)
qed

theorem ic_cluster_misnamed_witness:
  "\<exists>c m'. CreateICCluster (\<lambda>_. True) (\<lambda>i. ''z'') ''ic'' 6645 [''east''] NewManager = (Inr c, m') \<and>
     fmdom' (tables (sv_store (cl_Server c))) = fmdom' OVNICTables"
proof -
  obtain c m' where run: "CreateICCluster (\<lambda>_. True) (\<lambda>i. ''z'') ''ic'' 6645 [''east''] NewManager = (Inr c, m')"
    by (simp add: CreateICCluster_def start_cluster_def Listen_def NewManager_def Let_def)
  from ic_cluster_misnamed [OF run] run show ?thesis by blast
qed

end
