(* ===== verification/NetBox_State.thy ===== *)
theory NetBox_State
  imports Go_Values
begin

text \<open>
  The inventory of netbox-sim: \<^verbatim>\<open>netbox-sim/internal/state/store.go\<close>. Sites, locations, racks and
  devices are numbered from one; a location with parent 0 is at the top of its site. The clock is
  an argument. What the string library does to letters outside ASCII, and the text of a point in
  time, are the \<open>lib\<close> of a call. A nil map of custom fields and an empty one are one value here.
\<close>

section \<open>Text\<close>

record lib =
  lib_ToLower :: "string \<Rightarrow> string"
  lib_RFC3339 :: "int \<Rightarrow> string"

definition ascii :: "char \<Rightarrow> bool" where
  "ascii c \<longleftrightarrow> of_char c < (128 :: nat)"

definition lower_char :: "char \<Rightarrow> char" where
  "lower_char c = (if CHR ''A'' \<le> c \<and> c \<le> CHR ''Z'' then char_of (of_char c + (32 :: nat)) else c)"

definition upper_char :: "char \<Rightarrow> char" where
  "upper_char c = (if CHR ''a'' \<le> c \<and> c \<le> CHR ''z'' then char_of (of_char c - (32 :: nat)) else c)"

definition ToLower_nb :: "lib \<Rightarrow> string \<Rightarrow> string" where
  "ToLower_nb l s = (if list_all ascii s then map lower_char s else lib_ToLower l s)"

definition replace_char :: "char \<Rightarrow> char \<Rightarrow> string \<Rightarrow> string" where
  "replace_char a b s = map (\<lambda>c. if c = a then b else c) s"

definition slug_char :: "char \<Rightarrow> bool" where
  "slug_char c \<longleftrightarrow> (CHR ''a'' \<le> c \<and> c \<le> CHR ''z'') \<or> (CHR ''0'' \<le> c \<and> c \<le> CHR ''9'') \<or> c = CHR ''-''"

definition slugify :: "lib \<Rightarrow> string \<Rightarrow> string" where
  "slugify l name =
     filter slug_char (replace_char CHR ''_'' CHR ''-'' (replace_char CHR '' '' CHR ''-'' (ToLower_nb l name)))"

section \<open>Entities\<close>

record NamedRef =
  nr_ID :: int
  nr_URL :: string
  nr_Display :: string
  nr_Name :: string
  nr_Slug :: string

record Site =
  st_ID :: int
  st_Name :: string
  st_Slug :: string
  st_Status :: string
  st_Region :: "NamedRef option"
  st_Description :: string
  st_Tags :: "json list"
  st_CustomFields :: "(string, string) gomap"
  st_CreatedAt :: int
  st_LastUpdated :: int

record Location =
  lc_ID :: int
  lc_Name :: string
  lc_Slug :: string
  lc_SiteID :: int
  lc_ParentID :: int
  lc_Status :: string
  lc_Description :: string
  lc_Tags :: "json list"
  lc_CustomFields :: "(string, string) gomap"
  lc_CreatedAt :: int
  lc_LastUpdated :: int

record Rack =
  rk_ID :: int
  rk_Name :: string
  rk_Slug :: string
  rk_SiteID :: int
  rk_LocationID :: int
  rk_Status :: string
  rk_Description :: string
  rk_UHeight :: int
  rk_Tags :: "json list"
  rk_CustomFields :: "(string, string) gomap"
  rk_CreatedAt :: int
  rk_LastUpdated :: int

record Device =
  dv_ID :: int
  dv_Name :: string
  dv_Role :: string
  dv_SiteID :: int
  dv_LocationID :: int
  dv_RackID :: int
  dv_Position :: int
  dv_Face :: string
  dv_Status :: string
  dv_Description :: string
  dv_Tags :: "json list"
  dv_CustomFields :: "(string, string) gomap"
  dv_CreatedAt :: int
  dv_LastUpdated :: int

record Store_nb =
  sites :: "(int, Site) gomap"
  locations :: "(int, Location) gomap"
  racks :: "(int, Rack) gomap"
  devices :: "(int, Device) gomap"
  nextSiteID :: int
  nextLocationID :: int
  nextRackID :: int
  nextDeviceID :: int

definition NewStore_nb :: Store_nb where
  "NewStore_nb = \<lparr>sites = fmempty, locations = fmempty, racks = fmempty, devices = fmempty,
     nextSiteID = 1, nextLocationID = 1, nextRackID = 1, nextDeviceID = 1\<rparr>"

section \<open>Adding\<close>

definition default_to :: "string \<Rightarrow> string \<Rightarrow> string" where
  "default_to d s = (if s = '''' then d else s)"

text \<open>The entities as they are filed.\<close>

definition new_site :: "lib \<Rightarrow> int \<Rightarrow> int \<Rightarrow> string \<Rightarrow> string \<Rightarrow> NamedRef option \<Rightarrow> (string, string) gomap \<Rightarrow> Site" where
  "new_site l now ident name status region customFields =
     \<lparr>st_ID = ident, st_Name = name, st_Slug = slugify l name, st_Status = default_to ''active'' status,
      st_Region = region, st_Description = '''', st_Tags = [], st_CustomFields = customFields,
      st_CreatedAt = now, st_LastUpdated = now\<rparr>"

definition new_location :: "lib \<Rightarrow> int \<Rightarrow> int \<Rightarrow> string \<Rightarrow> int \<Rightarrow> int \<Rightarrow> (string, string) gomap \<Rightarrow> Location" where
  "new_location l now ident name siteID parentID customFields =
     \<lparr>lc_ID = ident, lc_Name = name, lc_Slug = slugify l name, lc_SiteID = siteID, lc_ParentID = parentID,
      lc_Status = ''active'', lc_Description = '''', lc_Tags = [], lc_CustomFields = customFields,
      lc_CreatedAt = now, lc_LastUpdated = now\<rparr>"

definition new_rack :: "lib \<Rightarrow> int \<Rightarrow> int \<Rightarrow> string \<Rightarrow> int \<Rightarrow> int \<Rightarrow> string \<Rightarrow> (string, string) gomap \<Rightarrow> Rack" where
  "new_rack l now ident name siteID locationID status customFields =
     \<lparr>rk_ID = ident, rk_Name = name, rk_Slug = slugify l name, rk_SiteID = siteID, rk_LocationID = locationID,
      rk_Status = default_to ''active'' status, rk_Description = '''', rk_UHeight = 42, rk_Tags = [],
      rk_CustomFields = customFields, rk_CreatedAt = now, rk_LastUpdated = now\<rparr>"

definition new_device ::
    "int \<Rightarrow> int \<Rightarrow> string \<Rightarrow> string \<Rightarrow> int \<Rightarrow> int \<Rightarrow> int \<Rightarrow> int \<Rightarrow> string \<Rightarrow> (string, string) gomap \<Rightarrow> Device" where
  "new_device now ident name role siteID locationID rackID position status customFields =
     \<lparr>dv_ID = ident, dv_Name = name, dv_Role = default_to ''server'' role, dv_SiteID = siteID,
      dv_LocationID = locationID, dv_RackID = rackID, dv_Position = position, dv_Face = ''front'',
      dv_Status = default_to ''active'' status, dv_Description = '''', dv_Tags = [],
      dv_CustomFields = customFields, dv_CreatedAt = now, dv_LastUpdated = now\<rparr>"

definition AddSite ::
    "lib \<Rightarrow> int \<Rightarrow> string \<Rightarrow> string \<Rightarrow> NamedRef option \<Rightarrow> (string, string) gomap \<Rightarrow> Store_nb \<Rightarrow> int \<times> Store_nb" where
  "AddSite l now name status region customFields s =
     (let ident = nextSiteID s in
      (ident, s\<lparr>nextSiteID := int64 (ident + 1),
         sites := fmupd ident (new_site l now ident name status region customFields) (sites s)\<rparr>))"

definition AddLocation ::
    "lib \<Rightarrow> int \<Rightarrow> string \<Rightarrow> int \<Rightarrow> int \<Rightarrow> (string, string) gomap \<Rightarrow> Store_nb \<Rightarrow> int \<times> Store_nb" where
  "AddLocation l now name siteID parentID customFields s =
     (let ident = nextLocationID s in
      (ident, s\<lparr>nextLocationID := int64 (ident + 1),
         locations := fmupd ident (new_location l now ident name siteID parentID customFields) (locations s)\<rparr>))"

definition AddRack ::
    "lib \<Rightarrow> int \<Rightarrow> string \<Rightarrow> int \<Rightarrow> int \<Rightarrow> string \<Rightarrow> (string, string) gomap \<Rightarrow> Store_nb \<Rightarrow> int \<times> Store_nb" where
  "AddRack l now name siteID locationID status customFields s =
     (let ident = nextRackID s in
      (ident, s\<lparr>nextRackID := int64 (ident + 1),
         racks := fmupd ident (new_rack l now ident name siteID locationID status customFields) (racks s)\<rparr>))"

definition AddDevice ::
    "int \<Rightarrow> string \<Rightarrow> string \<Rightarrow> int \<Rightarrow> int \<Rightarrow> int \<Rightarrow> int \<Rightarrow> string \<Rightarrow> (string, string) gomap \<Rightarrow> Store_nb \<Rightarrow> int \<times> Store_nb" where
  "AddDevice now name role siteID locationID rackID position status customFields s =
     (let ident = nextDeviceID s in
      (ident, s\<lparr>nextDeviceID := int64 (ident + 1),
         devices := fmupd ident
           (new_device now ident name role siteID locationID rackID position status customFields) (devices s)\<rparr>))"

section \<open>Reading\<close>

definition ListSites :: "int list \<Rightarrow> Store_nb \<Rightarrow> Site list" where
  "ListSites ks s = values_along (sites s) ks"

definition ListLocations :: "int list \<Rightarrow> int \<Rightarrow> int \<Rightarrow> Store_nb \<Rightarrow> Location list" where
  "ListLocations ks siteID parentID s =
     filter (\<lambda>loc. (siteID \<noteq> 0 \<longrightarrow> lc_SiteID loc = siteID) \<and> (parentID \<noteq> - 1 \<longrightarrow> lc_ParentID loc = parentID))
       (values_along (locations s) ks)"

definition ListRacks :: "int list \<Rightarrow> int \<Rightarrow> Store_nb \<Rightarrow> Rack list" where
  "ListRacks ks siteID s = filter (\<lambda>r. siteID \<noteq> 0 \<longrightarrow> rk_SiteID r = siteID) (values_along (racks s) ks)"

definition ListDevices :: "int list \<Rightarrow> int \<Rightarrow> string \<Rightarrow> Store_nb \<Rightarrow> Device list" where
  "ListDevices ks rackID role s =
     filter (\<lambda>d. (rackID \<noteq> 0 \<longrightarrow> dv_RackID d = rackID) \<and> (role \<noteq> '''' \<longrightarrow> dv_Role d = role))
       (values_along (devices s) ks)"

definition GetSite :: "int \<Rightarrow> Store_nb \<Rightarrow> Site option" where
  "GetSite ident s = get (sites s) ident"

definition GetLocation :: "int \<Rightarrow> Store_nb \<Rightarrow> Location option" where
  "GetLocation ident s = get (locations s) ident"

definition GetRack :: "int \<Rightarrow> Store_nb \<Rightarrow> Rack option" where
  "GetRack ident s = get (racks s) ident"

text \<open>The walk up the parents; the set of numbers seen bounds it.\<close>

function ancestors :: "(int, Location) gomap \<Rightarrow> int fset \<Rightarrow> int \<Rightarrow> Location list" where
  "ancestors locs seen ident =
     (if ident = 0 \<or> ident |\<in>| seen then []
      else (case get locs ident of
              None \<Rightarrow> []
            | Some loc \<Rightarrow> loc # ancestors locs (finsert ident seen) (lc_ParentID loc)))"
  by pat_completeness auto
termination
proof (relation "measure (\<lambda>(locs, seen, ident). fcard (fmdom locs |-| seen))")
  fix locs :: "(int, Location) gomap" and seen ident loc
  assume "\<not> (ident = 0 \<or> ident |\<in>| seen)" "get locs ident = Some loc"
  then have "ident |\<in>| fmdom locs |-| seen" by (simp add: fmdomI)
  moreover have "fmdom locs |-| finsert ident seen = fmdom locs |-| seen |-| {|ident|}" by blast
  ultimately show "((locs, finsert ident seen, lc_ParentID loc), locs, seen, ident)
      \<in> measure (\<lambda>(locs, seen, ident). fcard (fmdom locs |-| seen))"
    by (simp only: in_measure prod.case) (rule fcard_fminus1_less)
qed simp

declare ancestors.simps [simp del]

definition LocationAncestors :: "int \<Rightarrow> Store_nb \<Rightarrow> Location list" where
  "LocationAncestors locationID s = ancestors (locations s) {||} locationID"

definition count_if :: "('v \<Rightarrow> bool) \<Rightarrow> (int, 'v) gomap \<Rightarrow> int" where
  "count_if p m = range_fold (add_if p (\<lambda>_. 1)) m 0"

definition CountDevicesInRack :: "int \<Rightarrow> Store_nb \<Rightarrow> int" where
  "CountDevicesInRack rackID s = count_if (\<lambda>d. dv_RackID d = rackID) (devices s)"

definition CountRacksInLocation :: "int \<Rightarrow> Store_nb \<Rightarrow> int" where
  "CountRacksInLocation locationID s = count_if (\<lambda>r. rk_LocationID r = locationID) (racks s)"

definition CountDevicesInLocation :: "int \<Rightarrow> Store_nb \<Rightarrow> int" where
  "CountDevicesInLocation locationID s = count_if (\<lambda>d. dv_LocationID d = locationID) (devices s)"

definition CountRacksInSite :: "int \<Rightarrow> Store_nb \<Rightarrow> int" where
  "CountRacksInSite siteID s = count_if (\<lambda>r. rk_SiteID r = siteID) (racks s)"

definition CountDevicesInSite :: "int \<Rightarrow> Store_nb \<Rightarrow> int" where
  "CountDevicesInSite siteID s = count_if (\<lambda>d. dv_SiteID d = siteID) (devices s)"

record Stats_nb =
  SiteCount :: int
  RackCount :: int
  DeviceCount :: int
  LocationCount :: int

definition GetStats_nb :: "Store_nb \<Rightarrow> Stats_nb" where
  "GetStats_nb s = \<lparr>SiteCount = map_len (sites s), RackCount = map_len (racks s),
     DeviceCount = map_len (devices s), LocationCount = map_len (locations s)\<rparr>"

definition Reset_nb :: "Store_nb \<Rightarrow> Store_nb" where
  "Reset_nb s = NewStore_nb"

end
