(* ===== verification/NetBox_API.thy ===== *)
theory NetBox_API
  imports NetBox_State
begin

text \<open>
  The HTTP interface of netbox-sim: \<^verbatim>\<open>netbox-sim/internal/handler/netbox.go\<close>. A handler takes
  what it reads of the request and gives a status with a body, or panics (\<open>None\<close>), and the new
  store. Fields of a response that the code never sets keep their zero value and are left out
  of the records here: tenant, facility, and the ten counters of the ports of a device.
\<close>

section \<open>Bulk load\<close>

record bulkDevice =
  bd_Name :: string
  bd_DeviceRole :: string
  bd_Position :: int
  bd_CirrusHostID :: string

record bulkRack =
  br_Name :: string
  br_TorSwitch :: string
  br_PowerCircuit :: string
  br_Devices :: "bulkDevice list"

datatype bulkLocation =
  BulkLocation (bl_Name: string) (bl_PowerFeed: string) (bl_Locations: "bulkLocation list") (bl_Racks: "bulkRack list")

record bulkSite =
  bs_Name :: string
  bs_Locations :: "bulkLocation list"

record bulkLoadRequest =
  bq_Sites :: "bulkSite list"

definition with_field :: "string \<Rightarrow> string \<Rightarrow> (string, string) gomap \<Rightarrow> (string, string) gomap" where
  "with_field k v m = (if v \<noteq> '''' then fmupd k v m else m)"

text \<open>The clock may show another time at every call; it is read at the state of the store.\<close>

type_synonym clock = "Store_nb \<Rightarrow> int"

fun load_devices :: "clock \<Rightarrow> int \<Rightarrow> int \<Rightarrow> int \<Rightarrow> bulkDevice list \<Rightarrow> Store_nb \<Rightarrow> Store_nb" where
  "load_devices clk siteID locID rackID [] s = s"
| "load_devices clk siteID locID rackID (d # ds) s =
     load_devices clk siteID locID rackID ds
       (snd (AddDevice (clk s) (bd_Name d) (default_to ''server'' (bd_DeviceRole d)) siteID locID rackID
          (bd_Position d) ''active'' (with_field ''cirrus_host_id'' (bd_CirrusHostID d) fmempty) s))"

fun load_racks :: "lib \<Rightarrow> clock \<Rightarrow> int \<Rightarrow> int \<Rightarrow> bulkRack list \<Rightarrow> Store_nb \<Rightarrow> Store_nb" where
  "load_racks l clk siteID locID [] s = s"
| "load_racks l clk siteID locID (r # rs) s =
     (case AddRack l (clk s) (br_Name r) siteID locID ''active''
         (with_field ''power_circuit'' (br_PowerCircuit r) (with_field ''tor_switch'' (br_TorSwitch r) fmempty)) s of
        (rackID, s') \<Rightarrow> load_racks l clk siteID locID rs (load_devices clk siteID locID rackID (br_Devices r) s'))"

fun loadLocation :: "lib \<Rightarrow> clock \<Rightarrow> int \<Rightarrow> int \<Rightarrow> bulkLocation \<Rightarrow> Store_nb \<Rightarrow> Store_nb" where
  "loadLocation l clk siteID parentID (BulkLocation name feed locs rks) s =
     (case AddLocation l (clk s) name siteID parentID (with_field ''power_feed'' feed fmempty) s of
        (locID, s') \<Rightarrow>
          load_racks l clk siteID locID rks (fold (loadLocation l clk siteID locID) locs s'))"

definition load_site :: "lib \<Rightarrow> clock \<Rightarrow> bulkSite \<Rightarrow> Store_nb \<Rightarrow> Store_nb" where
  "load_site l clk site s =
     (case AddSite l (clk s) (bs_Name site) ''active'' None fmempty s of
        (siteID, s') \<Rightarrow> fold (loadLocation l clk siteID 0) (bs_Locations site) s')"

section \<open>Responses\<close>

record statusValue =
  sv_Value :: string
  sv_Label :: string

text \<open>
  The first byte alone is put in upper case: outside ASCII it is no letter, and becomes the
  replacement character. Of an empty value there is no first byte, and Go panics.
\<close>

definition makeStatus :: "string \<Rightarrow> statusValue option" where
  "makeStatus val =
     (case val of
        [] \<Rightarrow> None
      | c # cs \<Rightarrow> Some \<lparr>sv_Value = val,
          sv_Label = (if ascii c then [upper_char c] else [CHR 0xEF, CHR 0xBF, CHR 0xBD]) @ cs\<rparr>)"

definition baseURL :: string where
  "baseURL = ''/api''"

definition entity_url :: "string \<Rightarrow> int \<Rightarrow> string" where
  "entity_url kind n = baseURL @ ''/dcim/'' @ kind @ ''/'' @ fmt_0d 0 n @ ''/''"

record briefSiteRef =
  sr_ID :: int
  sr_URL :: string
  sr_Display :: string
  sr_Name :: string
  sr_Slug :: string

record briefLocationRef =
  lr_ID :: int
  lr_URL :: string
  lr_Display :: string
  lr_Name :: string
  lr_Slug :: string
  lr_RackCount :: int
  lr_Depth :: int

record briefRackRef =
  rr_ID :: int
  rr_URL :: string
  rr_Display :: string
  rr_Name :: string
  rr_DeviceCount :: int

record briefRoleRef =
  ro_ID :: int
  ro_URL :: string
  ro_Display :: string
  ro_Name :: string
  ro_Slug :: string
  ro_Depth :: int

record briefManufacturer =
  mf_ID :: int
  mf_URL :: string
  mf_Display :: string
  mf_Name :: string
  mf_Slug :: string

record briefDeviceTypeRef =
  dt_ID :: int
  dt_URL :: string
  dt_Display :: string
  dt_Manufacturer :: briefManufacturer
  dt_Model :: string
  dt_Slug :: string

definition siteRef :: "int \<Rightarrow> Store_nb \<Rightarrow> briefSiteRef option" where
  "siteRef siteID s =
     map_option (\<lambda>site. \<lparr>sr_ID = st_ID site, sr_URL = entity_url ''sites'' (st_ID site), sr_Display = st_Name site,
       sr_Name = st_Name site, sr_Slug = st_Slug site\<rparr>) (GetSite siteID s)"

definition depth_of :: "int \<Rightarrow> Store_nb \<Rightarrow> int" where
  "depth_of locID s = int (length (LocationAncestors locID s)) - 1"

definition locationRef :: "int \<Rightarrow> Store_nb \<Rightarrow> briefLocationRef option" where
  "locationRef locID s =
     map_option (\<lambda>loc. \<lparr>lr_ID = lc_ID loc, lr_URL = entity_url ''locations'' (lc_ID loc), lr_Display = lc_Name loc,
       lr_Name = lc_Name loc, lr_Slug = lc_Slug loc, lr_RackCount = CountRacksInLocation (lc_ID loc) s,
       lr_Depth = depth_of (lc_ID loc) s\<rparr>) (GetLocation locID s)"

definition rackRef :: "int \<Rightarrow> Store_nb \<Rightarrow> briefRackRef option" where
  "rackRef rackID s =
     map_option (\<lambda>rk. \<lparr>rr_ID = rk_ID rk, rr_URL = entity_url ''racks'' (rk_ID rk), rr_Display = rk_Name rk,
       rr_Name = rk_Name rk, rr_DeviceCount = CountDevicesInRack (rk_ID rk) s\<rparr>) (GetRack rackID s)"

definition roleRef :: "lib \<Rightarrow> string \<Rightarrow> briefRoleRef" where
  "roleRef l name = \<lparr>ro_ID = 1, ro_URL = baseURL @ ''/dcim/device-roles/1/'', ro_Display = name, ro_Name = name,
     ro_Slug = ToLower_nb l (replace_char CHR '' '' CHR ''-'' name), ro_Depth = 0\<rparr>"

definition deviceTypeRef :: briefDeviceTypeRef where
  "deviceTypeRef = \<lparr>dt_ID = 1, dt_URL = baseURL @ ''/dcim/device-types/1/'', dt_Display = ''Generic Server'',
     dt_Manufacturer = \<lparr>mf_ID = 1, mf_URL = baseURL @ ''/dcim/manufacturers/1/'', mf_Display = ''Generic'',
       mf_Name = ''Generic'', mf_Slug = ''generic''\<rparr>,
     dt_Model = ''Generic Server'', dt_Slug = ''generic-server''\<rparr>"

record siteResponse =
  sp_ID :: int
  sp_URL :: string
  sp_DisplayURL :: string
  sp_Display :: string
  sp_Name :: string
  sp_Slug :: string
  sp_Status :: statusValue
  sp_Region :: "NamedRef option"
  sp_Description :: string
  sp_Tags :: "json list"
  sp_CustomFields :: "(string, json) gomap"
  sp_Created :: string
  sp_LastUpdated :: string
  sp_RackCount :: int
  sp_DeviceCount :: int

record locationResponse =
  lp_ID :: int
  lp_URL :: string
  lp_DisplayURL :: string
  lp_Display :: string
  lp_Name :: string
  lp_Slug :: string
  lp_Site :: "briefSiteRef option"
  lp_Parent :: "briefLocationRef option"
  lp_Status :: statusValue
  lp_Description :: string
  lp_Tags :: "json list"
  lp_CustomFields :: "(string, json) gomap"
  lp_Created :: string
  lp_LastUpdated :: string
  lp_RackCount :: int
  lp_DeviceCount :: int
  lp_Depth :: int

record rackResponse =
  rp_ID :: int
  rp_URL :: string
  rp_DisplayURL :: string
  rp_Display :: string
  rp_Name :: string
  rp_Site :: "briefSiteRef option"
  rp_Location :: "briefLocationRef option"
  rp_Status :: statusValue
  rp_UHeight :: int
  rp_Description :: string
  rp_Tags :: "json list"
  rp_CustomFields :: "(string, json) gomap"
  rp_Created :: string
  rp_LastUpdated :: string
  rp_DeviceCount :: int

record deviceResponse =
  dp_ID :: int
  dp_URL :: string
  dp_DisplayURL :: string
  dp_Display :: string
  dp_Name :: string
  dp_DeviceType :: briefDeviceTypeRef
  dp_Role :: briefRoleRef
  dp_Site :: "briefSiteRef option"
  dp_Location :: "briefLocationRef option"
  dp_Rack :: "briefRackRef option"
  dp_Position :: "f64 option"
  dp_Face :: statusValue
  dp_Status :: statusValue
  dp_Description :: string
  dp_Tags :: "json list"
  dp_CustomFields :: "(string, json) gomap"
  dp_Created :: string
  dp_LastUpdated :: string

definition toInterfaceMap :: "(string, string) gomap \<Rightarrow> (string, json) gomap" where
  "toInterfaceMap m = fmmap JStr m"

text \<open>A reference that is only looked up for a number other than 0.\<close>

definition ref_unless_0 :: "(int \<Rightarrow> 'a option) \<Rightarrow> int \<Rightarrow> 'a option" where
  "ref_unless_0 f n = (if n \<noteq> 0 then f n else None)"

definition toSiteResponse :: "lib \<Rightarrow> Store_nb \<Rightarrow> Site \<Rightarrow> siteResponse option" where
  "toSiteResponse l s site =
     map_option (\<lambda>status. \<lparr>sp_ID = st_ID site, sp_URL = entity_url ''sites'' (st_ID site),
       sp_DisplayURL = entity_url ''sites'' (st_ID site), sp_Display = st_Name site, sp_Name = st_Name site,
       sp_Slug = st_Slug site, sp_Status = status, sp_Region = st_Region site, sp_Description = st_Description site,
       sp_Tags = st_Tags site, sp_CustomFields = toInterfaceMap (st_CustomFields site),
       sp_Created = lib_RFC3339 l (st_CreatedAt site), sp_LastUpdated = lib_RFC3339 l (st_LastUpdated site),
       sp_RackCount = CountRacksInSite (st_ID site) s, sp_DeviceCount = CountDevicesInSite (st_ID site) s\<rparr>)
     (makeStatus (st_Status site))"

definition toLocationResponse :: "lib \<Rightarrow> Store_nb \<Rightarrow> Location \<Rightarrow> locationResponse option" where
  "toLocationResponse l s loc =
     map_option (\<lambda>status. \<lparr>lp_ID = lc_ID loc, lp_URL = entity_url ''locations'' (lc_ID loc),
       lp_DisplayURL = entity_url ''locations'' (lc_ID loc), lp_Display = lc_Name loc, lp_Name = lc_Name loc,
       lp_Slug = lc_Slug loc, lp_Site = siteRef (lc_SiteID loc) s,
       lp_Parent = ref_unless_0 (\<lambda>n. locationRef n s) (lc_ParentID loc), lp_Status = status,
       lp_Description = lc_Description loc, lp_Tags = lc_Tags loc,
       lp_CustomFields = toInterfaceMap (lc_CustomFields loc),
       lp_Created = lib_RFC3339 l (lc_CreatedAt loc), lp_LastUpdated = lib_RFC3339 l (lc_LastUpdated loc),
       lp_RackCount = CountRacksInLocation (lc_ID loc) s, lp_DeviceCount = CountDevicesInLocation (lc_ID loc) s,
       lp_Depth = depth_of (lc_ID loc) s\<rparr>)
     (makeStatus (lc_Status loc))"

definition toRackResponse :: "lib \<Rightarrow> Store_nb \<Rightarrow> Rack \<Rightarrow> rackResponse option" where
  "toRackResponse l s rk =
     map_option (\<lambda>status. \<lparr>rp_ID = rk_ID rk, rp_URL = entity_url ''racks'' (rk_ID rk),
       rp_DisplayURL = entity_url ''racks'' (rk_ID rk), rp_Display = rk_Name rk, rp_Name = rk_Name rk,
       rp_Site = siteRef (rk_SiteID rk) s, rp_Location = ref_unless_0 (\<lambda>n. locationRef n s) (rk_LocationID rk),
       rp_Status = status, rp_UHeight = rk_UHeight rk, rp_Description = rk_Description rk, rp_Tags = rk_Tags rk,
       rp_CustomFields = toInterfaceMap (rk_CustomFields rk),
       rp_Created = lib_RFC3339 l (rk_CreatedAt rk), rp_LastUpdated = lib_RFC3339 l (rk_LastUpdated rk),
       rp_DeviceCount = CountDevicesInRack (rk_ID rk) s\<rparr>)
     (makeStatus (rk_Status rk))"

definition toDeviceResponse :: "lib \<Rightarrow> Store_nb \<Rightarrow> Device \<Rightarrow> deviceResponse option" where
  "toDeviceResponse l s d =
     (case (makeStatus (dv_Face d), makeStatus (dv_Status d)) of
        (Some face, Some status) \<Rightarrow> Some \<lparr>dp_ID = dv_ID d, dp_URL = entity_url ''devices'' (dv_ID d),
          dp_DisplayURL = entity_url ''devices'' (dv_ID d), dp_Display = dv_Name d, dp_Name = dv_Name d,
          dp_DeviceType = deviceTypeRef, dp_Role = roleRef l (dv_Role d), dp_Site = siteRef (dv_SiteID d) s,
          dp_Location = ref_unless_0 (\<lambda>n. locationRef n s) (dv_LocationID d), dp_Rack = rackRef (dv_RackID d) s,
          dp_Position = (if dv_Position d > 0 then Some (f64_of_int (dv_Position d)) else None),
          dp_Face = face, dp_Status = status, dp_Description = dv_Description d, dp_Tags = dv_Tags d,
          dp_CustomFields = toInterfaceMap (dv_CustomFields d),
          dp_Created = lib_RFC3339 l (dv_CreatedAt d), dp_LastUpdated = lib_RFC3339 l (dv_LastUpdated d)\<rparr>
      | _ \<Rightarrow> None)"

section \<open>Handlers\<close>

datatype body_nb =
    SitesBody "siteResponse list"
  | LocationsBody "locationResponse list"
  | RacksBody "rackResponse list"
  | DevicesBody "deviceResponse list"
  | StatsBody_nb Stats_nb
  | ResetBody_nb
  | InvalidBodyError_nb

type_synonym response_nb = "(nat \<times> body_nb) option"

definition writeJSON_nb :: "nat \<Rightarrow> body_nb \<Rightarrow> response_nb" where
  "writeJSON_nb st b = Some (st, b)"

text \<open>The response of a list handler: a panic in one entry is a panic of the handler.\<close>

definition list_response :: "('a list \<Rightarrow> body_nb) \<Rightarrow> 'a option list \<Rightarrow> response_nb" where
  "list_response mk xs = (case those xs of None \<Rightarrow> None | Some ys \<Rightarrow> writeJSON_nb 200 (mk ys))"

definition queryInt :: "string \<Rightarrow> int \<Rightarrow> int" where
  "queryInt v defaultVal = (if v = '''' then defaultVal else case Atoi v of Some n \<Rightarrow> n | None \<Rightarrow> defaultVal)"

definition listSites :: "lib \<Rightarrow> int list \<Rightarrow> Store_nb \<Rightarrow> response_nb" where
  "listSites l ks s = list_response SitesBody (map (toSiteResponse l s) (ListSites ks s))"

definition listLocations :: "lib \<Rightarrow> int list \<Rightarrow> string \<Rightarrow> string \<Rightarrow> Store_nb \<Rightarrow> response_nb" where
  "listLocations l ks site_id parent_id s =
     list_response LocationsBody (map (toLocationResponse l s) (ListLocations ks (queryInt site_id 0) (queryInt parent_id (- 1)) s))"

definition listRacks :: "lib \<Rightarrow> int list \<Rightarrow> string \<Rightarrow> Store_nb \<Rightarrow> response_nb" where
  "listRacks l ks site_id s = list_response RacksBody (map (toRackResponse l s) (ListRacks ks (queryInt site_id 0) s))"

definition listDevices :: "lib \<Rightarrow> int list \<Rightarrow> string \<Rightarrow> string \<Rightarrow> Store_nb \<Rightarrow> response_nb" where
  "listDevices l ks rack_id role s =
     list_response DevicesBody (map (toDeviceResponse l s) (ListDevices ks (queryInt rack_id 0) role s))"

definition bulkLoad :: "lib \<Rightarrow> clock \<Rightarrow> bulkLoadRequest option \<Rightarrow> Store_nb \<Rightarrow> response_nb \<times> Store_nb" where
  "bulkLoad l clk body s =
     (case body of
        None \<Rightarrow> (writeJSON_nb 400 InvalidBodyError_nb, s)
      | Some req \<Rightarrow>
          let s' = fold (load_site l clk) (bq_Sites req) s
          in (writeJSON_nb 201 (StatsBody_nb (GetStats_nb s')), s'))"

definition getStats_nb :: "Store_nb \<Rightarrow> response_nb" where
  "getStats_nb s = writeJSON_nb 200 (StatsBody_nb (GetStats_nb s))"

definition resetState :: "Store_nb \<Rightarrow> response_nb \<times> Store_nb" where
  "resetState s = (writeJSON_nb 200 ResetBody_nb, Reset_nb s)"

datatype route_nb =
    ListSitesCall "int list"
  | ListLocationsCall "int list" string string
  | ListRacksCall "int list" string
  | ListDevicesCall "int list" string string
  | BulkLoadCall clock "bulkLoadRequest option"
  | GetStatsCall_nb
  | ResetCall_nb

fun RegisterRoutes_nb :: "lib \<Rightarrow> route_nb \<Rightarrow> Store_nb \<Rightarrow> response_nb \<times> Store_nb" where
  "RegisterRoutes_nb l (ListSitesCall ks) s = (listSites l ks s, s)"
| "RegisterRoutes_nb l (ListLocationsCall ks a b) s = (listLocations l ks a b s, s)"
| "RegisterRoutes_nb l (ListRacksCall ks a) s = (listRacks l ks a s, s)"
| "RegisterRoutes_nb l (ListDevicesCall ks a b) s = (listDevices l ks a b s, s)"
| "RegisterRoutes_nb l (BulkLoadCall clk body) s = bulkLoad l clk body s"
| "RegisterRoutes_nb l GetStatsCall_nb s = (getStats_nb s, s)"
| "RegisterRoutes_nb l ResetCall_nb s = resetState s"

end
