(* ===== verification/NetBox_Theorems.thy ===== *)
theory NetBox_Theorems
  imports NetBox_API
begin

text \<open>
  What netbox-sim promises: the inventory is always a forest whose references lead somewhere,
  the walk up the locations always ends at the top, and a bulk load adds exactly what the
  document lists.
\<close>

section \<open>A sound inventory\<close>

definition numbered :: "(int, 'a) gomap \<Rightarrow> ('a \<Rightarrow> int) \<Rightarrow> int \<Rightarrow> bool" where
  "numbered m ident n \<longleftrightarrow> 1 \<le> n \<and> fmdom' m = {1..<n} \<and> (\<forall>k v. get m k = Some v \<longrightarrow> ident v = k)"

definition site_ok :: "Store_nb \<Rightarrow> Site \<Rightarrow> bool" where
  "site_ok s site \<longleftrightarrow> st_Status site \<noteq> ''''"

definition location_ok :: "Store_nb \<Rightarrow> Location \<Rightarrow> bool" where
  "location_ok s loc \<longleftrightarrow> lc_Status loc \<noteq> '''' \<and> get (sites s) (lc_SiteID loc) \<noteq> None \<and>
     (lc_ParentID loc \<noteq> 0 \<longrightarrow> (\<exists>p. get (locations s) (lc_ParentID loc) = Some p \<and>
        lc_SiteID p = lc_SiteID loc \<and> lc_ID p < lc_ID loc))"

definition rack_ok :: "Store_nb \<Rightarrow> Rack \<Rightarrow> bool" where
  "rack_ok s rk \<longleftrightarrow> rk_Status rk \<noteq> '''' \<and> get (sites s) (rk_SiteID rk) \<noteq> None \<and>
     (\<exists>loc. get (locations s) (rk_LocationID rk) = Some loc \<and> lc_SiteID loc = rk_SiteID rk)"

definition device_ok :: "Store_nb \<Rightarrow> Device \<Rightarrow> bool" where
  "device_ok s d \<longleftrightarrow> dv_Status d \<noteq> '''' \<and> dv_Face d \<noteq> '''' \<and> get (sites s) (dv_SiteID d) \<noteq> None \<and>
     (\<exists>rk. get (racks s) (dv_RackID d) = Some rk \<and> rk_SiteID rk = dv_SiteID d \<and> rk_LocationID rk = dv_LocationID d)"

definition sound_nb :: "Store_nb \<Rightarrow> bool" where
  "sound_nb s \<longleftrightarrow>
     numbered (sites s) st_ID (nextSiteID s) \<and> numbered (locations s) lc_ID (nextLocationID s) \<and>
     numbered (racks s) rk_ID (nextRackID s) \<and> numbered (devices s) dv_ID (nextDeviceID s) \<and>
     fmpred (\<lambda>_. site_ok s) (sites s) \<and> fmpred (\<lambda>_. location_ok s) (locations s) \<and>
     fmpred (\<lambda>_. rack_ok s) (racks s) \<and> fmpred (\<lambda>_. device_ok s) (devices s)"

lemma numbered_fresh: "numbered m ident n \<Longrightarrow> get m n = None"
proof -
  assume "numbered m ident n"
  then have "n \<notin> fmdom' m" by (auto simp: numbered_def)
  then show "get m n = None" by (simp add: fmlookup_dom'_iff)
qed

lemma numbered_add:
  assumes "numbered m ident n" "n < MaxInt64" "ident v = n"
  shows "numbered (fmupd n v m) ident (int64 (n + 1))"
proof -
  have "1 \<le> n" "fmdom' m = {1..<n}" using assms(1) by (auto simp: numbered_def)
  moreover from this have "int64 (n + 1) = n + 1" using assms(2) by (intro int64_id) auto
  ultimately show ?thesis using assms(1,3) by (auto simp: numbered_def)
qed

lemma sound_new: "sound_nb NewStore_nb"
  by (simp add: sound_nb_def numbered_def NewStore_nb_def)

text \<open>What is there stays, and so many entities of each kind are added.\<close>

definition keeps_nb :: "Store_nb \<Rightarrow> Store_nb \<Rightarrow> bool" where
  "keeps_nb s s' \<longleftrightarrow> (\<forall>k v. get (sites s) k = Some v \<longrightarrow> get (sites s') k = Some v) \<and>
     (\<forall>k v. get (locations s) k = Some v \<longrightarrow> get (locations s') k = Some v) \<and>
     (\<forall>k v. get (racks s) k = Some v \<longrightarrow> get (racks s') k = Some v)"

definition adds :: "int \<Rightarrow> int \<Rightarrow> int \<Rightarrow> int \<Rightarrow> Store_nb \<Rightarrow> Store_nb \<Rightarrow> bool" where
  "adds a b c d s s' \<longleftrightarrow> sound_nb s' \<and> keeps_nb s s' \<and> nextSiteID s' = nextSiteID s + a \<and>
     nextLocationID s' = nextLocationID s + b \<and> nextRackID s' = nextRackID s + c \<and> nextDeviceID s' = nextDeviceID s + d"

lemma adds_refl: "sound_nb s \<Longrightarrow> adds 0 0 0 0 s s"
  by (simp add: adds_def keeps_nb_def)

lemma adds_trans: "adds a b c d s t \<Longrightarrow> adds a' b' c' d' t u \<Longrightarrow> adds (a + a') (b + b') (c + c') (d + d') s u"
  unfolding adds_def keeps_nb_def by simp

lemma ok_kept:
  assumes "keeps_nb s s'"
  shows "location_ok s loc \<Longrightarrow> location_ok s' loc" "rack_ok s rk \<Longrightarrow> rack_ok s' rk" "device_ok s d \<Longrightarrow> device_ok s' d"
  using assms unfolding keeps_nb_def location_ok_def rack_ok_def device_ok_def by (fastforce+)

definition fits :: "int \<Rightarrow> Store_nb \<Rightarrow> bool" where
  "fits n s \<longleftrightarrow> nextSiteID s + n \<le> MaxInt64 \<and> nextLocationID s + n \<le> MaxInt64 \<and>
     nextRackID s + n \<le> MaxInt64 \<and> nextDeviceID s + n \<le> MaxInt64"

lemma fits_mono: "fits n s \<Longrightarrow> m \<le> n \<Longrightarrow> fits m s"
  by (auto simp: fits_def)

lemma fits_after: "fits n s \<Longrightarrow> adds a b c d s s' \<Longrightarrow> a \<le> k \<Longrightarrow> b \<le> k \<Longrightarrow> c \<le> k \<Longrightarrow> d \<le> k \<Longrightarrow> m + k \<le> n \<Longrightarrow> fits m s'"
  by (auto simp: fits_def adds_def)

lemma int64_next: "sound_nb s \<Longrightarrow> fits 1 s \<Longrightarrow> int64 (nextSiteID s + 1) = nextSiteID s + 1 \<and>
    int64 (nextLocationID s + 1) = nextLocationID s + 1 \<and> int64 (nextRackID s + 1) = nextRackID s + 1 \<and>
    int64 (nextDeviceID s + 1) = nextDeviceID s + 1"
  by (auto simp: sound_nb_def numbered_def fits_def intro!: int64_id)

section \<open>Adding keeps it sound\<close>

lemma AddSite_adds:
  assumes "sound_nb s" "fits 1 s" "AddSite l now name status region cf s = (ident, s')"
  shows "adds 1 0 0 0 s s' \<and> get (sites s') ident \<noteq> None"
proof -
  have fresh: "get (sites s) (nextSiteID s) = None"
    using assms(1) numbered_fresh by (auto simp: sound_nb_def)
  define site where "site = new_site l now (nextSiteID s) name status region cf"
  have s': "s' = s\<lparr>nextSiteID := int64 (nextSiteID s + 1), sites := fmupd (nextSiteID s) site (sites s)\<rparr>"
    and ident: "ident = nextSiteID s"
    using assms(3) unfolding AddSite_def Let_def site_def by auto
  have site: "st_ID site = nextSiteID s" "st_Status site \<noteq> ''''" by (simp_all add: site_def new_site_def default_to_def)
  have keeps: "keeps_nb s s'" using fresh by (auto simp: keeps_nb_def s')
  have "nextSiteID s < MaxInt64" using assms(2) by (simp add: fits_def)
  then have "numbered (sites s') st_ID (nextSiteID s')"
    using numbered_add [of "sites s" st_ID "nextSiteID s" site] assms(1) site(1) by (simp add: s' sound_nb_def)
  then have "sound_nb s'"
    using assms(1) site ok_kept [OF keeps] by (auto simp: sound_nb_def fmpred_iff s' site_ok_def split: if_splits)
  then show ?thesis using keeps int64_next [OF assms(1,2)] by (simp add: adds_def s' ident)
qed

lemma AddLocation_adds:
  assumes "sound_nb s" "fits 1 s" "AddLocation l now name siteID parentID cf s = (ident, s')"
    and "get (sites s) siteID \<noteq> None"
    and "parentID \<noteq> 0 \<longrightarrow> (\<exists>p. get (locations s) parentID = Some p \<and> lc_SiteID p = siteID)"
  shows "adds 0 1 0 0 s s' \<and> (\<exists>loc. get (locations s') ident = Some loc \<and> lc_SiteID loc = siteID)"
proof -
  have num: "numbered (locations s) lc_ID (nextLocationID s)" using assms(1) by (simp add: sound_nb_def)
  then have fresh: "get (locations s) (nextLocationID s) = None" by (rule numbered_fresh)
  define loc where "loc = new_location l now (nextLocationID s) name siteID parentID cf"
  have s': "s' = s\<lparr>nextLocationID := int64 (nextLocationID s + 1), locations := fmupd (nextLocationID s) loc (locations s)\<rparr>"
    and ident: "ident = nextLocationID s"
    using assms(3) unfolding AddLocation_def Let_def loc_def by auto
  have loc: "lc_ID loc = nextLocationID s" "lc_SiteID loc = siteID" "lc_ParentID loc = parentID" "lc_Status loc \<noteq> ''''"
    by (simp_all add: loc_def new_location_def)
  have keeps: "keeps_nb s s'" using fresh by (auto simp: keeps_nb_def s')
  have "nextLocationID s < MaxInt64" using assms(2) by (simp add: fits_def)
  then have new: "numbered (locations s') lc_ID (nextLocationID s')"
    using numbered_add [OF num, of loc] loc(1) by (simp add: s')
  have lower: "lc_ID p < nextLocationID s" if "get (locations s) k = Some p" for k p
    using that num fmdom'I [OF that] by (auto simp: numbered_def)
  have "location_ok s' loc"
    using assms(4,5) loc lower fresh by (auto simp: location_ok_def s' split: if_splits)
  then have "sound_nb s'"
    using assms(1) new ok_kept [OF keeps] by (auto simp: sound_nb_def fmpred_iff s' site_ok_def split: if_splits)
  then show ?thesis using keeps int64_next [OF assms(1,2)] loc(2) by (simp add: adds_def s' ident)
qed

lemma AddRack_adds:
  assumes "sound_nb s" "fits 1 s" "AddRack l now name siteID locID status cf s = (ident, s')"
    and "get (sites s) siteID \<noteq> None" "\<exists>loc. get (locations s) locID = Some loc \<and> lc_SiteID loc = siteID"
  shows "adds 0 0 1 0 s s' \<and> (\<exists>rk. get (racks s') ident = Some rk \<and> rk_SiteID rk = siteID \<and> rk_LocationID rk = locID)"
proof -
  have num: "numbered (racks s) rk_ID (nextRackID s)" using assms(1) by (simp add: sound_nb_def)
  then have fresh: "get (racks s) (nextRackID s) = None" by (rule numbered_fresh)
  define rk where "rk = new_rack l now (nextRackID s) name siteID locID status cf"
  have s': "s' = s\<lparr>nextRackID := int64 (nextRackID s + 1), racks := fmupd (nextRackID s) rk (racks s)\<rparr>"
    and ident: "ident = nextRackID s"
    using assms(3) unfolding AddRack_def Let_def rk_def by auto
  have rk: "rk_ID rk = nextRackID s" "rk_SiteID rk = siteID" "rk_LocationID rk = locID" "rk_Status rk \<noteq> ''''"
    by (simp_all add: rk_def new_rack_def default_to_def)
  have keeps: "keeps_nb s s'" using fresh by (auto simp: keeps_nb_def s')
  have "nextRackID s < MaxInt64" using assms(2) by (simp add: fits_def)
  then have new: "numbered (racks s') rk_ID (nextRackID s')"
    using numbered_add [OF num, of rk] rk(1) by (simp add: s')
  have "rack_ok s' rk" using assms(4,5) rk by (auto simp: rack_ok_def s')
  then have "sound_nb s'"
    using assms(1) new ok_kept [OF keeps] by (auto simp: sound_nb_def fmpred_iff s' site_ok_def split: if_splits)
  then show ?thesis using keeps int64_next [OF assms(1,2)] rk(2,3) by (simp add: adds_def s' ident)
qed

lemma AddDevice_adds:
  assumes "sound_nb s" "fits 1 s" "AddDevice now name role siteID locID rackID pos status cf s = (ident, s')"
    and "get (sites s) siteID \<noteq> None"
    and "\<exists>rk. get (racks s) rackID = Some rk \<and> rk_SiteID rk = siteID \<and> rk_LocationID rk = locID"
  shows "adds 0 0 0 1 s s'"
proof -
  have num: "numbered (devices s) dv_ID (nextDeviceID s)" using assms(1) by (simp add: sound_nb_def)
  define d where "d = new_device now (nextDeviceID s) name role siteID locID rackID pos status cf"
  have s': "s' = s\<lparr>nextDeviceID := int64 (nextDeviceID s + 1), devices := fmupd (nextDeviceID s) d (devices s)\<rparr>"
    using assms(3) unfolding AddDevice_def Let_def d_def by auto
  have d: "dv_ID d = nextDeviceID s" "dv_SiteID d = siteID" "dv_LocationID d = locID" "dv_RackID d = rackID"
      "dv_Status d \<noteq> ''''" "dv_Face d \<noteq> ''''"
    by (simp_all add: d_def new_device_def default_to_def)
  have keeps: "keeps_nb s s'" by (auto simp: keeps_nb_def s')
  have "nextDeviceID s < MaxInt64" using assms(2) by (simp add: fits_def)
  then have new: "numbered (devices s') dv_ID (nextDeviceID s')"
    using numbered_add [OF num, of d] d(1) by (simp add: s')
  have "device_ok s' d" using assms(4,5) d by (auto simp: device_ok_def s')
  then have "sound_nb s'"
    using assms(1) new ok_kept [OF keeps] by (auto simp: sound_nb_def fmpred_iff s' site_ok_def split: if_splits)
  then show ?thesis using keeps int64_next [OF assms(1,2)] by (simp add: adds_def s')
qed

section \<open>Loading\<close>

definition n_rack :: "bulkRack \<Rightarrow> int" where
  "n_rack r = int (length (br_Devices r))"

fun n_locations :: "bulkLocation \<Rightarrow> int" where
  "n_locations (BulkLocation name feed locs rks) = 1 + sum_list (map n_locations locs)"

fun n_racks :: "bulkLocation \<Rightarrow> int" where
  "n_racks (BulkLocation name feed locs rks) = sum_list (map n_racks locs) + int (length rks)"

fun n_devices :: "bulkLocation \<Rightarrow> int" where
  "n_devices (BulkLocation name feed locs rks) = sum_list (map n_devices locs) + sum_list (map n_rack rks)"

text \<open>All the entities of a document, and of a list of documents.\<close>

definition n_all :: "bulkLocation \<Rightarrow> int" where
  "n_all loc = n_locations loc + n_racks loc + n_devices loc"

lemma n_nonneg [simp]: "0 \<le> n_locations loc" "0 \<le> n_racks loc" "0 \<le> n_devices loc" "0 \<le> n_rack r"
proof -
  show "0 \<le> n_rack r" by (simp add: n_rack_def)
  show "0 \<le> n_locations loc" by (induction loc) (auto intro!: add_nonneg_nonneg sum_list_nonneg)
  show "0 \<le> n_racks loc" by (induction loc) (auto intro!: add_nonneg_nonneg sum_list_nonneg)
  show "0 \<le> n_devices loc"
    by (induction loc) (auto simp: n_rack_def intro!: add_nonneg_nonneg sum_list_nonneg)
qed

lemma n_all_ge: "n_locations loc \<le> n_all loc" "n_racks loc \<le> n_all loc" "n_devices loc \<le> n_all loc" "0 \<le> n_all loc"
  by (simp_all add: n_all_def)

lemma part_sums: "sum_list (map n_locations locs) \<le> sum_list (map n_all locs)"
  "sum_list (map n_racks locs) \<le> sum_list (map n_all locs)" "sum_list (map n_devices locs) \<le> sum_list (map n_all locs)"
  "0 \<le> sum_list (map n_all locs)"
  by (auto intro!: sum_list_mono sum_list_nonneg simp: n_all_ge)

lemma load_devices_adds:
  assumes "get (sites s) siteID \<noteq> None"
    and "\<exists>rk. get (racks s) rackID = Some rk \<and> rk_SiteID rk = siteID \<and> rk_LocationID rk = locID"
    and "sound_nb s" "fits (int (length ds)) s"
  shows "adds 0 0 0 (int (length ds)) s (load_devices clk siteID locID rackID ds s)"
  using assms
proof (induction ds arbitrary: s)
  case Nil
  then show ?case by (simp add: adds_refl)
next
  case (Cons d ds)
  obtain ident s1 where add: "AddDevice (clk s) (bd_Name d) (default_to ''server'' (bd_DeviceRole d)) siteID locID rackID
      (bd_Position d) ''active'' (with_field ''cirrus_host_id'' (bd_CirrusHostID d) fmempty) s = (ident, s1)"
    by (rule prod.exhaust)
  have "fits 1 s" using Cons.prems(4) by (auto simp: fits_def)
  from AddDevice_adds [OF Cons.prems(3) this add Cons.prems(1,2)] have one: "adds 0 0 0 1 s s1" .
  have "adds 0 0 0 (int (length ds)) s1 (load_devices clk siteID locID rackID ds s1)"
    by (rule Cons.IH)
      (use one Cons.prems fits_after [OF Cons.prems(4) one, of 1 "int (length ds)"] in
        \<open>fastforce simp: adds_def keeps_nb_def\<close>)+
  from adds_trans [OF one this] show ?case by (simp add: add)
qed

lemma load_racks_adds:
  assumes "get (sites s) siteID \<noteq> None" "\<exists>loc. get (locations s) locID = Some loc \<and> lc_SiteID loc = siteID"
    and "sound_nb s" "fits (int (length rks) + sum_list (map n_rack rks)) s"
  shows "adds 0 0 (int (length rks)) (sum_list (map n_rack rks)) s (load_racks l clk siteID locID rks s)"
  using assms
proof (induction rks arbitrary: s)
  case Nil
  then show ?case by (simp add: adds_refl)
next
  case (Cons r rks)
  let ?cf = "with_field ''power_circuit'' (br_PowerCircuit r) (with_field ''tor_switch'' (br_TorSwitch r) fmempty)"
  have nn: "0 \<le> sum_list (map n_rack rks)" by (rule sum_list_nonneg) auto
  obtain rackID s1 where add: "AddRack l (clk s) (br_Name r) siteID locID ''active'' ?cf s = (rackID, s1)"
    by (rule prod.exhaust)
  have "fits 1 s" by (rule fits_mono [OF Cons.prems(4)], simp) (use nn n_nonneg(4) [of r] in linarith)
  from AddRack_adds [OF Cons.prems(3) this add Cons.prems(1,2)] have one: "adds 0 0 1 0 s s1"
    and rk: "\<exists>rk. get (racks s1) rackID = Some rk \<and> rk_SiteID rk = siteID \<and> rk_LocationID rk = locID" by blast+
  let ?s2 = "load_devices clk siteID locID rackID (br_Devices r) s1"
  have site1: "get (sites s1) siteID \<noteq> None"
    and loc1: "\<exists>loc. get (locations s1) locID = Some loc \<and> lc_SiteID loc = siteID"
    using one Cons.prems(1,2) by (fastforce simp: adds_def keeps_nb_def)+
  have "fits (n_rack r) s1" by (rule fits_after [OF Cons.prems(4) one, of 1]) (use nn in simp_all)
  from load_devices_adds [OF site1 rk _ this [unfolded n_rack_def]] one have two: "adds 0 0 0 (n_rack r) s1 ?s2"
    by (simp add: adds_def n_rack_def)
  note both = adds_trans [OF one two]
  have "adds 0 0 (int (length rks)) (sum_list (map n_rack rks)) ?s2 (load_racks l clk siteID locID rks ?s2)"
  proof (rule Cons.IH)
    show "get (sites ?s2) siteID \<noteq> None" "\<exists>loc. get (locations ?s2) locID = Some loc \<and> lc_SiteID loc = siteID"
      using two site1 loc1 by (fastforce simp: adds_def keeps_nb_def)+
    show "sound_nb ?s2" using two by (simp add: adds_def)
    show "fits (int (length rks) + sum_list (map n_rack rks)) ?s2"
      by (rule fits_after [OF Cons.prems(4) both, of "1 + n_rack r"]) (use n_nonneg(4) [of r] in auto)
  qed
  from adds_trans [OF both this] show ?case by (simp add: add add.commute add.left_commute)
qed

text \<open>A forest of locations under one parent, given that each of its trees adds what it lists.\<close>

lemma fold_locations_adds:
  assumes each: "\<And>loc s. loc \<in> set locs \<Longrightarrow> sound_nb s \<Longrightarrow> fits (n_all loc) s \<Longrightarrow> get (sites s) siteID \<noteq> None \<Longrightarrow>
      parentID \<noteq> 0 \<longrightarrow> (\<exists>p. get (locations s) parentID = Some p \<and> lc_SiteID p = siteID) \<Longrightarrow>
      adds 0 (n_locations loc) (n_racks loc) (n_devices loc) s (loadLocation l clk siteID parentID loc s)"
    and "sound_nb s" "fits (sum_list (map n_all locs)) s" "get (sites s) siteID \<noteq> None"
    and "parentID \<noteq> 0 \<longrightarrow> (\<exists>p. get (locations s) parentID = Some p \<and> lc_SiteID p = siteID)"
  shows "adds 0 (sum_list (map n_locations locs)) (sum_list (map n_racks locs)) (sum_list (map n_devices locs))
    s (fold (loadLocation l clk siteID parentID) locs s)"
  using assms
proof (induction locs arbitrary: s)
  case Nil
  then show ?case by (simp add: adds_refl)
next
  case (Cons loc locs)
  let ?s1 = "loadLocation l clk siteID parentID loc s"
  have nn: "0 \<le> sum_list (map n_all locs)" by (rule sum_list_nonneg) (auto simp: n_all_ge)
  have "fits (n_all loc) s" by (rule fits_mono [OF Cons.prems(3)]) (use nn in simp)
  then have one: "adds 0 (n_locations loc) (n_racks loc) (n_devices loc) s ?s1"
    using Cons.prems(2,4,5) by (intro Cons.prems(1)) auto
  have "adds 0 (sum_list (map n_locations locs)) (sum_list (map n_racks locs)) (sum_list (map n_devices locs))
      ?s1 (fold (loadLocation l clk siteID parentID) locs ?s1)"
  proof (rule Cons.IH)
    show "sound_nb ?s1" using one by (simp add: adds_def)
    show "fits (sum_list (map n_all locs)) ?s1"
      by (rule fits_after [OF Cons.prems(3) one, of "n_all loc"]) (simp_all add: n_all_ge)
    show "get (sites ?s1) siteID \<noteq> None"
      "parentID \<noteq> 0 \<longrightarrow> (\<exists>p. get (locations ?s1) parentID = Some p \<and> lc_SiteID p = siteID)"
      using one Cons.prems(4,5) by (fastforce simp: adds_def keeps_nb_def)+
  qed (use Cons.prems(1) in auto)
  from adds_trans [OF one this] show ?case by simp
qed

lemma loadLocation_adds:
  assumes "sound_nb s" "fits (n_all loc) s" "get (sites s) siteID \<noteq> None"
    and "parentID \<noteq> 0 \<longrightarrow> (\<exists>p. get (locations s) parentID = Some p \<and> lc_SiteID p = siteID)"
  shows "adds 0 (n_locations loc) (n_racks loc) (n_devices loc) s (loadLocation l clk siteID parentID loc s)"
  using assms
proof (induction loc arbitrary: s parentID)
  case (BulkLocation name feed locs rks)
  let ?loc = "BulkLocation name feed locs rks"
  have all: "n_all ?loc = 1 + sum_list (map n_all locs) + (int (length rks) + sum_list (map n_rack rks))"
    by (simp add: n_all_def sum_list_addf [symmetric] comp_def) (induction locs; simp add: n_all_def)
  have nn: "0 \<le> sum_list (map n_all locs)" "0 \<le> sum_list (map n_rack rks)"
    by (rule sum_list_nonneg, auto simp: n_all_def)+
  obtain locID s1 where add: "AddLocation l (clk s) name siteID parentID (with_field ''power_feed'' feed fmempty) s = (locID, s1)"
    by (rule prod.exhaust)
  have "fits 1 s" by (rule fits_mono [OF BulkLocation.prems(2)]) (use nn in \<open>simp add: all\<close>)
  from AddLocation_adds [OF BulkLocation.prems(1) this add BulkLocation.prems(3,4)]
  have one: "adds 0 1 0 0 s s1" and loc1: "\<exists>p. get (locations s1) locID = Some p \<and> lc_SiteID p = siteID" by blast+
  let ?s2 = "fold (loadLocation l clk siteID locID) locs s1"
  have site1: "get (sites s1) siteID \<noteq> None"
    using one BulkLocation.prems(3) by (fastforce simp: adds_def keeps_nb_def)
  have fits1: "fits (sum_list (map n_all locs) + (int (length rks) + sum_list (map n_rack rks))) s1"
    by (rule fits_after [OF BulkLocation.prems(2) one, of 1]) (simp_all add: all)
  have two: "adds 0 (sum_list (map n_locations locs)) (sum_list (map n_racks locs)) (sum_list (map n_devices locs)) s1 ?s2"
  proof (rule fold_locations_adds)
    show "fits (sum_list (map n_all locs)) s1" by (rule fits_mono [OF fits1]) (use nn in simp)
  qed (use one site1 loc1 BulkLocation.IH in \<open>auto simp: adds_def\<close>)
  note both = adds_trans [OF one two]
  have "adds 0 0 (int (length rks)) (sum_list (map n_rack rks)) ?s2 (load_racks l clk siteID locID rks ?s2)"
  proof (rule load_racks_adds)
    show "sound_nb ?s2" using two by (simp add: adds_def)
    show "get (sites ?s2) siteID \<noteq> None" "\<exists>loc. get (locations ?s2) locID = Some loc \<and> lc_SiteID loc = siteID"
      using two site1 loc1 by (fastforce simp: adds_def keeps_nb_def)+
    show "fits (int (length rks) + sum_list (map n_rack rks)) ?s2"
      by (rule fits_after [OF fits1 two, of "sum_list (map n_all locs)"]) (use part_sums in auto)
  qed
  from adds_trans [OF both this] show ?case by (simp add: add)
qed

definition n_site :: "bulkSite \<Rightarrow> int" where
  "n_site site = 1 + sum_list (map n_all (bs_Locations site))"

lemma n_site_ge: "sum_list (map n_locations (bs_Locations site)) \<le> n_site site"
  "sum_list (map n_racks (bs_Locations site)) \<le> n_site site"
  "sum_list (map n_devices (bs_Locations site)) \<le> n_site site" "1 \<le> n_site site"
  using part_sums [of "bs_Locations site"] by (simp_all add: n_site_def)

lemma load_site_adds:
  assumes "sound_nb s" "fits (n_site site) s"
  shows "adds 1 (sum_list (map n_locations (bs_Locations site))) (sum_list (map n_racks (bs_Locations site)))
    (sum_list (map n_devices (bs_Locations site))) s (load_site l clk site s)"
proof -
  have nn: "0 \<le> sum_list (map n_all (bs_Locations site))" by (rule sum_list_nonneg) (auto simp: n_all_def)
  obtain siteID s1 where add: "AddSite l (clk s) (bs_Name site) ''active'' None fmempty s = (siteID, s1)"
    by (rule prod.exhaust)
  have "fits 1 s" by (rule fits_mono [OF assms(2)]) (use nn in \<open>simp add: n_site_def\<close>)
  from AddSite_adds [OF assms(1) this add] have one: "adds 1 0 0 0 s s1" and site: "get (sites s1) siteID \<noteq> None" by blast+
  have "fits (sum_list (map n_all (bs_Locations site))) s1"
    by (rule fits_after [OF assms(2) one, of 1]) (simp_all add: n_site_def)
  then have "adds 0 (sum_list (map n_locations (bs_Locations site))) (sum_list (map n_racks (bs_Locations site)))
      (sum_list (map n_devices (bs_Locations site))) s1 (fold (loadLocation l clk siteID 0) (bs_Locations site) s1)"
    using one site by (intro fold_locations_adds loadLocation_adds) (auto simp: adds_def)
  from adds_trans [OF one this] show ?thesis by (simp add: load_site_def add)
qed

lemma load_sites_adds:
  assumes "sound_nb s" "fits (sum_list (map n_site sts)) s"
  shows "adds (int (length sts)) (\<Sum>site\<leftarrow>sts. sum_list (map n_locations (bs_Locations site)))
    (\<Sum>site\<leftarrow>sts. sum_list (map n_racks (bs_Locations site))) (\<Sum>site\<leftarrow>sts. sum_list (map n_devices (bs_Locations site)))
    s (fold (load_site l clk) sts s)"
  using assms
proof (induction sts arbitrary: s)
  case Nil
  then show ?case by (simp add: adds_refl)
next
  case (Cons site sts)
  have nn: "0 \<le> sum_list (map n_site sts)"
    by (rule sum_list_nonneg) (auto intro: order_trans [OF _ n_site_ge(4)])
  have "fits (n_site site) s" by (rule fits_mono [OF Cons.prems(2)]) (use nn in simp)
  note one = load_site_adds [OF Cons.prems(1) this, of l clk]
  have "fits (sum_list (map n_site sts)) (load_site l clk site s)"
    by (rule fits_after [OF Cons.prems(2) one, of "n_site site"]) (simp_all add: n_site_ge)
  with one have two: "adds (int (length sts)) (\<Sum>site\<leftarrow>sts. sum_list (map n_locations (bs_Locations site)))
      (\<Sum>site\<leftarrow>sts. sum_list (map n_racks (bs_Locations site))) (\<Sum>site\<leftarrow>sts. sum_list (map n_devices (bs_Locations site)))
      (load_site l clk site s) (fold (load_site l clk) sts (load_site l clk site s))"
    by (intro Cons.IH) (auto simp: adds_def)
  from adds_trans [OF one two] show ?case by simp
qed

section \<open>Properties\<close>

definition n_call :: "route_nb \<Rightarrow> int" where
  "n_call r = (case r of BulkLoadCall _ (Some req) \<Rightarrow> sum_list (map n_site (bq_Sites req)) | _ \<Rightarrow> 0)"

definition calls_nb :: "lib \<Rightarrow> route_nb list \<Rightarrow> Store_nb \<Rightarrow> Store_nb" where
  "calls_nb l rs s = fold (\<lambda>r s. snd (RegisterRoutes_nb l r s)) rs s"

lemma n_call_nonneg: "0 \<le> n_call r"
  by (auto simp: n_call_def intro!: sum_list_nonneg order_trans [OF _ n_site_ge(4)]
      split: route_nb.split option.split)

lemma call_sound:
  assumes "sound_nb s" "fits (n_call r + n) s" "0 \<le> n"
  shows "sound_nb (snd (RegisterRoutes_nb l r s)) \<and> fits n (snd (RegisterRoutes_nb l r s))"
proof (cases "\<exists>clk req. r = BulkLoadCall clk (Some req)")
  case True
  then obtain clk req where r: "r = BulkLoadCall clk (Some req)" by blast
  let ?sts = "bq_Sites req"
  have le: "(\<Sum>site\<leftarrow>?sts. sum_list (map f (bs_Locations site))) \<le> sum_list (map n_site ?sts)"
    if "f = n_locations \<or> f = n_racks \<or> f = n_devices" for f
    using that n_site_ge by (intro sum_list_mono) auto
  have len: "int (length sts) \<le> sum_list (map n_site sts)" for sts
  proof (induction sts)
    case (Cons a sts)
    then show ?case using n_site_ge(4) [of a] by simp
  qed simp
  have fit: "fits (sum_list (map n_site ?sts)) s"
    by (rule fits_mono [OF assms(2)]) (use assms(3) in \<open>simp add: r n_call_def\<close>)
  note load = load_sites_adds [OF assms(1) fit, of l clk]
  have "fits n (fold (load_site l clk) ?sts s)"
    by (rule fits_after [OF assms(2) load, of "sum_list (map n_site ?sts)"])
      (use le len in \<open>auto simp: r n_call_def\<close>)
  then show ?thesis using load by (simp add: r bulkLoad_def Let_def adds_def)
next
  case False
  have "fits n s" by (rule fits_mono [OF assms(2)]) (use n_call_nonneg [of r] in simp)
  moreover from this assms(1) have "fits n NewStore_nb"
    by (auto simp: fits_def NewStore_nb_def sound_nb_def numbered_def)
  ultimately show ?thesis
    using False assms(1) sound_new by (cases r) (auto simp: bulkLoad_def resetState_def Reset_nb_def split: option.split)
qed

lemma calls_sound:
  "sound_nb s \<Longrightarrow> fits (sum_list (map n_call rs)) s \<Longrightarrow> sound_nb (calls_nb l rs s)"
proof (induction rs arbitrary: s)
  case (Cons r rs)
  have "0 \<le> sum_list (map n_call rs)" by (rule sum_list_nonneg) (auto simp: n_call_nonneg)
  with call_sound [OF Cons.prems(1), of r "sum_list (map n_call rs)" l] Cons.prems(2)
  have "sound_nb (snd (RegisterRoutes_nb l r s))" "fits (sum_list (map n_call rs)) (snd (RegisterRoutes_nb l r s))"
    by simp_all
  from Cons.IH [OF this] show ?case by (simp add: calls_nb_def)
qed (simp add: calls_nb_def)

text \<open>C33: The inventory is a forest at all times: after any sequence of calls, loads and resets, the sites,
  locations, racks and devices are numbered without gaps under their own numbers, every location
  belongs to an existing site and lies below an earlier location of the same site or at the top,
  every rack stands in a location of its site, and every device in a rack of its location.\<close>

theorem inventory_is_forest:
  assumes "(\<Sum>r\<leftarrow>rs. n_call r) < MaxInt64"
  shows "sound_nb (calls_nb l rs NewStore_nb)"
  using assms by (intro calls_sound sound_new) (simp add: fits_def NewStore_nb_def)

definition small_bulk :: bulkLoadRequest where
  "small_bulk = \<lparr>bq_Sites = [\<lparr>bs_Name = ''tokyo'', bs_Locations =
     [BulkLocation ''floor'' '''' [BulkLocation ''row'' ''feed'' [] [\<lparr>br_Name = ''rack'', br_TorSwitch = ''t'',
        br_PowerCircuit = '''', br_Devices = [\<lparr>bd_Name = ''h1'', bd_DeviceRole = '''', bd_Position = 3,
          bd_CirrusHostID = ''host-001''\<rparr>]\<rparr>]] []]\<rparr>]\<rparr>"

definition plain_lib :: lib where
  "plain_lib = \<lparr>lib_ToLower = (\<lambda>s. s), lib_RFC3339 = (\<lambda>t. '''')\<rparr>"

theorem inventory_is_forest_witness:
  "sound_nb (calls_nb plain_lib [BulkLoadCall (\<lambda>_. 0) (Some small_bulk), GetStatsCall_nb] NewStore_nb)"
  by (rule inventory_is_forest) (simp add: n_call_def small_bulk_def n_site_def n_all_def n_rack_def)

text \<open>A walk from a location to the top of its site: each is the parent of the one before.\<close>

fun way_up :: "Location list \<Rightarrow> bool" where
  "way_up [] = False"
| "way_up [loc] = (lc_ParentID loc = 0)"
| "way_up (loc # p # rest) = (lc_ParentID loc = lc_ID p \<and> lc_ID p < lc_ID loc \<and> lc_SiteID p = lc_SiteID loc \<and> way_up (p # rest))"

lemma ancestors_way_up:
  assumes "sound_nb s"
  shows "get (locations s) k = Some loc \<Longrightarrow> \<forall>x. x |\<in>| seen \<longrightarrow> k < x \<Longrightarrow>
    \<exists>rest. ancestors (locations s) seen k = loc # rest \<and> way_up (loc # rest)"
proof (induction "nat k" arbitrary: k loc seen rule: less_induct)
  case less
  have num: "numbered (locations s) lc_ID (nextLocationID s)" using assms by (simp add: sound_nb_def)
  have ident: "lc_ID v = j \<and> 1 \<le> j" if "get (locations s) j = Some v" for j v
    using that num fmdom'I [OF that] by (auto simp: numbered_def)
  have k: "lc_ID loc = k" "1 \<le> k" using ident [OF less.prems(1)] by simp_all
  have ok: "location_ok s loc" using assms less.prems(1) by (auto simp: sound_nb_def fmpred_iff)
  have step: "ancestors (locations s) seen k = loc # ancestors (locations s) (finsert k seen) (lc_ParentID loc)"
    using less.prems k by (subst ancestors.simps) auto
  show ?case
  proof (cases "lc_ParentID loc = 0")
    case True
    then show ?thesis using step by (simp add: ancestors.simps [of _ _ 0])
  next
    case False
    then obtain p where p: "get (locations s) (lc_ParentID loc) = Some p" "lc_SiteID p = lc_SiteID loc" "lc_ID p < lc_ID loc"
      using ok by (auto simp: location_ok_def)
    have lower: "lc_ParentID loc < k" "lc_ID p = lc_ParentID loc" using p ident [OF p(1)] k by simp_all
    obtain rest where "ancestors (locations s) (finsert k seen) (lc_ParentID loc) = p # rest" "way_up (p # rest)"
      using less.hyps [of "lc_ParentID loc" p "finsert k seen"] p(1) lower k(2) less.prems(2) by fastforce
    then show ?thesis using step p lower by simp
  qed
qed

text \<open>The walk up the parents of a location always reaches the top of its site: it starts at the location,
  goes from each location to its parent, and ends at one without a parent. The guard against
  cycles never cuts it short, and the depth reported is the number of locations above.\<close>

theorem ancestors_reach_top:
  assumes "sound_nb s" "get (locations s) k = Some loc"
  shows "\<exists>rest. LocationAncestors k s = loc # rest \<and> way_up (loc # rest) \<and> depth_of k s = int (length rest)"
proof -
  obtain rest where "ancestors (locations s) {||} k = loc # rest" "way_up (loc # rest)"
    using ancestors_way_up [OF assms, of "{||}"] by auto
  then show ?thesis by (simp add: LocationAncestors_def depth_of_def)
qed

lemma small_store: "sound_nb (calls_nb plain_lib [BulkLoadCall (\<lambda>_. 0) (Some small_bulk)] NewStore_nb)"
  by (rule calls_sound [OF sound_new])
    (simp add: n_call_def small_bulk_def n_site_def n_all_def n_rack_def fits_def NewStore_nb_def)

lemma small_store_facts:
  "\<exists>loc. get (locations (calls_nb plain_lib [BulkLoadCall (\<lambda>_. 0) (Some small_bulk)] NewStore_nb)) 2 = Some loc \<and>
     lc_ParentID loc = 1"
  by (simp add: calls_nb_def bulkLoad_def Let_def small_bulk_def load_site_def AddSite_def AddLocation_def AddRack_def
      AddDevice_def NewStore_nb_def new_location_def int64_def)

theorem ancestors_reach_top_witness:
  "\<exists>loc rest. LocationAncestors 2 (calls_nb plain_lib [BulkLoadCall (\<lambda>_. 0) (Some small_bulk)] NewStore_nb) = loc # rest \<and>
     way_up (loc # rest) \<and> rest \<noteq> []"
proof -
  obtain loc where loc: "get (locations (calls_nb plain_lib [BulkLoadCall (\<lambda>_. 0) (Some small_bulk)] NewStore_nb)) 2 = Some loc"
    "lc_ParentID loc = 1" using small_store_facts by blast
  from ancestors_reach_top [OF small_store loc(1)] loc(2) show ?thesis by auto
qed

text \<open>A bulk load adds exactly the sites, locations, racks and devices its document lists, and its answer
  counts them on top of what was there.\<close>

theorem bulk_load_exact:
  assumes "sound_nb s" "fits (\<Sum>site\<leftarrow>bq_Sites req. n_site site) s"
  shows "\<exists>st s'. bulkLoad l clk (Some req) s = (Some (201, StatsBody_nb st), s') \<and> sound_nb s' \<and> st = GetStats_nb s' \<and>
     SiteCount st = SiteCount (GetStats_nb s) + int (length (bq_Sites req)) \<and>
     LocationCount st = LocationCount (GetStats_nb s) + (\<Sum>site\<leftarrow>bq_Sites req. \<Sum>loc\<leftarrow>bs_Locations site. n_locations loc) \<and>
     RackCount st = RackCount (GetStats_nb s) + (\<Sum>site\<leftarrow>bq_Sites req. \<Sum>loc\<leftarrow>bs_Locations site. n_racks loc) \<and>
     DeviceCount st = DeviceCount (GetStats_nb s) + (\<Sum>site\<leftarrow>bq_Sites req. \<Sum>loc\<leftarrow>bs_Locations site. n_devices loc)"
proof -
  have counts: "GetStats_nb s = \<lparr>SiteCount = nextSiteID s - 1, RackCount = nextRackID s - 1,
      DeviceCount = nextDeviceID s - 1, LocationCount = nextLocationID s - 1\<rparr>" if "sound_nb s" for s
    using that by (simp add: GetStats_nb_def sound_nb_def numbered_def map_len_def)
  have "adds (int (length (bq_Sites req))) (\<Sum>site\<leftarrow>bq_Sites req. sum_list (map n_locations (bs_Locations site)))
      (\<Sum>site\<leftarrow>bq_Sites req. sum_list (map n_racks (bs_Locations site)))
      (\<Sum>site\<leftarrow>bq_Sites req. sum_list (map n_devices (bs_Locations site))) s (fold (load_site l clk) (bq_Sites req) s)"
    using load_sites_adds [OF assms] .
  then show ?thesis
    using counts assms(1) by (simp add: bulkLoad_def Let_def writeJSON_nb_def adds_def)
qed

theorem bulk_load_exact_witness:
  "\<exists>st s'. bulkLoad plain_lib (\<lambda>_. 0) (Some small_bulk) NewStore_nb = (Some (201, StatsBody_nb st), s') \<and>
     LocationCount st = 2 \<and> DeviceCount st = 1"
proof -
  have "fits (\<Sum>site\<leftarrow>bq_Sites small_bulk. n_site site) NewStore_nb"
    by (simp add: small_bulk_def n_site_def n_all_def n_rack_def fits_def NewStore_nb_def)
  from bulk_load_exact [OF sound_new this, of plain_lib "\<lambda>_. 0"] obtain st s' where
    "bulkLoad plain_lib (\<lambda>_. 0) (Some small_bulk) NewStore_nb = (Some (201, StatsBody_nb st), s')"
    "LocationCount st = LocationCount (GetStats_nb NewStore_nb) +
       (\<Sum>site\<leftarrow>bq_Sites small_bulk. \<Sum>loc\<leftarrow>bs_Locations site. n_locations loc)"
    "DeviceCount st = DeviceCount (GetStats_nb NewStore_nb) +
       (\<Sum>site\<leftarrow>bq_Sites small_bulk. \<Sum>loc\<leftarrow>bs_Locations site. n_devices loc)" by blast
  then show ?thesis
    by (simp add: small_bulk_def n_rack_def NewStore_nb_def GetStats_nb_def map_len_def)
qed

lemma makeStatus_some: "val \<noteq> '''' \<Longrightarrow> \<exists>st. makeStatus val = Some st"
  by (cases val) (simp_all add: makeStatus_def)

lemma those_all: "list_all (\<lambda>x. \<exists>y. x = Some y \<and> P y) xs \<Longrightarrow> \<exists>ys. those xs = Some ys \<and> list_all P ys"
  by (induction xs) auto

lemma values_along_get: "v \<in> set (values_along m ks) \<Longrightarrow> \<exists>k. get m k = Some v"
  by (auto simp: values_along_def List.map_filter_def)

lemma list_response_some:
  assumes "list_all (\<lambda>x. \<exists>y. f x = Some y \<and> P y) xs"
  shows "\<exists>ys. list_response mk (map f xs) = Some (200, mk ys) \<and> list_all P ys"
  using those_all [of P "map f xs"] assms
  by (fastforce simp: list_response_def writeJSON_nb_def list_all_iff)

lemma location_there: "sound_nb s \<Longrightarrow> get (locations s) k = Some loc \<Longrightarrow> lc_ID loc = k \<and> k \<noteq> 0"
  using fmdom'I [of "locations s" k loc] by (auto simp: sound_nb_def numbered_def)

lemma entity_responses:
  assumes "sound_nb s"
  shows "get (sites s) i = Some site \<Longrightarrow> \<exists>r. toSiteResponse l s site = Some r"
    "get (locations s) j = Some loc \<Longrightarrow> \<exists>r. toLocationResponse l s loc = Some r \<and> lp_Site r \<noteq> None \<and> 0 \<le> lp_Depth r"
    "get (racks s) k = Some rk \<Longrightarrow> \<exists>r. toRackResponse l s rk = Some r \<and> rp_Site r \<noteq> None \<and> rp_Location r \<noteq> None"
    "get (devices s) m = Some d \<Longrightarrow> \<exists>r. toDeviceResponse l s d = Some r \<and> dp_Site r \<noteq> None \<and> dp_Location r \<noteq> None \<and> dp_Rack r \<noteq> None"
proof -
  note oks = assms [unfolded sound_nb_def fmpred_iff]
  show "\<exists>r. toSiteResponse l s site = Some r" if "get (sites s) i = Some site"
    using oks that makeStatus_some [of "st_Status site"] by (auto simp: toSiteResponse_def site_ok_def)
  show "\<exists>r. toLocationResponse l s loc = Some r \<and> lp_Site r \<noteq> None \<and> 0 \<le> lp_Depth r" if loc: "get (locations s) j = Some loc"
  proof -
    have "location_ok s loc" "lc_ID loc = j" using oks loc location_there [OF assms loc] by auto
    moreover obtain rest where "ancestors (locations s) {||} j = loc # rest"
      using ancestors_way_up [OF assms loc, of "{||}"] by auto
    ultimately show ?thesis
      using makeStatus_some [of "lc_Status loc"]
      by (auto simp: toLocationResponse_def location_ok_def siteRef_def GetSite_def depth_of_def LocationAncestors_def)
  qed
  show "\<exists>r. toRackResponse l s rk = Some r \<and> rp_Site r \<noteq> None \<and> rp_Location r \<noteq> None" if "get (racks s) k = Some rk"
  proof -
    have "rack_ok s rk" using oks that by auto
    then show ?thesis
      using makeStatus_some [of "rk_Status rk"] location_there [OF assms, of "rk_LocationID rk"]
      by (auto simp: toRackResponse_def rack_ok_def siteRef_def GetSite_def ref_unless_0_def locationRef_def GetLocation_def)
  qed
  show "\<exists>r. toDeviceResponse l s d = Some r \<and> dp_Site r \<noteq> None \<and> dp_Location r \<noteq> None \<and> dp_Rack r \<noteq> None"
    if "get (devices s) m = Some d"
  proof -
    have d: "device_ok s d" using oks that by auto
    then obtain rk where rk: "get (racks s) (dv_RackID d) = Some rk" "rk_LocationID rk = dv_LocationID d"
      by (auto simp: device_ok_def)
    have "rack_ok s rk" using oks rk(1) by auto
    then obtain loc where "get (locations s) (dv_LocationID d) = Some loc" using rk(2) by (auto simp: rack_ok_def)
    then show ?thesis
      using d rk makeStatus_some [of "dv_Status d"] makeStatus_some [of "dv_Face d"]
        location_there [OF assms, of "dv_LocationID d"]
      by (auto simp: toDeviceResponse_def device_ok_def siteRef_def GetSite_def ref_unless_0_def locationRef_def
          GetLocation_def rackRef_def GetRack_def)
  qed
qed

text \<open>No list of the inventory panics or shows a dangling reference: each is answered, every location with its
  site and its depth, every rack with its site and location, and every
  device with its site, its location and its rack.\<close>

theorem responses_complete:
  assumes "sound_nb s"
  shows "(\<exists>rs. listSites l ks s = Some (200, SitesBody rs)) \<and>
    (\<exists>rs. listLocations l ks a b s = Some (200, LocationsBody rs) \<and> list_all (\<lambda>r. lp_Site r \<noteq> None \<and> 0 \<le> lp_Depth r) rs) \<and>
    (\<exists>rs. listRacks l ks a s = Some (200, RacksBody rs) \<and> list_all (\<lambda>r. rp_Site r \<noteq> None \<and> rp_Location r \<noteq> None) rs) \<and>
    (\<exists>rs. listDevices l ks a b s = Some (200, DevicesBody rs) \<and>
       list_all (\<lambda>r. dp_Site r \<noteq> None \<and> dp_Location r \<noteq> None \<and> dp_Rack r \<noteq> None) rs)"
proof (intro conjI)
  note resp = entity_responses [OF assms]
  show "\<exists>rs. listSites l ks s = Some (200, SitesBody rs)"
  proof -
    have "list_all (\<lambda>x. \<exists>y. toSiteResponse l s x = Some y \<and> True) (ListSites ks s)"
      using resp(1) by (auto simp: ListSites_def list_all_iff dest!: values_along_get)
    from list_response_some [OF this, of SitesBody] show ?thesis by (auto simp: listSites_def)
  qed
  show "\<exists>rs. listLocations l ks a b s = Some (200, LocationsBody rs) \<and> list_all (\<lambda>r. lp_Site r \<noteq> None \<and> 0 \<le> lp_Depth r) rs"
    unfolding listLocations_def
    by (rule list_response_some) (use resp(2) in \<open>auto simp: ListLocations_def list_all_iff dest!: values_along_get\<close>)
  show "\<exists>rs. listRacks l ks a s = Some (200, RacksBody rs) \<and> list_all (\<lambda>r. rp_Site r \<noteq> None \<and> rp_Location r \<noteq> None) rs"
    unfolding listRacks_def
    by (rule list_response_some) (use resp(3) in \<open>auto simp: ListRacks_def list_all_iff dest!: values_along_get\<close>)
  show "\<exists>rs. listDevices l ks a b s = Some (200, DevicesBody rs) \<and>
      list_all (\<lambda>r. dp_Site r \<noteq> None \<and> dp_Location r \<noteq> None \<and> dp_Rack r \<noteq> None) rs"
    unfolding listDevices_def
    by (rule list_response_some) (use resp(4) in \<open>auto simp: ListDevices_def list_all_iff dest!: values_along_get\<close>)
qed

theorem responses_complete_witness:
  "\<exists>rs. listRacks plain_lib [1] ''1'' (calls_nb plain_lib [BulkLoadCall (\<lambda>_. 0) (Some small_bulk)] NewStore_nb) =
     Some (200, RacksBody rs)"
  using responses_complete [OF small_store, of plain_lib "[1]" "''1''" "''''"] by blast

end
