(* ===== verification/AWX_State.thy ===== *)
theory AWX_State
  imports Go_Values
begin

text \<open>
  The job store of awx-sim: \<^verbatim>\<open>awx-sim/internal/state/store.go\<close>. \<^verbatim>\<open>LaunchJob\<close> takes the lock three
  times and arms a timer in between; the timer runs \<^verbatim>\<open>completeJob\<close> in a goroutine of its own. The
  state of the whole simulator is therefore the store with the launches in progress, the timers
  that are armed and the timers that have gone off and wait for the lock. The clock and the
  random number are arguments.

  A launch holds a pointer to its job; a reset drops the jobs and numbers them from one again, so
  that a job is identified by its number and the count of the resets before it (\<open>epoch\<close>).
\<close>

section \<open>Data\<close>

record JobTemplate =
  jt_ID :: int
  jt_Name :: string
  jt_Description :: string
  jt_ExpectedDurationMs :: int
  jt_FailureRate :: f64

record Job =
  jb_ID :: int
  jb_JobTemplate :: int
  jb_Status :: string
  jb_ExtraVars :: "(string, json) gomap"
  jb_Created :: int
  jb_Started :: "int option"
  jb_Finished :: "int option"

record CallbackConfig =
  cb_Enabled :: bool
  cb_CallbackURL :: string
  cb_AuthToken :: string

record Stats_awx =
  n_Pending :: int
  n_Running :: int
  n_Successful :: int
  n_Failed :: int
  n_Canceled :: int

text \<open>A timer is known by the launch that armed it.\<close>

record Timer =
  tm_Duration :: int
  tm_JobID :: int
  tm_TemplateID :: int
  tm_FailureRate :: f64

record Store_awx =
  templates :: "(int, JobTemplate) gomap"
  jobs :: "(int, Job) gomap"
  nextTemplateID :: int
  nextJobID :: int
  callback :: CallbackConfig
  timers :: "nat list"

definition no_callback :: CallbackConfig where
  "no_callback = \<lparr>cb_Enabled = False, cb_CallbackURL = '''', cb_AuthToken = ''''\<rparr>"

definition NewStore_awx :: Store_awx where
  "NewStore_awx = \<lparr>templates = fmempty, jobs = fmempty, nextTemplateID = 1, nextJobID = 1,
     callback = no_callback, timers = []\<rparr>"

datatype awx_error = NameRequired | TemplateNotFound int | JobNotFound int | NotCancelable int string

section \<open>Templates\<close>

definition CreateTemplate ::
    "string \<Rightarrow> string \<Rightarrow> int \<Rightarrow> f64 \<Rightarrow> Store_awx \<Rightarrow> (awx_error + JobTemplate) \<times> Store_awx" where
  "CreateTemplate name description durationMs failureRate s =
     (if name = '''' then (Inl NameRequired, s)
      else let t = \<lparr>jt_ID = nextTemplateID s, jt_Name = name, jt_Description = description,
                    jt_ExpectedDurationMs = durationMs, jt_FailureRate = failureRate\<rparr>
           in (Inr t, s\<lparr>templates := fmupd (jt_ID t) t (templates s), nextTemplateID := int64 (nextTemplateID s + 1)\<rparr>))"

definition GetTemplate :: "int \<Rightarrow> Store_awx \<Rightarrow> awx_error + JobTemplate" where
  "GetTemplate ident s = (case get (templates s) ident of None \<Rightarrow> Inl (TemplateNotFound ident) | Some t \<Rightarrow> Inr t)"

definition ListTemplates :: "int list \<Rightarrow> Store_awx \<Rightarrow> JobTemplate list" where
  "ListTemplates ks s = values_along (templates s) ks"

section \<open>Launching\<close>

datatype stage = Filed | Running | Armed | Returning

record launch =
  ln_stage :: stage
  ln_epoch :: nat
  ln_timer :: Timer

record System =
  sy_store :: Store_awx
  sy_epoch :: nat
  sy_launches :: "(nat, launch) gomap"
  sy_armed :: "(nat, Timer) gomap"
  sy_fired :: "(nat, Timer) gomap"
  sy_next :: nat

definition boot_awx :: System where
  "boot_awx = \<lparr>sy_store = NewStore_awx, sy_epoch = 0, sy_launches = fmempty, sy_armed = fmempty,
     sy_fired = fmempty, sy_next = 0\<rparr>"

definition put_jobs :: "(int, Job) gomap \<Rightarrow> System \<Rightarrow> System" where
  "put_jobs js y = y\<lparr>sy_store := (sy_store y)\<lparr>jobs := js\<rparr>\<rparr>"

definition set_stage :: "nat \<Rightarrow> launch \<Rightarrow> stage \<Rightarrow> System \<Rightarrow> System" where
  "set_stage h lau st y = y\<lparr>sy_launches := fmupd h (lau\<lparr>ln_stage := st\<rparr>) (sy_launches y)\<rparr>"

text \<open>The first time under the lock: the job is filed as pending.\<close>

definition timer_of :: "JobTemplate \<Rightarrow> int \<Rightarrow> Timer" where
  "timer_of t jobID = \<lparr>tm_Duration = int64 (jt_ExpectedDurationMs t * 1000000), tm_JobID = jobID,
     tm_TemplateID = jt_ID t, tm_FailureRate = jt_FailureRate t\<rparr>"

definition launch_file ::
    "int \<Rightarrow> int \<Rightarrow> (string, json) gomap \<Rightarrow> System \<Rightarrow> (awx_error + nat) \<times> System" where
  "launch_file now templateID extraVars y =
     (let s = sy_store y in
      case get (templates s) templateID of
        None \<Rightarrow> (Inl (TemplateNotFound templateID), y)
      | Some t \<Rightarrow>
          let ident = nextJobID s;
              job = \<lparr>jb_ID = ident, jb_JobTemplate = templateID, jb_Status = ''pending'', jb_ExtraVars = extraVars,
                     jb_Created = now, jb_Started = None, jb_Finished = None\<rparr>;
              tm = timer_of t ident
          in (Inr (sy_next y),
              y\<lparr>sy_store := s\<lparr>jobs := fmupd ident job (jobs s), nextJobID := int64 (ident + 1)\<rparr>,
                sy_launches := fmupd (sy_next y) \<lparr>ln_stage = Filed, ln_epoch = sy_epoch y, ln_timer = tm\<rparr> (sy_launches y),
                sy_next := Suc (sy_next y)\<rparr>))"

text \<open>The second time: a job that is still pending starts to run, if a reset has not dropped it.\<close>

definition start_job :: "int \<Rightarrow> Job \<Rightarrow> Job" where
  "start_job now job = (if jb_Status job = ''pending'' then job\<lparr>jb_Status := ''running'', jb_Started := Some now\<rparr> else job)"

definition launch_run :: "int \<Rightarrow> nat \<Rightarrow> System \<Rightarrow> System" where
  "launch_run now h y =
     (case get (sy_launches y) h of
        None \<Rightarrow> y
      | Some lau \<Rightarrow>
          let ident = tm_JobID (ln_timer lau); js = jobs (sy_store y);
              js' = (if ln_epoch lau = sy_epoch y
                     then (case get js ident of None \<Rightarrow> js | Some job \<Rightarrow> fmupd ident (start_job now job) js) else js)
          in set_stage h lau Running (put_jobs js' y))"

text \<open>The timer is armed, then entered in the list that a reset stops.\<close>

definition launch_arm :: "nat \<Rightarrow> System \<Rightarrow> System" where
  "launch_arm h y =
     (case get (sy_launches y) h of
        None \<Rightarrow> y
      | Some lau \<Rightarrow> set_stage h lau Armed (y\<lparr>sy_armed := fmupd h (ln_timer lau) (sy_armed y)\<rparr>))"

definition launch_enter :: "nat \<Rightarrow> System \<Rightarrow> System" where
  "launch_enter h y =
     (case get (sy_launches y) h of
        None \<Rightarrow> y
      | Some lau \<Rightarrow> set_stage h lau Returning (y\<lparr>sy_store := (sy_store y)\<lparr>timers := timers (sy_store y) @ [h]\<rparr>\<rparr>))"

text \<open>The request that launched the job is answered, and its context is cancelled.\<close>

definition launch_return :: "nat \<Rightarrow> System \<Rightarrow> System" where
  "launch_return h y = y\<lparr>sy_launches := fmdrop h (sy_launches y)\<rparr>"

definition LaunchJob ::
    "int \<Rightarrow> int \<Rightarrow> int \<Rightarrow> (string, json) gomap \<Rightarrow> System \<Rightarrow> (awx_error + nat) \<times> System" where
  "LaunchJob now started templateID extraVars y =
     (case launch_file now templateID extraVars y of
        (Inl e, y') \<Rightarrow> (Inl e, y')
      | (Inr h, y') \<Rightarrow> (Inr h, launch_enter h (launch_arm h (launch_run started h y'))))"

section \<open>Completion\<close>

record Callback =
  ck_URL :: string
  ck_Token :: string
  ck_JobID :: int
  ck_TemplateID :: int
  ck_Status :: string
  ck_Finished :: int
  ck_ExtraVars :: "(string, json) gomap"

definition expire :: "nat \<Rightarrow> System \<Rightarrow> System" where
  "expire h y =
     (case get (sy_armed y) h of
        None \<Rightarrow> y
      | Some tm \<Rightarrow> y\<lparr>sy_armed := fmdrop h (sy_armed y), sy_fired := fmupd h tm (sy_fired y)\<rparr>)"

definition finish_job :: "int \<Rightarrow> f64 \<Rightarrow> f64 \<Rightarrow> Job \<Rightarrow> Job" where
  "finish_job now rnd failureRate job =
     job\<lparr>jb_Finished := Some now, jb_Status := (if f64_less rnd failureRate then ''failed'' else ''successful'')\<rparr>"

text \<open>
  The callback goes out with the context of the request that launched the job: once that request
  is answered the context is cancelled, and the HTTP client of Go refuses to send.
\<close>

definition sendCallback :: "bool \<Rightarrow> CallbackConfig \<Rightarrow> Timer \<Rightarrow> int \<Rightarrow> Job \<Rightarrow> Callback list" where
  "sendCallback ctx_alive cb tm now job =
     (if ctx_alive
      then [\<lparr>ck_URL = cb_CallbackURL cb, ck_Token = cb_AuthToken cb, ck_JobID = tm_JobID tm,
             ck_TemplateID = tm_TemplateID tm, ck_Status = jb_Status job, ck_Finished = now,
             ck_ExtraVars = jb_ExtraVars job\<rparr>]
      else [])"

definition completeJob :: "int \<Rightarrow> f64 \<Rightarrow> nat \<Rightarrow> System \<Rightarrow> Callback list \<times> System" where
  "completeJob now rnd h y =
     (case get (sy_fired y) h of
        None \<Rightarrow> ([], y)
      | Some tm \<Rightarrow>
          let y1 = y\<lparr>sy_fired := fmdrop h (sy_fired y)\<rparr>; s = sy_store y in
          case get (jobs s) (tm_JobID tm) of
            None \<Rightarrow> ([], y1)
          | Some job \<Rightarrow>
              if jb_Status job \<noteq> ''running'' then ([], y1)
              else let job' = finish_job now rnd (tm_FailureRate tm) job; cb = callback s in
                (if cb_Enabled cb \<and> cb_CallbackURL cb \<noteq> ''''
                 then sendCallback (get (sy_launches y) h \<noteq> None) cb tm now job' else [],
                 put_jobs (fmupd (tm_JobID tm) job' (jobs s)) y1))"

section \<open>Other operations\<close>

definition GetJob :: "int \<Rightarrow> Store_awx \<Rightarrow> awx_error + Job" where
  "GetJob ident s = (case get (jobs s) ident of None \<Rightarrow> Inl (JobNotFound ident) | Some job \<Rightarrow> Inr job)"

definition CancelJob :: "int \<Rightarrow> int \<Rightarrow> System \<Rightarrow> (awx_error + Job) \<times> System" where
  "CancelJob now ident y =
     (case get (jobs (sy_store y)) ident of
        None \<Rightarrow> (Inl (JobNotFound ident), y)
      | Some job \<Rightarrow>
          if jb_Status job \<noteq> ''pending'' \<and> jb_Status job \<noteq> ''running''
          then (Inl (NotCancelable ident (jb_Status job)), y)
          else let job' = job\<lparr>jb_Status := ''canceled'', jb_Finished := Some now\<rparr>
               in (Inr job', put_jobs (fmupd ident job' (jobs (sy_store y))) y))"

definition SetCallback :: "CallbackConfig \<Rightarrow> System \<Rightarrow> System" where
  "SetCallback cfg y = y\<lparr>sy_store := (sy_store y)\<lparr>callback := cfg\<rparr>\<rparr>"

definition GetCallback :: "Store_awx \<Rightarrow> CallbackConfig" where
  "GetCallback s = callback s"

definition count_job :: "int \<Rightarrow> Job \<Rightarrow> Stats_awx \<Rightarrow> Stats_awx" where
  "count_job ident job st =
     (let x = jb_Status job in
      if x = ''pending'' then st\<lparr>n_Pending := int64 (n_Pending st + 1)\<rparr>
      else if x = ''running'' then st\<lparr>n_Running := int64 (n_Running st + 1)\<rparr>
      else if x = ''successful'' then st\<lparr>n_Successful := int64 (n_Successful st + 1)\<rparr>
      else if x = ''failed'' then st\<lparr>n_Failed := int64 (n_Failed st + 1)\<rparr>
      else if x = ''canceled'' then st\<lparr>n_Canceled := int64 (n_Canceled st + 1)\<rparr>
      else st)"

definition zero_stats :: Stats_awx where
  "zero_stats = \<lparr>n_Pending = 0, n_Running = 0, n_Successful = 0, n_Failed = 0, n_Canceled = 0\<rparr>"

definition GetStats_awx :: "Store_awx \<Rightarrow> Stats_awx" where
  "GetStats_awx s = range_fold count_job (jobs s) zero_stats"

text \<open>Stopping a timer keeps it from going off; one that has gone off is past stopping.\<close>

definition Reset_awx :: "System \<Rightarrow> System" where
  "Reset_awx y =
     y\<lparr>sy_armed := fmfilter (\<lambda>h. h \<notin> set (timers (sy_store y))) (sy_armed y),
       sy_store := NewStore_awx, sy_epoch := Suc (sy_epoch y)\<rparr>"

section \<open>Steps\<close>

datatype awx_event =
    CreatesTemplate string string int f64
  | Files int int "(string, json) gomap"
  | Runs int nat
  | Arms nat
  | Enters nat
  | Returns nat
  | Expires nat
  | Completes int f64 nat
  | Cancels int int
  | Configures CallbackConfig
  | Resets

definition at_stage :: "System \<Rightarrow> nat \<Rightarrow> stage \<Rightarrow> bool" where
  "at_stage y h st \<longleftrightarrow> (\<exists>lau. get (sy_launches y) h = Some lau \<and> ln_stage lau = st)"

inductive awx_step :: "System \<Rightarrow> awx_event \<Rightarrow> Callback list \<Rightarrow> System \<Rightarrow> bool" where
  create: "awx_step y (CreatesTemplate a b c d) [] (y\<lparr>sy_store := snd (CreateTemplate a b c d (sy_store y))\<rparr>)"
| filed: "awx_step y (Files now tid ev) [] (snd (launch_file now tid ev y))"
| run: "at_stage y h Filed \<Longrightarrow> awx_step y (Runs now h) [] (launch_run now h y)"
| arm: "at_stage y h Running \<Longrightarrow> awx_step y (Arms h) [] (launch_arm h y)"
| enter: "at_stage y h Armed \<Longrightarrow> awx_step y (Enters h) [] (launch_enter h y)"
| answer: "at_stage y h Returning \<Longrightarrow> awx_step y (Returns h) [] (launch_return h y)"
| expire: "awx_step y (Expires h) [] (expire h y)"
| complete: "completeJob now rnd h y = (cbs, y') \<Longrightarrow> awx_step y (Completes now rnd h) cbs y'"
| cancel: "awx_step y (Cancels now ident) [] (snd (CancelJob now ident y))"
| configure: "awx_step y (Configures cfg) [] (SetCallback cfg y)"
| reset: "awx_step y Resets [] (Reset_awx y)"

inductive awx_run :: "System \<Rightarrow> awx_event list \<Rightarrow> Callback list \<Rightarrow> System \<Rightarrow> bool" where
  none: "awx_run y [] [] y"
| more: "awx_run y es cbs y' \<Longrightarrow> awx_step y' e cbs' y'' \<Longrightarrow> awx_run y (es @ [e]) (cbs @ cbs') y''"

inductive_cases awx_stepE: "awx_step y e cbs y'"
inductive_cases awx_run_nil: "awx_run y [] cbs y'"

end
