(* ===== verification/AWX_Theorems.thy ===== *)
theory AWX_Theorems
  imports AWX_State
begin

text \<open>
  What awx-sim promises of its jobs, over every interleaving of requests, timers and resets: the
  record of a job is consistent with its status, a finished job never changes, no job is left
  behind; and two things that go wrong, callbacks that are never sent and a timer that completes
  a job it does not belong to.
\<close>

section \<open>The invariant\<close>

definition finished_status :: "string \<Rightarrow> bool" where
  "finished_status x \<longleftrightarrow> x = ''successful'' \<or> x = ''failed'' \<or> x = ''canceled''"

definition job_ok :: "Job \<Rightarrow> bool" where
  "job_ok job \<longleftrightarrow>
     (if jb_Status job = ''pending'' then jb_Started job = None \<and> jb_Finished job = None
      else if jb_Status job = ''running'' then jb_Started job \<noteq> None \<and> jb_Finished job = None
      else if jb_Status job = ''canceled'' then jb_Finished job \<noteq> None
      else finished_status (jb_Status job) \<and> jb_Started job \<noteq> None \<and> jb_Finished job \<noteq> None)"

definition launching :: "System \<Rightarrow> stage \<Rightarrow> int \<Rightarrow> bool" where
  "launching y st k \<longleftrightarrow> (\<exists>h lau. get (sy_launches y) h = Some lau \<and> ln_stage lau = st \<and>
     ln_epoch lau = sy_epoch y \<and> tm_JobID (ln_timer lau) = k)"

definition timed :: "System \<Rightarrow> int \<Rightarrow> bool" where
  "timed y k \<longleftrightarrow> (\<exists>h tm. (get (sy_armed y) h = Some tm \<or> get (sy_fired y) h = Some tm) \<and> tm_JobID tm = k)"

text \<open>Somebody is at work on every job that is not finished.\<close>

definition attended :: "System \<Rightarrow> int \<Rightarrow> Job \<Rightarrow> bool" where
  "attended y k job \<longleftrightarrow> (jb_Status job = ''pending'' \<longrightarrow> launching y Filed k) \<and>
     (jb_Status job = ''running'' \<longrightarrow> launching y Running k \<or> timed y k)"

definition handles_ok :: "System \<Rightarrow> bool" where
  "handles_ok y \<longleftrightarrow> (\<forall>h.
     (sy_next y \<le> h \<longrightarrow> get (sy_launches y) h = None \<and> get (sy_armed y) h = None \<and> get (sy_fired y) h = None) \<and>
     (get (sy_armed y) h \<noteq> None \<longrightarrow> get (sy_fired y) h = None) \<and>
     (at_stage y h Filed \<or> at_stage y h Running \<longrightarrow> get (sy_armed y) h = None \<and> get (sy_fired y) h = None))"

definition jobs_ok :: "System \<Rightarrow> bool" where
  "jobs_ok y \<longleftrightarrow> fmpred (\<lambda>k job. jb_ID job = k \<and> job_ok job \<and> attended y k job) (jobs (sy_store y))"

lemma launching_upd:
  assumes "get (sy_launches y) h = Some lau" "ln_stage lau = st"
    and "sy_launches y' = fmupd h (lau\<lparr>ln_stage := st'\<rparr>) (sy_launches y)" "sy_epoch y' = sy_epoch y"
  shows "launching y st0 k \<Longrightarrow> st0 \<noteq> st \<Longrightarrow> launching y' st0 k"
    "launching y st k \<Longrightarrow> launching y' st k \<or> (tm_JobID (ln_timer lau) = k \<and> ln_epoch lau = sy_epoch y)"
    "tm_JobID (ln_timer lau) = k \<Longrightarrow> ln_epoch lau = sy_epoch y \<Longrightarrow> launching y' st' k"
proof -
  show "launching y' st0 k" if other: "launching y st0 k" "st0 \<noteq> st"
  proof -
    obtain g la where g: "get (sy_launches y) g = Some la" "ln_stage la = st0" "ln_epoch la = sy_epoch y" "tm_JobID (ln_timer la) = k"
      using other(1) by (auto simp: launching_def)
    then have "g \<noteq> h" using other(2) assms(1,2) by auto
    then show ?thesis using g assms(3,4) by (auto simp: launching_def)
  qed
  show "launching y' st k \<or> (tm_JobID (ln_timer lau) = k \<and> ln_epoch lau = sy_epoch y)" if same: "launching y st k"
  proof -
    obtain g la where g: "get (sy_launches y) g = Some la" "ln_stage la = st" "ln_epoch la = sy_epoch y" "tm_JobID (ln_timer la) = k"
      using same by (auto simp: launching_def)
    show ?thesis using g assms by (cases "g = h") (auto simp: launching_def)
  qed
  show "launching y' st' k" if "tm_JobID (ln_timer lau) = k" "ln_epoch lau = sy_epoch y"
    using that assms(3,4) unfolding launching_def by (intro exI [of _ h]) auto
qed

lemma attended_more:
  assumes "attended y k job" "sy_epoch y' = sy_epoch y"
    and "\<And>h lau. get (sy_launches y) h = Some lau \<Longrightarrow> ln_stage lau = Filed \<or> ln_stage lau = Running \<Longrightarrow> get (sy_launches y') h = Some lau"
    and "\<And>k. timed y k \<Longrightarrow> timed y' k"
  shows "attended y' k job"
  using assms unfolding attended_def launching_def by metis

lemma jobs_okI:
  assumes "\<And>k job. get (jobs (sy_store y)) k = Some job \<Longrightarrow> jb_ID job = k \<and> job_ok job \<and> attended y k job"
  shows "jobs_ok y"
  using assms by (auto simp: jobs_ok_def fmpred_iff)

lemma jobs_okD: "jobs_ok y \<Longrightarrow> get (jobs (sy_store y)) k = Some job \<Longrightarrow> jb_ID job = k \<and> job_ok job \<and> attended y k job"
  by (auto simp: jobs_ok_def fmpred_iff)

section \<open>Every step keeps it\<close>

lemma file_keeps:
  assumes "jobs_ok y" "handles_ok y"
  shows "jobs_ok (snd (launch_file now tid ev y))" "handles_ok (snd (launch_file now tid ev y))"
proof -
  let ?y = "snd (launch_file now tid ev y)"
  show "handles_ok ?y"
  proof (cases "get (templates (sy_store y)) tid")
    case (Some t)
    let ?lau = "\<lparr>ln_stage = Filed, ln_epoch = sy_epoch y, ln_timer = timer_of t (nextJobID (sy_store y))\<rparr>"
    have upd: "sy_launches ?y = fmupd (sy_next y) ?lau (sy_launches y)" "sy_next ?y = Suc (sy_next y)"
      "sy_armed ?y = sy_armed y" "sy_fired ?y = sy_fired y"
      using Some by (simp_all add: launch_file_def Let_def)
    show ?thesis
      using assms(2) unfolding handles_ok_def at_stage_def upd by (auto split: if_splits)
  qed (use assms(2) in \<open>simp add: launch_file_def\<close>)
  show "jobs_ok ?y"
  proof (cases "get (templates (sy_store y)) tid")
    case (Some t)
    have free: "get (sy_launches y) (sy_next y) = None" using assms(2) by (simp add: handles_ok_def)
    have old: "attended ?y k job" if "attended y k job" for k job
      using that by (rule attended_more) (use free Some in \<open>auto simp: launch_file_def Let_def timed_def split: if_splits\<close>)
    have new: "launching ?y Filed (nextJobID (sy_store y))"
      using Some unfolding launching_def by (intro exI [of _ "sy_next y"]) (simp add: launch_file_def Let_def timer_of_def)
    let ?job = "\<lparr>jb_ID = nextJobID (sy_store y), jb_JobTemplate = tid, jb_Status = ''pending'', jb_ExtraVars = ev,
      jb_Created = now, jb_Started = None, jb_Finished = None\<rparr>"
    have js: "get (jobs (sy_store ?y)) k = (if k = nextJobID (sy_store y) then Some ?job else get (jobs (sy_store y)) k)" for k
      using Some by (simp add: launch_file_def Let_def)
    have "job_ok ?job" "attended ?y (nextJobID (sy_store y)) ?job"
      using new by (simp_all add: job_ok_def attended_def)
    then show ?thesis
      by (intro jobs_okI) (use jobs_okD [OF assms(1)] old in \<open>auto simp: js split: if_splits\<close>)
  qed (use assms(1) in \<open>simp add: launch_file_def\<close>)
qed

lemma start_job_ok: "job_ok job \<Longrightarrow> job_ok (start_job now job)"
  by (auto simp: job_ok_def start_job_def)

lemma launch_run_keeps:
  assumes "jobs_ok y" "handles_ok y" "at_stage y h Filed"
  shows "jobs_ok (launch_run now h y)" "handles_ok (launch_run now h y)"
proof -
  let ?y = "launch_run now h y"
  obtain lau where lau: "get (sy_launches y) h = Some lau" "ln_stage lau = Filed"
    using assms(3) by (auto simp: at_stage_def)
  have upd: "sy_launches ?y = fmupd h (lau\<lparr>ln_stage := Running\<rparr>) (sy_launches y)" "sy_epoch ?y = sy_epoch y"
    "sy_armed ?y = sy_armed y" "sy_fired ?y = sy_fired y" "sy_next ?y = sy_next y"
    using lau by (simp_all add: launch_run_def Let_def set_stage_def put_jobs_def)
  show "handles_ok ?y"
    using assms(2,3) lau(1) unfolding handles_ok_def at_stage_def upd by (metis fmupd_lookup option.distinct(1))
  let ?k = "tm_JobID (ln_timer lau)"
  have js: "get (jobs (sy_store ?y)) k = (if k = ?k \<and> ln_epoch lau = sy_epoch y
      then map_option (start_job now) (get (jobs (sy_store y)) k) else get (jobs (sy_store y)) k)" for k
    using lau by (auto simp: launch_run_def Let_def set_stage_def put_jobs_def split: option.split)
  note upds = launching_upd [OF lau upd(1,2)]
  show "jobs_ok ?y"
  proof (rule jobs_okI)
    fix k job' assume "get (jobs (sy_store ?y)) k = Some job'"
    then obtain job where job: "get (jobs (sy_store y)) k = Some job"
      and job': "job' = (if k = ?k \<and> ln_epoch lau = sy_epoch y then start_job now job else job)"
      by (auto simp: js split: if_splits)
    note ok = jobs_okD [OF assms(1) job]
    have "attended ?y k job'"
      using ok upds(1) [of _ k] upds(2) [of k] upds(3) [of k] job' unfolding attended_def start_job_def timed_def upd by (auto split: if_splits)
    then show "jb_ID job' = k \<and> job_ok job' \<and> attended ?y k job'"
      using ok job' start_job_ok by (auto simp: start_job_def)
  qed
qed

lemma arm_keeps:
  assumes "jobs_ok y" "handles_ok y" "at_stage y h Running"
  shows "jobs_ok (launch_arm h y)" "handles_ok (launch_arm h y)"
proof -
  let ?y = "launch_arm h y"
  obtain lau where lau: "get (sy_launches y) h = Some lau" "ln_stage lau = Running"
    using assms(3) by (auto simp: at_stage_def)
  have upd: "sy_launches ?y = fmupd h (lau\<lparr>ln_stage := Armed\<rparr>) (sy_launches y)" "sy_epoch ?y = sy_epoch y"
    "sy_armed ?y = fmupd h (ln_timer lau) (sy_armed y)" "sy_fired ?y = sy_fired y" "sy_next ?y = sy_next y"
    "sy_store ?y = sy_store y"
    using lau by (simp_all add: launch_arm_def set_stage_def)
  have none: "get (sy_armed y) h = None" "get (sy_fired y) h = None" "h < sy_next y"
    using assms(2,3) lau(1) unfolding handles_ok_def by (auto simp: not_le [symmetric])
  show "handles_ok ?y"
    using assms(2) none unfolding handles_ok_def at_stage_def upd by (auto split: if_splits)
  note upds = launching_upd [OF lau upd(1,2)]
  have keep: "timed ?y k" if "timed y k" for k
    using that none unfolding timed_def upd by (metis fmupd_lookup option.distinct(1))
  have new: "timed ?y (tm_JobID (ln_timer lau))" unfolding timed_def upd by (metis fmupd_lookup)
  show "jobs_ok ?y"
  proof (rule jobs_okI)
    fix k job assume job: "get (jobs (sy_store ?y)) k = Some job"
    note ok = jobs_okD [OF assms(1) job [unfolded upd]]
    then have "attended ?y k job"
      using upds(1) [of Filed k] upds(2) [of k] keep [of k] new unfolding attended_def by auto
    with ok show "jb_ID job = k \<and> job_ok job \<and> attended ?y k job" by simp
  qed
qed

lemma enter_keeps:
  assumes "jobs_ok y" "handles_ok y" "at_stage y h Armed"
  shows "jobs_ok (launch_enter h y)" "handles_ok (launch_enter h y)"
proof -
  let ?y = "launch_enter h y"
  obtain lau where lau: "get (sy_launches y) h = Some lau" "ln_stage lau = Armed"
    using assms(3) by (auto simp: at_stage_def)
  have upd: "sy_launches ?y = fmupd h (lau\<lparr>ln_stage := Returning\<rparr>) (sy_launches y)" "sy_epoch ?y = sy_epoch y"
    "sy_armed ?y = sy_armed y" "sy_fired ?y = sy_fired y" "sy_next ?y = sy_next y" "jobs (sy_store ?y) = jobs (sy_store y)"
    using lau by (simp_all add: launch_enter_def set_stage_def)
  have "h < sy_next y" using assms(2) lau(1) unfolding handles_ok_def by (auto simp: not_le [symmetric])
  then show "handles_ok ?y"
    using assms(2) unfolding handles_ok_def at_stage_def upd by (auto split: if_splits)
  have keep: "attended ?y k job" if "attended y k job" for k job
    using that by (rule attended_more) (use lau in \<open>auto simp: upd timed_def\<close>)
  show "jobs_ok ?y"
    by (rule jobs_okI) (use jobs_okD [OF assms(1)] keep in \<open>auto simp: upd\<close>)
qed

lemma return_keeps:
  assumes "jobs_ok y" "handles_ok y" "at_stage y h Returning"
  shows "jobs_ok (launch_return h y)" "handles_ok (launch_return h y)"
proof -
  let ?y = "launch_return h y"
  have upd: "sy_launches ?y = fmdrop h (sy_launches y)" "sy_epoch ?y = sy_epoch y"
    "sy_armed ?y = sy_armed y" "sy_fired ?y = sy_fired y" "sy_next ?y = sy_next y" "sy_store ?y = sy_store y"
    by (simp_all add: launch_return_def)
  show "handles_ok ?y"
    using assms(2) unfolding handles_ok_def at_stage_def upd by (auto split: if_splits)
  have keep: "attended ?y k job" if "attended y k job" for k job
    using that by (rule attended_more) (use assms(3) in \<open>auto simp: upd timed_def at_stage_def\<close>)
  show "jobs_ok ?y"
    by (rule jobs_okI) (use jobs_okD [OF assms(1)] keep in \<open>auto simp: upd\<close>)
qed

lemma expire_keeps:
  assumes "jobs_ok y" "handles_ok y"
  shows "jobs_ok (expire h y)" "handles_ok (expire h y)"
proof -
  let ?y = "expire h y"
  have "jobs_ok ?y \<and> handles_ok ?y"
  proof (cases "get (sy_armed y) h")
    case (Some tm)
    have upd: "sy_launches ?y = sy_launches y" "sy_epoch ?y = sy_epoch y" "sy_armed ?y = fmdrop h (sy_armed y)"
      "sy_fired ?y = fmupd h tm (sy_fired y)" "sy_next ?y = sy_next y" "sy_store ?y = sy_store y"
      using Some by (simp_all add: expire_def)
    have none: "get (sy_fired y) h = None" "h < sy_next y" "\<not> at_stage y h Filed" "\<not> at_stage y h Running"
      using assms(2) Some unfolding handles_ok_def by (auto simp: not_le [symmetric])
    have "handles_ok ?y"
      using assms(2) none unfolding handles_ok_def at_stage_def upd by (auto split: if_splits)
    moreover have "timed ?y k" if "timed y k" for k
      using that Some none(1) unfolding timed_def upd by (metis fmlookup_drop fmupd_lookup option.inject option.distinct(1))
    then have keep: "attended ?y k job" if "attended y k job" for k job
      by (intro attended_more [OF that]) (auto simp: upd)
    have "jobs_ok ?y"
      by (rule jobs_okI) (use jobs_okD [OF assms(1)] keep in \<open>auto simp: upd\<close>)
    ultimately show ?thesis by simp
  qed (use assms in \<open>simp add: expire_def\<close>)
  then show "jobs_ok ?y" "handles_ok ?y" by simp_all
qed

lemma complete_keeps:
  assumes "jobs_ok y" "handles_ok y" "completeJob now rnd h y = (cbs, y')"
  shows "jobs_ok y'" "handles_ok y'"
proof -
  have "jobs_ok y' \<and> handles_ok y'"
  proof (cases "get (sy_fired y) h")
    case (Some tm)
    let ?k = "tm_JobID tm" let ?js = "jobs (sy_store y)"
    have upd: "sy_launches y' = sy_launches y" "sy_epoch y' = sy_epoch y" "sy_armed y' = sy_armed y"
      "sy_fired y' = fmdrop h (sy_fired y)" "sy_next y' = sy_next y"
      using assms(3) Some by (auto simp: completeJob_def Let_def put_jobs_def split: option.splits if_splits)
    have js: "get (jobs (sy_store y')) k = (if k = ?k
        then map_option (\<lambda>job. if jb_Status job = ''running'' then finish_job now rnd (tm_FailureRate tm) job else job) (get ?js k)
        else get ?js k)" for k
      using assms(3) Some by (auto simp: completeJob_def Let_def put_jobs_def split: option.splits if_splits)
    have "handles_ok y'"
      using assms(2) unfolding handles_ok_def at_stage_def upd by auto
    moreover have keep: "timed y' k" if "timed y k" "k \<noteq> ?k" for k
      using that Some unfolding timed_def upd by (metis fmlookup_drop option.inject)
    have "jobs_ok y'"
    proof (rule jobs_okI)
      fix k job' assume j: "get (jobs (sy_store y')) k = Some job'"
      then obtain job where job: "get ?js k = Some job"
        using js [of k] by (cases "get ?js k") (auto split: if_splits)
      have job': "job' = (if k = ?k \<and> jb_Status job = ''running'' then finish_job now rnd (tm_FailureRate tm) job else job)"
        using j job js [of k] by (auto split: if_splits)
      note ok = jobs_okD [OF assms(1) job]
      have "attended y' k job'"
        using ok keep [of k] job' unfolding attended_def launching_def upd by (auto simp: finish_job_def split: if_splits)
      then show "jb_ID job' = k \<and> job_ok job' \<and> attended y' k job'"
        using ok job' by (auto simp: finish_job_def job_ok_def finished_status_def)
    qed
    ultimately show ?thesis by simp
  qed (use assms in \<open>simp add: completeJob_def\<close>)
  then show "jobs_ok y'" "handles_ok y'" by simp_all
qed

lemma cancel_keeps:
  assumes "jobs_ok y" "handles_ok y"
  shows "jobs_ok (snd (CancelJob now k y))" "handles_ok (snd (CancelJob now k y))"
proof -
  let ?y = "snd (CancelJob now k y)" let ?js = "jobs (sy_store y)"
  have upd: "sy_launches ?y = sy_launches y" "sy_epoch ?y = sy_epoch y" "sy_armed ?y = sy_armed y"
    "sy_fired ?y = sy_fired y" "sy_next ?y = sy_next y"
    by (simp_all add: CancelJob_def Let_def put_jobs_def split: option.split)
  have js: "get (jobs (sy_store ?y)) i = (if i = k then map_option (\<lambda>job.
      if jb_Status job = ''pending'' \<or> jb_Status job = ''running''
      then job\<lparr>jb_Status := ''canceled'', jb_Finished := Some now\<rparr> else job) (get ?js i) else get ?js i)" for i
    by (auto simp: CancelJob_def Let_def put_jobs_def split: option.split)
  show "handles_ok ?y" using assms(2) unfolding handles_ok_def at_stage_def upd .
  show "jobs_ok ?y"
  proof (rule jobs_okI)
    fix i job' assume j: "get (jobs (sy_store ?y)) i = Some job'"
    then obtain job where job: "get ?js i = Some job"
      using js [of i] by (cases "get ?js i") (auto split: if_splits)
    note ok = jobs_okD [OF assms(1) job]
    have "job' = job \<or> job' = job\<lparr>jb_Status := ''canceled'', jb_Finished := Some now\<rparr>"
      using j job js [of i] by (auto split: if_splits)
    moreover have "attended ?y i job" using ok unfolding attended_def launching_def timed_def upd by simp
    moreover have "jb_ID job' = i \<and> job_ok job' \<and> attended ?y i job'"
      if "job' = job\<lparr>jb_Status := ''canceled'', jb_Finished := Some now\<rparr>"
      using ok unfolding that by (simp add: job_ok_def attended_def)
    ultimately show "jb_ID job' = i \<and> job_ok job' \<and> attended ?y i job'" using ok by blast
  qed
qed

lemma awx_step_keeps:
  assumes "awx_step y e cbs y'" "jobs_ok y" "handles_ok y"
  shows "jobs_ok y' \<and> handles_ok y'"
  using assms
proof (cases rule: awx_step.cases)
  case (create a b c d)
  then have "jobs (sy_store y') = jobs (sy_store y)" by (simp add: CreateTemplate_def Let_def)
  then show ?thesis
    using assms(2,3) create
    by (simp add: jobs_ok_def handles_ok_def at_stage_def attended_def launching_def timed_def)
next
  case (configure cfg)
  then show ?thesis
    using assms(2,3)
    by (simp add: SetCallback_def jobs_ok_def handles_ok_def at_stage_def attended_def launching_def timed_def)
next
  case reset
  then show ?thesis
    using assms(3) by (auto simp: Reset_awx_def NewStore_awx_def jobs_ok_def handles_ok_def at_stage_def)
next
  case (filed now tid ev)
  then show ?thesis using file_keeps [OF assms(2,3)] by simp
next
  case (run h now)
  then show ?thesis using launch_run_keeps [OF assms(2,3)] by simp
next
  case (arm h)
  then show ?thesis using arm_keeps [OF assms(2,3)] by simp
next
  case (enter h)
  then show ?thesis using enter_keeps [OF assms(2,3)] by simp
next
  case (answer h)
  then show ?thesis using return_keeps [OF assms(2,3)] by simp
next
  case (expire h)
  then show ?thesis using expire_keeps [OF assms(2,3)] by simp
next
  case (complete now rnd h)
  then show ?thesis using complete_keeps [OF assms(2,3)] by simp
next
  case (cancel now ident)
  then show ?thesis using cancel_keeps [OF assms(2,3)] by simp
qed

lemma run_ok: "awx_run y es cbs y' \<Longrightarrow> jobs_ok y \<Longrightarrow> handles_ok y \<Longrightarrow> jobs_ok y' \<and> handles_ok y'"
  by (induction rule: awx_run.induct) (use awx_step_keeps in blast)+

lemma boot_ok: "jobs_ok boot_awx" "handles_ok boot_awx"
  by (simp_all add: jobs_ok_def handles_ok_def boot_awx_def NewStore_awx_def at_stage_def)

section \<open>Properties\<close>

text \<open>C37: The record of a job always fits its status, whatever happens in whichever order: a pending job has neither
  started nor finished, a running one has started, one that succeeded or failed has started and
  finished, a canceled one has finished; and there are no other statuses.\<close>

theorem job_records_consistent:
  assumes "awx_run boot_awx es cbs y" "get (jobs (sy_store y)) k = Some job"
  shows "jb_ID job = k \<and>
    (jb_Status job = ''pending'' \<and> jb_Started job = None \<and> jb_Finished job = None \<or>
     jb_Status job = ''running'' \<and> jb_Started job \<noteq> None \<and> jb_Finished job = None \<or>
     jb_Status job \<in> {''successful'', ''failed''} \<and> jb_Started job \<noteq> None \<and> jb_Finished job \<noteq> None \<or>
     jb_Status job = ''canceled'' \<and> jb_Finished job \<noteq> None)"
proof -
  have "jb_ID job = k \<and> job_ok job"
    using run_ok [OF assms(1) boot_ok] jobs_okD [OF _ assms(2)] by blast
  then show ?thesis by (auto simp: job_ok_def finished_status_def split: if_splits)
qed

text \<open>A template, and a job of it launched and completed: the jobs, the timers and the callbacks of this run
  are computed step by step.\<close>

fun event_step :: "awx_event \<Rightarrow> System \<Rightarrow> Callback list \<times> System" where
  "event_step (CreatesTemplate a b c d) y = ([], y\<lparr>sy_store := snd (CreateTemplate a b c d (sy_store y))\<rparr>)"
| "event_step (Files now tid ev) y = ([], snd (launch_file now tid ev y))"
| "event_step (Runs now h) y = ([], launch_run now h y)"
| "event_step (Arms h) y = ([], launch_arm h y)"
| "event_step (Enters h) y = ([], launch_enter h y)"
| "event_step (Returns h) y = ([], launch_return h y)"
| "event_step (Expires h) y = ([], expire h y)"
| "event_step (Completes now rnd h) y = completeJob now rnd h y"
| "event_step (Cancels now ident) y = ([], snd (CancelJob now ident y))"
| "event_step (Configures cfg) y = ([], SetCallback cfg y)"
| "event_step Resets y = ([], Reset_awx y)"

fun in_turn :: "awx_event \<Rightarrow> System \<Rightarrow> bool" where
  "in_turn (Runs now h) y = (map_option ln_stage (get (sy_launches y) h) = Some Filed)"
| "in_turn (Arms h) y = (map_option ln_stage (get (sy_launches y) h) = Some Running)"
| "in_turn (Enters h) y = (map_option ln_stage (get (sy_launches y) h) = Some Armed)"
| "in_turn (Returns h) y = (map_option ln_stage (get (sy_launches y) h) = Some Returning)"
| "in_turn _ y = True"

lemma event_step_iff: "awx_step y e cbs y' \<longleftrightarrow> in_turn e y \<and> event_step e y = (cbs, y')"
  by (cases e) (auto simp: at_stage_def elim: awx_stepE intro: awx_step.intros)

text \<open>The whole run of a list of events, and whether each was in turn.\<close>

primrec events_from :: "awx_event list \<Rightarrow> System \<Rightarrow> (Callback list \<times> System) option" where
  "events_from [] y = Some ([], y)"
| "events_from (e # es) y =
     (if in_turn e y then
        (case event_step e y of (cbs, y') \<Rightarrow> map_option (\<lambda>(more_cbs, z). (cbs @ more_cbs, z)) (events_from es y'))
      else None)"

lemma awx_run_append:
  "awx_run y' es' cbs' z \<Longrightarrow> awx_run y es cbs y' \<Longrightarrow> awx_run y (es @ es') (cbs @ cbs') z"
proof (induction rule: awx_run.induct)
  case (more y' es' cbs' z e cbs'' z')
  then show ?case using awx_run.more [of y "es @ es'" "cbs @ cbs'" z e cbs'' z'] by simp
qed simp

lemma awx_run_single: "awx_step y e cbs y' \<Longrightarrow> awx_run y [e] cbs y'"
  using awx_run.more [OF awx_run.none, of y e cbs y'] by simp

lemma events_from_run: "events_from es y = Some (cbs, z) \<Longrightarrow> awx_run y es cbs z"
proof (induction es arbitrary: y cbs)
  case (Cons e es)
  obtain c1 y1 where step: "event_step e y = (c1, y1)" by fastforce
  then obtain c2 where rest: "events_from es y1 = Some (c2, z)" and turn: "in_turn e y" and cbs: "cbs = c1 @ c2"
    using Cons.prems by (auto split: if_splits)
  have "awx_run y [e] c1 y1" using step turn by (intro awx_run_single) (simp add: event_step_iff)
  from awx_run_append [OF Cons.IH [OF rest] this] show ?case using cbs by simp
qed (simp add: awx_run.none)

definition one_job :: "awx_event list" where
  "one_job = [CreatesTemplate ''t'' '''' 5 (Fin 0), Configures \<lparr>cb_Enabled = True, cb_CallbackURL = ''u'', cb_AuthToken = ''a''\<rparr>,
     Files 7 1 fmempty, Runs 8 0, Arms 0, Enters 0, Returns 0, Expires 0]"

lemmas awx_ops = CreateTemplate_def launch_file_def timer_of_def launch_run_def start_job_def launch_arm_def launch_enter_def
  launch_return_def set_stage_def put_jobs_def expire_def completeJob_def finish_job_def sendCallback_def CancelJob_def
  SetCallback_def Reset_awx_def NewStore_awx_def boot_awx_def no_callback_def Let_def

definition job_one :: "string \<Rightarrow> int option \<Rightarrow> Job" where
  "job_one st fin = \<lparr>jb_ID = 1, jb_JobTemplate = 1, jb_Status = st, jb_ExtraVars = fmempty, jb_Created = 7,
     jb_Started = Some 8, jb_Finished = fin\<rparr>"

definition five_ms :: Timer where
  "five_ms = \<lparr>tm_Duration = 5000000, tm_JobID = 1, tm_TemplateID = 1, tm_FailureRate = Fin 0\<rparr>"

definition one_template :: JobTemplate where
  "one_template = \<lparr>jt_ID = 1, jt_Name = ''t'', jt_Description = '''', jt_ExpectedDurationMs = 5, jt_FailureRate = Fin 0\<rparr>"

lemma int64_small: "int64 2 = 2" "int64 5000000 = 5000000" "int64 3 = 3"
  by (simp_all add: int64_id)

definition one_job_system :: "Job \<Rightarrow> (nat, Timer) gomap \<Rightarrow> System" where
  "one_job_system job fired = \<lparr>sy_store = \<lparr>templates = fmupd 1 one_template fmempty, jobs = fmupd 1 job fmempty, nextTemplateID = 2,
     nextJobID = 2, callback = \<lparr>cb_Enabled = True, cb_CallbackURL = ''u'', cb_AuthToken = ''a''\<rparr>, timers = [0]\<rparr>,
     sy_epoch = 0, sy_launches = fmempty, sy_armed = fmempty, sy_fired = fired, sy_next = 1\<rparr>"

lemma one_job_events: "events_from one_job boot_awx = Some ([], one_job_system (job_one ''running'' None) (fmupd 0 five_ms fmempty))"
  by (simp add: one_job_def awx_ops int64_small one_job_system_def job_one_def five_ms_def one_template_def)

lemma one_job_run: "awx_run boot_awx one_job [] (one_job_system (job_one ''running'' None) (fmupd 0 five_ms fmempty))"
  by (rule events_from_run) (rule one_job_events)

lemma one_job_completes:
  "awx_step (one_job_system (job_one ''running'' None) (fmupd 0 five_ms fmempty)) (Completes 9 (Fin (1/2)) 0) []
     (one_job_system (job_one ''successful'' (Some 9)) fmempty)"
  by (simp add: event_step_iff one_job_system_def job_one_def five_ms_def awx_ops)

theorem job_records_consistent_witness:
  "jb_Status (job_one ''running'' None) \<noteq> ''pending''"
  using job_records_consistent [OF one_job_run, of 1 "job_one ''running'' None"]
  by (simp add: one_job_system_def job_one_def)

section \<open>Finished jobs\<close>

text \<open>Jobs are ids_below upwards from one, and a number is not used twice before a reset.\<close>

definition ids_below :: "System \<Rightarrow> nat \<Rightarrow> bool" where
  "ids_below y n \<longleftrightarrow> 1 \<le> nextJobID (sy_store y) \<and> nextJobID (sy_store y) \<le> int n + 1 \<and>
     (\<forall>k. k |\<in>| fmdom (jobs (sy_store y)) \<longrightarrow> k < nextJobID (sy_store y))"

definition settled_in :: "(int, Job) gomap \<Rightarrow> (int, Job) gomap \<Rightarrow> bool" where
  "settled_in js js' \<longleftrightarrow> (\<forall>k job. get js k = Some job \<longrightarrow> finished_status (jb_Status job) \<longrightarrow> get js' k = Some job)"

lemma jobs_updated:
  assumes "event_step e y = (cbs, y')" "e \<noteq> Resets" "\<And>now tid ev. e \<noteq> Files now tid ev"
  shows "settled_in (jobs (sy_store y)) (jobs (sy_store y'))" "nextJobID (sy_store y') = nextJobID (sy_store y)"
    "fmdom (jobs (sy_store y')) = fmdom (jobs (sy_store y))"
proof -
  show "settled_in (jobs (sy_store y)) (jobs (sy_store y'))"
    using assms by (cases e)
      (auto simp: settled_in_def awx_ops finished_status_def split: option.splits if_splits)
  show "nextJobID (sy_store y') = nextJobID (sy_store y)"
    using assms by (cases e) (auto simp: awx_ops split: option.splits if_splits)
  show "fmdom (jobs (sy_store y')) = fmdom (jobs (sy_store y))"
    using assms by (cases e) (auto simp: awx_ops fmdom_notD split: option.splits if_splits intro: fmdomI)
qed

lemma numbered_step:
  assumes "awx_step y e cbs y'" "ids_below y n" "int n < MaxInt64 - 2"
  shows "ids_below y' (Suc n) \<and> (e \<noteq> Resets \<longrightarrow> settled_in (jobs (sy_store y)) (jobs (sy_store y')))"
proof -
  have step: "event_step e y = (cbs, y')" using assms(1) by (simp add: event_step_iff)
  show ?thesis
  proof (cases e)
    case (Files now tid ev)
    show ?thesis
    proof (cases "get (templates (sy_store y)) tid")
      case (Some t)
      have "int64 (nextJobID (sy_store y) + 1) = nextJobID (sy_store y) + 1"
        using assms(2,3) by (intro int64_id) (auto simp: ids_below_def)
      moreover have "get (jobs (sy_store y)) (nextJobID (sy_store y)) = None"
        using assms(2) by (auto simp: ids_below_def fmdom_notD)
      ultimately show ?thesis
        using step Files Some assms(2)
        by (auto simp: ids_below_def settled_in_def launch_file_def Let_def less_imp_le)
    qed (use step Files assms(2) in \<open>auto simp: launch_file_def ids_below_def settled_in_def\<close>)
  next
    case Resets
    then show ?thesis using step by (auto simp: ids_below_def Reset_awx_def NewStore_awx_def)
  qed (use jobs_updated [OF step] assms(2) in \<open>auto simp: ids_below_def\<close>)
qed

lemma run_numbered:
  "awx_run y es cbs y' \<Longrightarrow> ids_below y n \<Longrightarrow> int (n + length es) < MaxInt64 - 1 \<Longrightarrow>
   ids_below y' (n + length es) \<and> (Resets \<notin> set es \<longrightarrow> settled_in (jobs (sy_store y)) (jobs (sy_store y')))"
proof (induction rule: awx_run.induct)
  case (more y es cbs y' e cbs' y'')
  then have "ids_below y' (n + length es)" by simp
  from numbered_step [OF more.hyps(2) this] show ?case
    using more by (auto simp: settled_in_def)
qed (simp add: settled_in_def)

lemma boot_numbered: "ids_below boot_awx 0"
  by (simp add: ids_below_def boot_awx_def NewStore_awx_def)

text \<open>C34: A job that has succeeded, failed or been canceled stays exactly as it is until a reset, whatever requests come
  and whichever timers go off; in a run of fewer than \<open>2 ^ 63 - 3\<close> events the numbers of the jobs do not wrap.\<close>

theorem finished_jobs_stay:
  assumes "awx_run boot_awx es cbs y" "awx_run y es' cbs' y'" "Resets \<notin> set es'"
    and "get (jobs (sy_store y)) k = Some job" "jb_Status job \<in> {''successful'', ''failed'', ''canceled''}"
    and "int (length es + length es') < 2 ^ 63 - 3"
  shows "get (jobs (sy_store y')) k = Some job"
proof -
  have "ids_below y (length es)" using run_numbered [OF assms(1) boot_numbered] assms(6) by simp
  from run_numbered [OF assms(2) this] show ?thesis
    using assms(3-6) by (auto simp: settled_in_def finished_status_def)
qed

theorem finished_jobs_stay_witness:
  "get (jobs (sy_store (one_job_system (job_one ''successful'' (Some 9)) fmempty))) 1 = Some (job_one ''successful'' (Some 9))"
  using finished_jobs_stay [OF awx_run.more [OF one_job_run one_job_completes]
      awx_run_single [of _ "Cancels 10 1" "[]" "one_job_system (job_one ''successful'' (Some 9)) fmempty"], of 1 "job_one ''successful'' (Some 9)"]
  by (simp add: event_step_iff one_job_system_def job_one_def one_job_def CancelJob_def)

section \<open>No job is forgotten\<close>

text \<open>C35: When the requests that launch jobs have been answered and no timer is left, every job is finished:
  a job that is pending or running always has a launch or a timer that will take it on.\<close>

theorem no_job_forgotten:
  assumes "awx_run boot_awx es cbs y" "sy_launches y = fmempty" "sy_armed y = fmempty" "sy_fired y = fmempty"
    and "get (jobs (sy_store y)) k = Some job"
  shows "jb_Status job \<in> {''successful'', ''failed'', ''canceled''} \<and> jb_Finished job \<noteq> None"
proof -
  have ok: "job_ok job" "attended y k job"
    using run_ok [OF assms(1) boot_ok] jobs_okD [OF _ assms(5)] by blast+
  have "\<not> launching y st k" "\<not> timed y k" for st
    using assms(2-4) by (simp_all add: launching_def timed_def)
  then show ?thesis using ok by (auto simp: job_ok_def attended_def finished_status_def split: if_splits)
qed

theorem no_job_forgotten_witness:
  "jb_Finished (job_one ''successful'' (Some 9)) \<noteq> None"
  using no_job_forgotten [OF awx_run.more [OF one_job_run one_job_completes], of 1 "job_one ''successful'' (Some 9)"]
  by (simp add: one_job_system_def)

section \<open>Two things that go wrong\<close>

definition gone :: "nat \<Rightarrow> System \<Rightarrow> bool" where
  "gone h y \<longleftrightarrow> get (sy_launches y) h = None \<and> h < sy_next y"

lemma gone_step: "awx_step y e cbs y' \<Longrightarrow> gone h y \<Longrightarrow> gone h y'"
  unfolding event_step_iff
  by (cases e) (auto simp: gone_def awx_ops split: option.splits if_splits)

lemma gone_run: "awx_run y es cbs y' \<Longrightarrow> gone h y \<Longrightarrow> gone h y'"
  by (induction rule: awx_run.induct) (use gone_step in blast)+

text \<open>Once the request that launched a job has been answered, the completion of the job is never reported to the
  callback URL: the callback is sent with the context of that request, which is cancelled by then.\<close>

theorem callback_lost:
  assumes "awx_run boot_awx es cbs0 y" "awx_step y (Returns h) cbs1 y1" "awx_run y1 es' cbs2 y2"
    and "awx_step y2 (Completes now rnd h) cbs y'"
  shows "cbs = []"
proof -
  have "handles_ok y" using run_ok [OF assms(1) boot_ok] by simp
  moreover have "at_stage y h Returning" "y1 = launch_return h y" using assms(2) by (auto elim: awx_stepE)
  ultimately have "gone h y1"
    by (force simp: gone_def launch_return_def handles_ok_def at_stage_def not_less [symmetric])
  then have "get (sy_launches y2) h = None" using gone_run [OF assms(3)] by (simp add: gone_def)
  then show ?thesis
    using assms(4) by (auto simp: event_step_iff completeJob_def sendCallback_def Let_def split: option.splits if_splits)
qed

lemma one_job_answered:
  "\<exists>y y1. awx_run boot_awx (butlast (butlast one_job)) [] y \<and> awx_step y (Returns 0) [] y1 \<and>
     awx_run y1 [Expires 0] [] (one_job_system (job_one ''running'' None) (fmupd 0 five_ms fmempty))"
proof -
  obtain y where y: "events_from (butlast (butlast one_job)) boot_awx = Some ([], y)"
    and more_events: "events_from [Returns 0, Expires 0] y = Some ([], one_job_system (job_one ''running'' None) (fmupd 0 five_ms fmempty))"
    by (simp add: one_job_def awx_ops int64_small one_job_system_def job_one_def five_ms_def one_template_def)
  obtain c1 y1 where step: "event_step (Returns 0) y = (c1, y1)" by fastforce
  then have "c1 = []" "in_turn (Returns 0) y" using more_events by (auto split: if_splits)
  moreover from this have "events_from [Expires 0] y1 = Some ([], one_job_system (job_one ''running'' None) (fmupd 0 five_ms fmempty))"
    using more_events step by (simp split: if_splits)
  ultimately show ?thesis
    using step events_from_run [OF y] events_from_run by (meson event_step_iff)
qed

theorem callback_lost_witness:
  "\<exists>y. awx_step y (Completes 9 (Fin (1/2)) 0) [] (one_job_system (job_one ''successful'' (Some 9)) fmempty) \<and>
     GetCallback (sy_store y) = \<lparr>cb_Enabled = True, cb_CallbackURL = ''u'', cb_AuthToken = ''a''\<rparr>"
proof -
  obtain y y1 where run: "awx_run boot_awx (butlast (butlast one_job)) [] y" "awx_step y (Returns 0) [] y1"
    "awx_run y1 [Expires 0] [] (one_job_system (job_one ''running'' None) (fmupd 0 five_ms fmempty))"
    using one_job_answered by blast
  obtain cbs where "awx_step (one_job_system (job_one ''running'' None) (fmupd 0 five_ms fmempty)) (Completes 9 (Fin (1/2)) 0) cbs
      (one_job_system (job_one ''successful'' (Some 9)) fmempty)"
    using one_job_completes by blast
  with callback_lost [OF run this] show ?thesis
    by (intro exI [of _ "one_job_system (job_one ''running'' None) (fmupd 0 five_ms fmempty)"])
      (simp add: one_job_system_def GetCallback_def)
qed

text \<open>A reset that comes between the arming of a timer and its entry in the list leaves the timer running. The jobs are
  ids_below from one again, so that the old timer completes the first job launched after the reset, here one
  of an hour, as soon as it goes off: the timer of that job is still armed.\<close>

definition reset_while_launching :: "awx_event list" where
  "reset_while_launching = [CreatesTemplate ''short'' '''' 5 (Fin 0), Files 7 1 fmempty, Runs 8 0, Arms 0, Resets, Enters 0,
     CreatesTemplate ''hour'' '''' 3600000 (Fin 0), Files 9 1 fmempty, Runs 10 1, Arms 1, Expires 0, Completes 12 (Fin (1/2)) 0]"

theorem old_timer_completes_new_job:
  "\<exists>y job. awx_run boot_awx reset_while_launching [] y \<and> get (jobs (sy_store y)) 1 = Some job \<and>
     jb_Status job = ''successful'' \<and> jb_Started job = Some 10 \<and> jb_Finished job = Some 12 \<and>
     map_option tm_Duration (get (sy_armed y) 1) = Some (3600000 * 1000000)"
proof -
  have hour: "int64 3600000000000 = 3600000000000" by (simp add: int64_id)
  obtain y where "events_from reset_while_launching boot_awx = Some ([], y)"
    "map_option (\<lambda>job. (jb_Status job, jb_Started job, jb_Finished job)) (get (jobs (sy_store y)) 1) = Some (''successful'', Some 10, Some 12)"
    "map_option tm_Duration (get (sy_armed y) 1) = Some (3600000 * 1000000)"
    by (simp add: reset_while_launching_def awx_ops int64_small hour)
  then show ?thesis using events_from_run [of reset_while_launching boot_awx "[]" y] by auto
qed

end
