(* ===== verification/AWX_API.thy ===== *)
theory AWX_API
  imports AWX_Theorems "HOL-Library.Sublist"
begin

text \<open>
  The HTTP interface of awx-sim: \<^verbatim>\<open>awx-sim/internal/handler/awx.go\<close>. A request is its method, its
  path and its body, decoded when it can be; the answer is a status with a body. A handler runs on
  its own here, with nothing else between its steps; \<open>AWX_Theorems\<close> has the interleavings. A nil
  map and an empty one are not told apart.
\<close>

section \<open>Requests and responses\<close>

record createTemplateRequest =
  ct_Name :: string
  ct_Description :: string
  ct_ExpectedDurationMs :: int
  ct_FailureRate :: f64

record launchRequest =
  lq_ExtraVars :: "(string, json) gomap"

record request_awx =
  aq_Method :: string
  aq_Path :: string
  aq_HasBody :: bool
  aq_Template :: "createTemplateRequest option"
  aq_Launch :: "launchRequest option"
  aq_Callback :: "CallbackConfig option"

datatype body_awx =
    ErrorBody_awx string
  | TemplateBody JobTemplate
  | TemplatesBody int "JobTemplate list"
  | JobBody Job
  | CallbackBody CallbackConfig
  | StatsBody_awx Stats_awx
  | ResetBody_awx

type_synonym response_awx = "nat \<times> body_awx"

definition writeJSON_awx :: "nat \<Rightarrow> body_awx \<Rightarrow> response_awx" where
  "writeJSON_awx st b = (st, b)"

definition writeError_awx :: "nat \<Rightarrow> string \<Rightarrow> response_awx" where
  "writeError_awx st msg = (st, ErrorBody_awx msg)"

text \<open>The text of an error; no status of a job holds a character that \<^verbatim>\<open>%q\<close> escapes.\<close>

fun error_text :: "string \<Rightarrow> awx_error \<Rightarrow> string" where
  "error_text act NameRequired = act @ '': name is required''"
| "error_text act (TemplateNotFound n) = act @ '': template '' @ fmt_0d 0 n @ '' not found''"
| "error_text act (JobNotFound n) = act @ '': job '' @ fmt_0d 0 n @ '' not found''"
| "error_text act (NotCancelable n st) =
     act @ '': job '' @ fmt_0d 0 n @ '' is in '' @ [CHR 34] @ st @ [CHR 34] @ '' state and cannot be canceled''"

definition trimTrailingSlash :: "string \<Rightarrow> string" where
  "trimTrailingSlash path = (if 1 < length path \<and> last path = CHR ''/'' then butlast path else path)"

definition TrimPrefix :: "string \<Rightarrow> string \<Rightarrow> string" where
  "TrimPrefix path p = (if prefix p path then drop (length p) path else path)"

text \<open>\<^verbatim>\<open>strings.SplitN(rest, "/", 2)\<close>: cut at the first slash, if there is one.\<close>

definition split_slash :: "string \<Rightarrow> string list" where
  "split_slash s =
     (let a = takeWhile (\<lambda>c. c \<noteq> CHR ''/'') s
      in if length a = length s then [s] else [a, drop (length a + 1) s])"

section \<open>Handlers\<close>

definition createTemplate :: "request_awx \<Rightarrow> System \<Rightarrow> response_awx \<times> System" where
  "createTemplate r y =
     (case aq_Template r of
        None \<Rightarrow> (writeError_awx 400 ''invalid request body'', y)
      | Some req \<Rightarrow>
          (case CreateTemplate (ct_Name req) (ct_Description req) (ct_ExpectedDurationMs req) (ct_FailureRate req) (sy_store y) of
             (Inl e, s) \<Rightarrow> (writeError_awx 400 (error_text ''create template'' e), y\<lparr>sy_store := s\<rparr>)
           | (Inr tmpl, s) \<Rightarrow> (writeJSON_awx 201 (TemplateBody tmpl), y\<lparr>sy_store := s\<rparr>)))"

definition listTemplates :: "int list \<Rightarrow> System \<Rightarrow> response_awx" where
  "listTemplates ks y =
     (let ts = ListTemplates ks (sy_store y) in writeJSON_awx 200 (TemplatesBody (int (length ts)) ts))"

definition getTemplate :: "int \<Rightarrow> System \<Rightarrow> response_awx" where
  "getTemplate ident y =
     (case GetTemplate ident (sy_store y) of
        Inl e \<Rightarrow> writeError_awx 404 (error_text ''get template'' e)
      | Inr tmpl \<Rightarrow> writeJSON_awx 200 (TemplateBody tmpl))"

text \<open>The job that a launch points to; it is there, as \<open>LaunchJob_job\<close> shows.\<close>

definition launched_job :: "nat \<Rightarrow> System \<Rightarrow> Job" where
  "launched_job h y = the (Option.bind (get (sy_launches y) h) (\<lambda>lau. get (jobs (sy_store y)) (tm_JobID (ln_timer lau))))"

definition launch_answer :: "int \<Rightarrow> int \<Rightarrow> int \<Rightarrow> (string, json) gomap \<Rightarrow> System \<Rightarrow> response_awx \<times> System" where
  "launch_answer now started templateID ev y =
     (case LaunchJob now started templateID ev y of
        (Inl e, y') \<Rightarrow> (writeError_awx 404 (error_text ''launch job'' e), y')
      | (Inr h, y') \<Rightarrow> (writeJSON_awx 201 (JobBody (launched_job h y')), launch_return h y'))"

definition launchJob :: "int \<Rightarrow> int \<Rightarrow> request_awx \<Rightarrow> int \<Rightarrow> System \<Rightarrow> response_awx \<times> System" where
  "launchJob now started r templateID y =
     (if aq_HasBody r
      then (case aq_Launch r of
              None \<Rightarrow> (writeError_awx 400 ''invalid request body'', y)
            | Some req \<Rightarrow> launch_answer now started templateID (lq_ExtraVars req) y)
      else launch_answer now started templateID fmempty y)"

definition getJob :: "int \<Rightarrow> System \<Rightarrow> response_awx" where
  "getJob ident y =
     (case GetJob ident (sy_store y) of
        Inl e \<Rightarrow> writeError_awx 404 (error_text ''get job'' e)
      | Inr job \<Rightarrow> writeJSON_awx 200 (JobBody job))"

definition cancelJob :: "int \<Rightarrow> int \<Rightarrow> System \<Rightarrow> response_awx \<times> System" where
  "cancelJob now ident y =
     (case CancelJob now ident y of
        (Inl e, y') \<Rightarrow>
          let msg = error_text ''cancel job'' e
          in (if sublist ''not found'' msg then writeError_awx 404 msg else writeError_awx 409 msg, y')
      | (Inr job, y') \<Rightarrow> (writeJSON_awx 200 (JobBody job), y'))"

definition handleJobTemplates ::
    "int \<Rightarrow> int \<Rightarrow> int list \<Rightarrow> request_awx \<Rightarrow> System \<Rightarrow> response_awx \<times> System" where
  "handleJobTemplates now started ks r y =
     (let path = trimTrailingSlash (aq_Path r) in
      if path = ''/api/v2/job_templates'' \<and> aq_Method r = ''POST'' then createTemplate r y
      else if path = ''/api/v2/job_templates'' \<and> aq_Method r = ''GET'' then (listTemplates ks y, y)
      else
        let rest = TrimPrefix path ''/api/v2/job_templates/''; parts = split_slash rest in
        if rest = path then (writeError_awx 404 ''not found'', y)
        else if length parts = 2 \<and> parts ! 1 = ''launch'' then
          (case Atoi (parts ! 0) of
             None \<Rightarrow> (writeError_awx 400 ''invalid template id'', y)
           | Some ident \<Rightarrow>
               if aq_Method r = ''POST'' then launchJob now started r ident y
               else (writeError_awx 405 ''method not allowed'', y))
        else
          (case Atoi rest of
             None \<Rightarrow> (writeError_awx 400 ''invalid template id'', y)
           | Some ident \<Rightarrow>
               if aq_Method r = ''GET'' then (getTemplate ident y, y)
               else (writeError_awx 405 ''method not allowed'', y)))"

definition handleJobs :: "int \<Rightarrow> request_awx \<Rightarrow> System \<Rightarrow> response_awx \<times> System" where
  "handleJobs now r y =
     (let path = trimTrailingSlash (aq_Path r);
          rest = TrimPrefix path ''/api/v2/jobs/''; parts = split_slash rest in
      if rest = path \<or> rest = '''' then (writeError_awx 404 ''not found'', y)
      else if length parts = 2 \<and> parts ! 1 = ''cancel'' then
        (case Atoi (parts ! 0) of
           None \<Rightarrow> (writeError_awx 400 ''invalid job id'', y)
         | Some ident \<Rightarrow>
             if aq_Method r = ''POST'' then cancelJob now ident y
             else (writeError_awx 405 ''method not allowed'', y))
      else
        (case Atoi rest of
           None \<Rightarrow> (writeError_awx 400 ''invalid job id'', y)
         | Some ident \<Rightarrow>
             if aq_Method r = ''GET'' then (getJob ident y, y)
             else (writeError_awx 405 ''method not allowed'', y)))"

definition handleCallback :: "request_awx \<Rightarrow> System \<Rightarrow> response_awx \<times> System" where
  "handleCallback r y =
     (if aq_Method r = ''POST'' then
        (case aq_Callback r of
           None \<Rightarrow> (writeError_awx 400 ''invalid request body'', y)
         | Some cfg \<Rightarrow> (writeJSON_awx 200 (CallbackBody cfg), SetCallback cfg y))
      else if aq_Method r = ''GET'' then (writeJSON_awx 200 (CallbackBody (GetCallback (sy_store y))), y)
      else (writeError_awx 405 ''method not allowed'', y))"

definition handleStats :: "request_awx \<Rightarrow> System \<Rightarrow> response_awx" where
  "handleStats r y =
     (if aq_Method r \<noteq> ''GET'' then writeError_awx 405 ''method not allowed''
      else writeJSON_awx 200 (StatsBody_awx (GetStats_awx (sy_store y))))"

definition handleReset_awx :: "request_awx \<Rightarrow> System \<Rightarrow> response_awx \<times> System" where
  "handleReset_awx r y =
     (if aq_Method r \<noteq> ''POST'' then (writeError_awx 405 ''method not allowed'', y)
      else (writeJSON_awx 200 ResetBody_awx, Reset_awx y))"

text \<open>
  The patterns that are registered, and how \<^verbatim>\<open>http.ServeMux\<close> picks one: a pattern that ends in a
  slash stands for every path below it, any other for itself. No path matches two of them. Paths
  that match none, and the redirects of the mux, do not reach a handler.
\<close>

datatype route_awx = TemplatesRoute | JobsRoute | CallbackRoute | StatsRoute | ResetRoute_awx

definition RegisterRoutes_awx :: "(string \<times> route_awx) list" where
  "RegisterRoutes_awx =
     [(''/api/v2/job_templates/'', TemplatesRoute), (''/api/v2/jobs/'', JobsRoute),
      (''/sim/config/callback'', CallbackRoute), (''/sim/config/callback/'', CallbackRoute),
      (''/sim/stats'', StatsRoute), (''/sim/stats/'', StatsRoute),
      (''/sim/reset'', ResetRoute_awx), (''/sim/reset/'', ResetRoute_awx)]"

definition pattern_matches :: "string \<Rightarrow> string \<Rightarrow> bool" where
  "pattern_matches pat path \<longleftrightarrow> (if last pat = CHR ''/'' then prefix pat path else pat = path)"

definition serve_awx ::
    "int \<Rightarrow> int \<Rightarrow> int list \<Rightarrow> request_awx \<Rightarrow> System \<Rightarrow> (response_awx \<times> System) option" where
  "serve_awx now started ks r y =
     map_option (\<lambda>(_, route). case route of
         TemplatesRoute \<Rightarrow> handleJobTemplates now started ks r y
       | JobsRoute \<Rightarrow> handleJobs now r y
       | CallbackRoute \<Rightarrow> handleCallback r y
       | StatsRoute \<Rightarrow> (handleStats r y, y)
       | ResetRoute_awx \<Rightarrow> handleReset_awx r y)
     (find (\<lambda>(pat, _). pattern_matches pat (aq_Path r)) RegisterRoutes_awx)"

section \<open>Requests are runs\<close>

lemma launch_file_turns:
  assumes "launch_file now tid ev y = (Inr h, y0)"
  shows "awx_run y [Files now tid ev, Runs st h, Arms h, Enters h] [] (launch_enter h (launch_arm h (launch_run st h y0)))"
proof (rule events_from_run)
  obtain lau where "get (sy_launches y0) h = Some lau" "ln_stage lau = Filed"
    using assms by (auto simp: launch_file_def Let_def split: option.splits)
  then show "events_from [Files now tid ev, Runs st h, Arms h, Enters h] y =
      Some ([], launch_enter h (launch_arm h (launch_run st h y0)))"
    using assms by (simp add: launch_run_def launch_arm_def launch_enter_def set_stage_def put_jobs_def Let_def)
qed

lemma LaunchJob_job:
  assumes "LaunchJob now st tid ev y = (Inr h, y')"
  shows "at_stage y' h Returning"
    "launched_job h y' = \<lparr>jb_ID = nextJobID (sy_store y), jb_JobTemplate = tid, jb_Status = ''running'', jb_ExtraVars = ev,
       jb_Created = now, jb_Started = Some st, jb_Finished = None\<rparr>"
    "get (jobs (sy_store y')) (nextJobID (sy_store y)) = Some (launched_job h y')"
    "get (templates (sy_store y)) tid = Some t \<Longrightarrow> get (sy_armed y') h = Some (timer_of t (nextJobID (sy_store y)))"
  using assms
  by (auto simp: LaunchJob_def launch_file_def launch_run_def launch_arm_def launch_enter_def set_stage_def put_jobs_def
      timer_of_def start_job_def launched_job_def at_stage_def Let_def split: option.splits sum.splits)

text \<open>Every request that is served is a run of the steps of the store.\<close>

lemma launch_answer_run: "launch_answer now st tid ev y = (resp, y') \<Longrightarrow> \<exists>es. awx_run y es [] y' \<and> Resets \<notin> set es"
proof -
  assume ans: "launch_answer now st tid ev y = (resp, y')"
  show ?thesis
  proof (cases "launch_file now tid ev y")
    case (Pair res y0)
    show ?thesis
    proof (cases res)
      case (Inl e)
      then have "y' = y" using ans Pair by (auto simp: launch_answer_def LaunchJob_def launch_file_def Let_def split: option.splits)
      then show ?thesis using awx_run.none [of y] by (intro exI [of _ "[]"]) simp
    next
      case (Inr h)
      let ?y = "launch_enter h (launch_arm h (launch_run st h y0))"
      have "y' = launch_return h ?y" using ans Pair Inr by (simp add: launch_answer_def LaunchJob_def)
      moreover have "at_stage ?y h Returning"
        using Pair Inr by (auto simp: launch_file_def launch_run_def launch_arm_def launch_enter_def set_stage_def put_jobs_def
            at_stage_def Let_def split: option.splits)
      ultimately have "awx_step ?y (Returns h) [] y'" using awx_step.answer by simp
      from awx_run.more [OF launch_file_turns this] Pair Inr show ?thesis
        by (intro exI [of _ "[Files now tid ev, Runs st h, Arms h, Enters h] @ [Returns h]"]) simp
    qed
  qed
qed

definition reaches :: "System \<Rightarrow> System \<Rightarrow> bool" where
  "reaches y y' \<longleftrightarrow> (\<exists>es. awx_run y es [] y')"

lemma reaches_refl: "reaches y y"
  unfolding reaches_def using awx_run.none by blast

lemma launch_reaches: "reaches y (snd (launch_answer now st tid ev y))"
  using launch_answer_run [OF surjective_pairing] unfolding reaches_def by blast

lemma reaches_event: "in_turn e y \<Longrightarrow> event_step e y = ([], y') \<Longrightarrow> reaches y y'"
  unfolding reaches_def using awx_run_single event_step_iff by blast

lemma serve_reaches: "serve_awx now st ks r y = Some (resp, y') \<Longrightarrow> reaches y y'"
proof -
  have launch: "reaches y y1" if "launchJob now st r n y = (resp1, y1)" for n resp1 y1
    using that reaches_refl launch_reaches [of y now st n] by (auto simp: launchJob_def split: if_splits option.splits) (metis snd_conv)+
  have create: "reaches y y1" if "createTemplate r y = (resp1, y1)" for resp1 y1
  proof (cases "aq_Template r")
    case (Some req)
    then show ?thesis
      using that reaches_event [of "CreatesTemplate (ct_Name req) (ct_Description req) (ct_ExpectedDurationMs req) (ct_FailureRate req)" y y1]
      by (auto simp: createTemplate_def split: prod.splits sum.splits)
  qed (use that reaches_refl in \<open>auto simp: createTemplate_def\<close>)
  have cancel: "reaches y y1" if "cancelJob now n y = (resp1, y1)" for n resp1 y1
    using that reaches_event [of "Cancels now n" y y1] by (auto simp: cancelJob_def Let_def split: prod.splits sum.splits)
  have callback: "reaches y (SetCallback cfg y)" for cfg using reaches_event [of "Configures cfg"] by simp
  have reset: "reaches y (Reset_awx y)" using reaches_event [of Resets] by simp
  note intros = launch create cancel callback reset reaches_refl
  have "reaches y y'" if "handleJobTemplates now st ks r y = (resp, y')"
    using that intros by (auto simp: handleJobTemplates_def Let_def split: if_splits option.splits)
  moreover have "reaches y y'" if "handleJobs now r y = (resp, y')"
    using that intros by (auto simp: handleJobs_def Let_def split: if_splits option.splits)
  moreover have "reaches y y'" if "handleCallback r y = (resp, y')"
    using that intros by (auto simp: handleCallback_def split: if_splits option.splits)
  moreover have "reaches y y'" if "handleReset_awx r y = (resp, y')"
    using that intros by (auto simp: handleReset_awx_def split: if_splits)
  moreover assume "serve_awx now st ks r y = Some (resp, y')"
  moreover from this obtain pat route where "find (\<lambda>(pat, _). pattern_matches pat (aq_Path r)) RegisterRoutes_awx = Some (pat, route)"
    by (auto simp: serve_awx_def)
  ultimately show ?thesis
    using reaches_refl by (cases route) (auto simp: serve_awx_def)
qed

text \<open>Every request that reaches a handler takes the simulator along steps of its store: what holds of all runs holds of
  the simulator behind its HTTP interface.\<close>

theorem requests_are_runs:
  assumes "serve_awx now st ks r y = Some (resp, y')"
  shows "\<exists>es. awx_run y es [] y'"
  using serve_reaches [OF assms] by (simp add: reaches_def)

definition reset_request :: request_awx where
  "reset_request = \<lparr>aq_Method = ''POST'', aq_Path = ''/sim/reset'', aq_HasBody = False, aq_Template = None, aq_Launch = None,
     aq_Callback = None\<rparr>"

theorem requests_are_runs_witness: "\<exists>es. awx_run boot_awx es [] (Reset_awx boot_awx)"
  using requests_are_runs [of 0 0 "[]" reset_request boot_awx "(200, ResetBody_awx)" "Reset_awx boot_awx"]
  by (simp add: serve_awx_def reset_request_def RegisterRoutes_awx_def pattern_matches_def handleReset_awx_def writeJSON_awx_def)

section \<open>Launching and cancelling over HTTP\<close>

definition launch_path :: "int \<Rightarrow> string" where
  "launch_path tid = ''/api/v2/job_templates/'' @ fmt_0d 0 tid @ ''/launch/''"

definition job_path :: "int \<Rightarrow> string" where
  "job_path n = ''/api/v2/jobs/'' @ fmt_0d 0 n @ ''/''"

lemma fmt_no_slash: "CHR ''/'' \<notin> set (fmt_0d 0 n)"
proof
  assume "CHR ''/'' \<in> set (fmt_0d 0 n)"
  then have "CHR ''/'' \<in> set (show_base 10 (nat n)) \<or> CHR ''/'' \<in> set (show_base 10 (nat (- n)))"
    by (auto simp: fmt_0d_def zero_pad_def split: if_splits)
  then show False using show_base_chars by (force simp: less_eq_char_def)
qed

lemma split_slash_first: "CHR ''/'' \<notin> set a \<Longrightarrow> split_slash (a @ CHR ''/'' # b) = [a, b]"
  by (simp add: split_slash_def Let_def takeWhile_append takeWhile_eq_all_conv [THEN iffD2])

lemma split_slash_none:
  assumes "CHR ''/'' \<notin> set a"
  shows "split_slash a = [a]"
proof -
  have all: "takeWhile (\<lambda>c. c \<noteq> CHR ''/'') a = a" using assms by (auto simp: takeWhile_eq_all_conv)
  show ?thesis by (simp only: split_slash_def Let_def all simp_thms if_True)
qed

lemma TrimPrefix_append: "TrimPrefix (p @ s) p = s"
  by (simp add: TrimPrefix_def)

definition int64_ok :: "int \<Rightarrow> bool" where
  "int64_ok n \<longleftrightarrow> MinInt64 \<le> n \<and> n \<le> MaxInt64"

lemma next_id_range: "awx_run y es cbs y' \<Longrightarrow> int64_ok (nextJobID (sy_store y)) \<Longrightarrow> int64_ok (nextJobID (sy_store y'))"
proof (induction rule: awx_run.induct)
  case (more y es cbs y' e cbs' y'')
  then have step: "event_step e y' = (cbs', y'')" by (simp add: event_step_iff)
  show ?case
  proof (cases e)
    case (Files now tid ev)
    then show ?thesis
      using more step int64_range [of "nextJobID (sy_store y') + 1"]
      by (auto simp: int64_ok_def launch_file_def Let_def split: option.splits)
  next
    case Resets
    then show ?thesis using step by (auto simp: int64_ok_def Reset_awx_def NewStore_awx_def)
  qed (use jobs_updated(2) [OF step] more in auto)
qed

lemma boot_id_range: "int64_ok (nextJobID (sy_store boot_awx))"
  by (simp add: int64_ok_def boot_awx_def NewStore_awx_def)

definition job_request :: "string \<Rightarrow> string \<Rightarrow> request_awx" where
  "job_request m path = \<lparr>aq_Method = m, aq_Path = path, aq_HasBody = False, aq_Template = None, aq_Launch = None, aq_Callback = None\<rparr>"

lemma trim_slash: "s \<noteq> [] \<Longrightarrow> trimTrailingSlash (s @ ''/'') = s"
  by (cases s) (simp_all add: trimTrailingSlash_def)

lemma serve_launch:
  assumes "aq_Method r = ''POST''" "aq_Path r = launch_path tid" "int64_ok tid"
  shows "serve_awx now st ks r y = Some (launchJob now st r tid y)"
proof -
  have path: "trimTrailingSlash (launch_path tid) = ''/api/v2/job_templates/'' @ fmt_0d 0 tid @ ''/launch''"
    using trim_slash [of "''/api/v2/job_templates/'' @ fmt_0d 0 tid @ ''/launch''"] by (simp add: launch_path_def)
  have rest: "TrimPrefix (''/api/v2/job_templates/'' @ fmt_0d 0 tid @ ''/launch'') ''/api/v2/job_templates/'' = fmt_0d 0 tid @ ''/launch''"
    by (rule TrimPrefix_append)
  have "fmt_0d 0 tid @ ''/launch'' \<noteq> ''/api/v2/job_templates/'' @ fmt_0d 0 tid @ ''/launch''"
    by (rule notI, drule arg_cong [of _ _ length]) simp
  then have "handleJobTemplates now st ks r y = launchJob now st r tid y"
    using assms path rest split_slash_first [OF fmt_no_slash, of tid "''launch''"] Atoi_fmt [of tid]
    by (simp add: handleJobTemplates_def Let_def int64_ok_def)
  moreover have "pattern_matches ''/api/v2/job_templates/'' (launch_path tid)" by (simp add: pattern_matches_def launch_path_def)
  ultimately show ?thesis using assms(2) by (simp add: serve_awx_def RegisterRoutes_awx_def)
qed

lemma serve_job:
  assumes "int64_ok n"
  shows "serve_awx now st ks (job_request ''GET'' (job_path n)) y = Some (getJob n y, y)"
    and "serve_awx now st ks (job_request ''POST'' (job_path n @ ''cancel'')) y = Some (cancelJob now n y)"
proof -
  have path: "trimTrailingSlash (job_path n) = ''/api/v2/jobs/'' @ fmt_0d 0 n"
    "trimTrailingSlash (job_path n @ ''cancel'') = ''/api/v2/jobs/'' @ fmt_0d 0 n @ ''/cancel''"
    using trim_slash [of "''/api/v2/jobs/'' @ fmt_0d 0 n"] by (simp_all add: job_path_def trimTrailingSlash_def)
  have rest: "TrimPrefix (''/api/v2/jobs/'' @ s) ''/api/v2/jobs/'' = s" for s
    by (rule TrimPrefix_append)
  have longer: "s \<noteq> ''/api/v2/jobs/'' @ s" for s
    by (rule notI, drule arg_cong [of _ _ length]) simp
  have some: "fmt_0d 0 n \<noteq> []" by (simp add: fmt_0d_def zero_pad_def show_base_def digits_rev_nonempty)
  have "handleJobs now (job_request ''GET'' (job_path n)) y = (getJob n y, y)"
    using assms path(1) rest longer some split_slash_none [OF fmt_no_slash, of n] Atoi_fmt [of n]
    by (simp add: handleJobs_def Let_def int64_ok_def job_request_def)
  moreover have "handleJobs now (job_request ''POST'' (job_path n @ ''cancel'')) y = cancelJob now n y"
    using assms path(2) rest longer some split_slash_first [OF fmt_no_slash, of n "''cancel''"] Atoi_fmt [of n]
    by (simp add: handleJobs_def Let_def int64_ok_def job_request_def)
  moreover have "pattern_matches ''/api/v2/jobs/'' (job_path n)" "pattern_matches ''/api/v2/jobs/'' (job_path n @ ''cancel'')"
    "\<not> pattern_matches ''/api/v2/job_templates/'' (job_path n)" "\<not> pattern_matches ''/api/v2/job_templates/'' (job_path n @ ''cancel'')"
    by (simp_all add: pattern_matches_def job_path_def)
  ultimately show "serve_awx now st ks (job_request ''GET'' (job_path n)) y = Some (getJob n y, y)"
    "serve_awx now st ks (job_request ''POST'' (job_path n @ ''cancel'')) y = Some (cancelJob now n y)"
    by (simp_all add: serve_awx_def RegisterRoutes_awx_def job_request_def)
qed

text \<open>A launch over HTTP of a template that exists answers 201 with a job that is running, arms a timer of the expected
  duration for it, and the job can be read back at once under the number it was given.\<close>

theorem launch_over_http:
  assumes "awx_run boot_awx es cbs y" "get (templates (sy_store y)) tid = Some t" "MinInt64 \<le> tid" "tid \<le> MaxInt64"
    and "aq_Method r = ''POST''" "aq_Path r = launch_path tid" "aq_HasBody r" "aq_Launch r = Some req"
  shows "\<exists>job y' h. serve_awx now st ks r y = Some ((201, JobBody job), y') \<and>
    job = \<lparr>jb_ID = nextJobID (sy_store y), jb_JobTemplate = tid, jb_Status = ''running'', jb_ExtraVars = lq_ExtraVars req,
      jb_Created = now, jb_Started = Some st, jb_Finished = None\<rparr> \<and>
    get (sy_armed y') h = Some (timer_of t (jb_ID job)) \<and>
    serve_awx now' st' ks' (job_request ''GET'' (job_path (jb_ID job))) y' = Some ((200, JobBody job), y')"
proof -
  obtain h y0 where launched: "LaunchJob now st tid (lq_ExtraVars req) y = (Inr h, y0)"
    using assms(2) by (simp add: LaunchJob_def launch_file_def Let_def)
  let ?job = "launched_job h y0" and ?y = "launch_return h y0"
  have serve: "serve_awx now st ks r y = Some ((201, JobBody ?job), ?y)"
    using serve_launch [OF assms(5,6)] assms(3,4,7,8) launched
    by (simp add: int64_ok_def launchJob_def launch_answer_def writeJSON_awx_def)
  note job = LaunchJob_job [OF launched]

  have "int64_ok (jb_ID ?job)" using next_id_range [OF assms(1) boot_id_range] job(2) by simp
  then have "serve_awx now' st' ks' (job_request ''GET'' (job_path (jb_ID ?job))) ?y = Some ((200, JobBody ?job), ?y)"
    using serve_job(1) job(2,3) by (simp add: getJob_def GetJob_def launch_return_def writeJSON_awx_def)
  moreover have "get (sy_armed ?y) h = Some (timer_of t (jb_ID ?job))"
    using job(2) job(4) [OF assms(2)] by (simp add: launch_return_def)
  ultimately show ?thesis using serve job(2) by blast
qed

definition launch_request :: "int \<Rightarrow> request_awx" where
  "launch_request tid = \<lparr>aq_Method = ''POST'', aq_Path = launch_path tid, aq_HasBody = True, aq_Template = None,
     aq_Launch = Some \<lparr>lq_ExtraVars = fmempty\<rparr>, aq_Callback = None\<rparr>"

theorem launch_over_http_witness:
  "\<exists>job y'. serve_awx 20 21 [] (launch_request 1) (one_job_system (job_one ''running'' None) (fmupd 0 five_ms fmempty)) =
     Some ((201, JobBody job), y') \<and> jb_ID job = 2"
  using launch_over_http [OF one_job_run, of 1 one_template "launch_request 1" "\<lparr>lq_ExtraVars = fmempty\<rparr>" 20 21 "[]"]
  by (fastforce simp: one_job_system_def launch_request_def)

text \<open>Words that do not occur in a text, by its neighbouring characters.\<close>

lemma sublist_successively: "sublist xs ys \<Longrightarrow> successively P ys \<Longrightarrow> successively P xs"
  by (auto simp: sublist_def successively_append_iff)

definition no_space_f :: "char \<Rightarrow> char \<Rightarrow> bool" where
  "no_space_f a b \<longleftrightarrow> \<not> (a = CHR '' '' \<and> b = CHR ''f'')"

lemma successively_digits: "successively no_space_f (fmt_0d 0 n)"
proof -
  have "CHR '' '' \<notin> set (fmt_0d 0 n)"
    using show_base_chars [of "CHR '' ''"] by (auto simp: fmt_0d_def zero_pad_def less_eq_char_def)
  then show ?thesis
    by (auto simp: successively_conv_nth no_space_f_def in_set_conv_nth)
qed

lemma not_cancelable_text:
  assumes "st \<in> {''successful'', ''failed'', ''canceled''}"
  shows "\<not> sublist ''not found'' (error_text ''cancel job'' (NotCancelable n st))"
proof
  have some: "fmt_0d 0 n \<noteq> []" by (simp add: fmt_0d_def zero_pad_def show_base_def digits_rev_nonempty)
  have "CHR ''f'' \<notin> set (fmt_0d 0 n)"
    using show_base_chars [of "CHR ''f''"] by (auto simp: fmt_0d_def zero_pad_def less_eq_char_def)
  then have "no_space_f a (hd (fmt_0d 0 n))" for a using some by (metis no_space_f_def hd_in_set)
  then have front: "no_space_f (last ''cancel job: job '') (hd (fmt_0d 0 n))" .
  define rest where "rest = '' is in '' @ [CHR 34] @ st @ [CHR 34] @ '' state and cannot be canceled''"
  have back_end: "no_space_f (last (fmt_0d 0 n)) (hd rest)" by (simp add: no_space_f_def rest_def)
  have "successively no_space_f rest" using assms by (elim insertE emptyE) (simp_all add: rest_def no_space_f_def)
  moreover have "successively no_space_f ''cancel job: job ''" by (simp add: no_space_f_def)
  ultimately have "successively no_space_f (''cancel job: job '' @ fmt_0d 0 n @ rest)"
    using front back_end some successively_digits [of n] unfolding successively_append_iff by (simp only: hd_append2 simp_thms)
  then have msg: "successively no_space_f (error_text ''cancel job'' (NotCancelable n st))" by (simp add: rest_def)
  assume "sublist ''not found'' (error_text ''cancel job'' (NotCancelable n st))"
  from sublist_successively [OF this msg] show False by (simp add: no_space_f_def)
qed

lemma not_found_text: "sublist ''not found'' (error_text act (JobNotFound n))"
  unfolding sublist_def by (intro exI [of _ "act @ '': job '' @ fmt_0d 0 n @ '' ''"] exI [of _ "[]"]) simp

text \<open>Cancelling a job over HTTP: 404 when there is none of that number, 409 when it is finished, and otherwise 200 with
  the job canceled, which is then what is stored; in the first two cases nothing changes. The handler tells the
  errors apart by the words of their messages.\<close>

theorem cancel_over_http:
  assumes "awx_run boot_awx es cbs y" "MinInt64 \<le> n" "n \<le> MaxInt64"
  shows "serve_awx now st ks (job_request ''POST'' (job_path n @ ''cancel'')) y = Some
    (case get (jobs (sy_store y)) n of
       None \<Rightarrow> ((404, ErrorBody_awx (error_text ''cancel job'' (JobNotFound n))), y)
     | Some job \<Rightarrow>
         if jb_Status job \<in> {''successful'', ''failed'', ''canceled''}
         then ((409, ErrorBody_awx (error_text ''cancel job'' (NotCancelable n (jb_Status job)))), y)
         else let job' = job\<lparr>jb_Status := ''canceled'', jb_Finished := Some now\<rparr>
              in ((200, JobBody job'), put_jobs (fmupd n job' (jobs (sy_store y))) y))"
proof -
  have serve: "serve_awx now st ks (job_request ''POST'' (job_path n @ ''cancel'')) y = Some (cancelJob now n y)"
    using serve_job(2) assms(2,3) by (simp add: int64_ok_def)
  show ?thesis
  proof (cases "get (jobs (sy_store y)) n")
    case None
    then show ?thesis using serve not_found_text [of "''cancel job''" n]
      by (simp add: cancelJob_def CancelJob_def writeError_awx_def Let_def del: error_text.simps)
  next
    case (Some job)
    have "job_ok job" using run_ok [OF assms(1) boot_ok] jobs_okD [OF _ Some] by blast
    then have cases: "jb_Status job \<in> {''successful'', ''failed'', ''canceled''} \<longleftrightarrow>
        jb_Status job \<noteq> ''pending'' \<and> jb_Status job \<noteq> ''running''"
      by (auto simp: job_ok_def finished_status_def split: if_splits)
    show ?thesis
    proof (cases "jb_Status job \<in> {''successful'', ''failed'', ''canceled''}")
      case True
      then show ?thesis using serve Some cases not_cancelable_text [OF True, of n]
        by (simp add: cancelJob_def CancelJob_def writeError_awx_def Let_def del: error_text.simps)
    next
      case False
      then show ?thesis using serve Some cases
        by (auto simp: cancelJob_def CancelJob_def writeJSON_awx_def Let_def)
    qed
  qed
qed

theorem cancel_over_http_witness:
  "serve_awx 30 0 [] (job_request ''POST'' (job_path 7 @ ''cancel'')) boot_awx =
     Some ((404, ErrorBody_awx (error_text ''cancel job'' (JobNotFound 7))), boot_awx)"
  using cancel_over_http [OF awx_run.none, of 7 30 0 "[]"]
  by (simp add: boot_awx_def NewStore_awx_def del: error_text.simps)

end
