(* ===== verification/Faults.thy ===== *)
theory Faults
  imports Go_Values
begin

text \<open>
  The fault injection engine of the common services, \<^verbatim>\<open>common/pkg/fault/fault.go\<close>, and its HTTP
  interface, \<^verbatim>\<open>common/internal/handler/faults.go\<close>. A time is a number of nanoseconds. The clock,
  the order in which Go walks through the rules and the random numbers are arguments: a rule is
  looked at once in a check, and \<open>rnd\<close> gives the number drawn for it.
\<close>

section \<open>Data\<close>

record Target =
  tg_Simulator :: string
  tg_HostID :: string
  tg_Operation :: string

record Trigger =
  tr_Type :: string
  tr_Probability :: f64
  tr_AfterCount :: int
  tr_Repeat :: bool
  tr_ActivateAt :: "int option"
  tr_DurationSec :: int

record Fault =
  ft_Type :: string
  ft_ErrorCode :: int
  ft_ErrorMessage :: string
  ft_MinMs :: int
  ft_MaxMs :: int
  ft_AfterMs :: int
  ft_FailPercent :: int

record FaultRule =
  fr_ID :: string
  fr_Target :: Target
  fr_Trigger :: Trigger
  fr_Fault :: Fault
  fr_HitCount :: int
  fr_CallCount :: int
  fr_CreatedAt :: int

record FaultResult =
  fs_Type :: string
  fs_ErrorCode :: int
  fs_ErrorMessage :: string
  fs_DelayMs :: int
  fs_TimeoutMs :: int
  fs_FailPercent :: int

record FaultEngine =
  fe_rules :: "(string, FaultRule) gomap"
  fe_counter :: int

definition New_fault :: FaultEngine where
  "New_fault = \<lparr>fe_rules = fmempty, fe_counter = 0\<rparr>"

section \<open>Rules\<close>

definition fault_id :: "int \<Rightarrow> string" where
  "fault_id n = ''fault-'' @ fmt_0d 3 n"

definition AddRule :: "int \<Rightarrow> FaultRule \<Rightarrow> FaultEngine \<Rightarrow> string \<times> FaultEngine" where
  "AddRule now rule e =
     (let n = int64 (fe_counter e + 1); ident = fault_id n;
          stored = rule\<lparr>fr_ID := ident, fr_CreatedAt := now, fr_HitCount := 0\<rparr>
      in (ident, e\<lparr>fe_counter := n, fe_rules := fmupd ident stored (fe_rules e)\<rparr>))"

definition GetRules :: "string list \<Rightarrow> FaultEngine \<Rightarrow> FaultRule list" where
  "GetRules ks e = values_along (fe_rules e) ks"

definition DeleteRule :: "string \<Rightarrow> FaultEngine \<Rightarrow> bool \<times> FaultEngine" where
  "DeleteRule ident e =
     (if get (fe_rules e) ident = None then (False, e)
      else (True, e\<lparr>fe_rules := fmdrop ident (fe_rules e)\<rparr>))"

definition ClearRules :: "FaultEngine \<Rightarrow> FaultEngine" where
  "ClearRules e = e\<lparr>fe_rules := fmempty\<rparr>"

section \<open>Checking\<close>

definition matchTarget :: "Target \<Rightarrow> string \<Rightarrow> string \<Rightarrow> string \<Rightarrow> bool" where
  "matchTarget t simulator hostID operation \<longleftrightarrow>
     (if tg_Simulator t \<noteq> '''' \<and> tg_Simulator t \<noteq> simulator then False
      else if tg_HostID t \<noteq> '''' \<and> tg_HostID t \<noteq> hostID then False
      else if tg_Operation t \<noteq> '''' \<and> tg_Operation t \<noteq> operation then False
      else True)"

definition shouldTrigger :: "f64 \<Rightarrow> int \<Rightarrow> FaultRule \<Rightarrow> bool" where
  "shouldTrigger rnd now rule =
     (let tr = fr_Trigger rule in
      if tr_Type tr = ''probabilistic'' then f64_less rnd (tr_Probability tr)
      else if tr_Type tr = ''count'' then
        (if fr_CallCount rule \<ge> tr_AfterCount tr
         then (if fr_CallCount rule = tr_AfterCount tr then True else tr_Repeat tr) else False)
      else if tr_Type tr = ''time'' then
        (case tr_ActivateAt tr of
           None \<Rightarrow> False
         | Some start \<Rightarrow> start < now \<and> now < start + int64 (tr_DurationSec tr * 1000000000))
      else False)"

text \<open>\<^verbatim>\<open>rng.Intn\<close>: a number below \<open>n\<close>, made from the drawn \<open>d\<close>; it panics unless \<open>n\<close> is positive.\<close>

definition Intn :: "int \<Rightarrow> int \<Rightarrow> int option" where
  "Intn d n = (if n \<le> 0 then None else Some (d mod n))"

definition no_result :: "string \<Rightarrow> FaultResult" where
  "no_result ty = \<lparr>fs_Type = ty, fs_ErrorCode = 0, fs_ErrorMessage = '''', fs_DelayMs = 0, fs_TimeoutMs = 0, fs_FailPercent = 0\<rparr>"

definition toResult :: "int \<Rightarrow> Fault \<Rightarrow> FaultResult option" where
  "toResult d f =
     (let r = no_result (ft_Type f) in
      if ft_Type f = ''error'' then Some (r\<lparr>fs_ErrorCode := ft_ErrorCode f, fs_ErrorMessage := ft_ErrorMessage f\<rparr>)
      else if ft_Type f = ''delay'' then
        (if ft_MaxMs f > ft_MinMs f
         then map_option (\<lambda>n. r\<lparr>fs_DelayMs := int64 (ft_MinMs f + n)\<rparr>) (Intn d (int64 (ft_MaxMs f - ft_MinMs f)))
         else Some (r\<lparr>fs_DelayMs := ft_MinMs f\<rparr>))
      else if ft_Type f = ''timeout'' then Some (r\<lparr>fs_TimeoutMs := ft_AfterMs f\<rparr>)
      else if ft_Type f = ''partial_failure'' then Some (r\<lparr>fs_FailPercent := ft_FailPercent f\<rparr>)
      else Some r)"

text \<open>A check gives no fault, a fault, or panics; the counters it has moved stay moved.\<close>

datatype check_outcome = NoFault | Injected FaultResult | CheckPanic

definition called :: "FaultRule \<Rightarrow> FaultRule" where
  "called rule = rule\<lparr>fr_CallCount := int64 (fr_CallCount rule + 1)\<rparr>"

definition hit :: "FaultRule \<Rightarrow> FaultRule" where
  "hit rule = rule\<lparr>fr_HitCount := int64 (fr_HitCount rule + 1)\<rparr>"

record checked_call =
  ca_Simulator :: string
  ca_HostID :: string
  ca_Operation :: string

definition rule_matches :: "checked_call \<Rightarrow> FaultRule \<Rightarrow> bool" where
  "rule_matches c rule = matchTarget (fr_Target rule) (ca_Simulator c) (ca_HostID c) (ca_Operation c)"

fun check_rules ::
    "int \<Rightarrow> (string \<Rightarrow> f64) \<Rightarrow> int \<Rightarrow> checked_call \<Rightarrow> string list \<Rightarrow> (string, FaultRule) gomap \<Rightarrow> check_outcome \<times> (string, FaultRule) gomap" where
  "check_rules now rnd d c [] rs = (NoFault, rs)"
| "check_rules now rnd d c (k # ks) rs =
     (case get rs k of
        None \<Rightarrow> check_rules now rnd d c ks rs
      | Some rule \<Rightarrow>
          if \<not> rule_matches c rule then check_rules now rnd d c ks rs
          else
            let rule' = called rule in
            if \<not> shouldTrigger (rnd k) now rule' then check_rules now rnd d c ks (fmupd k rule' rs)
            else (case toResult d (fr_Fault rule) of None \<Rightarrow> CheckPanic | Some r \<Rightarrow> Injected r, fmupd k (hit rule') rs))"

definition Check ::
    "int \<Rightarrow> (string \<Rightarrow> f64) \<Rightarrow> int \<Rightarrow> string list \<Rightarrow> string \<Rightarrow> string \<Rightarrow> string \<Rightarrow> FaultEngine \<Rightarrow> check_outcome \<times> FaultEngine" where
  "Check now rnd d ks simulator hostID operation e =
     (case check_rules now rnd d \<lparr>ca_Simulator = simulator, ca_HostID = hostID, ca_Operation = operation\<rparr> ks (fe_rules e) of
        (out, rs) \<Rightarrow> (out, e\<lparr>fe_rules := rs\<rparr>))"

section \<open>HTTP interface\<close>

datatype message_fault = InvalidBody_fault | RuleNotFound string

datatype body_fault = RuleBody FaultRule | RulesBody "FaultRule list" | ErrorBody_fault message_fault | NoBody_fault

definition addRule :: "int \<Rightarrow> FaultRule option \<Rightarrow> FaultEngine \<Rightarrow> (nat \<times> body_fault) \<times> FaultEngine" where
  "addRule now body e =
     (case body of
        None \<Rightarrow> ((400, ErrorBody_fault InvalidBody_fault), e)
      | Some rule \<Rightarrow> (case AddRule now rule e of (ident, e') \<Rightarrow> ((201, RuleBody (rule\<lparr>fr_ID := ident\<rparr>)), e')))"

definition getRules :: "string list \<Rightarrow> FaultEngine \<Rightarrow> nat \<times> body_fault" where
  "getRules ks e = (200, RulesBody (GetRules ks e))"

text \<open>The wildcard of the route matches one segment of the path, which is never empty.\<close>

definition deleteRule :: "string \<Rightarrow> FaultEngine \<Rightarrow> (nat \<times> body_fault) \<times> FaultEngine" where
  "deleteRule ident e =
     (case DeleteRule ident e of
        (False, e') \<Rightarrow> ((404, ErrorBody_fault (RuleNotFound ident)), e')
      | (True, e') \<Rightarrow> ((204, NoBody_fault), e'))"

text \<open>The route has no wildcard: the path value that is read is empty.\<close>

definition clearRules :: "FaultEngine \<Rightarrow> (nat \<times> body_fault) \<times> FaultEngine" where
  "clearRules e = ((204, NoBody_fault), ClearRules e)"

section \<open>What a check does\<close>

definition fires :: "int \<Rightarrow> (string \<Rightarrow> f64) \<Rightarrow> checked_call \<Rightarrow> string \<Rightarrow> FaultRule \<Rightarrow> bool" where
  "fires now rnd c k rule \<longleftrightarrow> rule_matches c rule \<and> shouldTrigger (rnd k) now (called rule)"

definition outcome_of :: "int \<Rightarrow> FaultRule \<Rightarrow> check_outcome" where
  "outcome_of d rule = (case toResult d (fr_Fault rule) of None \<Rightarrow> CheckPanic | Some r \<Rightarrow> Injected r)"

definition call_if :: "checked_call \<Rightarrow> FaultRule \<Rightarrow> FaultRule" where
  "call_if c rule = (if rule_matches c rule then called rule else rule)"

lemma check_rules_quiet:
  assumes "distinct ks" "\<forall>k\<in>set ks. \<forall>rule. get rs k = Some rule \<longrightarrow> \<not> fires now rnd c k rule"
  shows "\<exists>rs'. check_rules now rnd d c (ks @ ls) rs = check_rules now rnd d c ls rs' \<and>
    (\<forall>j. get rs' j = (if j \<in> set ks then map_option (call_if c) (get rs j) else get rs j))"
  using assms
proof (induction ks arbitrary: rs)
  case (Cons k ks)
  define rs1 where "rs1 = (case get rs k of None \<Rightarrow> rs | Some rule \<Rightarrow> if rule_matches c rule then fmupd k (called rule) rs else rs)"
  have step: "check_rules now rnd d c ((k # ks) @ ls) rs = check_rules now rnd d c (ks @ ls) rs1"
    using Cons.prems by (auto simp: rs1_def fires_def Let_def split: option.split)
  have rs1: "get rs1 j = (if j = k then map_option (call_if c) (get rs j) else get rs j)" for j
    by (auto simp: rs1_def call_if_def split: option.split)
  have "\<forall>j\<in>set ks. \<forall>rule. get rs1 j = Some rule \<longrightarrow> \<not> fires now rnd c j rule"
    using Cons.prems by (auto simp: rs1)
  from Cons.IH [OF _ this] Cons.prems(1) obtain rs' where
    rs': "check_rules now rnd d c (ks @ ls) rs1 = check_rules now rnd d c ls rs'"
      "\<forall>j. get rs' j = (if j \<in> set ks then map_option (call_if c) (get rs1 j) else get rs1 j)"
    by auto
  then have "\<forall>j. get rs' j = (if j \<in> set (k # ks) then map_option (call_if c) (get rs j) else get rs j)"
    using Cons.prems(1) by (auto simp: rs1)
  with rs'(1) step show ?case by metis
qed auto

lemma check_rules_none:
  assumes "distinct ks" "\<forall>k\<in>set ks. \<forall>rule. get rs k = Some rule \<longrightarrow> \<not> fires now rnd c k rule"
    and "check_rules now rnd d c ks rs = (out, rs')"
  shows "out = NoFault" "get rs' j = (if j \<in> set ks then map_option (call_if c) (get rs j) else get rs j)"
  using check_rules_quiet [OF assms(1,2), of d "[]"] assms(3) by auto

lemma check_rules_first:
  assumes "distinct (ks @ k # ls)" "\<forall>k\<in>set ks. \<forall>rule. get rs k = Some rule \<longrightarrow> \<not> fires now rnd c k rule"
    and "get rs k = Some rule" "fires now rnd c k rule"
    and "check_rules now rnd d c (ks @ k # ls) rs = (out, rs')"
  shows "out = outcome_of d rule"
    "get rs' j = (if j = k then Some (hit (called rule)) else if j \<in> set ks then map_option (call_if c) (get rs j) else get rs j)"
proof -
  obtain rs1 where rs1: "check_rules now rnd d c (ks @ k # ls) rs = check_rules now rnd d c (k # ls) rs1"
      "\<forall>j. get rs1 j = (if j \<in> set ks then map_option (call_if c) (get rs j) else get rs j)"
    using check_rules_quiet [OF _ assms(2), of d "k # ls"] assms(1) by auto
  have "get rs1 k = Some rule" using rs1(2) assms(1,3) by simp
  then have "check_rules now rnd d c (k # ls) rs1 = (outcome_of d rule, fmupd k (hit (called rule)) rs1)"
    using assms(4) by (simp add: fires_def outcome_of_def Let_def)
  with rs1 assms(5) have "out = outcome_of d rule \<and> rs' = fmupd k (hit (called rule)) rs1" by simp
  then show "out = outcome_of d rule"
    "get rs' j = (if j = k then Some (hit (called rule)) else if j \<in> set ks then map_option (call_if c) (get rs j) else get rs j)"
    using rs1(2) by auto
qed

lemma first_such:
  assumes "\<exists>k\<in>set ks. P k"
  obtains as k bs where "ks = as @ k # bs" "P k" "\<forall>j\<in>set as. \<not> P j"
  using assms split_list_first_prop [of ks P] by blast

lemma call_eta: "\<lparr>ca_Simulator = ca_Simulator c, ca_HostID = ca_HostID c, ca_Operation = ca_Operation c\<rparr> = c"
  by simp

lemma check_spec:
  assumes "iteration_order (fe_rules e) ks"
    and "Check now rnd d ks (ca_Simulator c) (ca_HostID c) (ca_Operation c) e = (out, e')"
  shows "if \<exists>k rule. get (fe_rules e) k = Some rule \<and> fires now rnd c k rule
    then \<exists>k rule. get (fe_rules e) k = Some rule \<and> fires now rnd c k rule \<and> out = outcome_of d rule \<and> out \<noteq> NoFault \<and>
      get (fe_rules e') k = Some (hit (called rule)) \<and>
      (\<forall>j. j \<noteq> k \<longrightarrow> get (fe_rules e') j \<in> {get (fe_rules e) j, map_option (call_if c) (get (fe_rules e) j)})
    else out = NoFault \<and> (\<forall>j. get (fe_rules e') j = map_option (call_if c) (get (fe_rules e) j))"
proof -
  let ?rs = "fe_rules e" and ?due = "\<lambda>k. \<exists>rule. get (fe_rules e) k = Some rule \<and> fires now rnd c k rule"
  have check: "check_rules now rnd d c ks ?rs = (out, fe_rules e')" and ks: "distinct ks" "set ks = fmdom' ?rs"
    using assms by (auto simp: Check_def iteration_order_def call_eta split: prod.splits)
  show ?thesis
  proof (cases "\<exists>k. ?due k")
    case True
    then have "\<exists>k\<in>set ks. ?due k" using ks(2) by (auto simp: fmlookup_dom'_iff)
    then obtain as k bs where k: "ks = as @ k # bs" "?due k" "\<forall>j\<in>set as. \<not> ?due j" by (rule first_such)
    then obtain rule where rule: "get ?rs k = Some rule" "fires now rnd c k rule" by blast
    note first = check_rules_first [OF _ _ rule check [unfolded k(1)]]
    have "out = outcome_of d rule" "\<forall>j. get (fe_rules e') j = (if j = k then Some (hit (called rule))
        else if j \<in> set as then map_option (call_if c) (get ?rs j) else get ?rs j)"
      using first k ks(1) by auto
    moreover have "outcome_of d rule \<noteq> NoFault" by (simp add: outcome_of_def split: option.split)
    ultimately show ?thesis using True rule by auto
  next
    case False
    then have "out = NoFault" "get (fe_rules e') j = (if j \<in> set ks then map_option (call_if c) (get ?rs j) else get ?rs j)" for j
      using check_rules_none [OF ks(1) _ check] by auto
    then show ?thesis using False ks(2) by (auto simp: fmlookup_dom'_iff)
  qed
qed


definition sample_rule :: FaultRule where
  "sample_rule = \<lparr>fr_ID = '''', fr_Target = \<lparr>tg_Simulator = ''s'', tg_HostID = '''', tg_Operation = ''''\<rparr>,
     fr_Trigger = \<lparr>tr_Type = ''count'', tr_Probability = Fin 0, tr_AfterCount = 2, tr_Repeat = False, tr_ActivateAt = None, tr_DurationSec = 0\<rparr>,
     fr_Fault = \<lparr>ft_Type = ''error'', ft_ErrorCode = 5, ft_ErrorMessage = ''m'', ft_MinMs = 0, ft_MaxMs = 0, ft_AfterMs = 0, ft_FailPercent = 0\<rparr>,
     fr_HitCount = 0, fr_CallCount = 0, fr_CreatedAt = 0\<rparr>"

definition sample_call :: checked_call where
  "sample_call = \<lparr>ca_Simulator = ''s'', ca_HostID = ''h'', ca_Operation = ''o''\<rparr>"

definition sample_engine :: FaultEngine where
  "sample_engine = \<lparr>fe_rules = fmupd ''fault-001'' sample_rule fmempty, fe_counter = 1\<rparr>"

lemma sample_order: "iteration_order (fe_rules sample_engine) [''fault-001'']"
  by (simp add: iteration_order_def sample_engine_def)


section \<open>Rules that count\<close>

text \<open>One check after another of the same call.\<close>

record check_input =
  in_now :: int
  in_rnd :: "string \<Rightarrow> f64"
  in_draw :: int
  in_order :: "string list"

fun checks :: "check_input list \<Rightarrow> checked_call \<Rightarrow> FaultEngine \<Rightarrow> check_outcome list" where
  "checks [] c e = []"
| "checks (x # xs) c e =
     (case Check (in_now x) (in_rnd x) (in_draw x) (in_order x) (ca_Simulator c) (ca_HostID c) (ca_Operation c) e of
        (out, e') \<Rightarrow> out # checks xs c e')"

definition only_rule :: "checked_call \<Rightarrow> string \<Rightarrow> FaultRule \<Rightarrow> FaultEngine \<Rightarrow> bool" where
  "only_rule c k rule e \<longleftrightarrow> get (fe_rules e) k = Some rule \<and> rule_matches c rule \<and>
     (\<forall>j r. j \<noteq> k \<longrightarrow> get (fe_rules e) j = Some r \<longrightarrow> \<not> rule_matches c r)"

lemma only_rule_check:
  assumes "only_rule c k rule e" "iteration_order (fe_rules e) ks"
    and "Check now rnd d ks (ca_Simulator c) (ca_HostID c) (ca_Operation c) e = (out, e')"
  shows "if shouldTrigger (rnd k) now (called rule)
    then out = outcome_of d rule \<and> out \<noteq> NoFault \<and> only_rule c k (hit (called rule)) e'
    else out = NoFault \<and> only_rule c k (called rule) e'"
    "fmdom' (fe_rules e') = fmdom' (fe_rules e)"
proof -
  let ?due = "\<lambda>k rule. get (fe_rules e) k = Some rule \<and> fires now rnd c k rule"
  have k: "get (fe_rules e) k = Some rule" "rule_matches c rule" "\<forall>j r. j \<noteq> k \<longrightarrow> get (fe_rules e) j = Some r \<longrightarrow> \<not> rule_matches c r"
    using assms(1) by (simp_all add: only_rule_def)
  then have due: "?due j r \<longleftrightarrow> j = k \<and> r = rule \<and> shouldTrigger (rnd k) now (called rule)" for j r
    by (cases "j = k") (auto simp: fires_def)
  have others: "map_option (call_if c) (get (fe_rules e) j) = get (fe_rules e) j" if "j \<noteq> k" for j
    using k(3) that by (cases "get (fe_rules e) j") (auto simp: call_if_def)
  have match: "rule_matches c (hit (called rule))" "rule_matches c (called rule)"
    using k(2) by (simp_all add: rule_matches_def hit_def called_def)
  let ?rule' = "if shouldTrigger (rnd k) now (called rule) then hit (called rule) else called rule"
  let ?out = "if shouldTrigger (rnd k) now (called rule) then outcome_of d rule else NoFault"
  have spec: "out = ?out" "get (fe_rules e') k = Some ?rule'" "\<forall>j. j \<noteq> k \<longrightarrow> get (fe_rules e') j = get (fe_rules e) j"
  proof -
    have "out = ?out \<and> get (fe_rules e') k = Some ?rule' \<and> (\<forall>j. j \<noteq> k \<longrightarrow> get (fe_rules e') j = get (fe_rules e) j)"
    proof (cases "shouldTrigger (rnd k) now (called rule)")
      case True
      then have "\<exists>k rule. ?due k rule" using due by blast
      then obtain j r where "?due j r" "out = outcome_of d r" "get (fe_rules e') j = Some (hit (called r))"
        "\<forall>i. i \<noteq> j \<longrightarrow> get (fe_rules e') i \<in> {get (fe_rules e) i, map_option (call_if c) (get (fe_rules e) i)}"
        using check_spec [OF assms(2,3)] by auto
      then show ?thesis using True due [of j r] others by auto
    next
      case False
      then have "\<not> (\<exists>k rule. ?due k rule)" using due by blast
      then show ?thesis using check_spec [OF assms(2,3)] False others k(1,2) by (auto simp: call_if_def)
    qed
    then show "out = ?out" "get (fe_rules e') k = Some ?rule'" "\<forall>j. j \<noteq> k \<longrightarrow> get (fe_rules e') j = get (fe_rules e) j"
      by simp_all
  qed
  have "outcome_of d rule \<noteq> NoFault" by (simp add: outcome_of_def split: option.split)
  with spec match k(3) show "if shouldTrigger (rnd k) now (called rule)
    then out = outcome_of d rule \<and> out \<noteq> NoFault \<and> only_rule c k (hit (called rule)) e'
    else out = NoFault \<and> only_rule c k (called rule) e'"
    by (auto simp: only_rule_def)
  show "fmdom' (fe_rules e') = fmdom' (fe_rules e)"
    using spec(2,3) k(1) unfolding set_eq_iff fmlookup_dom'_iff by metis
qed

lemma count_checks:
  assumes "only_rule c k rule e" "tr_Type (fr_Trigger rule) = ''count''" "0 \<le> fr_CallCount rule"
    and "fr_CallCount rule + int (length xs) \<le> MaxInt64" "\<forall>x\<in>set xs. iteration_order (fe_rules e) (in_order x)"
    and "i < length xs"
  shows "checks xs c e ! i \<noteq> NoFault \<longleftrightarrow>
    (let n = fr_CallCount rule + int i + 1; a = tr_AfterCount (fr_Trigger rule) in n = a \<or> a < n \<and> tr_Repeat (fr_Trigger rule))"
  using assms
proof (induction xs arbitrary: rule e i)
  case (Cons x xs)
  obtain out e' where check: "Check (in_now x) (in_rnd x) (in_draw x) (in_order x) (ca_Simulator c) (ca_HostID c) (ca_Operation c) e = (out, e')"
    by fastforce
  let ?n = "fr_CallCount rule + 1" and ?tr = "fr_Trigger rule"
  have count: "fr_CallCount (called rule) = ?n"
    using Cons.prems(3,4) by (simp add: called_def int64_id)
  have due: "shouldTrigger r now (called rule) \<longleftrightarrow> ?n = tr_AfterCount ?tr \<or> tr_AfterCount ?tr < ?n \<and> tr_Repeat ?tr" for r now
  proof -
    have "fr_Trigger (called rule) = ?tr" by (simp add: called_def)
    then show ?thesis using Cons.prems(2) count by (auto simp: shouldTrigger_def Let_def)
  qed
  have one: "if shouldTrigger (in_rnd x k) (in_now x) (called rule)
      then out = outcome_of (in_draw x) rule \<and> out \<noteq> NoFault \<and> only_rule c k (hit (called rule)) e'
      else out = NoFault \<and> only_rule c k (called rule) e'"
    and doms: "fmdom' (fe_rules e') = fmdom' (fe_rules e)"
    using only_rule_check [OF Cons.prems(1) _ check] Cons.prems(5) by auto
  define rule' where "rule' = (if shouldTrigger (in_rnd x k) (in_now x) (called rule) then hit (called rule) else called rule)"
  have rule': "only_rule c k rule' e'" "fr_Trigger rule' = ?tr" "fr_CallCount rule' = ?n"
    using one count by (auto simp: rule'_def hit_def called_def)
  show ?case
  proof (cases i)
    case 0
    then show ?thesis using one due check by (auto simp: Let_def split: if_splits)
  next
    case (Suc m)
    have "checks xs c e' ! m \<noteq> NoFault \<longleftrightarrow>
        (let n = fr_CallCount rule' + int m + 1; a = tr_AfterCount (fr_Trigger rule') in n = a \<or> a < n \<and> tr_Repeat (fr_Trigger rule'))"
      using rule' doms Cons.prems Suc by (intro Cons.IH) (auto simp: iteration_order_def)
    then show ?thesis using rule' check Suc by (simp add: Let_def add.assoc)
  qed
qed simp

text \<open>
  A rule with the trigger \<^verbatim>\<open>count\<close> that alone is for a call injects its fault into exactly the call that brings its count
  to \<^verbatim>\<open>after_count\<close>, and into every later one if it repeats; the \<open>i\<close>-th of a series of calls brings the
  count to \<open>i\<close> more than where it stood.
\<close>

theorem count_rule_exact:
  assumes "only_rule c k rule e" "tr_Type (fr_Trigger rule) = ''count''" "0 \<le> fr_CallCount rule"
    and "fr_CallCount rule + int (length xs) \<le> MaxInt64" "\<forall>x\<in>set xs. iteration_order (fe_rules e) (in_order x)"
    and "i < length xs"
  shows "checks xs c e ! i \<noteq> NoFault \<longleftrightarrow>
    (let n = fr_CallCount rule + int i + 1; a = tr_AfterCount (fr_Trigger rule) in n = a \<or> a < n \<and> tr_Repeat (fr_Trigger rule))"
  using assms by (rule count_checks)

definition plain_input :: check_input where
  "plain_input = \<lparr>in_now = 0, in_rnd = \<lambda>k. Fin 0, in_draw = 0, in_order = [''fault-001'']\<rparr>"

lemma sample_only: "only_rule sample_call ''fault-001'' sample_rule sample_engine"
  by (simp add: only_rule_def sample_engine_def sample_rule_def rule_matches_def matchTarget_def sample_call_def)

theorem count_rule_exact_witness:
  "map (\<lambda>i. checks [plain_input, plain_input, plain_input] sample_call sample_engine ! i \<noteq> NoFault) [0, 1, 2] = [False, True, False]"
  using count_rule_exact [OF sample_only, of "[plain_input, plain_input, plain_input]"] sample_order
  by (simp add: sample_rule_def plain_input_def)

section \<open>Identifiers\<close>

interpretation fault_keys: numbered_keys fault_id
proof
  fix m n :: int
  assume "0 \<le> m" "0 \<le> n" "fault_id m = fault_id n"
  then show "m = n" using fmt_0d_inj_nonneg [of m n 3] by (simp add: fault_id_def)
qed

text \<open>Everything that can happen to the engine.\<close>

datatype fault_event =
    AddsRule int FaultRule
  | DeletesRule string
  | ClearsRules
  | Checks check_input checked_call

fun fault_step :: "fault_event \<Rightarrow> FaultEngine \<Rightarrow> FaultEngine" where
  "fault_step (AddsRule now rule) e = snd (AddRule now rule e)"
| "fault_step (DeletesRule ident) e = snd (DeleteRule ident e)"
| "fault_step ClearsRules e = ClearRules e"
| "fault_step (Checks x c) e =
     snd (Check (in_now x) (in_rnd x) (in_draw x) (in_order x) (ca_Simulator c) (ca_HostID c) (ca_Operation c) e)"

definition engine_ok :: "FaultEngine \<Rightarrow> bool" where
  "engine_ok e \<longleftrightarrow> keys_upto fault_id (fe_counter e) (fe_rules e) \<and> (\<forall>k rule. get (fe_rules e) k = Some rule \<longrightarrow> fr_ID rule = k)"

lemma check_rules_ids:
  "check_rules now rnd d c ks rs = (out, rs') \<Longrightarrow> (get rs' j \<noteq> None \<longrightarrow> get rs j \<noteq> None) \<and> map_option fr_ID (get rs' j) = map_option fr_ID (get rs j)"
proof (induction ks arbitrary: rs)
  case (Cons k ks)
  show ?case
  proof (cases "get rs k")
    case (Some rule)
    have ids: "fr_ID (called rule) = fr_ID rule" "fr_ID (hit r) = fr_ID r" for r by (simp_all add: called_def hit_def)
    show ?thesis
      using Cons.prems Cons.IH [of rs] Cons.IH [of "fmupd k (called rule) rs"] Some ids by (auto simp: Let_def split: if_splits)
  qed (use Cons in auto)
qed auto

lemma fault_step_ok:
  assumes "engine_ok e" "fe_counter e < MaxInt64"
  shows "engine_ok (fault_step ev e) \<and> fe_counter (fault_step ev e) \<le> fe_counter e + 1"
proof (cases ev)
  case (AddsRule now rule)
  have "0 \<le> fe_counter e" using assms(1) by (simp add: engine_ok_def keys_upto_def)
  then have "int64 (fe_counter e + 1) = fe_counter e + 1" using assms(2) by (intro int64_id) simp_all
  then show ?thesis
    using assms(1) AddsRule keys_upto_next by (auto simp: engine_ok_def AddRule_def Let_def split: if_splits)
next
  case (DeletesRule ident)
  then show ?thesis
    using assms(1) keys_upto_mono [of fault_id "fe_counter e" "fe_rules e" "fe_counter e" "fmdrop ident (fe_rules e)"]
    by (auto simp: engine_ok_def DeleteRule_def split: if_splits)
next
  case ClearsRules
  then show ?thesis using assms(1) by (auto simp: engine_ok_def ClearRules_def keys_upto_def)
next
  case (Checks x c)
  obtain out rs where rs: "check_rules (in_now x) (in_rnd x) (in_draw x)
      \<lparr>ca_Simulator = ca_Simulator c, ca_HostID = ca_HostID c, ca_Operation = ca_Operation c\<rparr> (in_order x) (fe_rules e) = (out, rs)"
    by fastforce
  note ids = check_rules_ids [OF rs]
  have "keys_upto fault_id (fe_counter e) rs"
    using assms(1) ids keys_upto_mono [of fault_id "fe_counter e" "fe_rules e" "fe_counter e" rs] by (auto simp: engine_ok_def)
  moreover have "fr_ID rule = k" if "get rs k = Some rule" for k rule
    using ids [of k] that assms(1) by (auto simp: engine_ok_def)
  ultimately show ?thesis using Checks rs by (auto simp: Check_def engine_ok_def)
qed

lemma fault_run_ok:
  assumes "engine_ok e" "fe_counter e + int (length evs) < MaxInt64"
  shows "engine_ok (fold fault_step evs e) \<and> fe_counter (fold fault_step evs e) \<le> fe_counter e + int (length evs)"
  using assms
proof (induction evs arbitrary: e)
  case (Cons ev evs)
  have "engine_ok (fault_step ev e)" "fe_counter (fault_step ev e) \<le> fe_counter e + 1"
    using fault_step_ok [OF Cons.prems(1)] Cons.prems(2) by auto
  with Cons.IH [of "fault_step ev e"] Cons.prems(2) show ?case by simp
qed simp

lemma New_fault_ok: "engine_ok New_fault"
  by (simp add: engine_ok_def New_fault_def)

text \<open>A new rule never takes the place of another: its identifier is free, whatever rules were added, deleted, cleared or
  checked before, and afterwards the rule is stored under it with a hit count of zero and all others are as they were.\<close>

theorem new_rule_is_new:
  assumes "int (length evs) < MaxInt64 - 1" "AddRule now rule (fold fault_step evs New_fault) = (ident, e')"
  shows "get (fe_rules (fold fault_step evs New_fault)) ident = None \<and>
    get (fe_rules e') ident = Some (rule\<lparr>fr_ID := ident, fr_CreatedAt := now, fr_HitCount := 0\<rparr>) \<and>
    (\<forall>k. k \<noteq> ident \<longrightarrow> get (fe_rules e') k = get (fe_rules (fold fault_step evs New_fault)) k)"
proof -
  let ?e = "fold fault_step evs New_fault"
  have ok: "keys_upto fault_id (fe_counter ?e) (fe_rules ?e)" "fe_counter ?e \<le> int (length evs)"
    using fault_run_ok [OF New_fault_ok, of evs] assms(1) by (simp_all add: engine_ok_def New_fault_def)
  then have "int64 (fe_counter ?e + 1) = fe_counter ?e + 1"
    using assms(1) by (intro int64_id) (auto simp: keys_upto_def)
  then show ?thesis using assms(2) fault_keys.next_free [OF ok(1)] by (auto simp: AddRule_def Let_def)
qed

theorem new_rule_is_new_witness:
  "get (fe_rules (snd (AddRule 3 sample_rule (fold fault_step [AddsRule 1 sample_rule, DeletesRule (fault_id 1)] New_fault)))) (fault_id 2)
   = Some (sample_rule\<lparr>fr_ID := fault_id 2, fr_CreatedAt := 3, fr_HitCount := 0\<rparr>)"
  using new_rule_is_new [of "[AddsRule 1 sample_rule, DeletesRule (fault_id 1)]" 3 sample_rule "fault_id 2"]
  by (simp add: AddRule_def DeleteRule_def New_fault_def int64_id Let_def)

section \<open>Delays\<close>

text \<open>The delay of an injected fault lies between its bounds, the upper one excluded unless they are equal; only a rule
  whose bounds lie further apart than a 64-bit integer can say makes the check panic.\<close>

theorem delay_in_range:
  assumes "ft_Type f = ''delay''" "MinInt64 \<le> ft_MinMs f" "ft_MinMs f \<le> ft_MaxMs f" "ft_MaxMs f \<le> MaxInt64"
  shows "case toResult d f of
      None \<Rightarrow> MaxInt64 < ft_MaxMs f - ft_MinMs f
    | Some r \<Rightarrow> ft_MinMs f \<le> fs_DelayMs r \<and> (fs_DelayMs r < ft_MaxMs f \<or> ft_MinMs f = ft_MaxMs f \<and> fs_DelayMs r = ft_MaxMs f)"
proof (cases "ft_MaxMs f - ft_MinMs f \<le> MaxInt64")
  case True
  let ?w = "ft_MaxMs f - ft_MinMs f"
  have w: "int64 ?w = ?w" using True assms(3) by (intro int64_id) simp_all
  show ?thesis
  proof (cases "0 < ?w")
    case pos: True
    have "0 \<le> d mod ?w" "d mod ?w < ?w" using pos by simp_all
    then have "int64 (ft_MinMs f + d mod ?w) = ft_MinMs f + d mod ?w" using assms(2,4) by (intro int64_id) linarith+
    then show ?thesis using assms(1) w pos \<open>0 \<le> d mod ?w\<close> \<open>d mod ?w < ?w\<close> by (simp add: toResult_def Intn_def Let_def)
  qed (use assms in \<open>simp add: toResult_def Let_def\<close>)
next
  case False
  let ?w = "ft_MaxMs f - ft_MinMs f"
  have "int64 ?w = ?w - 2 ^ 64"
    using int64_wrap [of ?w] int64_id [of "?w - 2 ^ 64"] False assms(2,4) by simp
  then show ?thesis using assms False by (simp add: toResult_def Intn_def Let_def)
qed

definition huge_delay :: Fault where
  "huge_delay = \<lparr>ft_Type = ''delay'', ft_ErrorCode = 0, ft_ErrorMessage = '''', ft_MinMs = - 9, ft_MaxMs = MaxInt64, ft_AfterMs = 0, ft_FailPercent = 0\<rparr>"

theorem delay_in_range_witness:
  "toResult 5 (huge_delay\<lparr>ft_MinMs := 100, ft_MaxMs := 100\<rparr>) = Some ((no_result ''delay'')\<lparr>fs_DelayMs := 100\<rparr>) \<and>
   (case toResult 5 (huge_delay\<lparr>ft_MinMs := 100, ft_MaxMs := 103\<rparr>) of None \<Rightarrow> False | Some r \<Rightarrow> 100 \<le> fs_DelayMs r \<and> fs_DelayMs r < 103)"
  using delay_in_range [of "huge_delay\<lparr>ft_MinMs := 100, ft_MaxMs := 103\<rparr>" 5]
  by (auto simp: huge_delay_def toResult_def Let_def split: option.splits)

lemma huge_delay_panics: "toResult d huge_delay = None"
  by (simp add: toResult_def huge_delay_def Intn_def Let_def int64_def)

end
