(* ===== verification/Event_Log.thy ===== *)
theory Event_Log
  imports Go_Values
begin

text \<open>
  The event log of the common services, \<^verbatim>\<open>common/pkg/eventlog/eventlog.go\<close>, and its HTTP
  interface, \<^verbatim>\<open>common/internal/handler/events.go\<close>. A time is a number of nanoseconds since 1970;
  the clock and the reader of RFC 3339 times are arguments.
\<close>

section \<open>The log\<close>

record Event =
  evt_ID :: string
  evt_Timestamp :: int
  evt_Simulator :: string
  evt_HostID :: string
  evt_Operation :: string
  evt_RequestSummary :: string
  evt_Result :: string
  evt_DurationMs :: int
  evt_FaultInjected :: bool

record Filter =
  fl_Simulator :: string
  fl_HostID :: string
  fl_Operation :: string
  fl_After :: int
  fl_Limit :: int
  fl_Offset :: int

record EventLog =
  el_events :: "Event list"
  el_counter :: int

definition New_log :: EventLog where
  "New_log = \<lparr>el_events = [], el_counter = 0\<rparr>"

text \<open>The zero time of Go is the first of January of the year 1.\<close>

definition zero_time :: int where
  "zero_time = - 62135596800 * 1000000000"

definition evt_id :: "int \<Rightarrow> string" where
  "evt_id n = ''evt-'' @ fmt_0d 6 n"

definition Record :: "int \<Rightarrow> Event \<Rightarrow> EventLog \<Rightarrow> string \<times> EventLog" where
  "Record now event el =
     (let n = (el_counter el + 1) mod 2 ^ 64; ident = evt_id n
      in (ident, el\<lparr>el_counter := n, el_events := el_events el @ [event\<lparr>evt_ID := ident, evt_Timestamp := now\<rparr>]\<rparr>))"

fun matching_events :: "Filter \<Rightarrow> Event list \<Rightarrow> Event list" where
  "matching_events f [] = []"
| "matching_events f (e # es) =
     (if fl_Simulator f \<noteq> '''' \<and> evt_Simulator e \<noteq> fl_Simulator f then matching_events f es
      else if fl_HostID f \<noteq> '''' \<and> evt_HostID e \<noteq> fl_HostID f then matching_events f es
      else if fl_Operation f \<noteq> '''' \<and> evt_Operation e \<noteq> fl_Operation f then matching_events f es
      else if fl_After f \<noteq> zero_time \<and> \<not> fl_After f < evt_Timestamp e then matching_events f es
      else e # matching_events f es)"

definition cut_page :: "Filter \<Rightarrow> Event list \<Rightarrow> Event list" where
  "cut_page f matched = (if fl_Limit f > 0 \<and> fl_Limit f < int (length matched) then take (nat (fl_Limit f)) matched else matched)"

definition Query :: "Filter \<Rightarrow> EventLog \<Rightarrow> Event list \<times> int" where
  "Query f el =
     (let matched = matching_events f (el_events el); cnt = int (length matched) in
      if fl_Offset f > 0 then
        (if fl_Offset f \<ge> int (length matched) then ([], cnt)
         else (cut_page f (drop (nat (fl_Offset f)) matched), cnt))
      else (cut_page f matched, cnt))"

definition Clear :: "EventLog \<Rightarrow> EventLog" where
  "Clear el = el\<lparr>el_events := [], el_counter := 0\<rparr>"

section \<open>HTTP interface\<close>

datatype query_error = InvalidLimit | NegativeLimit | InvalidOffset | NegativeOffset | InvalidAfter

definition defaultLimit :: int where
  "defaultLimit = 100"

text \<open>A number in the query: the default when it is absent, an error when it is no number or negative.\<close>

definition parse_count :: "query_error \<Rightarrow> query_error \<Rightarrow> int \<Rightarrow> string \<Rightarrow> query_error + int" where
  "parse_count bad neg def v =
     (if v = '''' then Inr def
      else (case Atoi v of None \<Rightarrow> Inl bad | Some n \<Rightarrow> if n < 0 then Inl neg else Inr n))"

record events_query =
  eq_Limit :: string
  eq_Offset :: string
  eq_After :: string
  eq_Simulator :: string
  eq_HostID :: string
  eq_Operation :: string

definition parseFilterFromQuery :: "(string \<Rightarrow> int option) \<Rightarrow> events_query \<Rightarrow> query_error + (Filter \<times> int \<times> int)" where
  "parseFilterFromQuery parseTime q =
     (case parse_count InvalidLimit NegativeLimit defaultLimit (eq_Limit q) of
        Inl e \<Rightarrow> Inl e
      | Inr limit \<Rightarrow>
          (case parse_count InvalidOffset NegativeOffset 0 (eq_Offset q) of
             Inl e \<Rightarrow> Inl e
           | Inr offset \<Rightarrow>
               (case (if eq_After q = '''' then Some zero_time else parseTime (eq_After q)) of
                  None \<Rightarrow> Inl InvalidAfter
                | Some after \<Rightarrow>
                    Inr (\<lparr>fl_Simulator = eq_Simulator q, fl_HostID = eq_HostID q, fl_Operation = eq_Operation q,
                          fl_After = after, fl_Limit = limit, fl_Offset = offset\<rparr>, limit, offset))))"

record eventsResponse =
  er_Events :: "Event list"
  er_Total :: int
  er_Limit :: int
  er_Offset :: int

datatype body_log = EventsBody eventsResponse | BadQuery query_error | MethodNotAllowed_log | NoBody_log

definition getEvents :: "(string \<Rightarrow> int option) \<Rightarrow> events_query \<Rightarrow> EventLog \<Rightarrow> nat \<times> body_log" where
  "getEvents parseTime q el =
     (case parseFilterFromQuery parseTime q of
        Inl e \<Rightarrow> (400, BadQuery e)
      | Inr (f, limit, offset) \<Rightarrow>
          (case Query f el of
             (events, cnt) \<Rightarrow> (200, EventsBody \<lparr>er_Events = events, er_Total = cnt, er_Limit = limit, er_Offset = offset\<rparr>)))"

definition deleteEvents :: "EventLog \<Rightarrow> (nat \<times> body_log) \<times> EventLog" where
  "deleteEvents el = ((204, NoBody_log), Clear el)"

definition handleEvents :: "(string \<Rightarrow> int option) \<Rightarrow> string \<Rightarrow> events_query \<Rightarrow> EventLog \<Rightarrow> (nat \<times> body_log) \<times> EventLog" where
  "handleEvents parseTime meth q el =
     (if meth = ''GET'' then (getEvents parseTime q el, el)
      else if meth = ''DELETE'' then deleteEvents el
      else ((405, MethodNotAllowed_log), el))"

section \<open>Paging\<close>

definition wanted :: "Filter \<Rightarrow> Event \<Rightarrow> bool" where
  "wanted f e \<longleftrightarrow> (fl_Simulator f = '''' \<or> evt_Simulator e = fl_Simulator f) \<and> (fl_HostID f = '''' \<or> evt_HostID e = fl_HostID f) \<and>
     (fl_Operation f = '''' \<or> evt_Operation e = fl_Operation f) \<and> (fl_After f = zero_time \<or> fl_After f < evt_Timestamp e)"

lemma matching_events_filter: "matching_events f es = filter (wanted f) es"
  by (induction es) (auto simp: wanted_def)

lemma Query_page:
  assumes "0 < fl_Limit f" "0 \<le> fl_Offset f"
  shows "Query f el = (take (nat (fl_Limit f)) (drop (nat (fl_Offset f)) (filter (wanted f) (el_events el))),
    int (length (filter (wanted f) (el_events el))))"
  using assms by (auto simp: Query_def Let_def cut_page_def matching_events_filter)

lemma pages_append: "0 < n \<Longrightarrow> concat (map (\<lambda>i. take n (drop (i * n) xs)) [0..<m]) = take (m * n) xs"
proof (induction m)
  case (Suc m)
  then show ?case using take_add [of "m * n" n xs] by (simp add: add.commute)
qed simp

text \<open>Asking for one page after the other, of \<open>n\<close> events each, gives every event that matches the filter, once and in the
  order in which they were recorded; the count that comes with each page says how many there are.\<close>

theorem pages_give_all:
  assumes "0 < n" "length (filter (wanted f) (el_events el)) \<le> m * n"
  shows "concat (map (\<lambda>i. fst (Query (f\<lparr>fl_Limit := int n, fl_Offset := int (i * n)\<rparr>) el)) [0..<m]) =
      filter (wanted f) (el_events el) \<and>
    (\<forall>i. snd (Query (f\<lparr>fl_Limit := int n, fl_Offset := int (i * n)\<rparr>) el) = int (length (filter (wanted f) (el_events el))))"
proof -
  let ?g = "\<lambda>i. f\<lparr>fl_Limit := int n, fl_Offset := int (i * n)\<rparr>"
  have same: "wanted (f\<lparr>fl_Limit := a, fl_Offset := b\<rparr>) = wanted f" for a b by (simp add: wanted_def fun_eq_iff)
  have page: "Query (?g i) el = (take n (drop (i * n) (filter (wanted f) (el_events el))), int (length (filter (wanted f) (el_events el))))" for i
    using Query_page [of "?g i" el] assms(1) by (simp add: same nat_mult_distrib)
  then show ?thesis using pages_append [OF assms(1), of "filter (wanted f) (el_events el)" m] assms(2) by simp
qed

definition sample_event :: Event where
  "sample_event = \<lparr>evt_ID = '''', evt_Timestamp = 0, evt_Simulator = ''s'', evt_HostID = ''h'', evt_Operation = ''o'', evt_RequestSummary = '''',
     evt_Result = ''success'', evt_DurationMs = 1, evt_FaultInjected = False\<rparr>"

definition every_event :: Filter where
  "every_event = \<lparr>fl_Simulator = '''', fl_HostID = '''', fl_Operation = '''', fl_After = zero_time, fl_Limit = 0, fl_Offset = 0\<rparr>"

theorem pages_give_all_witness:
  "concat (map (\<lambda>i. fst (Query (every_event\<lparr>fl_Limit := int 2, fl_Offset := int (i * 2)\<rparr>)
     \<lparr>el_events = [sample_event, sample_event, sample_event], el_counter = 3\<rparr>)) [0..<2]) = [sample_event, sample_event, sample_event]"
  using pages_give_all [of 2 every_event "\<lparr>el_events = [sample_event, sample_event, sample_event], el_counter = 3\<rparr>" 2]
  by (simp add: wanted_def every_event_def)

section \<open>Identifiers\<close>

interpretation event_keys: numbered_keys evt_id
proof
  fix m n :: int
  assume "0 \<le> m" "0 \<le> n" "evt_id m = evt_id n"
  then show "m = n" using fmt_0d_inj_nonneg [of m n 6] by (simp add: evt_id_def)
qed

datatype log_event = Records int Event | Clears

fun log_step :: "log_event \<Rightarrow> EventLog \<Rightarrow> EventLog" where
  "log_step (Records now e) el = snd (Record now e el)"
| "log_step Clears el = Clear el"

definition log_ok :: "EventLog \<Rightarrow> bool" where
  "log_ok el \<longleftrightarrow> el_counter el = int (length (el_events el)) \<and>
     map evt_ID (el_events el) = map (\<lambda>i. evt_id (int i + 1)) [0..<length (el_events el)]"

lemma log_step_ok: "log_ok el \<Longrightarrow> el_counter el < 2 ^ 64 - 1 \<Longrightarrow> log_ok (log_step ev el) \<and> el_counter (log_step ev el) \<le> el_counter el + 1"
  by (cases ev) (auto simp: log_ok_def Record_def Clear_def Let_def)

lemma log_run_ok:
  "log_ok el \<Longrightarrow> el_counter el + int (length evs) < 2 ^ 64 \<Longrightarrow> log_ok (fold log_step evs el)"
proof (induction evs arbitrary: el)
  case (Cons ev evs)
  have "log_ok (log_step ev el)" "el_counter (log_step ev el) \<le> el_counter el + 1"
    using log_step_ok [OF Cons.prems(1), of ev] Cons.prems(2) by auto
  with Cons.IH [of "log_step ev el"] Cons.prems(2) show ?case by simp
qed simp

text \<open>The events in the log have different identifiers, numbered from one in the order in which they were recorded since the
  log was last cleared.\<close>

theorem event_ids_in_order:
  assumes "int (length evs) < 2 ^ 64"
  shows "distinct (map evt_ID (el_events (fold log_step evs New_log))) \<and>
    (\<forall>i < length (el_events (fold log_step evs New_log)). evt_ID (el_events (fold log_step evs New_log) ! i) = evt_id (int i + 1))"
proof -
  let ?es = "el_events (fold log_step evs New_log)"
  have "log_ok New_log" by (simp add: log_ok_def New_log_def)
  from log_run_ok [OF this, of evs] assms have ids: "map evt_ID ?es = map (\<lambda>i. evt_id (int i + 1)) [0..<length ?es]"
    by (simp add: log_ok_def New_log_def)
  have "inj_on (\<lambda>i. evt_id (int i + 1)) A" for A
    using event_keys.label_inj [of "int i + 1" "int j + 1" for i j] by (auto simp: inj_on_def)
  then have "distinct (map evt_ID ?es)" unfolding ids by (simp add: distinct_map)
  moreover have "evt_ID (?es ! i) = evt_id (int i + 1)" if "i < length ?es" for i
    using arg_cong [OF ids, of "\<lambda>xs. xs ! i"] that by simp
  ultimately show ?thesis by blast
qed

theorem event_ids_in_order_witness:
  "distinct (map evt_ID (el_events (fold log_step [Records 1 sample_event, Clears, Records 2 sample_event, Records 3 sample_event] New_log)))"
  using event_ids_in_order [of "[Records 1 sample_event, Clears, Records 2 sample_event, Records 3 sample_event]"] by simp

end
