(* ===== verification/State_Snapshots.thy ===== *)
theory State_Snapshots
  imports Go_Values
begin

text \<open>
  Snapshots of the state of components: \<^verbatim>\<open>common/pkg/snapshot/snapshot.go\<close> and its HTTP interface,
  \<^verbatim>\<open>common/internal/handler/snapshot.go\<close>. No simulator implements \<^verbatim>\<open>Snapshotable\<close> yet: what a component
  does is the argument \<open>ops\<close>, over components of any type \<open>'c\<close>, each an object of its own. The
  clock and the orders of iteration are arguments too.
\<close>

section \<open>Manager\<close>

record Snapshot_st =
  ss_ID :: string
  ss_CreatedAt :: int
  ss_Data :: "(string, string) gomap"

text \<open>What a component writes of its state, if it can, and what becomes of it when it is given data to restore.\<close>

record 'c Snapshotable =
  SnapshotState :: "'c \<Rightarrow> string option"
  RestoreState :: "string \<Rightarrow> 'c \<Rightarrow> bool \<times> 'c"

record 'c SnapshotManager =
  mg_snapshots :: "(string, Snapshot_st) gomap"
  mg_components :: "(string, 'c) gomap"
  mg_counter :: int

definition NewManager_st :: "'c SnapshotManager" where
  "NewManager_st = \<lparr>mg_snapshots = fmempty, mg_components = fmempty, mg_counter = 0\<rparr>"

definition Register_st :: "string \<Rightarrow> 'c \<Rightarrow> 'c SnapshotManager \<Rightarrow> 'c SnapshotManager" where
  "Register_st name component m = m\<lparr>mg_components := fmupd name component (mg_components m)\<rparr>"

definition snap_id :: "int \<Rightarrow> string" where
  "snap_id n = ''snap-'' @ fmt_0d 3 n"

datatype snapshot_error = ComponentFailed string | SnapshotNotFound string

fun take_data ::
    "'c Snapshotable \<Rightarrow> (string, 'c) gomap \<Rightarrow> string list \<Rightarrow> (string, string) gomap \<Rightarrow> snapshot_error + (string, string) gomap" where
  "take_data ops cs [] data = Inr data"
| "take_data ops cs (name # ks) data =
     (case get cs name of
        None \<Rightarrow> take_data ops cs ks data
      | Some component \<Rightarrow>
          (case SnapshotState ops component of
             None \<Rightarrow> Inl (ComponentFailed name)
           | Some d \<Rightarrow> take_data ops cs ks (fmupd name d data)))"

definition TakeSnapshot ::
    "'c Snapshotable \<Rightarrow> int \<Rightarrow> string list \<Rightarrow> 'c SnapshotManager \<Rightarrow> (snapshot_error + Snapshot_st) \<times> 'c SnapshotManager" where
  "TakeSnapshot ops now ks m =
     (let n = int64 (mg_counter m + 1); m' = m\<lparr>mg_counter := n\<rparr> in
      case take_data ops (mg_components m) ks fmempty of
        Inl e \<Rightarrow> (Inl e, m')
      | Inr data \<Rightarrow>
          let snap = \<lparr>ss_ID = snap_id n, ss_CreatedAt = now, ss_Data = data\<rparr>
          in (Inr snap, m'\<lparr>mg_snapshots := fmupd (ss_ID snap) snap (mg_snapshots m)\<rparr>))"

fun restore_data ::
    "'c Snapshotable \<Rightarrow> (string, string) gomap \<Rightarrow> string list \<Rightarrow> (string, 'c) gomap \<Rightarrow> snapshot_error option \<times> (string, 'c) gomap" where
  "restore_data ops data [] cs = (None, cs)"
| "restore_data ops data (name # ks) cs =
     (case get data name of
        None \<Rightarrow> restore_data ops data ks cs
      | Some d \<Rightarrow>
          (case get cs name of
             None \<Rightarrow> restore_data ops data ks cs
           | Some component \<Rightarrow>
               (case RestoreState ops d component of
                  (False, component') \<Rightarrow> (Some (ComponentFailed name), fmupd name component' cs)
                | (True, component') \<Rightarrow> restore_data ops data ks (fmupd name component' cs))))"

definition RestoreSnapshot ::
    "'c Snapshotable \<Rightarrow> string list \<Rightarrow> string \<Rightarrow> 'c SnapshotManager \<Rightarrow> snapshot_error option \<times> 'c SnapshotManager" where
  "RestoreSnapshot ops ks ident m =
     (case get (mg_snapshots m) ident of
        None \<Rightarrow> (Some (SnapshotNotFound ident), m)
      | Some snap \<Rightarrow>
          (case restore_data ops (ss_Data snap) ks (mg_components m) of (err, cs) \<Rightarrow> (err, m\<lparr>mg_components := cs\<rparr>)))"

definition ListSnapshots_st :: "string list \<Rightarrow> 'c SnapshotManager \<Rightarrow> Snapshot_st list" where
  "ListSnapshots_st ks m =
     map (\<lambda>s. \<lparr>ss_ID = ss_ID s, ss_CreatedAt = ss_CreatedAt s, ss_Data = fmempty\<rparr>) (values_along (mg_snapshots m) ks)"

definition DeleteSnapshot_st :: "string \<Rightarrow> 'c SnapshotManager \<Rightarrow> snapshot_error option \<times> 'c SnapshotManager" where
  "DeleteSnapshot_st ident m =
     (if get (mg_snapshots m) ident = None then (Some (SnapshotNotFound ident), m)
      else (None, m\<lparr>mg_snapshots := fmdrop ident (mg_snapshots m)\<rparr>))"

section \<open>HTTP interface\<close>

datatype body_st = TakenBody string int | RestoredBody | SnapshotsBody_st "Snapshot_st list" | ErrorBody_st snapshot_error | NoBody_st

definition takeSnapshot ::
    "'c Snapshotable \<Rightarrow> int \<Rightarrow> string list \<Rightarrow> 'c SnapshotManager \<Rightarrow> (nat \<times> body_st) \<times> 'c SnapshotManager" where
  "takeSnapshot ops now ks m =
     (case TakeSnapshot ops now ks m of
        (Inl e, m') \<Rightarrow> ((500, ErrorBody_st e), m')
      | (Inr snap, m') \<Rightarrow> ((201, TakenBody (ss_ID snap) (ss_CreatedAt snap)), m'))"

definition restoreSnapshot ::
    "'c Snapshotable \<Rightarrow> string list \<Rightarrow> string \<Rightarrow> 'c SnapshotManager \<Rightarrow> (nat \<times> body_st) \<times> 'c SnapshotManager" where
  "restoreSnapshot ops ks ident m =
     (case RestoreSnapshot ops ks ident m of
        (Some e, m') \<Rightarrow> ((404, ErrorBody_st e), m')
      | (None, m') \<Rightarrow> ((200, RestoredBody), m'))"

definition listSnapshots_st :: "string list \<Rightarrow> 'c SnapshotManager \<Rightarrow> nat \<times> body_st" where
  "listSnapshots_st ks m = (200, SnapshotsBody_st (ListSnapshots_st ks m))"

definition deleteSnapshot_st :: "string \<Rightarrow> 'c SnapshotManager \<Rightarrow> (nat \<times> body_st) \<times> 'c SnapshotManager" where
  "deleteSnapshot_st ident m =
     (case DeleteSnapshot_st ident m of
        (Some e, m') \<Rightarrow> ((404, ErrorBody_st e), m')
      | (None, m') \<Rightarrow> ((204, NoBody_st), m'))"

section \<open>Taking and restoring\<close>

lemma take_data_spec:
  assumes "take_data ops cs ks data = Inr out"
  shows "get out k = (if k \<in> set ks \<and> get cs k \<noteq> None then Option.bind (get cs k) (SnapshotState ops) else get data k)"
    "k \<in> set ks \<Longrightarrow> get cs k = Some c \<Longrightarrow> SnapshotState ops c \<noteq> None"
  using assms by (induction ks arbitrary: data) (auto split: option.splits if_splits)

lemma restore_data_spec:
  assumes "restore_data ops data ks cs = (err, cs')" "distinct ks"
    and "\<forall>k\<in>set ks. \<forall>c d. get cs k = Some c \<longrightarrow> get data k = Some d \<longrightarrow> fst (RestoreState ops d c)"
  shows "err = None"
    "get cs' k = (case (get cs k, if k \<in> set ks then get data k else None) of (Some c, Some d) \<Rightarrow> Some (snd (RestoreState ops d c)) | _ \<Rightarrow> get cs k)"
proof -
  have "err = None \<and> get cs' k =
      (case (get cs k, if k \<in> set ks then get data k else None) of (Some c, Some d) \<Rightarrow> Some (snd (RestoreState ops d c)) | _ \<Rightarrow> get cs k)"
    using assms
  proof (induction ks arbitrary: cs)
    case (Cons name ks)
    show ?case
    proof (cases "\<exists>c d. get cs name = Some c \<and> get data name = Some d")
      case True
      then obtain c d where cd: "get cs name = Some c" "get data name = Some d" by blast
      then have ok: "fst (RestoreState ops d c)" using Cons.prems(3) by simp
      define cs1 where "cs1 = fmupd name (snd (RestoreState ops d c)) cs"
      have "restore_data ops data ks cs1 = (err, cs')"
        using Cons.prems(1) cd ok unfolding cs1_def by (auto split: prod.splits)
      moreover have "\<forall>k\<in>set ks. \<forall>c d. get cs1 k = Some c \<longrightarrow> get data k = Some d \<longrightarrow> fst (RestoreState ops d c)"
        using Cons.prems(2,3) by (auto simp: cs1_def)
      ultimately have "err = None \<and> get cs' k =
          (case (get cs1 k, if k \<in> set ks then get data k else None) of (Some c, Some d) \<Rightarrow> Some (snd (RestoreState ops d c)) | _ \<Rightarrow> get cs1 k)"
        using Cons.prems(2) by (intro Cons.IH) simp_all
      then show ?thesis using Cons.prems(2) cd by (auto simp: cs1_def split: option.splits)
    next
      case False
      then have "restore_data ops data (name # ks) cs = restore_data ops data ks cs"
        by (auto split: option.split)
      then have "err = None \<and> get cs' k =
          (case (get cs k, if k \<in> set ks then get data k else None) of (Some c, Some d) \<Rightarrow> Some (snd (RestoreState ops d c)) | _ \<Rightarrow> get cs k)"
        using Cons.prems by (intro Cons.IH) auto
      then show ?thesis using False by (auto split: option.splits)
    qed
  qed (auto split: option.split)
  then show "err = None"
    "get cs' k = (case (get cs k, if k \<in> set ks then get data k else None) of (Some c, Some d) \<Rightarrow> Some (snd (RestoreState ops d c)) | _ \<Rightarrow> get cs k)"
    by simp_all
qed

text \<open>C40: 
  Taking a snapshot and restoring it later brings back every component that was registered, if a component that
  restores what it once wrote has the state it had then; whatever the components went through in between, and also if
  components were registered or snapshots taken and deleted since. A component that is new stays as it is.
\<close>

theorem restore_brings_back:
  assumes "\<forall>c d c'. SnapshotState ops c = Some d \<longrightarrow> RestoreState ops d c' = (True, c)"
    and "iteration_order (mg_components m) ks" "TakeSnapshot ops now ks m = (Inr snap, m1)"
    and "get (mg_snapshots m2) (ss_ID snap) = get (mg_snapshots m1) (ss_ID snap)"
    and "fmdom' (mg_components m) \<subseteq> fmdom' (mg_components m2)" "iteration_order (ss_Data snap) ls"
  shows "\<exists>m3. RestoreSnapshot ops ls (ss_ID snap) m2 = (None, m3) \<and>
    (\<forall>k. get (mg_components m3) k = (if get (mg_components m) k = None then get (mg_components m2) k else get (mg_components m) k))"
proof -
  obtain data where data: "take_data ops (mg_components m) ks fmempty = Inr data" "ss_Data snap = data"
      "get (mg_snapshots m2) (ss_ID snap) = Some snap"
    using assms(3,4) by (auto simp: TakeSnapshot_def Let_def split: sum.splits)
  have ks: "set ks = fmdom' (mg_components m)" using assms(2) by (simp add: iteration_order_def)
  have written: "get data k = Option.bind (get (mg_components m) k) (SnapshotState ops)" for k
    using take_data_spec(1) [OF data(1), of k] ks by (cases "get (mg_components m) k") (auto simp: fmlookup_dom'_iff)
  have wrote: "SnapshotState ops c = Some (the (get data k))" if "get (mg_components m) k = Some c" for k c
    using take_data_spec(2) [OF data(1), of k c] that ks written [of k] by (force simp: fmlookup_dom'_iff)
  have again: "RestoreState ops d c = (True, the (get (mg_components m) k))" if "get data k = Some d" for k d c
    using that written [of k] assms(1) by (cases "get (mg_components m) k") auto
  obtain err cs where cs: "restore_data ops data ls (mg_components m2) = (err, cs)" by fastforce
  have ls: "distinct ls" "set ls = fmdom' data" using assms(6) data(2) by (simp_all add: iteration_order_def)
  have laws: "\<forall>k\<in>set ls. \<forall>c d. get (mg_components m2) k = Some c \<longrightarrow> get data k = Some d \<longrightarrow> fst (RestoreState ops d c)"
    using again by simp
  note spec = restore_data_spec [OF cs ls(1) laws]
  have all: "get cs k = (if get (mg_components m) k = None then get (mg_components m2) k else get (mg_components m) k)" for k
  proof (cases "get (mg_components m) k")
    case None
    then have "get data k = None" using written [of k] by simp
    then show ?thesis using spec(2) [of k] None by (simp split: option.split)
  next
    case (Some c)
    then have d: "get data k = Some (the (get data k))" using written [of k] wrote [OF Some] by simp
    then have "k \<in> set ls" unfolding ls by (metis fmdom'I)
    moreover obtain c2 where "get (mg_components m2) k = Some c2"
      using Some assms(5) by (metis fmdom'I fmlookup_dom'_iff subsetD)
    ultimately show ?thesis
      using spec(2) [of k] d again [of k _ c2] Some by (simp split: option.splits)
  qed
  show ?thesis
    using cs spec(1) all data(2,3) by (simp add: RestoreSnapshot_def)
qed

text \<open>A component that writes its state, a string, as it is.\<close>

definition verbatim_ops :: "string Snapshotable" where
  "verbatim_ops = \<lparr>SnapshotState = Some, RestoreState = (\<lambda>d c. (True, d))\<rparr>"

definition one_component :: "string \<Rightarrow> string SnapshotManager" where
  "one_component st = Register_st ''disk'' st NewManager_st"

theorem restore_brings_back_witness:
  "\<exists>m3. RestoreSnapshot verbatim_ops [''disk''] (snap_id 1)
     (Register_st ''disk'' ''later'' (snd (TakeSnapshot verbatim_ops 5 [''disk''] (one_component ''then'')))) = (None, m3) \<and>
     get (mg_components m3) ''disk'' = Some ''then''"
proof -
  let ?snap = "\<lparr>ss_ID = snap_id 1, ss_CreatedAt = 5, ss_Data = fmupd ''disk'' ''then'' fmempty\<rparr>"
  obtain m1 where m1: "TakeSnapshot verbatim_ops 5 [''disk''] (one_component ''then'') = (Inr ?snap, m1)"
    by (simp add: TakeSnapshot_def one_component_def verbatim_ops_def Register_st_def NewManager_st_def int64_id Let_def)
  have "iteration_order (mg_components (one_component ''then'')) [''disk'']" "iteration_order (ss_Data ?snap) [''disk'']"
    by (simp_all add: one_component_def Register_st_def NewManager_st_def iteration_order_def)
  moreover have "fmdom' (mg_components (one_component ''then'')) \<subseteq> fmdom' (mg_components (Register_st ''disk'' ''later'' m1))"
    by (simp add: one_component_def Register_st_def NewManager_st_def)
  ultimately show ?thesis
    using restore_brings_back [of verbatim_ops "one_component ''then''" "[''disk'']" 5 ?snap m1 "Register_st ''disk'' ''later'' m1" "[''disk'']"] m1
    by (auto simp: verbatim_ops_def one_component_def Register_st_def NewManager_st_def split: if_splits)
qed

section \<open>Identifiers\<close>

interpretation snapshot_keys: numbered_keys snap_id
proof
  fix m n :: int
  assume "0 \<le> m" "0 \<le> n" "snap_id m = snap_id n"
  then show "m = n" using fmt_0d_inj_nonneg [of m n 3] by (simp add: snap_id_def)
qed

lemma take_keeps_others:
  assumes "keys_upto snap_id (mg_counter m) (mg_snapshots m)" "mg_counter m < MaxInt64" "TakeSnapshot ops now ks m = (res, m')"
  shows "keys_upto snap_id (mg_counter m') (mg_snapshots m') \<and>
    (\<forall>k s. get (mg_snapshots m) k = Some s \<longrightarrow> get (mg_snapshots m') k = Some s)"
proof -
  have "int64 (mg_counter m + 1) = mg_counter m + 1" using assms(1,2) by (intro int64_id) (auto simp: keys_upto_def)
  then show ?thesis
    using assms(1,3) keys_upto_next [OF assms(1)] snapshot_keys.next_keeps [OF assms(1)]
      keys_upto_mono [OF assms(1), of "mg_counter m + 1" "mg_snapshots m"]
    by (auto simp: TakeSnapshot_def Let_def split: sum.splits if_splits)
qed

end
