(* ===== verification/Load_Gen.thy ===== *)
theory Load_Gen
  imports Go_Values
begin

text \<open>
  The load generator: \<^verbatim>\<open>load-gen/internal/engine/engine.go\<close> and \<^verbatim>\<open>load-gen/internal/handler/handler.go\<close>.
  A run is carried out by a goroutine of its own; it reads the clock again and again, and its
  \<open>i\<close>-th reading is \<open>clk i\<close>. Its actions are only counted and slept through: the sleep, and the
  rate it comes from, show in the clock alone. The reader of YAML is the argument \<open>yaml\<close>. The loop of
  a phase has fuel; \<open>workload_completes\<close> shows that enough of it gives a result.
\<close>

section \<open>Data\<close>

record ActionDef =
  ad_Type :: string
  ad_RatePerSec :: f64

record PhaseDef =
  ph_Name :: string
  ph_DurationSec :: int
  ph_Actions :: "ActionDef list"

record Assertion =
  as_Metric :: string
  as_ThresholdMs :: f64
  as_ThresholdPercent :: f64

record WorkloadDef =
  wl_Name :: string
  wl_Target :: string
  wl_Phases :: "PhaseDef list"
  wl_Assertions :: "Assertion list"

record AssertionResult =
  ar_Passed :: bool
  ar_ThresholdMs :: f64
  ar_ActualMs :: f64
  ar_ThresholdPercent :: f64
  ar_ActualPercent :: f64

record RunResult =
  ru_RunID :: string
  ru_Status :: string
  ru_WorkloadName :: string
  ru_TotalRequests :: int
  ru_SuccessfulRequests :: int
  ru_FailedRequests :: int
  ru_DurationMs :: int
  ru_Assertions :: "(string, AssertionResult) gomap"
  ru_StartedAt :: int
  ru_FinishedAt :: "int option"

record LoadEngine =
  le_runs :: "(string, RunResult) gomap"
  le_counter :: int

definition New_load :: LoadEngine where
  "New_load = \<lparr>le_runs = fmempty, le_counter = 0\<rparr>"

section \<open>Starting a run\<close>

definition ParseWorkload :: "(string \<Rightarrow> string + WorkloadDef) \<Rightarrow> string \<Rightarrow> string + WorkloadDef" where
  "ParseWorkload yaml data = yaml data"

definition run_id :: "int \<Rightarrow> string" where
  "run_id n = ''run-'' @ fmt_0d 3 n"

definition new_run :: "int \<Rightarrow> string \<Rightarrow> string \<Rightarrow> RunResult" where
  "new_run now ident name = \<lparr>ru_RunID = ident, ru_Status = ''running'', ru_WorkloadName = name, ru_TotalRequests = 0,
     ru_SuccessfulRequests = 0, ru_FailedRequests = 0, ru_DurationMs = 0, ru_Assertions = fmempty, ru_StartedAt = now,
     ru_FinishedAt = None\<rparr>"

definition RunWorkload :: "int \<Rightarrow> WorkloadDef \<Rightarrow> LoadEngine \<Rightarrow> RunResult \<times> LoadEngine" where
  "RunWorkload now workload e =
     (let n = int64 (le_counter e + 1); result = new_run now (run_id n) (wl_Name workload)
      in (result, e\<lparr>le_counter := n, le_runs := fmupd (run_id n) result (le_runs e)\<rparr>))"

definition GetRun :: "string \<Rightarrow> LoadEngine \<Rightarrow> RunResult option" where
  "GetRun runID e = get (le_runs e) runID"

section \<open>Carrying out a run\<close>

text \<open>Where the goroutine stands: how often it has read the clock, and what it has counted.\<close>

record progress =
  pr_reads :: nat
  pr_requests :: int
  pr_successes :: int

definition tick :: "progress \<Rightarrow> progress" where
  "tick p = p\<lparr>pr_reads := Suc (pr_reads p)\<rparr>"

definition count_request :: "progress \<Rightarrow> progress" where
  "count_request p = p\<lparr>pr_requests := int64 (pr_requests p + 1), pr_successes := int64 (pr_successes p + 1)\<rparr>"

fun do_actions :: "(nat \<Rightarrow> int) \<Rightarrow> int \<Rightarrow> ActionDef list \<Rightarrow> progress \<Rightarrow> progress" where
  "do_actions clk deadline [] p = p"
| "do_actions clk deadline (a # acts) p =
     (let p' = count_request p in
      if deadline < clk (pr_reads p') then tick p' else do_actions clk deadline acts (tick p'))"

fun phase_loop :: "nat \<Rightarrow> (nat \<Rightarrow> int) \<Rightarrow> int \<Rightarrow> ActionDef list \<Rightarrow> progress \<Rightarrow> progress option" where
  "phase_loop 0 clk deadline acts p = None"
| "phase_loop (Suc fuel) clk deadline acts p =
     (if clk (pr_reads p) < deadline then phase_loop fuel clk deadline acts (do_actions clk deadline acts (tick p))
      else Some (tick p))"

fun run_phases :: "nat \<Rightarrow> (nat \<Rightarrow> int) \<Rightarrow> PhaseDef list \<Rightarrow> progress \<Rightarrow> progress option" where
  "run_phases fuel clk [] p = Some p"
| "run_phases fuel clk (ph # phs) p =
     (let deadline = clk (pr_reads p) + int64 (ph_DurationSec ph * 1000000000) in
      case phase_loop fuel clk deadline (ph_Actions ph) (tick p) of
        None \<Rightarrow> None
      | Some p' \<Rightarrow> run_phases fuel clk phs p')"

definition f64_leq :: "f64 \<Rightarrow> f64 \<Rightarrow> bool" where
  "f64_leq a b \<longleftrightarrow> f64_less a b \<or> a = b \<and> a \<noteq> NaN"

definition evaluate :: "f64 \<Rightarrow> Assertion \<Rightarrow> AssertionResult" where
  "evaluate successRate a =
     (let none = \<lparr>ar_Passed = False, ar_ThresholdMs = Fin 0, ar_ActualMs = Fin 0, ar_ThresholdPercent = Fin 0, ar_ActualPercent = Fin 0\<rparr> in
      if f64_less (Fin 0) (as_ThresholdMs a)
      then none\<lparr>ar_ThresholdMs := as_ThresholdMs a, ar_ActualMs := Fin 10, ar_Passed := f64_leq (Fin 10) (as_ThresholdMs a)\<rparr>
      else if f64_less (Fin 0) (as_ThresholdPercent a)
      then none\<lparr>ar_ThresholdPercent := as_ThresholdPercent a, ar_ActualPercent := successRate,
                ar_Passed := f64_leq (as_ThresholdPercent a) successRate\<rparr>
      else none)"

definition success_rate :: "int \<Rightarrow> int \<Rightarrow> f64" where
  "success_rate requests successes =
     (if requests > 0 then f64_of_int successes div f64_of_int requests * Fin 100 else Fin 0)"

definition finish_run :: "int \<Rightarrow> int \<Rightarrow> progress \<Rightarrow> WorkloadDef \<Rightarrow> RunResult \<Rightarrow> RunResult" where
  "finish_run now later p workload result =
     result\<lparr>ru_TotalRequests := pr_requests p, ru_SuccessfulRequests := pr_successes p,
       ru_FailedRequests := int64 (pr_requests p - pr_successes p), ru_DurationMs := go_div (later - ru_StartedAt result) 1000000,
       ru_FinishedAt := Some now, ru_Status := ''completed'',
       ru_Assertions := fold (\<lambda>a. fmupd (as_Metric a) (evaluate (success_rate (pr_requests p) (pr_successes p)) a))
         (wl_Assertions workload) (ru_Assertions result)\<rparr>"

text \<open>The whole of \<^verbatim>\<open>executeWorkload\<close>, on the run it was started with; the run of another identifier is not touched.\<close>

definition executeWorkload :: "nat \<Rightarrow> (nat \<Rightarrow> int) \<Rightarrow> string \<Rightarrow> WorkloadDef \<Rightarrow> LoadEngine \<Rightarrow> LoadEngine option" where
  "executeWorkload fuel clk runID workload e =
     (case run_phases fuel clk (wl_Phases workload) \<lparr>pr_reads = 0, pr_requests = 0, pr_successes = 0\<rparr> of
        None \<Rightarrow> None
      | Some p \<Rightarrow>
          Some (case get (le_runs e) runID of
            None \<Rightarrow> e
          | Some result \<Rightarrow>
              e\<lparr>le_runs := fmupd runID (finish_run (clk (pr_reads p)) (clk (Suc (pr_reads p))) p workload result) (le_runs e)\<rparr>))"

section \<open>HTTP interface\<close>

datatype body_load = RunBody RunResult | BodyUnread | WorkloadError string | RunNotFound string

definition runWorkload :: "(string \<Rightarrow> string + WorkloadDef) \<Rightarrow> int \<Rightarrow> string option \<Rightarrow> LoadEngine \<Rightarrow> (nat \<times> body_load) \<times> LoadEngine" where
  "runWorkload yaml now body e =
     (case body of
        None \<Rightarrow> ((400, BodyUnread), e)
      | Some data \<Rightarrow>
          (case ParseWorkload yaml data of
             Inl msg \<Rightarrow> ((400, WorkloadError msg), e)
           | Inr workload \<Rightarrow> (case RunWorkload now workload e of (result, e') \<Rightarrow> ((202, RunBody result), e'))))"

definition getRun :: "string \<Rightarrow> LoadEngine \<Rightarrow> nat \<times> body_load" where
  "getRun runID e = (case GetRun runID e of None \<Rightarrow> (404, RunNotFound runID) | Some result \<Rightarrow> (200, RunBody result))"

section \<open>Every run completes\<close>

text \<open>A clock that never goes back and goes on for ever.\<close>

definition clock_runs :: "(nat \<Rightarrow> int) \<Rightarrow> bool" where
  "clock_runs clk \<longleftrightarrow> (\<forall>i j. i \<le> j \<longrightarrow> clk i \<le> clk j) \<and> (\<forall>t. \<exists>i. t \<le> clk i)"

lemma do_actions_reads: "pr_reads p \<le> pr_reads (do_actions clk deadline acts p)"
proof (induction clk deadline acts p rule: do_actions.induct)
  case (2 clk deadline a acts p)
  then show ?case by (force simp: Let_def tick_def count_request_def)
qed simp

lemma do_actions_counts:
  "pr_requests p = pr_successes p \<Longrightarrow> pr_requests (do_actions clk deadline acts p) = pr_successes (do_actions clk deadline acts p)"
  by (induction clk deadline acts p rule: do_actions.induct) (auto simp: Let_def tick_def count_request_def)

lemma phase_loop_done:
  assumes "\<forall>i\<ge>n. deadline \<le> clk i" "n - pr_reads p < fuel"
  shows "\<exists>p'. phase_loop fuel clk deadline acts p = Some p'"
  using assms(2)
proof (induction fuel arbitrary: p)
  case (Suc fuel)
  show ?case
  proof (cases "clk (pr_reads p) < deadline")
    case True
    then have "pr_reads p < n" using assms(1) by (meson leD not_le_imp_less)
    then have "n - pr_reads (do_actions clk deadline acts (tick p)) < fuel"
      using Suc.prems do_actions_reads [of "tick p" clk deadline acts] by (simp add: tick_def)
    from Suc.IH [OF this] show ?thesis using True by simp
  qed simp
qed simp

lemma phase_loop_more: "phase_loop fuel clk deadline acts p = Some p' \<Longrightarrow> fuel \<le> fuel' \<Longrightarrow> phase_loop fuel' clk deadline acts p = Some p'"
proof (induction fuel arbitrary: fuel' p)
  case (Suc fuel)
  then show ?case by (cases fuel') (auto split: if_splits)
qed simp

lemma run_phases_more: "run_phases fuel clk phs p = Some p' \<Longrightarrow> fuel \<le> fuel' \<Longrightarrow> run_phases fuel' clk phs p = Some p'"
proof (induction phs arbitrary: p)
  case (Cons ph phs)
  let ?loop = "\<lambda>f. phase_loop f clk (clk (pr_reads p) + int64 (ph_DurationSec ph * 1000000000)) (ph_Actions ph) (tick p)"
  obtain p1 where one: "?loop fuel = Some p1" "run_phases fuel clk phs p1 = Some p'"
    using Cons.prems(1) by (auto simp: Let_def split: option.splits)
  then show ?case
    using phase_loop_more [OF one(1) Cons.prems(2)] Cons.IH [OF one(2) Cons.prems(2)] by (simp add: Let_def)
qed simp

lemma run_phases_done:
  assumes "clock_runs clk"
  shows "\<exists>fuel p'. run_phases fuel clk phs p = Some p'"
proof (induction phs arbitrary: p)
  case (Cons ph phs)
  let ?deadline = "clk (pr_reads p) + int64 (ph_DurationSec ph * 1000000000)"
  obtain n where "?deadline \<le> clk n" using assms unfolding clock_runs_def by blast
  then have "\<forall>i\<ge>n. ?deadline \<le> clk i" using assms unfolding clock_runs_def by (meson order_trans)
  then obtain f1 p1 where one: "phase_loop f1 clk ?deadline (ph_Actions ph) (tick p) = Some p1"
    using phase_loop_done by blast
  obtain f2 p2 where two: "run_phases f2 clk phs p1 = Some p2" using Cons.IH by blast
  have "run_phases (f1 + f2) clk (ph # phs) p = Some p2"
    using phase_loop_more [OF one, of "f1 + f2"] run_phases_more [OF two, of "f1 + f2"] by (simp add: Let_def)
  then show ?case by blast
qed simp

lemma phase_loop_counts:
  "phase_loop fuel clk deadline acts p = Some p' \<Longrightarrow> pr_requests p = pr_successes p \<Longrightarrow> pr_requests p' = pr_successes p'"
proof (induction fuel arbitrary: p)
  case (Suc fuel)
  show ?case
  proof (cases "clk (pr_reads p) < deadline")
    case True
    have "pr_requests (do_actions clk deadline acts (tick p)) = pr_successes (do_actions clk deadline acts (tick p))"
      using Suc.prems(2) by (intro do_actions_counts) (simp add: tick_def)
    with Suc True show ?thesis by simp
  qed (use Suc.prems in \<open>auto simp: tick_def\<close>)
qed simp

lemma run_phases_counts:
  "run_phases fuel clk phs p = Some p' \<Longrightarrow> pr_requests p = pr_successes p \<Longrightarrow> pr_requests p' = pr_successes p'"
proof (induction phs arbitrary: p)
  case (Cons ph phs)
  obtain p1 where "phase_loop fuel clk (clk (pr_reads p) + int64 (ph_DurationSec ph * 1000000000)) (ph_Actions ph) (tick p) = Some p1"
    "run_phases fuel clk phs p1 = Some p'"
    using Cons.prems(1) by (auto simp: Let_def split: option.splits)
  moreover have "pr_requests (tick p) = pr_successes (tick p)" using Cons.prems(2) by (simp add: tick_def)
  ultimately show ?case using Cons.IH [of p1] phase_loop_counts by blast
qed simp

text \<open>With a clock that keeps moving, a run that was started completes: the goroutine leaves its loops, however long the phases
  and whatever the rates, and the run is then shown as completed with a time of completion.\<close>

theorem workload_completes:
  assumes "clock_runs clk" "RunWorkload now workload e = (result, e1)"
  shows "\<exists>fuel e2 r. executeWorkload fuel clk (ru_RunID result) workload e1 = Some e2 \<and> GetRun (ru_RunID result) e2 = Some r \<and>
    ru_Status r = ''completed'' \<and> ru_FinishedAt r \<noteq> None \<and> (\<forall>k. k \<noteq> ru_RunID result \<longrightarrow> GetRun k e2 = GetRun k e1)"
proof -
  obtain fuel p where p: "run_phases fuel clk (wl_Phases workload) \<lparr>pr_reads = 0, pr_requests = 0, pr_successes = 0\<rparr> = Some p"
    using run_phases_done [OF assms(1)] by blast
  have stored: "get (le_runs e1) (ru_RunID result) = Some result"
    using assms(2) by (auto simp: RunWorkload_def new_run_def Let_def)
  show ?thesis
    by (rule exI [of _ fuel], simp add: executeWorkload_def p stored GetRun_def finish_run_def)
qed

definition second_clock :: "nat \<Rightarrow> int" where
  "second_clock i = int i * 1000000000"

lemma second_clock_runs: "clock_runs second_clock"
proof -
  have "\<exists>i. t \<le> second_clock i" for t
    by (rule exI [of _ "nat t"]) (simp add: second_clock_def)
  then show ?thesis by (simp add: clock_runs_def second_clock_def)
qed

definition short_workload :: WorkloadDef where
  "short_workload = \<lparr>wl_Name = ''w'', wl_Target = ''t'', wl_Phases = [\<lparr>ph_Name = ''p'', ph_DurationSec = 2,
     ph_Actions = [\<lparr>ad_Type = ''create'', ad_RatePerSec = Fin 1\<rparr>]\<rparr>],
     wl_Assertions = [\<lparr>as_Metric = ''m'', as_ThresholdMs = Fin 0, as_ThresholdPercent = Fin 95\<rparr>]\<rparr>"

theorem workload_completes_witness:
  "\<exists>fuel e2 r. executeWorkload fuel second_clock (run_id 1) short_workload (snd (RunWorkload 5 short_workload New_load)) = Some e2 \<and>
     GetRun (run_id 1) e2 = Some r \<and> ru_Status r = ''completed''"
  using workload_completes [OF second_clock_runs, of 5 short_workload New_load "new_run 5 (run_id 1) ''w''"
      "snd (RunWorkload 5 short_workload New_load)"]
  by (fastforce simp: RunWorkload_def New_load_def new_run_def short_workload_def int64_id Let_def)

lemma full_rate: "0 < n \<Longrightarrow> n < 2 ^ 53 \<Longrightarrow> success_rate n n = Fin 100"
proof -
  assume n: "0 < n" "n < 2 ^ 53"
  then have "f64_of_int n div f64_of_int n = Fin 1"
    using round64_of_int [of 1] by (simp add: f64_of_int_exact)
  then show ?thesis using n round64_of_int [of 100] by (simp add: success_rate_def)
qed

lemma find_append: "find P (xs @ ys) = (case find P xs of None \<Rightarrow> find P ys | Some x \<Rightarrow> Some x)"
  by (induction xs) simp_all

lemma evaluated_last:
  "get (fold (\<lambda>a. fmupd (as_Metric a) (f a)) as m) k =
     (case find (\<lambda>a. as_Metric a = k) (rev as) of None \<Rightarrow> get m k | Some a \<Rightarrow> Some (f a))"
  by (induction as arbitrary: m) (auto simp: find_append split: option.splits)

text \<open>
  A completed run never reports a failed request: successes are counted for every request, so that of
  the two numbers the second is always the first, and every assertion on the success rate with a threshold of
  at most 100 passes as soon as one request was made. Each metric shows the last assertion on it.
\<close>

theorem no_request_fails:
  assumes "executeWorkload fuel clk runID workload e = Some e'" "get (le_runs e) runID = Some result" "ru_Assertions result = fmempty"
    and "GetRun runID e' = Some r"
  shows "ru_SuccessfulRequests r = ru_TotalRequests r \<and> ru_FailedRequests r = 0 \<and>
    (\<forall>a k. find (\<lambda>a. as_Metric a = k) (rev (wl_Assertions workload)) = Some a \<longrightarrow> get (ru_Assertions r) k =
       Some (evaluate (success_rate (ru_TotalRequests r) (ru_TotalRequests r)) a)) \<and>
    (0 < ru_TotalRequests r \<and> ru_TotalRequests r < 2 ^ 53 \<longrightarrow> success_rate (ru_TotalRequests r) (ru_TotalRequests r) = Fin 100)"
proof -
  obtain p where p: "run_phases fuel clk (wl_Phases workload) \<lparr>pr_reads = 0, pr_requests = 0, pr_successes = 0\<rparr> = Some p"
    using assms(1) by (auto simp: executeWorkload_def split: option.splits)
  have r: "r = finish_run (clk (pr_reads p)) (clk (Suc (pr_reads p))) p workload result"
    using assms by (auto simp: executeWorkload_def p GetRun_def)
  have same: "pr_requests p = pr_successes p" using run_phases_counts [OF p] by simp
  show ?thesis
    using same full_rate assms(3) by (simp add: r finish_run_def evaluated_last)
qed

theorem no_request_fails_witness:
  "\<exists>r. GetRun (run_id 1) (the (executeWorkload 5 second_clock (run_id 1) short_workload (snd (RunWorkload 5 short_workload New_load)))) = Some r \<and>
     ru_TotalRequests r = 1 \<and> ru_FailedRequests r = 0 \<and>
     get (ru_Assertions r) ''m'' = Some \<lparr>ar_Passed = True, ar_ThresholdMs = Fin 0, ar_ActualMs = Fin 0, ar_ThresholdPercent = Fin 95, ar_ActualPercent = Fin 100\<rparr>"
proof -
  let ?e = "snd (RunWorkload 5 short_workload New_load)"
  have e: "get (le_runs ?e) (run_id 1) = Some (new_run 5 (run_id 1) ''w'')"
    by (simp add: RunWorkload_def New_load_def short_workload_def int64_id Let_def)
  have p: "run_phases 5 second_clock (wl_Phases short_workload) \<lparr>pr_reads = 0, pr_requests = 0, pr_successes = 0\<rparr> =
      Some \<lparr>pr_reads = 4, pr_requests = 1, pr_successes = 1\<rparr>"
    by (simp add: short_workload_def second_clock_def int64_id tick_def count_request_def Let_def numeral_eq_Suc)
  obtain e' r where run: "executeWorkload 5 second_clock (run_id 1) short_workload ?e = Some e'" "GetRun (run_id 1) e' = Some r"
    "ru_TotalRequests r = 1"
    by (simp add: executeWorkload_def p e GetRun_def finish_run_def)
  from no_request_fails [OF run(1) e _ run(2)] run show ?thesis
    by (auto simp: new_run_def short_workload_def evaluate_def f64_leq_def)
qed

end
