(* ===== verification/Datagen.thy ===== *)
theory Datagen
  imports Go_Values
begin

text \<open>
  The generator of environments, \<^verbatim>\<open>common/pkg/datagen/datagen.go\<close>, and its HTTP interface,
  \<^verbatim>\<open>common/internal/handler/datagen.go\<close>. The reader of YAML, a library, is the argument \<open>yaml\<close>: the
  definition, or the text of an error.
\<close>

section \<open>Definitions of environments\<close>

record SiteDef =
  sd_Name :: string
  sd_RackRows :: int
  sd_RacksPerRow :: int
  sd_HostsPerRack :: int
  sd_HostTemplate :: string

record NICDef =
  nd_Name :: string
  nd_SpeedGbps :: int
  nd_SRIOV :: bool

record DiskDef =
  kd_Type :: string
  kd_SizeGB :: int

record GPUDef =
  gd_Model :: string
  gd_Count :: int

record HostTemplate =
  ht_CPUModel :: string
  ht_CPUSockets :: int
  ht_CoresPerSocket :: int
  ht_ThreadsPerCore :: int
  ht_MemoryGB :: int
  ht_NUMANodes :: int
  ht_NICs :: "NICDef list"
  ht_LocalDisks :: "DiskDef list"
  ht_GPUs :: "GPUDef list"
  ht_Inherits :: string

record StorageBackendDef =
  bd_BackendName :: string
  bd_Type :: string
  bd_TotalCapacityTB :: int
  bd_TotalIOPS :: int
  bd_Capabilities :: "string list"
  bd_AccessibleFrom :: "string list"

record OVNClusterDef =
  cd_Name :: string
  cd_Covers :: "string list"

record Range =
  rg_Min :: int
  rg_Max :: int

record PreloadDef =
  pd_VMsPerHost :: Range
  pd_VolumesPerVM :: Range
  pd_NetworksPerTenant :: int
  pd_Tenants :: int

record Environment =
  en_Name :: string
  en_Sites :: "SiteDef list"
  en_HostTemplates :: "(string, HostTemplate) gomap"
  en_StorageBackends :: "StorageBackendDef list"
  en_OVNClusters :: "OVNClusterDef list"
  en_Preload :: "PreloadDef option"

record EnvironmentDef =
  ed_Environment :: Environment

section \<open>Generation\<close>

record GeneratedHost =
  gh_HostID :: string
  gh_SiteName :: string
  gh_RackName :: string
  gh_RowName :: string
  gh_CPUModel :: string
  gh_CPUSockets :: int
  gh_CoresPerSocket :: int
  gh_ThreadsPerCore :: int
  gh_MemoryMB :: int
  gh_LibvirtPort :: int

record GeneratedBackend =
  gb_BackendID :: string
  gb_TotalCapacityGB :: int
  gb_TotalIOPS :: int
  gb_Capabilities :: "string list"

record GenerateResult =
  gr_Name :: string
  gr_Hosts :: "GeneratedHost list"
  gr_Backends :: "GeneratedBackend list"

datatype generate_error = ParseError string | TemplateMissing string

text \<open>Of the message of a failure the model keeps what it is about.\<close>

record GenerateStatus =
  gs_State :: string
  gs_Message :: "generate_error option"

record Generator =
  gn_result :: "GenerateResult option"
  gn_status :: GenerateStatus

definition state_only :: "string \<Rightarrow> GenerateStatus" where
  "state_only st = \<lparr>gs_State = st, gs_Message = None\<rparr>"

definition New_datagen :: Generator where
  "New_datagen = \<lparr>gn_result = None, gn_status = state_only ''idle''\<rparr>"

definition row_name :: "string \<Rightarrow> int \<Rightarrow> string" where
  "row_name site row = ''row-'' @ site @ ''-'' @ fmt_0d 0 row"

definition rack_name :: "string \<Rightarrow> int \<Rightarrow> int \<Rightarrow> string" where
  "rack_name site row rack = ''rack-'' @ site @ ''-'' @ fmt_0d 0 row @ ''-'' @ fmt_0d 0 rack"

definition host_id :: "int \<Rightarrow> string" where
  "host_id n = ''host-'' @ fmt_0d 3 n"

definition generated_host :: "int \<Rightarrow> SiteDef \<Rightarrow> HostTemplate \<Rightarrow> int \<Rightarrow> int \<Rightarrow> int \<Rightarrow> GeneratedHost" where
  "generated_host basePort site tmpl row rack hostIdx =
     \<lparr>gh_HostID = host_id hostIdx, gh_SiteName = sd_Name site, gh_RackName = rack_name (sd_Name site) row rack,
      gh_RowName = row_name (sd_Name site) row, gh_CPUModel = ht_CPUModel tmpl, gh_CPUSockets = ht_CPUSockets tmpl,
      gh_CoresPerSocket = ht_CoresPerSocket tmpl, gh_ThreadsPerCore = ht_ThreadsPerCore tmpl,
      gh_MemoryMB = int64 (ht_MemoryGB tmpl * 1024), gh_LibvirtPort = int64 (basePort + hostIdx - 1)\<rparr>"

type_synonym hosts_so_far = "int \<times> GeneratedHost list"

definition add_host :: "int \<Rightarrow> SiteDef \<Rightarrow> HostTemplate \<Rightarrow> int \<Rightarrow> int \<Rightarrow> int \<Rightarrow> hosts_so_far \<Rightarrow> hosts_so_far" where
  "add_host basePort site tmpl row rack h acc =
     (let hostIdx = int64 (fst acc + 1) in (hostIdx, snd acc @ [generated_host basePort site tmpl row rack hostIdx]))"

definition fill_rack :: "int \<Rightarrow> SiteDef \<Rightarrow> HostTemplate \<Rightarrow> int \<Rightarrow> int \<Rightarrow> hosts_so_far \<Rightarrow> hosts_so_far" where
  "fill_rack basePort site tmpl row rack acc = fold (add_host basePort site tmpl row rack) [1..sd_HostsPerRack site] acc"

definition fill_row :: "int \<Rightarrow> SiteDef \<Rightarrow> HostTemplate \<Rightarrow> int \<Rightarrow> hosts_so_far \<Rightarrow> hosts_so_far" where
  "fill_row basePort site tmpl row acc = fold (fill_rack basePort site tmpl row) [1..sd_RacksPerRow site] acc"

definition fill_site :: "int \<Rightarrow> SiteDef \<Rightarrow> HostTemplate \<Rightarrow> hosts_so_far \<Rightarrow> hosts_so_far" where
  "fill_site basePort site tmpl acc = fold (fill_row basePort site tmpl) [1..sd_RackRows site] acc"

text \<open>The loop over the sites stops at a template that is not there: \<open>Inl\<close> its name.\<close>

fun fill_sites :: "int \<Rightarrow> (string, HostTemplate) gomap \<Rightarrow> SiteDef list \<Rightarrow> hosts_so_far \<Rightarrow> string + hosts_so_far" where
  "fill_sites basePort tmpls [] acc = Inr acc"
| "fill_sites basePort tmpls (site # sites) acc =
     (case get tmpls (sd_HostTemplate site) of
        None \<Rightarrow> Inl (sd_HostTemplate site)
      | Some tmpl \<Rightarrow> fill_sites basePort tmpls sites (fill_site basePort site tmpl acc))"

definition generated_backend :: "StorageBackendDef \<Rightarrow> GeneratedBackend" where
  "generated_backend sb = \<lparr>gb_BackendID = bd_BackendName sb, gb_TotalCapacityGB = int64 (bd_TotalCapacityTB sb * 1024),
     gb_TotalIOPS = bd_TotalIOPS sb, gb_Capabilities = bd_Capabilities sb\<rparr>"

definition base_port :: "int \<Rightarrow> int" where
  "base_port opt = (if opt = 0 then 16510 else opt)"

definition GenerateWithOptions ::
    "(string \<Rightarrow> string + EnvironmentDef) \<Rightarrow> string \<Rightarrow> int \<Rightarrow> Generator \<Rightarrow> (generate_error + GenerateResult) \<times> Generator" where
  "GenerateWithOptions yaml data LibvirtBasePort g =
     (let g1 = g\<lparr>gn_status := state_only ''running''\<rparr> in
      case yaml data of
        Inl msg \<Rightarrow> (Inl (ParseError msg), g1\<lparr>gn_status := \<lparr>gs_State = ''failed'', gs_Message = Some (ParseError msg)\<rparr>\<rparr>)
      | Inr envDef \<Rightarrow>
          let env = ed_Environment envDef in
          case fill_sites (base_port LibvirtBasePort) (en_HostTemplates env) (en_Sites env) (0, []) of
            Inl name \<Rightarrow>
              (Inl (TemplateMissing name),
               g1\<lparr>gn_status := \<lparr>gs_State = ''failed'', gs_Message = Some (TemplateMissing name)\<rparr>\<rparr>)
          | Inr (_, hs) \<Rightarrow>
              let result = \<lparr>gr_Name = en_Name env, gr_Hosts = hs, gr_Backends = map generated_backend (en_StorageBackends env)\<rparr>
              in (Inr result, g1\<lparr>gn_result := Some result, gn_status := state_only ''completed''\<rparr>))"

definition Generate :: "(string \<Rightarrow> string + EnvironmentDef) \<Rightarrow> string \<Rightarrow> Generator \<Rightarrow> (generate_error + GenerateResult) \<times> Generator" where
  "Generate yaml data g = GenerateWithOptions yaml data 0 g"

definition GetStatus :: "Generator \<Rightarrow> GenerateStatus" where
  "GetStatus g = gn_status g"

definition GetResult :: "Generator \<Rightarrow> GenerateResult option" where
  "GetResult g = gn_result g"

definition Reset_gen :: "Generator \<Rightarrow> Generator" where
  "Reset_gen g = g\<lparr>gn_result := None, gn_status := state_only ''idle''\<rparr>"

section \<open>HTTP interface\<close>

datatype body_gen = ResultBody GenerateResult | StatusBody GenerateStatus | UnreadBody | ErrorBody_gen generate_error | NoBody_gen

text \<open>A body that cannot be read is \<open>None\<close>.\<close>

definition generate :: "(string \<Rightarrow> string + EnvironmentDef) \<Rightarrow> string option \<Rightarrow> Generator \<Rightarrow> (nat \<times> body_gen) \<times> Generator" where
  "generate yaml body g =
     (case body of
        None \<Rightarrow> ((400, UnreadBody), g)
      | Some data \<Rightarrow>
          (case Generate yaml data g of
             (Inl e, g') \<Rightarrow> ((400, ErrorBody_gen e), g')
           | (Inr result, g') \<Rightarrow> ((200, ResultBody result), g')))"

definition getStatus :: "Generator \<Rightarrow> nat \<times> body_gen" where
  "getStatus g = (200, StatusBody (GetStatus g))"

definition reset_gen :: "Generator \<Rightarrow> (nat \<times> body_gen) \<times> Generator" where
  "reset_gen g = ((204, NoBody_gen), Reset_gen g)"

section \<open>The hosts that are generated\<close>

text \<open>The places of a site, in order, and the hosts in them as one comprehension.\<close>

definition places :: "SiteDef \<Rightarrow> (int \<times> int \<times> int) list" where
  "places site = concat (map (\<lambda>row. concat (map (\<lambda>rack. map (\<lambda>h. (row, rack, h)) [1..sd_HostsPerRack site])
     [1..sd_RacksPerRow site])) [1..sd_RackRows site])"

definition all_places :: "Environment \<Rightarrow> (SiteDef \<times> HostTemplate \<times> int \<times> int \<times> int) list" where
  "all_places env = concat (map (\<lambda>site. map (\<lambda>p. (site, the (get (en_HostTemplates env) (sd_HostTemplate site)), p)) (places site)) (en_Sites env))"

definition host_at :: "int \<Rightarrow> (SiteDef \<times> HostTemplate \<times> int \<times> int \<times> int) \<times> nat \<Rightarrow> GeneratedHost" where
  "host_at basePort x = (case x of ((site, tmpl, row, rack, h), i) \<Rightarrow> generated_host basePort site tmpl row rack (int i + 1))"

definition put_at :: "int \<Rightarrow> SiteDef \<times> HostTemplate \<times> int \<times> int \<times> int \<Rightarrow> hosts_so_far \<Rightarrow> hosts_so_far" where
  "put_at basePort x acc = (case x of (site, tmpl, row, rack, h) \<Rightarrow> add_host basePort site tmpl row rack h acc)"

lemma fold_concat_map: "fold g (concat (map f xs)) = fold (\<lambda>x. fold g (f x)) xs"
  by (induction xs) (simp_all add: fun_eq_iff)

lemma put_at_place: "put_at basePort (site, tmpl, row, rack, h) = add_host basePort site tmpl row rack h"
  by (simp add: put_at_def fun_eq_iff)

lemma fill_site_places: "fill_site basePort site tmpl acc = fold (put_at basePort) (map (\<lambda>p. (site, tmpl, p)) (places site)) acc"
  unfolding fill_site_def fill_row_def fill_rack_def places_def
  by (simp add: map_concat fold_concat_map fold_map comp_def put_at_place)

lemma fill_sites_places:
  assumes "\<forall>site\<in>set (en_Sites env). get (en_HostTemplates env) (sd_HostTemplate site) \<noteq> None"
  shows "fill_sites basePort (en_HostTemplates env) (en_Sites env) acc = Inr (fold (put_at basePort) (all_places env) acc)"
proof -
  have "fill_sites basePort (en_HostTemplates env) sites acc = Inr (fold (put_at basePort) (concat (map (\<lambda>site.
      map (\<lambda>p. (site, the (get (en_HostTemplates env) (sd_HostTemplate site)), p)) (places site)) sites)) acc)"
    if "set sites \<subseteq> set (en_Sites env)" for sites
    using that assms by (induction sites arbitrary: acc) (auto simp: fill_site_places split: option.split)
  then show ?thesis by (simp add: all_places_def)
qed

lemma put_all:
  assumes "int n + int (length xs) \<le> MaxInt64"
  shows "fold (put_at basePort) xs (int n, hs) = (int (n + length xs), hs @ map (host_at basePort) (zip xs [n..<n + length xs]))"
  using assms
proof (induction xs arbitrary: n hs)
  case (Cons x xs)
  have "int64 (int n + 1) = int (Suc n)" using Cons.prems by (simp add: int64_id)
  then have step: "put_at basePort x (int n, hs) = (int (Suc n), hs @ [host_at basePort (x, n)])"
    by (simp add: put_at_def add_host_def host_at_def Let_def add.commute split: prod.split)
  have "fold (put_at basePort) (x # xs) (int n, hs) = fold (put_at basePort) xs (int (Suc n), hs @ [host_at basePort (x, n)])"
    using step by (simp only: fold_simps)
  moreover have "[n..<n + length (x # xs)] = n # [Suc n..<Suc n + length xs]" by (simp add: upt_conv_Cons del: upt_Suc)
  ultimately show ?case using Cons.IH [of "Suc n"] Cons.prems by simp
qed simp

definition site_size :: "SiteDef \<Rightarrow> nat" where
  "site_size site = nat (sd_RackRows site) * nat (sd_RacksPerRow site) * nat (sd_HostsPerRack site)"

lemma places_length: "length (places site) = site_size site"
proof -
  have const: "sum_list (map (\<lambda>x. k) xs) = length xs * k" for k and xs :: "int list" by (induction xs) simp_all
  show ?thesis by (simp add: places_def site_size_def length_concat comp_def const)
qed

lemma all_places_length: "length (all_places env) = sum_list (map site_size (en_Sites env))"
  by (simp add: all_places_def length_concat comp_def places_length)

interpretation host_keys: numbered_keys host_id
proof
  fix m n :: int
  assume "0 \<le> m" "0 \<le> n" "host_id m = host_id n"
  then show "m = n" using fmt_0d_inj_nonneg [of m n 3] by (simp add: host_id_def)
qed

lemma generated_hosts:
  assumes "\<forall>site\<in>set (en_Sites env). get (en_HostTemplates env) (sd_HostTemplate site) \<noteq> None"
    and "yaml data = Inr \<lparr>ed_Environment = env\<rparr>" "int (length (all_places env)) \<le> MaxInt64"
  shows "GenerateWithOptions yaml data opt g =
    (let result = \<lparr>gr_Name = en_Name env,
       gr_Hosts = map (host_at (base_port opt)) (zip (all_places env) [0..<length (all_places env)]),
       gr_Backends = map generated_backend (en_StorageBackends env)\<rparr>
     in (Inr result, g\<lparr>gn_result := Some result, gn_status := state_only ''completed''\<rparr>))"
  using assms(2,3) fill_sites_places [OF assms(1), of "base_port opt" "(0, [])"] put_all [of 0 "all_places env" "base_port opt" "[]"]
  by (simp add: GenerateWithOptions_def Let_def)


definition tiny_template :: HostTemplate where
  "tiny_template = \<lparr>ht_CPUModel = ''x'', ht_CPUSockets = 2, ht_CoresPerSocket = 8, ht_ThreadsPerCore = 2, ht_MemoryGB = 64, ht_NUMANodes = 1,
     ht_NICs = [], ht_LocalDisks = [], ht_GPUs = [], ht_Inherits = ''''\<rparr>"

definition tiny_site :: "string \<Rightarrow> SiteDef" where
  "tiny_site tmpl = \<lparr>sd_Name = ''a'', sd_RackRows = 1, sd_RacksPerRow = 2, sd_HostsPerRack = 1, sd_HostTemplate = tmpl\<rparr>"

definition tiny_env :: "string \<Rightarrow> Environment" where
  "tiny_env tmpl = \<lparr>en_Name = ''tiny'', en_Sites = [tiny_site tmpl], en_HostTemplates = fmap_of_list [(''std'', tiny_template),
       (''gpu'', \<lparr>ht_CPUModel = '''', ht_CPUSockets = 0, ht_CoresPerSocket = 0, ht_ThreadsPerCore = 0, ht_MemoryGB = 128, ht_NUMANodes = 0,
          ht_NICs = [], ht_LocalDisks = [], ht_GPUs = [], ht_Inherits = ''std''\<rparr>)],
     en_StorageBackends = [], en_OVNClusters = [], en_Preload = None\<rparr>"

definition tiny_yaml :: "string \<Rightarrow> string + EnvironmentDef" where
  "tiny_yaml data = (if data = '''' then Inl ''empty'' else Inr \<lparr>ed_Environment = tiny_env data\<rparr>)"


section \<open>Failures, and templates that inherit\<close>

text \<open>A generation that fails leaves the result of the last one that succeeded, and says in the status what went wrong.\<close>

theorem failed_generation_keeps_result:
  assumes "GenerateWithOptions yaml data opt g = (Inl err, g')"
  shows "GetResult g' = GetResult g \<and> GetStatus g' = \<lparr>gs_State = ''failed'', gs_Message = Some err\<rparr> \<and>
    (case err of
       ParseError msg \<Rightarrow> yaml data = Inl msg
     | TemplateMissing name \<Rightarrow> \<exists>envDef. yaml data = Inr envDef \<and> get (en_HostTemplates (ed_Environment envDef)) name = None \<and>
         name \<in> sd_HostTemplate ` set (en_Sites (ed_Environment envDef)))"
proof -
  have missing: "get tmpls name = None \<and> name \<in> sd_HostTemplate ` set sites"
    if "fill_sites base tmpls sites acc = Inl name" for base tmpls sites acc name
    using that by (induction base tmpls sites acc rule: fill_sites.induct) (auto split: option.splits)
  show ?thesis
    using assms missing
    by (auto simp: GenerateWithOptions_def GetResult_def GetStatus_def Let_def split: sum.splits prod.splits)
qed

theorem failed_generation_keeps_result_witness:
  "GetStatus (snd (GenerateWithOptions tiny_yaml ''other'' 0 New_datagen)) =
     \<lparr>gs_State = ''failed'', gs_Message = Some (TemplateMissing ''other'')\<rparr>"
  using failed_generation_keeps_result [of tiny_yaml "''other''" 0 New_datagen "TemplateMissing ''other''"
      "snd (GenerateWithOptions tiny_yaml ''other'' 0 New_datagen)"]
  by (simp add: GenerateWithOptions_def tiny_yaml_def tiny_env_def tiny_site_def New_datagen_def fmlookup_of_list Let_def)

text \<open>The template a template inherits from is never looked at: a host of a template that only adds memory to another has
  no processors at all.\<close>

theorem inherits_ignored:
  "map (\<lambda>h. (gh_CPUSockets h, gh_CoresPerSocket h, gh_MemoryMB h))
     (case fst (GenerateWithOptions tiny_yaml ''gpu'' 0 New_datagen) of Inr r \<Rightarrow> gr_Hosts r | Inl e \<Rightarrow> []) =
   [(0, 0, 131072), (0, 0, 131072)]"
  by (simp add: GenerateWithOptions_def tiny_yaml_def tiny_env_def tiny_site_def fmlookup_of_list Let_def fill_site_def fill_row_def
      fill_rack_def add_host_def generated_host_def int64_id upto.simps)

end
