(* ===== verification/Seeding.thy ===== *)
theory Seeding
  imports Datagen NetBox_Theorems Libvirt_Management OVN_Clusters Storage_State "HOL-Library.Sublist"
begin

text \<open>
  How the unified binary fills its simulators from an environment file: \<^verbatim>\<open>cmd/cirrus-sim/seed.go\<close> and the
  \<^verbatim>\<open>Seed\<close> methods of \<^verbatim>\<open>libvirt-sim/app.go\<close>, \<^verbatim>\<open>ovn-sim/app.go\<close>, \<^verbatim>\<open>storage-sim/app.go\<close> and
  \<^verbatim>\<open>netbox-sim/app.go\<close>. The contents of the file, the reader of YAML, the environment variables, the
  clock of netbox-sim and whether a port can be listened on are arguments. When a step fails, what was
  seeded before stays; the program then ends.
\<close>

section \<open>Seeding one simulator\<close>

record HostConfig =
  hc_HostID :: string
  hc_LibvirtPort :: int
  hc_CPUModel :: string
  hc_CPUSockets :: int
  hc_CoresPerSocket :: int
  hc_ThreadsPerCore :: int
  hc_MemoryMB :: int
  hc_CPUOvercommitRatio :: f64
  hc_MemOvercommitRatio :: f64

definition host_from :: "HostConfig \<Rightarrow> Host" where
  "host_from cfg = \<lparr>h_HostID = hc_HostID cfg, h_LibvirtPort = hc_LibvirtPort cfg, h_CPUModel = hc_CPUModel cfg,
     h_CPUSockets = hc_CPUSockets cfg, h_CoresPerSocket = hc_CoresPerSocket cfg, h_ThreadsPerCore = hc_ThreadsPerCore cfg,
     h_MemoryMB = hc_MemoryMB cfg, h_CPUOvercommitRatio = hc_CPUOvercommitRatio cfg,
     h_MemOvercommitRatio = hc_MemOvercommitRatio cfg, h_NUMATopology = [], h_GPUs = [], h_State = '''', h_Domains = fmempty\<rparr>"

definition SeedHost :: "(int \<Rightarrow> bool) \<Rightarrow> HostConfig \<Rightarrow> Plant \<Rightarrow> bool \<times> Plant" where
  "SeedHost listen cfg p =
     (let host = host_from cfg in
      case AddHost host (w_store p) of
        (Inl e, s') \<Rightarrow> (False, p\<lparr>w_store := s'\<rparr>)
      | (Inr _, s') \<Rightarrow>
          (case StartListener listen (hc_HostID cfg) (hc_LibvirtPort cfg) (p\<lparr>w_store := s'\<rparr>) of
             (Inl e, p') \<Rightarrow> (False, p'\<lparr>w_store := snd (RemoveHost (hc_HostID cfg) (w_store p'))\<rparr>)
           | (Inr _, p') \<Rightarrow> (True, p')))"

definition SeedCluster :: "(int \<Rightarrow> bool) \<Rightarrow> string \<Rightarrow> int \<Rightarrow> Manager \<Rightarrow> bool \<times> Manager" where
  "SeedCluster listen clusterID port m =
     (case CreateCluster listen clusterID port m of (Inl e, m') \<Rightarrow> (False, m') | (Inr c, m') \<Rightarrow> (True, m'))"

record BackendConfig =
  bc_BackendID :: string
  bc_TotalCapacityGB :: int
  bc_TotalIOPS :: int
  bc_Capabilities :: "string list"
  bc_OverprovisionRatio :: f64

definition backend_from :: "BackendConfig \<Rightarrow> Backend" where
  "backend_from cfg = \<lparr>b_BackendID = bc_BackendID cfg, b_TotalCapacityGB = bc_TotalCapacityGB cfg, b_UsedCapacityGB = 0,
     b_AllocatedCapacityGB = 0, b_TotalIOPS = bc_TotalIOPS cfg, b_UsedIOPSEstimate = 0, b_Capabilities = bc_Capabilities cfg,
     b_State = BackendActive, b_OverprovisionRatio = bc_OverprovisionRatio cfg\<rparr>"

definition SeedBackend :: "BackendConfig \<Rightarrow> Store \<Rightarrow> bool \<times> Store" where
  "SeedBackend cfg s = (case AddBackend (backend_from cfg) s of (Inl e, s') \<Rightarrow> (False, s') | (Inr _, s') \<Rightarrow> (True, s'))"

definition SeedSite :: "lib \<Rightarrow> clock \<Rightarrow> string \<Rightarrow> Store_nb \<Rightarrow> int \<times> Store_nb" where
  "SeedSite l clk name s = AddSite l (clk s) name ''active'' None fmempty s"

definition SeedLocation :: "lib \<Rightarrow> clock \<Rightarrow> string \<Rightarrow> int \<Rightarrow> int \<Rightarrow> (string, string) gomap \<Rightarrow> Store_nb \<Rightarrow> int \<times> Store_nb" where
  "SeedLocation l clk name siteID parentID customFields s = AddLocation l (clk s) name siteID parentID customFields s"

definition SeedRack :: "lib \<Rightarrow> clock \<Rightarrow> string \<Rightarrow> int \<Rightarrow> int \<Rightarrow> (string, string) gomap \<Rightarrow> Store_nb \<Rightarrow> int \<times> Store_nb" where
  "SeedRack l clk name siteID locationID customFields s = AddRack l (clk s) name siteID locationID ''active'' customFields s"

definition SeedDevice ::
    "clock \<Rightarrow> string \<Rightarrow> string \<Rightarrow> int \<Rightarrow> int \<Rightarrow> int \<Rightarrow> int \<Rightarrow> (string, string) gomap \<Rightarrow> Store_nb \<Rightarrow> Store_nb" where
  "SeedDevice clk name role siteID locationID rackID position customFields s =
     snd (AddDevice (clk s) name role siteID locationID rackID position ''active'' customFields s)"

section \<open>The topology\<close>

text \<open>The loops carry the number of hosts placed so far. The innermost one breaks off when there is no host left.\<close>

type_synonym placing = "nat \<times> Store_nb"

fun seed_devices :: "clock \<Rightarrow> GeneratedHost list \<Rightarrow> int \<Rightarrow> int \<Rightarrow> int \<Rightarrow> int list \<Rightarrow> placing \<Rightarrow> placing" where
  "seed_devices clk hs siteID rowID rackID [] p = p"
| "seed_devices clk hs siteID rowID rackID (h # rest) p =
     (if length hs \<le> fst p then p
      else
        let host = hs ! fst p
        in seed_devices clk hs siteID rowID rackID rest
             (Suc (fst p), SeedDevice clk (gh_HostID host) ''server'' siteID rowID rackID h
                (fmap_of_list [(''cirrus_host_id'', gh_HostID host)]) (snd p)))"

definition tor_name :: "string \<Rightarrow> int \<Rightarrow> int \<Rightarrow> string" where
  "tor_name site row rack = ''tor-'' @ site @ ''-'' @ fmt_0d 0 row @ ''-'' @ fmt_0d 0 rack"

definition pdu_name :: "string \<Rightarrow> int \<Rightarrow> int \<Rightarrow> string" where
  "pdu_name site row rack = ''pdu-'' @ site @ ''-'' @ fmt_0d 0 row @ ''-'' @ fmt_0d 0 rack"

definition seed_rack :: "lib \<Rightarrow> clock \<Rightarrow> GeneratedHost list \<Rightarrow> SiteDef \<Rightarrow> int \<Rightarrow> int \<Rightarrow> int \<Rightarrow> int \<Rightarrow> placing \<Rightarrow> placing" where
  "seed_rack l clk hs site siteID rowID row rack p =
     (case SeedRack l clk (rack_name (sd_Name site) row rack) siteID rowID
         (fmap_of_list [(''tor_switch'', tor_name (sd_Name site) row rack), (''power_circuit'', pdu_name (sd_Name site) row rack)]) (snd p) of
        (rackID, s) \<Rightarrow> seed_devices clk hs siteID rowID rackID [1..sd_HostsPerRack site] (fst p, s))"

definition seed_row :: "lib \<Rightarrow> clock \<Rightarrow> GeneratedHost list \<Rightarrow> SiteDef \<Rightarrow> int \<Rightarrow> int \<Rightarrow> placing \<Rightarrow> placing" where
  "seed_row l clk hs site siteID row p =
     (case SeedLocation l clk (row_name (sd_Name site) row) siteID 0 fmempty (snd p) of
        (rowID, s) \<Rightarrow> fold (seed_rack l clk hs site siteID rowID row) [1..sd_RacksPerRow site] (fst p, s))"

definition seed_site :: "lib \<Rightarrow> clock \<Rightarrow> GeneratedHost list \<Rightarrow> SiteDef \<Rightarrow> placing \<Rightarrow> placing" where
  "seed_site l clk hs site p =
     (case SeedSite l clk (sd_Name site) (snd p) of
        (siteID, s) \<Rightarrow> fold (seed_row l clk hs site siteID) [1..sd_RackRows site] (fst p, s))"

definition seedNetboxTopology :: "lib \<Rightarrow> clock \<Rightarrow> Environment \<Rightarrow> GenerateResult \<Rightarrow> Store_nb \<Rightarrow> Store_nb" where
  "seedNetboxTopology l clk env result s = snd (fold (seed_site l clk (gr_Hosts result)) (en_Sites env) (0, s))"

section \<open>The whole environment\<close>

record portRange =
  po_start :: int
  po_end :: int

definition getPortRange :: "(string \<Rightarrow> string) \<Rightarrow> string \<Rightarrow> portRange" where
  "getPortRange getenv envPrefix =
     (let startStr = getenv (envPrefix @ ''_PORT_START''); endStr = getenv (envPrefix @ ''_PORT_END'') in
      if startStr = '''' \<or> endStr = '''' then \<lparr>po_start = 0, po_end = 0\<rparr>
      else (case (Atoi startStr, Atoi endStr) of
              (Some a, Some b) \<Rightarrow> \<lparr>po_start = a, po_end = b\<rparr>
            | _ \<Rightarrow> \<lparr>po_start = 0, po_end = 0\<rparr>))"

record Simulators =
  si_libvirt :: Plant
  si_ovn :: Manager
  si_storage :: Store
  si_netbox :: Store_nb

datatype seed_error =
    FileReadFailed
  | YamlFailed string
  | GenerateFailed generate_error
  | SeedHostFailed string
  | SeedClusterFailed string
  | SeedBackendFailed string

definition seed_host_config :: "GeneratedHost \<Rightarrow> HostConfig" where
  "seed_host_config h = \<lparr>hc_HostID = gh_HostID h, hc_LibvirtPort = gh_LibvirtPort h, hc_CPUModel = gh_CPUModel h,
     hc_CPUSockets = gh_CPUSockets h, hc_CoresPerSocket = gh_CoresPerSocket h, hc_ThreadsPerCore = gh_ThreadsPerCore h,
     hc_MemoryMB = gh_MemoryMB h, hc_CPUOvercommitRatio = Fin 4, hc_MemOvercommitRatio = Fin (3 / 2)\<rparr>"

fun seed_hosts :: "(int \<Rightarrow> bool) \<Rightarrow> GeneratedHost list \<Rightarrow> Plant \<Rightarrow> seed_error option \<times> Plant" where
  "seed_hosts listen [] p = (None, p)"
| "seed_hosts listen (h # hs) p =
     (case SeedHost listen (seed_host_config h) p of
        (False, p') \<Rightarrow> (Some (SeedHostFailed (gh_HostID h)), p')
      | (True, p') \<Rightarrow> seed_hosts listen hs p')"

fun seed_clusters :: "(int \<Rightarrow> bool) \<Rightarrow> int \<Rightarrow> nat \<Rightarrow> OVNClusterDef list \<Rightarrow> Manager \<Rightarrow> seed_error option \<times> Manager" where
  "seed_clusters listen ovnBasePort i [] m = (None, m)"
| "seed_clusters listen ovnBasePort i (c # cs) m =
     (case SeedCluster listen (cd_Name c) (int64 (ovnBasePort + int i)) m of
        (False, m') \<Rightarrow> (Some (SeedClusterFailed (cd_Name c)), m')
      | (True, m') \<Rightarrow> seed_clusters listen ovnBasePort (Suc i) cs m')"

definition backend_config :: "GeneratedBackend \<Rightarrow> BackendConfig" where
  "backend_config b = \<lparr>bc_BackendID = gb_BackendID b, bc_TotalCapacityGB = gb_TotalCapacityGB b, bc_TotalIOPS = gb_TotalIOPS b,
     bc_Capabilities = gb_Capabilities b, bc_OverprovisionRatio = Fin (3 / 2)\<rparr>"

fun seed_backends :: "GeneratedBackend list \<Rightarrow> Store \<Rightarrow> seed_error option \<times> Store" where
  "seed_backends [] s = (None, s)"
| "seed_backends (b # bs) s =
     (case SeedBackend (backend_config b) s of
        (False, s') \<Rightarrow> (Some (SeedBackendFailed (gb_BackendID b)), s')
      | (True, s') \<Rightarrow> seed_backends bs s')"

definition ovn_base :: "portRange \<Rightarrow> int" where
  "ovn_base r = (if po_start r > 0 then po_start r else 6641)"

definition seedFromEnvFile ::
    "lib \<Rightarrow> clock \<Rightarrow> (int \<Rightarrow> bool) \<Rightarrow> (string \<Rightarrow> string) \<Rightarrow> (string \<Rightarrow> string + EnvironmentDef) \<Rightarrow> string option \<Rightarrow>
     Simulators \<Rightarrow> seed_error option \<times> Simulators" where
  "seedFromEnvFile l clk listen getenv yaml file sims =
     (case file of
        None \<Rightarrow> (Some FileReadFailed, sims)
      | Some data \<Rightarrow>
          (case yaml data of
             Inl msg \<Rightarrow> (Some (YamlFailed msg), sims)
           | Inr envDef \<Rightarrow>
               let env = ed_Environment envDef;
                   libvirtRange = getPortRange getenv ''LIBVIRT_HOSTS''; ovnRange = getPortRange getenv ''OVN_CLUSTERS'' in
               case fst (GenerateWithOptions yaml data (po_start libvirtRange) New_datagen) of
                 Inl e \<Rightarrow> (Some (GenerateFailed e), sims)
               | Inr result \<Rightarrow>
                   (case seed_hosts listen (gr_Hosts result) (si_libvirt sims) of
                      (Some e, p) \<Rightarrow> (Some e, sims\<lparr>si_libvirt := p\<rparr>)
                    | (None, p) \<Rightarrow>
                        (case seed_clusters listen (ovn_base ovnRange) 0 (en_OVNClusters env) (si_ovn sims) of
                           (Some e, m) \<Rightarrow> (Some e, sims\<lparr>si_libvirt := p, si_ovn := m\<rparr>)
                         | (None, m) \<Rightarrow>
                             (case seed_backends (gr_Backends result) (si_storage sims) of
                                (Some e, s) \<Rightarrow> (Some e, sims\<lparr>si_libvirt := p, si_ovn := m, si_storage := s\<rparr>)
                              | (None, s) \<Rightarrow>
                                  (None, sims\<lparr>si_libvirt := p, si_ovn := m, si_storage := s,
                                     si_netbox := seedNetboxTopology l clk env result (si_netbox sims)\<rparr>))))))"

section \<open>Hosts, clusters and backends\<close>

lemma free_before: "\<forall>x\<in>A. get (fmupd k v m) (f x) = None \<Longrightarrow> (\<forall>x\<in>A. get m (f x) = None) \<and> k \<notin> f ` A"
  by (metis fmupd_lookup imageE option.distinct(1))

definition seeded_host :: "GeneratedHost \<Rightarrow> Host" where
  "seeded_host h = host_defaults (host_from (seed_host_config h))"

lemma seeded_host_fields: "h_HostID (seeded_host h) = gh_HostID h" "h_LibvirtPort (seeded_host h) = gh_LibvirtPort h"
  by (simp_all add: seeded_host_def host_defaults_def host_from_def seed_host_config_def Let_def)

lemma SeedHost_True:
  assumes "SeedHost listen (seed_host_config h) p = (True, p')"
  shows "get (hosts (w_store p)) (gh_HostID h) = None"
    "hosts (w_store p') = fmupd (gh_HostID h) (seeded_host h) (hosts (w_store p))"
    "w_listeners p' = fmupd (gh_HostID h) (gh_LibvirtPort h) (w_listeners p)"
  using assms
  by (auto simp: SeedHost_def AddHost_def StartListener_def seeded_host_def host_from_def seed_host_config_def Let_def
      split: if_splits)

lemma seed_hosts_all:
  assumes "seed_hosts listen hs p = (None, p')"
  shows "\<forall>h\<in>set hs. get (hosts (w_store p')) (gh_HostID h) = Some (seeded_host h) \<and> get (w_listeners p') (gh_HostID h) = Some (gh_LibvirtPort h)"
    "fmdom' (hosts (w_store p')) = fmdom' (hosts (w_store p)) \<union> gh_HostID ` set hs"
    "\<forall>k. k \<notin> gh_HostID ` set hs \<longrightarrow> get (hosts (w_store p')) k = get (hosts (w_store p)) k \<and> get (w_listeners p') k = get (w_listeners p) k"
    "\<forall>h\<in>set hs. get (hosts (w_store p)) (gh_HostID h) = None"
proof -
  have "(\<forall>h\<in>set hs. get (hosts (w_store p')) (gh_HostID h) = Some (seeded_host h) \<and> get (w_listeners p') (gh_HostID h) = Some (gh_LibvirtPort h)) \<and>
    fmdom' (hosts (w_store p')) = fmdom' (hosts (w_store p)) \<union> gh_HostID ` set hs \<and>
    (\<forall>k. k \<notin> gh_HostID ` set hs \<longrightarrow> get (hosts (w_store p')) k = get (hosts (w_store p)) k \<and> get (w_listeners p') k = get (w_listeners p) k) \<and>
    (\<forall>h\<in>set hs. get (hosts (w_store p)) (gh_HostID h) = None)"
    using assms
  proof (induction hs arbitrary: p)
    case (Cons h hs)
    obtain p1 where one: "SeedHost listen (seed_host_config h) p = (True, p1)" and rest: "seed_hosts listen hs p1 = (None, p')"
      using Cons.prems by (auto split: prod.splits bool.splits)
    note new = SeedHost_True [OF one] and ih = Cons.IH [OF rest]
    have "\<forall>h'\<in>set hs. get (fmupd (gh_HostID h) (seeded_host h) (hosts (w_store p))) (gh_HostID h') = None" using ih new(2) by simp
    from free_before [where f = gh_HostID, OF this]
    have "gh_HostID h \<notin> gh_HostID ` set hs" "\<forall>h'\<in>set hs. get (hosts (w_store p)) (gh_HostID h') = None" by simp_all
    then show ?case using ih new by auto
  qed simp
  then show "\<forall>h\<in>set hs. get (hosts (w_store p')) (gh_HostID h) = Some (seeded_host h) \<and> get (w_listeners p') (gh_HostID h) = Some (gh_LibvirtPort h)"
    "fmdom' (hosts (w_store p')) = fmdom' (hosts (w_store p)) \<union> gh_HostID ` set hs"
    "\<forall>k. k \<notin> gh_HostID ` set hs \<longrightarrow> get (hosts (w_store p')) k = get (hosts (w_store p)) k \<and> get (w_listeners p') k = get (w_listeners p) k"
    "\<forall>h\<in>set hs. get (hosts (w_store p)) (gh_HostID h) = None"
    by blast+
qed

lemma SeedCluster_True:
  assumes "SeedCluster listen name port m = (True, m')"
  shows "\<exists>c. clusters m' = fmupd name c (clusters m) \<and> cl_ID c = name \<and> cl_Port c = port \<and>
    sv_store (cl_Server c) = NewStore_db OVNNBTables" "get (clusters m) name = None"
  using assms
  by (auto simp: SeedCluster_def CreateCluster_def start_cluster_def Listen_def NewServer_db_def Let_def split: if_splits)

lemma seed_clusters_all:
  assumes "seed_clusters listen base n cs m = (None, m')"
  shows "(\<forall>i < length cs. \<exists>c. get (clusters m') (cd_Name (cs ! i)) = Some c \<and> cl_Port c = int64 (base + int (n + i))) \<and>
    (\<forall>k. k \<notin> cd_Name ` set cs \<longrightarrow> get (clusters m') k = get (clusters m) k) \<and> (\<forall>c\<in>set cs. get (clusters m) (cd_Name c) = None)"
  using assms
proof (induction cs arbitrary: n m)
  case (Cons c cs)
  obtain m1 where one: "SeedCluster listen (cd_Name c) (int64 (base + int n)) m = (True, m1)"
    and rest: "seed_clusters listen base (Suc n) cs m1 = (None, m')"
    using Cons.prems by (auto split: prod.splits bool.splits)
  obtain cl where cl: "clusters m1 = fmupd (cd_Name c) cl (clusters m)" "cl_Port cl = int64 (base + int n)"
    using SeedCluster_True(1) [OF one] by blast
  note ih = Cons.IH [OF rest]
  have "\<forall>c'\<in>set cs. get (fmupd (cd_Name c) cl (clusters m)) (cd_Name c') = None" using ih cl(1) by simp
  from free_before [where f = cd_Name, OF this]
  have fresh: "cd_Name c \<notin> cd_Name ` set cs" "\<forall>c'\<in>set cs. get (clusters m) (cd_Name c') = None" by simp_all
  have "\<exists>c'. get (clusters m') (cd_Name ((c # cs) ! i)) = Some c' \<and> cl_Port c' = int64 (base + int (n + i))"
    if "i < length (c # cs)" for i
  proof (cases i)
    case 0
    then show ?thesis using ih fresh cl by auto
  next
    case (Suc j)
    then show ?thesis using ih that by auto
  qed
  then show ?case using ih fresh cl(1) SeedCluster_True(2) [OF one] by auto
qed simp

definition seeded_backend :: "GeneratedBackend \<Rightarrow> Backend" where
  "seeded_backend b = backend_from (backend_config b)"

lemma SeedBackend_True:
  assumes "SeedBackend (backend_config b) s = (True, s')"
  shows "backends s' = fmupd (gb_BackendID b) (seeded_backend b) (backends s)" "get (backends s) (gb_BackendID b) = None"
  using assms
  by (auto simp: SeedBackend_def AddBackend_def seeded_backend_def backend_from_def backend_config_def Let_def split: if_splits)

lemma seed_backends_all:
  assumes "seed_backends bs s = (None, s')"
  shows "(\<forall>b\<in>set bs. get (backends s') (gb_BackendID b) = Some (seeded_backend b)) \<and>
    (\<forall>k. k \<notin> gb_BackendID ` set bs \<longrightarrow> get (backends s') k = get (backends s) k) \<and> (\<forall>b\<in>set bs. get (backends s) (gb_BackendID b) = None)"
  using assms
proof (induction bs arbitrary: s)
  case (Cons b bs)
  obtain s1 where one: "SeedBackend (backend_config b) s = (True, s1)" and rest: "seed_backends bs s1 = (None, s')"
    using Cons.prems by (auto split: prod.splits bool.splits)
  note new = SeedBackend_True [OF one] and ih = Cons.IH [OF rest]
  have "\<forall>b'\<in>set bs. get (fmupd (gb_BackendID b) (seeded_backend b) (backends s)) (gb_BackendID b') = None" using ih new(1) by simp
  from free_before [where f = gb_BackendID, OF this]
  have "gb_BackendID b \<notin> gb_BackendID ` set bs" "\<forall>b'\<in>set bs. get (backends s) (gb_BackendID b') = None" by simp_all
  then show ?case using ih new by auto
qed simp

section \<open>The topology is the one of the hosts\<close>

text \<open>A device that stands for a host: it carries the host's identifier, and its rack, row and site have the host's names.\<close>

definition placed :: "Store_nb \<Rightarrow> int \<Rightarrow> GeneratedHost \<Rightarrow> bool" where
  "placed s k h \<longleftrightarrow> (\<exists>d rk loc site. get (devices s) k = Some d \<and> dv_Name d = gh_HostID h \<and>
     get (dv_CustomFields d) ''cirrus_host_id'' = Some (gh_HostID h) \<and>
     get (racks s) (dv_RackID d) = Some rk \<and> rk_Name rk = gh_RackName h \<and>
     get (locations s) (dv_LocationID d) = Some loc \<and> lc_Name loc = gh_RowName h \<and>
     get (sites s) (dv_SiteID d) = Some site \<and> st_Name site = gh_SiteName h)"

definition good :: "GeneratedHost list \<Rightarrow> placing \<Rightarrow> bool" where
  "good hs p \<longleftrightarrow> sound_nb (snd p) \<and> nextDeviceID (snd p) = int (fst p) + 1 \<and> fst p \<le> length hs \<and>
     (\<forall>i < fst p. placed (snd p) (int i + 1) (hs ! i))"

definition label_of :: "GeneratedHost \<Rightarrow> string \<times> string \<times> string" where
  "label_of h = (gh_SiteName h, gh_RowName h, gh_RackName h)"

definition due :: "GeneratedHost list \<Rightarrow> placing \<Rightarrow> (string \<times> string \<times> string) list \<Rightarrow> bool" where
  "due hs p ls \<longleftrightarrow> prefix ls (map label_of (drop (fst p) hs))"

definition grows :: "int \<Rightarrow> Store_nb \<Rightarrow> Store_nb \<Rightarrow> bool" where
  "grows c s s' \<longleftrightarrow> nextSiteID s' \<le> nextSiteID s + c \<and> nextLocationID s' \<le> nextLocationID s + c \<and>
     nextRackID s' \<le> nextRackID s + c \<and> nextDeviceID s' \<le> nextDeviceID s + c"

definition moves :: "GeneratedHost list \<Rightarrow> nat \<Rightarrow> int \<Rightarrow> placing \<Rightarrow> placing \<Rightarrow> bool" where
  "moves hs n c p q \<longleftrightarrow> good hs q \<and> fst q = fst p + n \<and> keeps_nb (snd p) (snd q) \<and> grows c (snd p) (snd q)"

lemma fits_grows: "fits (c + r) s \<Longrightarrow> grows c s s' \<Longrightarrow> fits r s'"
  by (auto simp: fits_def grows_def)

lemma keeps_trans: "keeps_nb s t \<Longrightarrow> keeps_nb t u \<Longrightarrow> keeps_nb s u"
  by (simp add: keeps_nb_def)

lemma moves_trans: "moves hs m c p q \<Longrightarrow> moves hs n d q r \<Longrightarrow> moves hs (m + n) (c + d) p r"
  by (auto simp: moves_def grows_def intro: keeps_trans)

lemma moves_refl: "good hs p \<Longrightarrow> moves hs 0 0 p p"
  by (simp add: moves_def grows_def keeps_nb_def)

lemma due_append: "due hs p (xs @ ys) \<Longrightarrow> due hs p xs \<and> (fst q = fst p + length xs \<longrightarrow> due hs q ys)"
proof -
  assume "due hs p (xs @ ys)"
  then obtain zs where "map label_of (drop (fst p) hs) = xs @ ys @ zs" by (auto simp: due_def prefix_def)
  moreover from this have "map label_of (drop (fst p + length xs) hs) = ys @ zs"
    by (metis add.commute append_eq_conv_conj drop_drop drop_map)
  ultimately show ?thesis by (auto simp: due_def)
qed

text \<open>A loop moves on by what its rounds move on by.\<close>

lemma fold_moves:
  assumes each: "\<And>x p. x \<in> set xs \<Longrightarrow> good hs p \<Longrightarrow> due hs p (L x) \<Longrightarrow> fits (c x) (snd p) \<Longrightarrow> keeps_nb origin (snd p) \<Longrightarrow>
      moves hs (length (L x)) (c x) p (f x p)"
    and nonneg: "\<And>x. 0 \<le> c x"
    and "good hs p" "due hs p (concat (map L xs))" "fits (sum_list (map c xs)) (snd p)" "keeps_nb origin (snd p)"
  shows "moves hs (length (concat (map L xs))) (sum_list (map c xs)) p (fold f xs p)"
  using assms
proof (induction xs arbitrary: p)
  case (Cons x xs)
  have nn: "0 \<le> sum_list (map c xs)" by (rule sum_list_nonneg) (use nonneg in auto)
  have "fits (c x) (snd p)" by (rule fits_mono [OF Cons.prems(5)]) (use nn in simp)
  moreover have "due hs p (L x)" using Cons.prems(4) due_append [of hs p "L x" "concat (map L xs)"] by simp
  ultimately have one: "moves hs (length (L x)) (c x) p (f x p)" using Cons.prems by (intro Cons.prems(1)) auto
  have "moves hs (length (concat (map L xs))) (sum_list (map c xs)) (f x p) (fold f xs (f x p))"
  proof (rule Cons.IH)
    show "due hs (f x p) (concat (map L xs))"
      using Cons.prems(4) one due_append [of hs p "L x" "concat (map L xs)" "f x p"] by (simp add: moves_def)
    show "fits (sum_list (map c xs)) (snd (f x p))"
      using fits_grows [of "c x" "sum_list (map c xs)"] Cons.prems(5) one by (simp add: moves_def)
    show "keeps_nb origin (snd (f x p))" using one Cons.prems(6) keeps_trans by (auto simp: moves_def)
  qed (use Cons.prems one in \<open>auto simp: moves_def\<close>)
  from moves_trans [OF one this] show ?case by simp
qed (simp add: moves_refl)

definition at_row :: "Store_nb \<Rightarrow> int \<Rightarrow> int \<Rightarrow> string \<Rightarrow> string \<Rightarrow> bool" where
  "at_row s siteID rowID sn rn \<longleftrightarrow> (\<exists>site loc. get (sites s) siteID = Some site \<and> st_Name site = sn \<and>
     get (locations s) rowID = Some loc \<and> lc_Name loc = rn \<and> lc_SiteID loc = siteID)"

definition at_rack :: "Store_nb \<Rightarrow> int \<Rightarrow> int \<Rightarrow> int \<Rightarrow> string \<Rightarrow> string \<Rightarrow> string \<Rightarrow> bool" where
  "at_rack s siteID rowID rackID sn rn kn \<longleftrightarrow> at_row s siteID rowID sn rn \<and>
     (\<exists>rk. get (racks s) rackID = Some rk \<and> rk_Name rk = kn \<and> rk_SiteID rk = siteID \<and> rk_LocationID rk = rowID)"

lemma at_kept: "keeps_nb s s' \<Longrightarrow> at_row s a b sn rn \<Longrightarrow> at_row s' a b sn rn"
  "keeps_nb s s' \<Longrightarrow> at_rack s a b c sn rn kn \<Longrightarrow> at_rack s' a b c sn rn kn"
  by (auto simp: at_rack_def at_row_def keeps_nb_def)

lemma placed_kept: "keeps_nb s s' \<Longrightarrow> get (devices s') k = get (devices s) k \<Longrightarrow> placed s k h \<Longrightarrow> placed s' k h"
  unfolding placed_def keeps_nb_def by fastforce

lemma good_same_devices:
  assumes "good hs p" "sound_nb s" "keeps_nb (snd p) s" "devices s = devices (snd p)" "nextDeviceID s = nextDeviceID (snd p)"
  shows "good hs (fst p, s)"
  using assms placed_kept [OF assms(3)] by (auto simp: good_def)

lemma one_device_moves:
  assumes "good hs p" "fst p < length hs" "label_of (hs ! fst p) = (sn, rn, kn)" "at_rack (snd p) siteID rowID rackID sn rn kn"
    and "fits 1 (snd p)"
  shows "moves hs 1 1 p (Suc (fst p), SeedDevice clk (gh_HostID (hs ! fst p)) ''server'' siteID rowID rackID j
    (fmap_of_list [(''cirrus_host_id'', gh_HostID (hs ! fst p))]) (snd p))"
proof -
  let ?s = "snd p" and ?h = "hs ! fst p"
  let ?cf = "fmap_of_list [(''cirrus_host_id'', gh_HostID ?h)]"
  define s' where "s' = SeedDevice clk (gh_HostID ?h) ''server'' siteID rowID rackID j ?cf ?s"
  have sound: "sound_nb ?s" and dev: "nextDeviceID ?s = int (fst p) + 1" using assms(1) by (simp_all add: good_def)
  obtain ident where add: "AddDevice (clk ?s) (gh_HostID ?h) ''server'' siteID rowID rackID j ''active'' ?cf ?s = (ident, s')"
    by (metis SeedDevice_def s'_def prod.collapse)
  have "adds 0 0 0 1 ?s s'"
    using assms(4) by (intro AddDevice_adds [OF sound assms(5) add]) (auto simp: at_rack_def at_row_def)
  then have s': "sound_nb s'" "keeps_nb ?s s'" "grows 1 ?s s'" "nextDeviceID s' = nextDeviceID ?s + 1"
    by (simp_all add: adds_def grows_def)
  have devs: "devices s' = fmupd (nextDeviceID ?s) (new_device (clk ?s) (nextDeviceID ?s) (gh_HostID ?h) ''server'' siteID rowID rackID j ''active'' ?cf) (devices ?s)"
    using add by (auto simp: AddDevice_def Let_def)
  have "at_rack s' siteID rowID rackID sn rn kn" using at_kept(2) [OF s'(2)] assms(4) .
  then have new: "placed s' (int (fst p) + 1) ?h"
    using assms(3) dev by (auto simp: placed_def devs new_device_def at_rack_def at_row_def label_of_def fmlookup_of_list)
  have "placed s' (int i + 1) (hs ! i)" if "i < Suc (fst p)" for i
  proof (cases "i = fst p")
    case False
    then have "placed ?s (int i + 1) (hs ! i)" using assms(1) that by (simp add: good_def)
    then show ?thesis using False by (intro placed_kept [OF s'(2)]) (simp_all add: devs dev)
  qed (use new in simp)
  then have "good hs (Suc (fst p), s')" using s' dev assms(2) by (simp add: good_def)
  then show ?thesis unfolding s'_def [symmetric] using s'(2,3) by (simp add: moves_def)
qed

lemma seed_devices_moves:
  assumes "good hs p" "due hs p (replicate (length js) (sn, rn, kn))" "at_rack (snd p) siteID rowID rackID sn rn kn"
    and "fits (int (length js)) (snd p)"
  shows "moves hs (length js) (int (length js)) p (seed_devices clk hs siteID rowID rackID js p)"
  using assms
proof (induction js arbitrary: p)
  case (Cons j js)
  let ?q = "(Suc (fst p), SeedDevice clk (gh_HostID (hs ! fst p)) ''server'' siteID rowID rackID j
    (fmap_of_list [(''cirrus_host_id'', gh_HostID (hs ! fst p))]) (snd p))"
  have first: "prefix ((sn, rn, kn) # replicate (length js) (sn, rn, kn)) (map label_of (drop (fst p) hs))"
    using Cons.prems(2) by (simp add: due_def)
  then have here: "fst p < length hs" by (cases "fst p < length hs") auto
  then have "label_of (hs ! fst p) = (sn, rn, kn)" using first by (simp add: Cons_nth_drop_Suc [symmetric])
  moreover have "fits 1 (snd p)" using Cons.prems(4) by (auto simp: fits_def)
  ultimately have one: "moves hs 1 1 p ?q" using Cons.prems(1,3) here by (intro one_device_moves)
  have "moves hs (length js) (int (length js)) ?q (seed_devices clk hs siteID rowID rackID js ?q)"
  proof (rule Cons.IH)
    show "due hs ?q (replicate (length js) (sn, rn, kn))"
      using Cons.prems(2) due_append [of hs p "[(sn, rn, kn)]" "replicate (length js) (sn, rn, kn)" ?q] by simp
    have "keeps_nb (snd p) (snd ?q)" using one by (simp add: moves_def)
    from at_kept(2) [OF this Cons.prems(3)] show "at_rack (snd ?q) siteID rowID rackID sn rn kn" .
    show "fits (int (length js)) (snd ?q)"
      using one Cons.prems(4) fits_grows [of 1 "int (length js)"] by (simp add: moves_def)
  qed (use one in \<open>simp add: moves_def\<close>)
  from moves_trans [OF one this] here show ?case by (simp add: Let_def)
qed (simp add: moves_refl)

text \<open>The labels of the hosts of a rack, a row and a site, and bounds on what seeding them adds.\<close>

definition rack_labels :: "SiteDef \<Rightarrow> int \<Rightarrow> int \<Rightarrow> (string \<times> string \<times> string) list" where
  "rack_labels site row rack = replicate (length [1..sd_HostsPerRack site])
     (sd_Name site, row_name (sd_Name site) row, rack_name (sd_Name site) row rack)"

definition row_labels :: "SiteDef \<Rightarrow> int \<Rightarrow> (string \<times> string \<times> string) list" where
  "row_labels site row = concat (map (rack_labels site row) [1..sd_RacksPerRow site])"

definition site_labels :: "SiteDef \<Rightarrow> (string \<times> string \<times> string) list" where
  "site_labels site = concat (map (row_labels site) [1..sd_RackRows site])"

definition rack_cost :: "SiteDef \<Rightarrow> int" where
  "rack_cost site = 1 + int (length [1..sd_HostsPerRack site])"

definition row_cost :: "SiteDef \<Rightarrow> int" where
  "row_cost site = 1 + (\<Sum>rack\<leftarrow>[1..sd_RacksPerRow site]. rack_cost site)"

definition site_cost :: "SiteDef \<Rightarrow> int" where
  "site_cost site = 1 + (\<Sum>row\<leftarrow>[1..sd_RackRows site]. row_cost site)"

lemma cost_pos: "1 \<le> rack_cost site" "1 \<le> row_cost site" "1 \<le> site_cost site"
proof -
  show 1: "1 \<le> rack_cost site" by (simp add: rack_cost_def)
  then show 2: "1 \<le> row_cost site" by (auto simp: row_cost_def intro!: sum_list_nonneg)
  then show "1 \<le> site_cost site" by (auto simp: site_cost_def intro!: sum_list_nonneg)
qed

lemma seed_rack_moves:
  assumes "good hs p" "due hs p (rack_labels site row rack)" "fits (rack_cost site) (snd p)"
    and "at_row (snd p) siteID rowID (sd_Name site) (row_name (sd_Name site) row)"
  shows "moves hs (length (rack_labels site row rack)) (rack_cost site) p (seed_rack l clk hs site siteID rowID row rack p)"
proof -
  let ?s = "snd p" and ?kn = "rack_name (sd_Name site) row rack"
  let ?cf = "fmap_of_list [(''tor_switch'', tor_name (sd_Name site) row rack), (''power_circuit'', pdu_name (sd_Name site) row rack)]"
  obtain rackID s where add: "AddRack l (clk ?s) ?kn siteID rowID ''active'' ?cf ?s = (rackID, s)" by fastforce
  have sound: "sound_nb ?s" using assms(1) by (simp add: good_def)
  have "fits 1 ?s" by (rule fits_mono [OF assms(3)]) (simp add: cost_pos)
  with AddRack_adds [OF sound _ add] assms(4)
  have rack: "adds 0 0 1 0 ?s s" "\<exists>rk. get (racks s) rackID = Some rk \<and> rk_SiteID rk = siteID \<and> rk_LocationID rk = rowID"
    by (auto simp: at_row_def)
  then have s: "sound_nb s" "keeps_nb ?s s" "nextDeviceID s = nextDeviceID ?s" "grows 1 ?s s" by (simp_all add: adds_def grows_def)
  have "devices s = devices ?s" "get (racks s) rackID = Some (new_rack l (clk ?s) rackID ?kn siteID rowID ''active'' ?cf)"
    using add by (auto simp: AddRack_def Let_def)
  moreover from this good_same_devices [OF assms(1) s(1,2)] s(3) have "good hs (fst p, s)" by simp
  moreover from s(2,4) this have one: "moves hs 0 1 p (fst p, s)" by (simp add: moves_def)
  moreover have "at_row s siteID rowID (sd_Name site) (row_name (sd_Name site) row)" using at_kept(1) [OF s(2) assms(4)] .
  ultimately have two: "moves hs (length [1..sd_HostsPerRack site]) (int (length [1..sd_HostsPerRack site])) (fst p, s)
      (seed_devices clk hs siteID rowID rackID [1..sd_HostsPerRack site] (fst p, s))"
    using assms(2,3) fits_grows [of 1 "int (length [1..sd_HostsPerRack site])" ?s s] s(4)
    by (intro seed_devices_moves [where sn = "sd_Name site" and rn = "row_name (sd_Name site) row" and kn = ?kn])
      (auto simp: due_def rack_labels_def rack_cost_def at_rack_def new_rack_def)
  show ?thesis
    using moves_trans [OF one two] add by (simp add: seed_rack_def SeedRack_def rack_labels_def rack_cost_def)
qed

lemma seed_row_moves:
  assumes "good hs p" "due hs p (row_labels site row)" "fits (row_cost site) (snd p)"
    and "\<exists>st. get (sites (snd p)) siteID = Some st \<and> st_Name st = sd_Name site"
  shows "moves hs (length (row_labels site row)) (row_cost site) p (seed_row l clk hs site siteID row p)"
proof -
  let ?s = "snd p" and ?rn = "row_name (sd_Name site) row"
  obtain rowID s where add: "AddLocation l (clk ?s) ?rn siteID 0 fmempty ?s = (rowID, s)" by fastforce
  have sound: "sound_nb ?s" using assms(1) by (simp add: good_def)
  have "fits 1 ?s" by (rule fits_mono [OF assms(3)]) (simp add: cost_pos)
  with AddLocation_adds [OF sound _ add] assms(4) have "adds 0 1 0 0 ?s s" by auto
  then have s: "sound_nb s" "keeps_nb ?s s" "nextDeviceID s = nextDeviceID ?s" "grows 1 ?s s" by (simp_all add: adds_def grows_def)
  have loc: "devices s = devices ?s" "get (locations s) rowID = Some (new_location l (clk ?s) rowID ?rn siteID 0 fmempty)" "sites s = sites ?s"
    using add by (auto simp: AddLocation_def Let_def)
  from this good_same_devices [OF assms(1) s(1,2)] s(3) have good: "good hs (fst p, s)" by simp
  with s(2,4) have one: "moves hs 0 1 p (fst p, s)" by (simp add: moves_def)
  have at: "at_row s siteID rowID (sd_Name site) ?rn" using loc assms(4) by (auto simp: at_row_def new_location_def)
  have two: "moves hs (length (concat (map (rack_labels site row) [1..sd_RacksPerRow site]))) (\<Sum>rack\<leftarrow>[1..sd_RacksPerRow site]. rack_cost site)
      (fst p, s) (fold (seed_rack l clk hs site siteID rowID row) [1..sd_RacksPerRow site] (fst p, s))"
  proof (rule fold_moves)
    show "moves hs (length (rack_labels site row rack)) (rack_cost site) q (seed_rack l clk hs site siteID rowID row rack q)"
      if "good hs q" "due hs q (rack_labels site row rack)" "fits (rack_cost site) (snd q)" "keeps_nb s (snd q)" for rack q
      using that at_kept(1) [OF that(4) at] by (intro seed_rack_moves)
    show "fits (\<Sum>rack\<leftarrow>[1..sd_RacksPerRow site]. rack_cost site) (snd (fst p, s))"
      using assms(3) s(4) fits_grows by (simp add: row_cost_def)
  qed (use good assms(2) cost_pos(1) [of site] in \<open>auto simp: due_def row_labels_def keeps_nb_def\<close>)
  show ?thesis
    using moves_trans [OF one two] add by (simp add: seed_row_def SeedLocation_def row_labels_def row_cost_def)
qed

lemma seed_site_moves:
  assumes "good hs p" "due hs p (site_labels site)" "fits (site_cost site) (snd p)"
  shows "moves hs (length (site_labels site)) (site_cost site) p (seed_site l clk hs site p)"
proof -
  let ?s = "snd p"
  obtain siteID s where add: "AddSite l (clk ?s) (sd_Name site) ''active'' None fmempty ?s = (siteID, s)" by fastforce
  have sound: "sound_nb ?s" using assms(1) by (simp add: good_def)
  have "fits 1 ?s" by (rule fits_mono [OF assms(3)]) (simp add: cost_pos)
  with AddSite_adds [OF sound _ add] have "adds 1 0 0 0 ?s s" by auto
  then have s: "sound_nb s" "keeps_nb ?s s" "nextDeviceID s = nextDeviceID ?s" "grows 1 ?s s" by (simp_all add: adds_def grows_def)
  have st: "devices s = devices ?s" "get (sites s) siteID = Some (new_site l (clk ?s) siteID (sd_Name site) ''active'' None fmempty)"
    using add by (auto simp: AddSite_def Let_def)
  from this good_same_devices [OF assms(1) s(1,2)] s(3) have good: "good hs (fst p, s)" by simp
  with s(2,4) have one: "moves hs 0 1 p (fst p, s)" by (simp add: moves_def)
  have two: "moves hs (length (concat (map (row_labels site) [1..sd_RackRows site]))) (\<Sum>row\<leftarrow>[1..sd_RackRows site]. row_cost site)
      (fst p, s) (fold (seed_row l clk hs site siteID) [1..sd_RackRows site] (fst p, s))"
  proof (rule fold_moves)
    show "moves hs (length (row_labels site row)) (row_cost site) q (seed_row l clk hs site siteID row q)"
      if "good hs q" "due hs q (row_labels site row)" "fits (row_cost site) (snd q)" "keeps_nb s (snd q)" for row q
      using that st(2) by (intro seed_row_moves) (auto simp: keeps_nb_def new_site_def)
    show "fits (\<Sum>row\<leftarrow>[1..sd_RackRows site]. row_cost site) (snd (fst p, s))"
      using assms(3) s(4) fits_grows by (simp add: site_cost_def)
  qed (use good assms(2) cost_pos(2) [of site] in \<open>auto simp: due_def site_labels_def keeps_nb_def\<close>)
  show ?thesis
    using moves_trans [OF one two] add by (simp add: seed_site_def SeedSite_def site_labels_def site_cost_def)
qed

lemma generated_labels:
  "map label_of (map (host_at base) (zip (all_places env) [0..<length (all_places env)])) = concat (map site_labels (en_Sites env))"
proof -
  define place_label where "place_label = (\<lambda>(site :: SiteDef, tmpl :: HostTemplate, row, rack, h :: int).
    (sd_Name site, row_name (sd_Name site) row, rack_name (sd_Name site) row rack))"
  have label: "label_of (host_at base (x, i)) = place_label x" for x i
    by (simp add: label_of_def host_at_def generated_host_def place_label_def split: prod.split)
  have "map label_of (map (host_at base) (zip xs is)) = map place_label (map fst (zip xs is))" for xs "is"
    using label by (auto simp: comp_def)
  from this [of "all_places env" "[0..<length (all_places env)]"]
  have "map label_of (map (host_at base) (zip (all_places env) [0..<length (all_places env)])) = map place_label (all_places env)"
    by (simp only: map_fst_zip length_upt diff_zero)
  also have "\<dots> = concat (map (\<lambda>site. map (\<lambda>p. place_label (site, the (get (en_HostTemplates env) (sd_HostTemplate site)), p)) (places site)) (en_Sites env))"
    by (simp add: all_places_def map_concat comp_def)
  also have "(\<lambda>site. map (\<lambda>p. place_label (site, the (get (en_HostTemplates env) (sd_HostTemplate site)), p)) (places site)) = site_labels"
    by (rule ext) (simp add: places_def site_labels_def row_labels_def [abs_def] rack_labels_def [abs_def] place_label_def map_concat comp_def map_replicate_const)
  finally show ?thesis .
qed

lemma templates_there: "fill_sites base tmpls ss acc = Inr acc' \<Longrightarrow> \<forall>site\<in>set ss. get tmpls (sd_HostTemplate site) \<noteq> None"
  by (induction base tmpls ss acc rule: fill_sites.induct) (auto split: option.splits)

lemma topology_placed:
  assumes "map label_of hs = concat (map site_labels (en_Sites env))" "sum_list (map site_cost (en_Sites env)) < MaxInt64"
    and "gr_Hosts result = hs"
  shows "sound_nb (seedNetboxTopology l clk env result NewStore_nb) \<and>
    nextDeviceID (seedNetboxTopology l clk env result NewStore_nb) = int (length hs) + 1 \<and>
    (\<forall>i < length hs. placed (seedNetboxTopology l clk env result NewStore_nb) (int i + 1) (hs ! i))"
proof -
  have "good hs (0, NewStore_nb)" using sound_new by (simp add: good_def NewStore_nb_def)
  then have "moves hs (length (concat (map site_labels (en_Sites env)))) (sum_list (map site_cost (en_Sites env))) (0, NewStore_nb)
      (fold (seed_site l clk hs) (en_Sites env) (0, NewStore_nb))"
    using assms(1,2) cost_pos(3) seed_site_moves
    by (intro fold_moves [where origin = NewStore_nb]) (auto simp: due_def fits_def NewStore_nb_def keeps_nb_def intro: order_trans [of 0 1])
  moreover have "length (concat (map site_labels (en_Sites env))) = length hs" using assms(1) by (metis length_map)
  ultimately show ?thesis using assms(3) by (simp add: moves_def good_def seedNetboxTopology_def)
qed


definition no_simulators :: Simulators where
  "no_simulators = \<lparr>si_libvirt = NewServer NewStore_lv, si_ovn = NewManager, si_storage = NewStore, si_netbox = NewStore_nb\<rparr>"

lemma tiny_seeding: "fst (seedFromEnvFile plain_lib (\<lambda>_. 0) (\<lambda>_. True) (\<lambda>_. '''') tiny_yaml (Some ''std'') no_simulators) = None"
proof -
  have ids: "host_id 1 \<noteq> host_id 2" using host_keys.label_inj [of 1 2] by auto
  have gen: "fst (GenerateWithOptions tiny_yaml ''std'' 0 New_datagen) = Inr \<lparr>gr_Name = ''tiny'',
      gr_Hosts = [generated_host 16510 (tiny_site ''std'') tiny_template 1 1 1, generated_host 16510 (tiny_site ''std'') tiny_template 1 2 2],
      gr_Backends = []\<rparr>"
    by (simp add: GenerateWithOptions_def tiny_yaml_def tiny_env_def fmlookup_of_list Let_def fill_site_def fill_row_def
        fill_rack_def add_host_def base_port_def int64_id upto.simps tiny_site_def)
  have "\<exists>p. seed_hosts (\<lambda>_. True) [generated_host 16510 (tiny_site ''std'') tiny_template 1 1 1, generated_host 16510 (tiny_site ''std'') tiny_template 1 2 2]
      (NewServer NewStore_lv) = (None, p)"
    using ids by (simp add: SeedHost_def seed_host_config_def generated_host_def host_from_def AddHost_def StartListener_def NewServer_def
        NewStore_lv_def int64_id Let_def)
  then show ?thesis
    using gen by (auto simp: seedFromEnvFile_def tiny_yaml_def getPortRange_def no_simulators_def tiny_env_def Let_def)
qed


end
