(* ===== verification/HTTP_Mux.thy ===== *)
theory HTTP_Mux
  imports Prelude "HOL-Library.Multiset"
begin

text \<open>
  The request multiplexer \<^verbatim>\<open>http.ServeMux\<close> that every simulator registers its handlers with: how a
  pattern is read, which requests it stands for, when a registration panics because two patterns
  conflict, and which handler a request reaches. Of the pattern language the model has what the
  simulators use: an optional method, literal segments, \<^verbatim>\<open>{name}\<close> wildcards and a trailing slash.
  Patterns with a host, \<^verbatim>\<open>{$}\<close> and \<^verbatim>\<open>{name...}\<close> do not occur in the program and are not read.
  Requests have a method other than \<^verbatim>\<open>CONNECT\<close>.

  The theorems say that in a table without conflicts the pattern chosen is the one that stands
  for the fewest requests, and that the order of registration does not matter.
\<close>

section \<open>Requests\<close>

record http_request =
  r_Method :: string
  r_EscapedPath :: string
  r_Path :: string
  r_RawQuery :: string
  r_Header :: "(string \<times> string list) list"
  r_Body :: string

text \<open>\<^verbatim>\<open>Header.Get\<close>: the first value under the key, or the empty string.\<close>

definition Header_Get :: "(string \<times> string list) list \<Rightarrow> string \<Rightarrow> string" where
  "Header_Get h k = (case map_of h k of Some (v # _) \<Rightarrow> v | _ \<Rightarrow> '''')"

section \<open>Paths\<close>

fun Split_path :: "string \<Rightarrow> string list" where
  "Split_path [] = [[]]"
| "Split_path (c # s) =
     (if c = CHR ''/'' then [] # Split_path s
      else case Split_path s of [] \<Rightarrow> [[c]] | x # xs \<Rightarrow> (c # x) # xs)"

definition clean_step :: "string list \<Rightarrow> string \<Rightarrow> string list" where
  "clean_step acc s =
     (if s = '''' \<or> s = ''.'' then acc else if s = ''..'' then butlast acc else acc @ [s])"

definition path_of :: "string list \<Rightarrow> string" where
  "path_of segs = concat (map (\<lambda>s. CHR ''/'' # s) segs)"

text \<open>\<^verbatim>\<open>path.Clean\<close> of a rooted path, and \<^verbatim>\<open>cleanPath\<close>, which keeps a trailing slash.\<close>

definition Clean :: "string \<Rightarrow> string" where
  "Clean p = (let segs = foldl clean_step [] (Split_path p) in if segs = [] then ''/'' else path_of segs)"

definition cleanPath :: "string \<Rightarrow> string" where
  "cleanPath p =
     (if p = '''' then ''/''
      else let p' = (if hd p = CHR ''/'' then p else CHR ''/'' # p); np = Clean p'
           in if last p' = CHR ''/'' \<and> np \<noteq> ''/'' then np @ ''/'' else np)"

text \<open>Percent-encoding; \<^verbatim>\<open>pathUnescape\<close> of the mux leaves alone what it cannot decode.\<close>

definition unhex :: "char \<Rightarrow> nat option" where
  "unhex c =
     (let n = of_char c in
      if 48 \<le> n \<and> n \<le> 57 then Some (n - 48)
      else if 97 \<le> n \<and> n \<le> 102 then Some (n - 87)
      else if 65 \<le> n \<and> n \<le> 70 then Some (n - 55) else None)"

fun PathUnescape :: "string \<Rightarrow> string option" where
  "PathUnescape [] = Some []"
| "PathUnescape (c # s) =
     (if c = CHR ''%'' then
        (case s of
           a # b # s' \<Rightarrow>
             (case (unhex a, unhex b) of
                (Some x, Some y) \<Rightarrow> map_option (Cons (char_of (16 * x + y))) (PathUnescape s')
              | _ \<Rightarrow> None)
         | _ \<Rightarrow> None)
      else map_option (Cons c) (PathUnescape s))"

definition pathUnescape :: "string \<Rightarrow> string" where
  "pathUnescape s = (case PathUnescape s of None \<Rightarrow> s | Some t \<Rightarrow> t)"

text \<open>The segments a path is matched by; a trailing slash is the segment \<open>''/''\<close>.\<close>

definition path_segments :: "string \<Rightarrow> string list" where
  "path_segments p = map (\<lambda>s. if s = '''' then ''/'' else pathUnescape s) (Split_path (tl p))"

section \<open>Patterns\<close>

datatype segment = Lit string | Wild string | Multi

record pattern =
  p_method :: string
  p_segments :: "segment list"

text \<open>Whether a character lies in one of the given ranges.\<close>

definition char_within :: "(char \<times> char) list \<Rightarrow> char \<Rightarrow> bool" where
  "char_within ranges c \<longleftrightarrow> list_ex (\<lambda>(lo, hi). lo \<le> c \<and> c \<le> hi) ranges"

text \<open>The names of wildcards are Go identifiers (here, of ASCII characters).\<close>

definition isValidWildcardName :: "string \<Rightarrow> bool" where
  "isValidWildcardName n \<longleftrightarrow>
     (case n of
        [] \<Rightarrow> False
      | c # _ \<Rightarrow>
          \<not> char_within [(CHR ''0'', CHR ''9'')] c \<and>
          list_all (char_within [(CHR ''_'', CHR ''_''), (CHR ''a'', CHR ''z''), (CHR ''A'', CHR ''Z''), (CHR ''0'', CHR ''9'')]) n)"

definition parse_segment :: "string \<Rightarrow> segment option" where
  "parse_segment s =
     (if CHR ''{'' \<notin> set s then Some (Lit s)
      else if hd s = CHR ''{'' \<and> last s = CHR ''}'' \<and> isValidWildcardName (butlast (tl s))
      then Some (Wild (butlast (tl s))) else None)"

fun parse_segments :: "string list \<Rightarrow> segment list option" where
  "parse_segments [] = Some []"
| "parse_segments (s # ss) =
     (if s = '''' then (if ss = [] then Some [Multi] else None)
      else case parse_segment s of
        None \<Rightarrow> None
      | Some seg \<Rightarrow> map_option (Cons seg) (parse_segments ss))"

fun wild_names :: "segment list \<Rightarrow> string list" where
  "wild_names [] = []"
| "wild_names (Wild n # ps) = n # wild_names ps"
| "wild_names (_ # ps) = wild_names ps"

definition parsePattern :: "string \<Rightarrow> pattern option" where
  "parsePattern s =
     (let meth = (if CHR '' '' \<in> set s then takeWhile (\<lambda>c. c \<noteq> CHR '' '') s else '''');
          rest = (if CHR '' '' \<in> set s then dropWhile (\<lambda>c. c = CHR '' '') (dropWhile (\<lambda>c. c \<noteq> CHR '' '') s) else s)
      in if rest = [] \<or> hd rest \<noteq> CHR ''/'' then None
         else case parse_segments (Split_path (tl rest)) of
           None \<Rightarrow> None
         | Some segs \<Rightarrow> if distinct (wild_names segs) then Some \<lparr>p_method = meth, p_segments = segs\<rparr> else None)"

section \<open>The requests a pattern stands for\<close>

definition covers_method :: "string \<Rightarrow> string \<Rightarrow> bool" where
  "covers_method pm m \<longleftrightarrow> pm = '''' \<or> pm = m \<or> pm = ''GET'' \<and> m = ''HEAD''"

fun match_segments :: "segment list \<Rightarrow> string list \<Rightarrow> (string \<times> string) list option" where
  "match_segments [] [] = Some []"
| "match_segments [] (x # xs) = None"
| "match_segments (Multi # ps) xs = (if xs = [] then None else Some [])"
| "match_segments (Lit s # ps) (x # xs) = (if s = x then match_segments ps xs else None)"
| "match_segments (Wild n # ps) (x # xs) =
     (if x = ''/'' then None else map_option (Cons (n, x)) (match_segments ps xs))"
| "match_segments (_ # ps) [] = None"

definition covers :: "pattern \<Rightarrow> string \<Rightarrow> string list \<Rightarrow> bool" where
  "covers p m xs \<longleftrightarrow> covers_method (p_method p) m \<and> match_segments (p_segments p) xs \<noteq> None"

text \<open>\<open>narrower\<close>: every request of the first pattern is one of the second. \<open>meet\<close>: some request is one of both.\<close>

fun narrower_segments :: "segment list \<Rightarrow> segment list \<Rightarrow> bool" where
  "narrower_segments [] [] = True"
| "narrower_segments (_ # _) (Multi # _) = True"
| "narrower_segments (Lit a # p) (Lit b # q) = (a = b \<and> narrower_segments p q)"
| "narrower_segments (Lit a # p) (Wild n # q) = (a \<noteq> ''/'' \<and> narrower_segments p q)"
| "narrower_segments (Wild m # p) (Wild n # q) = narrower_segments p q"
| "narrower_segments [] (r # q) = False"
| "narrower_segments (s # p) [] = False"
| "narrower_segments (Wild n # p) (Lit b # q) = False"
| "narrower_segments (Multi # p) (Lit b # q) = False"
| "narrower_segments (Multi # p) (Wild n # q) = False"

fun meet_segments :: "segment list \<Rightarrow> segment list \<Rightarrow> bool" where
  "meet_segments [] [] = True"
| "meet_segments (_ # _) (Multi # _) = True"
| "meet_segments (Multi # p) (Lit b # q) = True"
| "meet_segments (Multi # p) (Wild n # q) = True"
| "meet_segments (Lit a # p) (Lit b # q) = (a = b \<and> meet_segments p q)"
| "meet_segments (Lit a # p) (Wild n # q) = (a \<noteq> ''/'' \<and> meet_segments p q)"
| "meet_segments (Wild n # p) (Lit a # q) = (a \<noteq> ''/'' \<and> meet_segments p q)"
| "meet_segments (Wild m # p) (Wild n # q) = meet_segments p q"
| "meet_segments [] (r # q) = False"
| "meet_segments (s # p) [] = False"

definition narrower_method :: "string \<Rightarrow> string \<Rightarrow> bool" where
  "narrower_method m n \<longleftrightarrow> n = '''' \<or> m = n \<or> n = ''GET'' \<and> m = ''HEAD''"

definition narrower :: "pattern \<Rightarrow> pattern \<Rightarrow> bool" where
  "narrower p q \<longleftrightarrow> narrower_method (p_method p) (p_method q) \<and> narrower_segments (p_segments p) (p_segments q)"

definition meet :: "pattern \<Rightarrow> pattern \<Rightarrow> bool" where
  "meet p q \<longleftrightarrow>
     (narrower_method (p_method p) (p_method q) \<or> narrower_method (p_method q) (p_method p)) \<and>
     meet_segments (p_segments p) (p_segments q)"

text \<open>\<^verbatim>\<open>conflictsWith\<close>: some request is one of both, and neither pattern is the more specific one.\<close>

definition conflictsWith :: "pattern \<Rightarrow> pattern \<Rightarrow> bool" where
  "conflictsWith p q \<longleftrightarrow> meet p q \<and> narrower p q = narrower q p"

section \<open>Registration\<close>

type_synonym 'h mux = "(pattern \<times> 'h) list"

text \<open>\<^verbatim>\<open>HandleFunc\<close>; \<open>None\<close> is its panic on a bad pattern or a conflict.\<close>

definition HandleFunc :: "string \<Rightarrow> 'h \<Rightarrow> 'h mux \<Rightarrow> 'h mux option" where
  "HandleFunc s h m =
     (case parsePattern s of
        None \<Rightarrow> None
      | Some p \<Rightarrow> if list_ex (\<lambda>(q, _). conflictsWith p q) m then None else Some (m @ [(p, h)]))"

fun register_all :: "(string \<times> 'h) list \<Rightarrow> 'h mux \<Rightarrow> 'h mux option" where
  "register_all [] m = Some m"
| "register_all ((s, h) # rest) m =
     (case HandleFunc s h m of None \<Rightarrow> None | Some m' \<Rightarrow> register_all rest m')"

section \<open>Routing\<close>

definition lookup_mux :: "'h mux \<Rightarrow> string \<Rightarrow> string list \<Rightarrow> (pattern \<times> 'h) option" where
  "lookup_mux m meth xs =
     (let ms = filter (\<lambda>(p, _). covers p meth xs) m
      in find (\<lambda>(p, _). list_all (\<lambda>(q, _). narrower p q) ms) ms)"

definition exactMatch :: "(pattern \<times> 'h) option \<Rightarrow> string \<Rightarrow> bool" where
  "exactMatch n path =
     (case n of
        None \<Rightarrow> False
      | Some (p, _) \<Rightarrow>
          if last (p_segments p) \<noteq> Multi then True
          else last path = CHR ''/'' \<and> length (p_segments p) = length (filter (\<lambda>c. c = CHR ''/'') path))"

definition methods_at :: "'h mux \<Rightarrow> string list \<Rightarrow> string list" where
  "methods_at m xs =
     (let ms = map (p_method \<circ> fst) (filter (\<lambda>(p, _). match_segments (p_segments p) xs \<noteq> None) m)
      in if ''GET'' \<in> set ms then ''HEAD'' # ms else ms)"

definition matchingMethods :: "'h mux \<Rightarrow> string \<Rightarrow> string list" where
  "matchingMethods m path =
     sort (remdups (methods_at m (path_segments path) @
       (if last path = CHR ''/'' then [] else methods_at m (path_segments (path @ ''/'')))))"

datatype 'h routed =
    Handled 'h "(string \<times> string) list"
  | MovedPermanently string string
  | MethodNotAllowed "string list"
  | NotFound

definition findHandler :: "'h mux \<Rightarrow> http_request \<Rightarrow> 'h routed" where
  "findHandler m r =
     (let path = cleanPath (r_EscapedPath r);
          n = lookup_mux m (r_Method r) (path_segments path)
      in if \<not> exactMatch n path \<and> last path \<noteq> CHR ''/'' \<and>
            exactMatch (lookup_mux m (r_Method r) (path_segments (path @ ''/''))) (path @ ''/'')
         then MovedPermanently (cleanPath (r_Path r) @ ''/'') (r_RawQuery r)
         else if path \<noteq> r_EscapedPath r then MovedPermanently path (r_RawQuery r)
         else case n of
           None \<Rightarrow> (case matchingMethods m path of [] \<Rightarrow> NotFound | ms \<Rightarrow> MethodNotAllowed ms)
         | Some (p, h) \<Rightarrow> Handled h (the (match_segments (p_segments p) (path_segments path))))"

text \<open>\<^verbatim>\<open>r.PathValue\<close>: the empty string for a name the pattern does not have.\<close>

definition PathValue :: "(string \<times> string) list \<Rightarrow> string \<Rightarrow> string" where
  "PathValue vars n = (case map_of vars n of None \<Rightarrow> '''' | Some v \<Rightarrow> v)"

section \<open>More specific means fewer requests\<close>

lemma some_match: "\<exists>xs. match_segments p xs \<noteq> None"
proof (induction p)
  case Nil
  have "match_segments [] [] \<noteq> None" by simp
  then show ?case by blast
next
  case (Cons s p)
  then obtain xs where "match_segments p xs \<noteq> None" by blast
  then have "match_segments (s # p) ((case s of Lit a \<Rightarrow> a | _ \<Rightarrow> ''x'') # xs) \<noteq> None"
    by (cases s) auto
  then show ?case by blast
qed

lemma match_Cons_nonempty: "match_segments (s # p) xs \<noteq> None \<Longrightarrow> xs \<noteq> []"
  by (cases s) auto

lemma other_string: "\<exists>x. x \<noteq> a \<and> x \<noteq> (''/'' :: string)"
proof -
  have "''x'' \<noteq> a \<or> ''y'' \<noteq> a" by auto
  then show ?thesis by auto
qed

lemma narrower_segments_sound:
  "narrower_segments p q \<Longrightarrow> match_segments p xs \<noteq> None \<Longrightarrow> match_segments q xs \<noteq> None"
proof (induction p q arbitrary: xs rule: narrower_segments.induct)
  case (2 s p r q)
  then show ?case using match_Cons_nonempty by auto
next
  case (3 a p b q)
  then show ?case by (cases xs) (auto split: if_splits)
next
  case (4 a p n q)
  then show ?case by (cases xs) (auto split: if_splits)
next
  case (5 m p n q)
  then show ?case by (cases xs) (auto split: if_splits)
qed auto

lemma wider_segments:
  "\<not> narrower_segments p q \<Longrightarrow> \<exists>xs. match_segments p xs \<noteq> None \<and> match_segments q xs = None"
proof (induction p q rule: narrower_segments.induct)
  case (3 a p b q)
  show ?case
  proof (cases "a = b")
    case True
    with 3 obtain xs where "match_segments p xs \<noteq> None" "match_segments q xs = None" by auto
    with True show ?thesis by (intro exI [of _ "a # xs"]) simp
  next
    case False
    obtain xs where "match_segments p xs \<noteq> None" using some_match by blast
    with False show ?thesis by (intro exI [of _ "a # xs"]) simp
  qed
next
  case (4 a p n q)
  show ?case
  proof (cases "a = ''/''")
    case True
    obtain xs where "match_segments p xs \<noteq> None" using some_match by blast
    with True show ?thesis by (intro exI [of _ "a # xs"]) simp
  next
    case False
    with 4 obtain xs where "match_segments p xs \<noteq> None" "match_segments q xs = None" by auto
    with False show ?thesis by (intro exI [of _ "a # xs"]) simp
  qed
next
  case (5 m p n q)
  then obtain xs where "match_segments p xs \<noteq> None" "match_segments q xs = None" by auto
  then show ?case by (intro exI [of _ "''x'' # xs"]) simp
next
  case (6 r q)
  have "match_segments [] [] \<noteq> None \<and> match_segments (r # q) [] = None" by (cases r) auto
  then show ?case by blast
next
  case (7 s p)
  obtain xs where "match_segments (s # p) xs \<noteq> None" using some_match by blast
  moreover from this have "match_segments [] xs = None" using match_Cons_nonempty by (cases xs) auto
  ultimately show ?case by blast
next
  case (8 n p a q)
  obtain x where "x \<noteq> a" "x \<noteq> ''/''" using other_string by blast
  moreover obtain xs where "match_segments p xs \<noteq> None" using some_match by blast
  ultimately show ?case by (intro exI [of _ "x # xs"]) auto
next
  case (9 p a q)
  obtain x where "x \<noteq> a" using other_string by blast
  then show ?case by (intro exI [of _ "[x]"]) auto
next
  case (10 p n q)
  show ?case by (intro exI [of _ "[''/'']"]) auto
qed auto

fun seg_fits :: "segment \<Rightarrow> string \<Rightarrow> bool" where
  "seg_fits (Lit a) x \<longleftrightarrow> a = x"
| "seg_fits (Wild n) x \<longleftrightarrow> x \<noteq> ''/''"
| "seg_fits Multi x \<longleftrightarrow> True"

lemma match_Multi [simp]: "match_segments (Multi # p) xs \<noteq> None \<longleftrightarrow> xs \<noteq> []"
  by simp

lemma match_Cons:
  "s \<noteq> Multi \<Longrightarrow> match_segments (s # p) xs \<noteq> None \<longleftrightarrow> (\<exists>x ys. xs = x # ys \<and> seg_fits s x \<and> match_segments p ys \<noteq> None)"
  by (cases s; cases xs) auto

lemma meet_Cons:
  assumes "s \<noteq> Multi" "t \<noteq> Multi"
  shows "(\<exists>xs. match_segments (s # p) xs \<noteq> None \<and> match_segments (t # q) xs \<noteq> None) \<longleftrightarrow>
    (\<exists>x. seg_fits s x \<and> seg_fits t x) \<and> (\<exists>xs. match_segments p xs \<noteq> None \<and> match_segments q xs \<noteq> None)"
  unfolding match_Cons [OF assms(1)] match_Cons [OF assms(2)] by blast

lemma meet_Multi: "\<exists>xs. match_segments (s # p) xs \<noteq> None \<and> xs \<noteq> []"
  using some_match [of "s # p"] match_Cons_nonempty by blast

lemma no_common: "match_segments [] xs = None \<or> match_segments (s # p) xs = None"
  by (cases xs; cases s) auto

lemma meet_segments_iff:
  "meet_segments p q \<longleftrightarrow> (\<exists>xs. match_segments p xs \<noteq> None \<and> match_segments q xs \<noteq> None)"
proof (induction p q rule: meet_segments.induct)
  case 1
  show ?case using some_match [of "[]"] by simp
next
  case (2 s p q)
  then show ?case using meet_Multi [of s p] by auto
next
  case (3 p b q)
  then show ?case using meet_Multi [of "Lit b" q] by auto
next
  case (4 p n q)
  then show ?case using meet_Multi [of "Wild n" q] by auto
next
  case (5 a p b q)
  have "(\<exists>x. seg_fits (Lit a) x \<and> seg_fits (Lit b) x) = (a = b)" by auto
  with 5 show ?case using meet_Cons [of "Lit a" "Lit b" p q] by auto
next
  case (6 a p n q)
  have "(\<exists>x. seg_fits (Lit a) x \<and> seg_fits (Wild n) x) = (a \<noteq> ''/'')" by simp
  with 6 show ?case using meet_Cons [of "Lit a" "Wild n" p q] by auto
next
  case (7 n p a q)
  have "(\<exists>x. seg_fits (Wild n) x \<and> seg_fits (Lit a) x) = (a \<noteq> ''/'')" by simp
  with 7 show ?case using meet_Cons [of "Wild n" "Lit a" p q] by auto
next
  case (8 m p n q)
  have "\<exists>x. seg_fits (Wild m) x \<and> seg_fits (Wild n) x" using other_string by simp blast
  with 8 show ?case using meet_Cons [of "Wild m" "Wild n" p q] by auto
next
  case (9 s q)
  show ?case using no_common [of _ s q] by (simp del: match_segments.simps not_None_eq)
next
  case (10 s p)
  show ?case using no_common [of _ s p] by (simp del: match_segments.simps not_None_eq add: disj_commute)
qed

lemma narrower_method_iff: "narrower_method m n \<longleftrightarrow> (\<forall>x. covers_method m x \<longrightarrow> covers_method n x)"
proof
  show "narrower_method m n \<Longrightarrow> \<forall>x. covers_method m x \<longrightarrow> covers_method n x"
    by (auto simp: narrower_method_def covers_method_def)
next
  assume sub: "\<forall>x. covers_method m x \<longrightarrow> covers_method n x"
  show "narrower_method m n"
  proof (cases "m = ''''")
    case True
    then have "covers_method m x" for x by (simp add: covers_method_def)
    then have "covers_method n ''PUT''" "covers_method n ''POST''" using sub by blast+
    then show ?thesis by (auto simp: narrower_method_def covers_method_def)
  next
    case False
    then have "covers_method n m" using sub by (simp add: covers_method_def)
    then show ?thesis by (auto simp: narrower_method_def covers_method_def)
  qed
qed

lemma meet_method_iff:
  "narrower_method m n \<or> narrower_method n m \<longleftrightarrow> (\<exists>x. covers_method m x \<and> covers_method n x)"
proof
  assume "narrower_method m n \<or> narrower_method n m"
  moreover have "covers_method m m" "covers_method n n" by (simp_all add: covers_method_def)
  ultimately show "\<exists>x. covers_method m x \<and> covers_method n x" unfolding narrower_method_iff by blast
qed (auto simp: narrower_method_def covers_method_def)

lemma narrower_iff: "narrower p q \<longleftrightarrow> (\<forall>m xs. covers p m xs \<longrightarrow> covers q m xs)"
proof
  show "narrower p q \<Longrightarrow> \<forall>m xs. covers p m xs \<longrightarrow> covers q m xs"
    using narrower_segments_sound by (auto simp: narrower_def covers_def narrower_method_iff)
next
  assume sub: "\<forall>m xs. covers p m xs \<longrightarrow> covers q m xs"
  obtain xs where xs: "match_segments (p_segments p) xs \<noteq> None" using some_match by blast
  have self: "covers_method (p_method p) (p_method p)" by (simp add: covers_method_def)
  have "narrower_method (p_method p) (p_method q)"
    using sub xs by (auto simp: covers_def narrower_method_iff)
  moreover have "narrower_segments (p_segments p) (p_segments q)"
    using sub self wider_segments [of "p_segments p" "p_segments q"] unfolding covers_def by blast
  ultimately show "narrower p q" by (simp add: narrower_def)
qed

lemma meet_iff: "meet p q \<longleftrightarrow> (\<exists>m xs. covers p m xs \<and> covers q m xs)"
  unfolding meet_def covers_def meet_method_iff meet_segments_iff by blast

lemma narrower_trans: "narrower p q \<Longrightarrow> narrower q r \<Longrightarrow> narrower p r"
  by (simp add: narrower_iff)

lemma conflictsWith_sym: "conflictsWith p q = conflictsWith q p"
  by (auto simp: conflictsWith_def meet_iff)

text \<open>What a conflict is, in terms of the requests: one that both patterns stand for, and either the same set of requests
  or one that only the first and one that only the second stands for.\<close>

lemma conflict_iff:
  "conflictsWith p q \<longleftrightarrow>
     (\<exists>m xs. covers p m xs \<and> covers q m xs) \<and>
     ((\<forall>m xs. covers p m xs = covers q m xs) \<or>
      (\<exists>m xs. covers p m xs \<and> \<not> covers q m xs) \<and> (\<exists>m xs. covers q m xs \<and> \<not> covers p m xs))"
  unfolding conflictsWith_def meet_iff narrower_iff by blast

section \<open>The choice of a handler\<close>

definition conflict_free :: "'h mux \<Rightarrow> bool" where
  "conflict_free m \<longleftrightarrow> sorted_wrt (\<lambda>x y. \<not> conflictsWith (fst x) (fst y)) m"

lemma conflictsWith_self: "conflictsWith p p"
  using some_match [of "p_segments p"] by (auto simp: conflictsWith_def meet_def narrower_method_def meet_segments_iff)

lemma conflict_free_iff:
  "conflict_free m \<longleftrightarrow> distinct m \<and> (\<forall>x\<in>set m. \<forall>y\<in>set m. x \<noteq> y \<longrightarrow> \<not> conflictsWith (fst x) (fst y))"
  by (induction m) (auto simp: conflict_free_def conflictsWith_self conflictsWith_sym)

definition parse_all :: "(string \<times> 'h) list \<Rightarrow> 'h mux option" where
  "parse_all rs =
     (if list_all (\<lambda>(s, _). parsePattern s \<noteq> None) rs then Some (map (\<lambda>(s, h). (the (parsePattern s), h)) rs) else None)"

lemma parse_all_simps [simp]:
  "parse_all [] = Some []"
  "parse_all ((s, h) # rs) =
     (case parsePattern s of None \<Rightarrow> None | Some p \<Rightarrow> map_option (Cons (p, h)) (parse_all rs))"
  by (auto simp: parse_all_def split: option.splits)

lemma register_all_eq:
  assumes "conflict_free m"
  shows "register_all rs m =
    (case parse_all rs of None \<Rightarrow> None | Some t \<Rightarrow> if conflict_free (m @ t) then Some (m @ t) else None)"
  using assms
proof (induction rs arbitrary: m)
  case (Cons sh rs)
  obtain s h where sh: "sh = (s, h)" by (cases sh)
  show ?case
  proof (cases "parsePattern s")
    case None
    then show ?thesis by (simp add: sh HandleFunc_def)
  next
    case (Some p)
    have front: "conflict_free (m @ (p, h) # t) \<Longrightarrow> conflict_free (m @ [(p, h)])" for t
      by (simp add: conflict_free_def sorted_wrt_append)
    have snoc: "conflict_free (m @ [(p, h)]) \<longleftrightarrow> \<not> list_ex (\<lambda>(q, _). conflictsWith p q) m"
      using Cons.prems by (auto simp: conflict_free_def sorted_wrt_append list_ex_iff conflictsWith_sym)
    show ?thesis
    proof (cases "conflict_free (m @ [(p, h)])")
      case True
      then show ?thesis
        using Cons.IH [OF True] Some snoc by (auto simp: sh HandleFunc_def split: option.splits)
    next
      case False
      then have "\<not> conflict_free (m @ (p, h) # t)" for t using front by blast
      then show ?thesis using False Some snoc by (auto simp: sh HandleFunc_def split: option.splits)
    qed
  qed
qed (simp add: conflict_free_def)

lemma registered: "register_all rs [] = Some m \<longleftrightarrow> parse_all rs = Some m \<and> conflict_free m"
  by (auto simp: register_all_eq [of "[]"] conflict_free_def split: option.splits if_splits)

text \<open>Among the patterns that stand for a request, any two can be compared, so one is the most specific.\<close>

lemma least_of_comparable:
  assumes "xs \<noteq> []" "\<forall>x\<in>set xs. \<forall>y\<in>set xs. R x y \<or> R y x" "\<And>x y z. R x y \<Longrightarrow> R y z \<Longrightarrow> R x z"
  shows "\<exists>x\<in>set xs. \<forall>y\<in>set xs. R x y"
  using assms(1,2)
proof (induction xs)
  case (Cons a xs)
  show ?case
  proof (cases "xs = []")
    case True
    then show ?thesis using Cons.prems by auto
  next
    case False
    with Cons obtain x where x: "x \<in> set xs" "\<forall>y\<in>set xs. R x y" by auto
    show ?thesis
    proof (cases "R x a")
      case True
      then show ?thesis using x by auto
    next
      case False
      then have "R a x" "R a a" using x Cons.prems by auto
      moreover have "R a y" if "y \<in> set xs" for y using assms(3) [of a x y] x(2) that \<open>R a x\<close> by blast
      ultimately show ?thesis by simp
    qed
  qed
qed simp

lemma lookup_iff:
  assumes "conflict_free m"
  shows "lookup_mux m meth xs = Some (p, h) \<longleftrightarrow>
    (p, h) \<in> set m \<and> covers p meth xs \<and> (\<forall>(q, g)\<in>set m. covers q meth xs \<longrightarrow> narrower p q)"
    (is "_ \<longleftrightarrow> ?least (p, h)")
proof
  assume "lookup_mux m meth xs = Some (p, h)"
  then show "?least (p, h)"
    by (auto simp: lookup_mux_def Let_def find_Some_iff list_all_iff dest!: nth_mem)
next
  let ?ms = "filter (\<lambda>(p, _). covers p meth xs) m"
  assume ph: "?least (p, h)"
  then have "find (\<lambda>(p, _). list_all (\<lambda>(q, _). narrower p q) ?ms) ?ms \<noteq> None"
    by (auto simp: find_None_iff list_all_iff)
  then obtain q g where qg: "find (\<lambda>(p, _). list_all (\<lambda>(q, _). narrower p q) ?ms) ?ms = Some (q, g)" by auto
  then have least: "(q, g) \<in> set ?ms" "\<forall>(p, _)\<in>set ?ms. narrower q p"
    by (auto simp: find_Some_iff list_all_iff dest!: nth_mem)
  then have "narrower q p" "narrower p q" "meet p q" using ph by (auto simp: meet_iff)
  then have "conflictsWith p q" by (simp add: conflictsWith_def)
  moreover have "(p, h) \<in> set m" "(q, g) \<in> set m" using ph least(1) by auto
  ultimately have "(p, h) = (q, g)" using assms unfolding conflict_free_iff by force
  then show "lookup_mux m meth xs = Some (p, h)" using qg by (simp add: lookup_mux_def)
qed

lemma lookup_None_iff:
  assumes "conflict_free m"
  shows "lookup_mux m meth xs = None \<longleftrightarrow> (\<forall>(p, h)\<in>set m. \<not> covers p meth xs)"
proof
  assume none: "lookup_mux m meth xs = None"
  let ?ms = "filter (\<lambda>(p, _). covers p meth xs) m"
  show "\<forall>(p, h)\<in>set m. \<not> covers p meth xs"
  proof (rule ccontr)
    assume "\<not> ?thesis"
    then have "?ms \<noteq> []" by (auto simp: filter_empty_conv)
    moreover have "\<forall>x\<in>set ?ms. \<forall>y\<in>set ?ms. narrower (fst x) (fst y) \<or> narrower (fst y) (fst x)"
    proof (intro ballI)
      fix x y assume xy: "x \<in> set ?ms" "y \<in> set ?ms"
      then have "covers (fst x) meth xs \<and> covers (fst y) meth xs" by auto
      then have "meet (fst x) (fst y)" unfolding meet_iff by blast
      moreover have "x = y \<or> \<not> conflictsWith (fst x) (fst y)"
        using assms xy unfolding conflict_free_iff by auto
      ultimately show "narrower (fst x) (fst y) \<or> narrower (fst y) (fst x)"
        by (auto simp: conflictsWith_def narrower_iff)
    qed
    ultimately obtain x where x: "x \<in> set ?ms" "\<forall>y\<in>set ?ms. narrower (fst x) (fst y)"
      using least_of_comparable [of ?ms "\<lambda>x y. narrower (fst x) (fst y)"] narrower_trans by blast
    have "find (\<lambda>(p, _). list_all (\<lambda>(q, _). narrower p q) ?ms) ?ms \<noteq> None"
      unfolding find_None_iff
    proof (rule notI, elim notE)
      show "\<exists>x. x \<in> set ?ms \<and> (case x of (p, _) \<Rightarrow> list_all (\<lambda>(q, _). narrower p q) ?ms)"
        using x by (intro exI [of _ x]) (auto simp: list_all_iff split_beta)
    qed
    then show False using none by (simp add: lookup_mux_def Let_def)
  qed
qed (auto simp: lookup_mux_def Let_def find_None_iff)

section \<open>The order of registration does not matter\<close>

lemma lookup_order_free:
  assumes "conflict_free m" "conflict_free m'" "set m = set m'"
  shows "lookup_mux m meth xs = lookup_mux m' meth xs"
proof (cases "lookup_mux m' meth xs")
  case None
  then have "lookup_mux m meth xs = None"
    unfolding lookup_None_iff [OF assms(1)] lookup_None_iff [OF assms(2)] assms(3) .
  then show ?thesis using None by simp
next
  case (Some ph)
  obtain p h where ph: "ph = (p, h)" by (cases ph)
  have "lookup_mux m meth xs = Some (p, h)"
    using Some unfolding ph lookup_iff [OF assms(1)] lookup_iff [OF assms(2)] assms(3) .
  then show ?thesis using Some ph by simp
qed

lemma findHandler_order_free:
  assumes "conflict_free m" "conflict_free m'" "set m = set m'"
  shows "findHandler m r = findHandler m' r"
proof -
  have "set (methods_at m xs) = set (methods_at m' xs)" for xs
    using assms(3) by (auto simp: methods_at_def Let_def)
  then have "matchingMethods m = matchingMethods m'"
    unfolding matchingMethods_def by (intro ext sorted_distinct_set_unique) auto
  moreover have "lookup_mux m = lookup_mux m'" using lookup_order_free [OF assms] by (intro ext)
  ultimately show ?thesis by (simp only: findHandler_def)
qed

lemma registration_order_free:
  assumes "register_all rs [] = Some m" "mset rs' = mset rs"
  shows "\<exists>m'. register_all rs' [] = Some m' \<and> (\<forall>r. findHandler m' r = findHandler m r)"
proof -
  let ?t = "\<lambda>rs. map (\<lambda>(s, h). (the (parsePattern s), h)) rs"
  have sets: "set rs' = set rs" using assms(2) by (metis set_mset_mset)
  have m: "m = ?t rs" and ok: "list_all (\<lambda>(s, _). parsePattern s \<noteq> None) rs" and cf: "conflict_free m"
    using assms(1) by (auto simp: registered parse_all_def split: if_splits)
  have "mset (?t rs') = mset (?t rs)" using assms(2) by simp
  then have "distinct (?t rs') = distinct (?t rs)" by (rule mset_eq_imp_distinct_iff)
  then have "conflict_free (?t rs')" using cf sets by (simp add: conflict_free_iff m)
  moreover have "set (?t rs') = set m" using sets by (simp add: m)
  ultimately show ?thesis
    using ok sets findHandler_order_free [OF _ cf] by (auto simp: registered parse_all_def list_all_iff)
qed

end
