(* ===== verification/HTTP_Serving.thy ===== *)
theory HTTP_Serving
  imports HTTP_Mux
begin

text \<open>
  Serving a request with a table of handlers: the query string, the answers the mux gives itself,
  and \<open>ServeHTTP\<close>. The lemmas say what becomes of the paths a client builds from plain names, and
  the locale \<open>keeps_under_http\<close> that what every handler of a table keeps, every request keeps.
\<close>

section \<open>The query string\<close>

fun QueryUnescape :: "string \<Rightarrow> string option" where
  "QueryUnescape [] = Some []"
| "QueryUnescape (c # s) =
     (if c = CHR ''%'' then
        (case s of
           a # b # s' \<Rightarrow>
             (case (unhex a, unhex b) of
                (Some x, Some y) \<Rightarrow> map_option (Cons (char_of (16 * x + y))) (QueryUnescape s')
              | _ \<Rightarrow> None)
         | _ \<Rightarrow> None)
      else map_option (Cons (if c = CHR ''+'' then CHR '' '' else c)) (QueryUnescape s))"

fun Split_at :: "char \<Rightarrow> string \<Rightarrow> string list" where
  "Split_at d [] = [[]]"
| "Split_at d (c # s) =
     (if c = d then [] # Split_at d s
      else case Split_at d s of [] \<Rightarrow> [[c]] | x # xs \<Rightarrow> (c # x) # xs)"

text \<open>\<^verbatim>\<open>url.ParseQuery\<close>: a setting that does not decode, or that holds a semicolon, is left out.\<close>

definition query_setting :: "string \<Rightarrow> (string \<times> string) option" where
  "query_setting t =
     (if t = '''' \<or> CHR '';'' \<in> set t then None
      else case (QueryUnescape (takeWhile (\<lambda>c. c \<noteq> CHR ''='') t), QueryUnescape (tl (dropWhile (\<lambda>c. c \<noteq> CHR ''='') t))) of
        (Some k, Some v) \<Rightarrow> Some (k, v)
      | _ \<Rightarrow> None)"

definition ParseQuery :: "string \<Rightarrow> (string \<times> string) list" where
  "ParseQuery q = List.map_filter query_setting (Split_at (CHR ''&'') q)"

definition Query_Get :: "http_request \<Rightarrow> string \<Rightarrow> string" where
  "Query_Get r k = (case map_of (ParseQuery (r_RawQuery r)) k of None \<Rightarrow> '''' | Some v \<Rightarrow> v)"

abbreviation pat :: "string \<Rightarrow> segment list \<Rightarrow> pattern" where
  "pat m segs \<equiv> \<lparr>p_method = m, p_segments = segs\<rparr>"

section \<open>Answers\<close>

type_synonym path_values = "(string \<times> string) list"

text \<open>What reaches the client: the answer of a handler, or one the mux gives without calling any.\<close>

datatype 'b http_answer =
    Answered 'b
  | RedirectAnswer string string
  | MethodNotAllowedAnswer "string list"
  | NotFoundAnswer

text \<open>\<open>run\<close> is what a registered handler does with a request in a state.\<close>

type_synonym ('h, 'b, 's) runner = "'h \<Rightarrow> http_request \<Rightarrow> path_values \<Rightarrow> 's \<Rightarrow> 'b \<times> 's"

definition ServeHTTP :: "('h, 'b, 's) runner \<Rightarrow> 'h mux \<Rightarrow> http_request \<Rightarrow> 's \<Rightarrow> 'b http_answer \<times> 's" where
  "ServeHTTP run m r s =
     (case findHandler m r of
        Handled h vars \<Rightarrow> (case run h r vars s of (b, s') \<Rightarrow> (Answered b, s'))
      | MovedPermanently p q \<Rightarrow> (RedirectAnswer p q, s)
      | MethodNotAllowed ms \<Rightarrow> (MethodNotAllowedAnswer ms, s)
      | NotFound \<Rightarrow> (NotFoundAnswer, s))"

text \<open>Requests in the order they are served, each with the circumstances of its handler (the clock, the order of a map).\<close>

fun ServeHTTP_all ::
    "('e \<Rightarrow> ('h, 'b, 's) runner) \<Rightarrow> 'h mux \<Rightarrow> ('e \<times> http_request) list \<Rightarrow> 's \<Rightarrow> 'b http_answer list \<times> 's" where
  "ServeHTTP_all run m [] s = ([], s)"
| "ServeHTTP_all run m ((e, r) # rs) s =
     (case ServeHTTP (run e) m r s of (a, s') \<Rightarrow> (case ServeHTTP_all run m rs s' of (as, s'') \<Rightarrow> (a # as, s'')))"

text \<open>\<^verbatim>\<open>fmt.Fprintln(w, "ok")\<close> with status 200, the health check of some simulators.\<close>

definition healthz :: "nat \<times> string" where
  "healthz = (200, ''ok'' @ [CHR 10])"

section \<open>Responses as text\<close>

record http_response =
  hs_Status :: nat
  hs_Header :: "(string \<times> string list) list"
  hs_Body :: string

text \<open>\<^verbatim>\<open>http.Error\<close>.\<close>

definition http_Error :: "string \<Rightarrow> nat \<Rightarrow> http_response" where
  "http_Error msg code =
     \<lparr>hs_Status = code,
      hs_Header = [(''Content-Type'', [''text/plain; charset=utf-8'']), (''X-Content-Type-Options'', [''nosniff''])],
      hs_Body = msg @ [CHR 10]\<rparr>"

definition json_response :: "nat \<Rightarrow> string \<Rightarrow> http_response" where
  "json_response code body = \<lparr>hs_Status = code, hs_Header = [(''Content-Type'', [''application/json''])], hs_Body = body\<rparr>"

definition dq :: string where
  "dq = [CHR 34]"

text \<open>\<^verbatim>\<open>%q\<close> of \<^verbatim>\<open>fmt\<close>, on text without runes outside ASCII that it would escape.\<close>

definition hex_digit :: "nat \<Rightarrow> char" where
  "hex_digit n = (if n < 10 then char_of (48 + n) else char_of (87 + n))"

definition quote_char :: "char \<Rightarrow> string" where
  "quote_char c =
     (if c = CHR 34 then [CHR 92, CHR 34] else if c = CHR 92 then [CHR 92, CHR 92]
      else if c = CHR 7 then [CHR 92, CHR ''a''] else if c = CHR 8 then [CHR 92, CHR ''b'']
      else if c = CHR 12 then [CHR 92, CHR ''f''] else if c = CHR 10 then [CHR 92, CHR ''n'']
      else if c = CHR 13 then [CHR 92, CHR ''r''] else if c = CHR 9 then [CHR 92, CHR ''t'']
      else if c = CHR 11 then [CHR 92, CHR ''v'']
      else let n = of_char c :: nat in
        if n < 32 \<or> n = 127 then [CHR 92, CHR ''x'', hex_digit (n div 16), hex_digit (n mod 16)] else [c])"

definition go_quote :: "string \<Rightarrow> string" where
  "go_quote s = dq @ concat (map quote_char s) @ dq"

section \<open>Tables that register\<close>

definition reads_as :: "string list \<Rightarrow> pattern list \<Rightarrow> bool" where
  "reads_as ss ps \<longleftrightarrow> map parsePattern ss = map Some ps \<and> sorted_wrt (\<lambda>p q. \<not> conflictsWith p q) ps"

lemma parse_all_zip: "map parsePattern (map fst rs) = map Some ps \<Longrightarrow> parse_all rs = Some (zip ps (map snd rs))"
proof (induction rs arbitrary: ps)
  case (Cons sh rs)
  then show ?case by (cases sh; cases ps) auto
qed simp

lemma conflict_free_zip:
  "length ps = length hs \<Longrightarrow> conflict_free (zip ps hs) \<longleftrightarrow> sorted_wrt (\<lambda>p q. \<not> conflictsWith p q) ps"
  by (simp add: conflict_free_def sorted_wrt_iff_nth_less)

lemma register_by:
  assumes "reads_as (map fst rs) ps"
  shows "register_all rs [] = Some (zip ps (map snd rs))" "conflict_free (zip ps (map snd rs))"
proof -
  have parsed: "map parsePattern (map fst rs) = map Some ps" using assms by (simp add: reads_as_def)
  then have "length ps = length (map snd rs)" using map_eq_imp_length_eq by fastforce
  then show free: "conflict_free (zip ps (map snd rs))"
    using assms by (simp add: conflict_free_zip reads_as_def)
  then show "register_all rs [] = Some (zip ps (map snd rs))" by (simp add: registered parse_all_zip [OF parsed])
qed

section \<open>Paths made of plain names\<close>

definition plain :: "string \<Rightarrow> bool" where
  "plain s \<longleftrightarrow> s \<noteq> '''' \<and> s \<noteq> ''.'' \<and> s \<noteq> ''..'' \<and> CHR ''/'' \<notin> set s \<and> CHR ''%'' \<notin> set s"

lemma plain_not_slash: "plain s \<Longrightarrow> s \<noteq> ''/''"
  by (auto simp: plain_def)

lemma narrower_self [simp]: "narrower p p"
  by (simp add: narrower_iff)

lemma Split_path_none: "CHR ''/'' \<notin> set a \<Longrightarrow> Split_path a = [a]"
  by (induction a) auto

lemma Split_path_first: "CHR ''/'' \<notin> set a \<Longrightarrow> Split_path (a @ CHR ''/'' # b) = a # Split_path b"
  by (induction a) auto

lemma path_of_simps [simp]: "path_of [] = ''''" "path_of (s # segs) = CHR ''/'' # s @ path_of segs"
  by (simp_all add: path_of_def)

lemma path_of_append: "path_of (a @ b) = path_of a @ path_of b"
  by (simp add: path_of_def)

lemma Split_path_of_Cons:
  assumes "CHR ''/'' \<notin> set s" "\<forall>s\<in>set segs. CHR ''/'' \<notin> set s"
  shows "Split_path (s @ path_of segs) = s # segs"
  using assms
proof (induction segs arbitrary: s)
  case Nil
  then show ?case by (simp add: Split_path_none)
next
  case (Cons t segs)
  then show ?case using Split_path_first [of s "t @ path_of segs"] by simp
qed

lemma Split_path_of: "\<forall>s\<in>set segs. CHR ''/'' \<notin> set s \<Longrightarrow> Split_path (path_of segs) = [] # segs"
  using Split_path_of_Cons [of "[]" segs] by simp

lemma foldl_clean_plain: "\<forall>s\<in>set segs. plain s \<Longrightarrow> foldl clean_step acc segs = acc @ segs"
  by (induction segs arbitrary: acc) (auto simp: clean_step_def plain_def)

lemma last_path_of: "segs \<noteq> [] \<Longrightarrow> \<forall>s\<in>set segs. plain s \<Longrightarrow> last (path_of segs) \<noteq> CHR ''/''"
proof (induction segs)
  case (Cons s segs)
  show ?case
  proof (cases "segs = []")
    case True
    then have "last s \<in> set s" "s \<noteq> []" using Cons.prems by (auto simp: plain_def)
    then show ?thesis using True Cons.prems by (metis list.set_intros(1) last.simps last_append path_of_simps append_Nil2 list.distinct(1) plain_def)
  next
    case False
    then obtain t ts where "segs = t # ts" by (cases segs) auto
    then show ?thesis using Cons by auto
  qed
qed simp

lemma Clean_plain: "segs \<noteq> [] \<Longrightarrow> \<forall>s\<in>set segs. plain s \<Longrightarrow> Clean (path_of segs) = path_of segs"
  by (simp add: Clean_def Split_path_of plain_def clean_step_def foldl_clean_plain)

lemma hd_path_of: "segs \<noteq> [] \<Longrightarrow> hd (path_of segs) = CHR ''/''"
  by (cases segs) auto

lemma path_of_nonempty: "segs \<noteq> [] \<Longrightarrow> path_of segs \<noteq> []"
  by (cases segs) auto

lemma cleanPath_plain:
  assumes "segs \<noteq> []" "\<forall>s\<in>set segs. plain s"
  shows "cleanPath (path_of segs) = path_of segs"
  using assms by (simp add: cleanPath_def hd_path_of path_of_nonempty Clean_plain last_path_of Let_def)

lemma path_of_more: "segs \<noteq> [] \<Longrightarrow> \<forall>s\<in>set segs. plain s \<Longrightarrow> path_of segs \<noteq> ''/''"
  by (cases segs) (auto simp: plain_def)

lemma cleanPath_plain_slash:
  assumes "segs \<noteq> []" "\<forall>s\<in>set segs. plain s"
  shows "cleanPath (path_of segs @ ''/'') = path_of segs @ ''/''"
proof -
  have "path_of segs @ ''/'' = path_of (segs @ [''''])" by (simp add: path_of_append)
  then have "Split_path (path_of segs @ ''/'') = [] # segs @ ['''']"
    using Split_path_of [of "segs @ ['''']"] assms by (auto simp: plain_def)
  moreover have "foldl clean_step [] ([] # segs @ ['''']) = segs"
    using assms by (simp add: clean_step_def foldl_clean_plain)
  ultimately have "Clean (path_of segs @ ''/'') = path_of segs" using assms by (simp add: Clean_def)
  then show ?thesis using assms by (simp add: cleanPath_def hd_append hd_path_of path_of_nonempty path_of_more)
qed

lemma unescape_plain: "CHR ''%'' \<notin> set s \<Longrightarrow> PathUnescape s = Some s"
  by (induction s) auto

lemma path_segments_plain:
  assumes "segs \<noteq> []" "\<forall>s\<in>set segs. plain s"
  shows "path_segments (path_of segs) = segs"
proof -
  have "Split_path (tl (path_of segs)) = segs"
    using assms Split_path_of_Cons by (cases segs) (auto simp: plain_def)
  moreover have "map (\<lambda>s. if s = '''' then ''/'' else pathUnescape s) segs = segs"
    using assms(2) by (intro map_idI) (auto simp: plain_def pathUnescape_def unescape_plain)
  ultimately show ?thesis by (simp add: path_segments_def)
qed

lemma path_segments_slash:
  assumes "\<forall>s\<in>set segs. plain s"
  shows "path_segments (path_of segs @ ''/'') = segs @ [''/'']"
proof -
  have "Split_path (tl (path_of segs @ ''/'')) = segs @ ['''']"
  proof (cases segs)
    case (Cons s ss)
    have "tl (path_of segs @ ''/'') = s @ path_of (ss @ [''''])" by (simp add: Cons path_of_append)
    then show ?thesis using Split_path_of_Cons [of s "ss @ ['''']"] assms Cons by (auto simp: plain_def)
  qed simp
  moreover have "map (\<lambda>s. if s = '''' then ''/'' else pathUnescape s) segs = segs"
    using assms by (intro map_idI) (auto simp: plain_def pathUnescape_def unescape_plain)
  ultimately show ?thesis by (simp add: path_segments_def)
qed

lemma findHandler_plain:
  assumes "r_EscapedPath r = path_of segs" "segs \<noteq> []" "\<forall>s\<in>set segs. plain s"
    and "lookup_mux m (r_Method r) segs = Some (p, h)" "last (p_segments p) \<noteq> Multi"
  shows "findHandler m r = Handled h (the (match_segments (p_segments p) segs))"
  using assms by (simp add: findHandler_def cleanPath_plain path_segments_plain exactMatch_def Let_def)

lemma count_slashes:
  "\<forall>s\<in>set segs. plain s \<Longrightarrow> length (filter (\<lambda>c. c = CHR ''/'') (path_of segs)) = length segs"
proof (induction segs)
  case (Cons s segs)
  then have "filter (\<lambda>c. c = CHR ''/'') s = []" by (auto simp: plain_def filter_empty_conv)
  then show ?case using Cons by simp
qed simp

lemma findHandler_below:
  assumes "r_EscapedPath r = path_of segs" "segs \<noteq> []" "\<forall>s\<in>set segs. plain s" "lookup_mux m (r_Method r) segs = Some (p, h)"
    and "\<not> exactMatch (lookup_mux m (r_Method r) (segs @ [''/''])) (path_of segs @ ''/'')"
  shows "findHandler m r = Handled h (the (match_segments (p_segments p) segs))"
  using assms by (simp add: findHandler_def cleanPath_plain path_segments_plain path_segments_slash Let_def)

section \<open>Paths and their decoding\<close>

lemma Split_path_nonempty: "Split_path t \<noteq> []"
  by (induction t) (auto split: list.splits)

lemma path_of_Split: "path_of (Split_path t) = CHR ''/'' # t"
proof (induction t)
  case (Cons c t)
  obtain x xs where "Split_path t = x # xs" using Split_path_nonempty [of t] by (cases "Split_path t") auto
  then show ?case using Cons by simp
qed simp

lemma Split_path_no_slash: "x \<in> set (Split_path t) \<Longrightarrow> CHR ''/'' \<notin> set x"
  by (induction t arbitrary: x) (fastforce split: if_splits list.splits)+

lemma unescape_slash:
  "PathUnescape (a @ CHR ''/'' # b) =
     (case (PathUnescape a, PathUnescape b) of (Some x, Some y) \<Rightarrow> Some (x @ CHR ''/'' # y) | _ \<Rightarrow> None)"
proof (induction a rule: PathUnescape.induct)
  case 1
  show ?case by (cases "PathUnescape b") simp_all
next
  case (2 c s)
  have bad: "unhex (CHR ''/'') = None" by (simp add: unhex_def)
  show ?case
  proof (cases "c = CHR ''%''")
    case False
    then show ?thesis using 2 by (auto split: option.splits)
  next
    case True
    show ?thesis
    proof (cases s)
      case Nil
      then show ?thesis using True bad by (auto split: list.splits option.splits)
    next
      case (Cons h s')
      show ?thesis
      proof (cases s')
        case Nil
        then show ?thesis using True Cons bad by (auto split: list.splits option.splits)
      next
        case (Cons l s'')
        then show ?thesis
          using True \<open>s = h # s'\<close> "2.IH"(1) [of h s' l s''] by (auto split: option.splits)
      qed
    qed
  qed
qed

lemma unescape_path_of:
  "PathUnescape (path_of segs) = Some u \<Longrightarrow> \<exists>us. u = path_of us \<and> map PathUnescape segs = map Some us"
proof (induction segs arbitrary: u)
  case (Cons s segs)
  have "PathUnescape (CHR ''/'' # s @ path_of segs) = Some u" using Cons.prems by simp
  then obtain v where u: "u = CHR ''/'' # v" and v: "PathUnescape (s @ path_of segs) = Some v" by auto
  show ?case
  proof (cases segs)
    case Nil
    then show ?thesis using u v by (intro exI [of _ "[v]"]) simp
  next
    case (Cons t ts)
    let ?rest = "t @ path_of ts"
    have "PathUnescape (s @ CHR ''/'' # ?rest) = Some v" using v Cons by simp
    then obtain x y where x: "PathUnescape s = Some x" "PathUnescape ?rest = Some y" "v = x @ CHR ''/'' # y"
      by (auto simp: unescape_slash split: option.splits)
    then have "PathUnescape (path_of segs) = Some (CHR ''/'' # y)" using Cons by simp
    then obtain us where "CHR ''/'' # y = path_of us" "map PathUnescape segs = map Some us" using Cons.IH by blast
    then show ?thesis using u x by (intro exI [of _ "x # us"]) simp
  qed
qed simp

lemma match_Lits_Multi:
  "match_segments (map Lit ls @ [Multi]) xs \<noteq> None \<Longrightarrow> \<exists>y ys. xs = ls @ y # ys"
proof (induction ls arbitrary: xs)
  case Nil
  then show ?case by (cases xs) auto
next
  case (Cons l ls)
  then show ?case by (cases xs) (auto split: if_splits)
qed

lemma match_Lits: "match_segments (map Lit ls) xs \<noteq> None \<Longrightarrow> xs = ls"
proof (induction ls arbitrary: xs)
  case Nil
  then show ?case by (cases xs) auto
next
  case (Cons l ls)
  then show ?case by (cases xs) (auto split: if_splits)
qed

lemma decoded_segments:
  assumes "p \<noteq> []" "hd p = CHR ''/''" "PathUnescape p = Some u"
  shows "\<exists>us. u = path_of us \<and> list_all2 (\<lambda>x y. x \<noteq> ''/'' \<longrightarrow> x = y) (path_segments p) us"
proof -
  define segs where "segs = Split_path (tl p)"
  have "p = path_of segs" using assms(1,2) by (cases p) (simp_all add: segs_def path_of_Split)
  then obtain us where us: "u = path_of us" "map PathUnescape segs = map Some us"
    using assms(3) unescape_path_of by blast
  have "list_all2 (\<lambda>s y. PathUnescape s = Some y) segs us"
    using us(2) by (simp add: list_all2_map1 list_all2_map2 flip: list.rel_eq)
  then have "list_all2 (\<lambda>x y. x \<noteq> ''/'' \<longrightarrow> x = y) (map (\<lambda>s. if s = [] then ''/'' else pathUnescape s) segs) us"
    unfolding list_all2_map1 by (rule list_all2_mono) (auto simp: pathUnescape_def)
  then show ?thesis using us(1) by (auto simp: path_segments_def segs_def)
qed

lemma decoded_Lits: "list_all2 (\<lambda>x y. x \<noteq> ''/'' \<longrightarrow> x = y) ls us \<Longrightarrow> \<forall>l\<in>set ls. l \<noteq> ''/'' \<Longrightarrow> us = ls"
  by (induction rule: list_all2_induct) auto

text \<open>A path that a pattern with a trailing slash stands for starts, once decoded, with the text of the pattern; and one
  that a pattern of literals stands for is that text.\<close>

lemma decoded_prefix:
  assumes "match_segments (map Lit ls @ [Multi]) (path_segments p) \<noteq> None"
    and "p \<noteq> []" "hd p = CHR ''/''" "PathUnescape p = Some u" "\<forall>l\<in>set ls. l \<noteq> ''/''"
  shows "\<exists>rest. u = path_of ls @ CHR ''/'' # rest"
proof -
  obtain us where us: "u = path_of us" "list_all2 (\<lambda>x y. x \<noteq> ''/'' \<longrightarrow> x = y) (path_segments p) us"
    using decoded_segments [OF assms(2-4)] by blast
  obtain y ys where "path_segments p = ls @ y # ys" using match_Lits_Multi [OF assms(1)] by blast
  then obtain vs z zs where "us = vs @ z # zs" "list_all2 (\<lambda>x y. x \<noteq> ''/'' \<longrightarrow> x = y) ls vs"
    using us(2) by (auto simp: list_all2_append1 list_all2_Cons1)
  then have "us = ls @ z # zs" using decoded_Lits [OF _ assms(5)] by blast
  then show ?thesis using us(1) by (simp add: path_of_append)
qed

lemma decoded_exact:
  assumes "match_segments (map Lit ls) (path_segments p) \<noteq> None"
    and "p \<noteq> []" "hd p = CHR ''/''" "PathUnescape p = Some u" "\<forall>l\<in>set ls. l \<noteq> ''/''"
  shows "u = path_of ls"
  using decoded_segments [OF assms(2-4)] match_Lits [OF assms(1)] decoded_Lits [OF _ assms(5)] by auto

section \<open>What every handler keeps\<close>

text \<open>A table whose handlers all keep a property of the state keeps it under every sequence of requests.\<close>

locale keeps_under_http =
  fixes run :: "'e \<Rightarrow> ('h, 'b, 's) runner" and m :: "'h mux" and keeps :: "'s \<Rightarrow> bool"
  assumes handler_keeps: "(p, h) \<in> set m \<Longrightarrow> keeps s \<Longrightarrow> keeps (snd (run e h r vars s))"
begin

lemma request_keeps: "keeps s \<Longrightarrow> keeps (snd (ServeHTTP (run e) m r s))"
proof (cases "findHandler m r")
  case (Handled h vars)
  assume "keeps s"
  have "\<exists>p. lookup_mux m (r_Method r) (path_segments (cleanPath (r_EscapedPath r))) = Some (p, h)"
    using Handled by (auto simp: findHandler_def Let_def split: if_splits option.splits list.splits)
  then obtain p where "(p, h) \<in> set m"
    by (auto simp: lookup_mux_def Let_def find_Some_iff dest!: nth_mem)
  then have "keeps (snd (run e h r vars s))" using handler_keeps \<open>keeps s\<close> by blast
  then show ?thesis using Handled by (cases "run e h r vars s") (simp add: ServeHTTP_def)
qed (simp_all add: ServeHTTP_def)

lemma requests_keep: "keeps s \<Longrightarrow> keeps (snd (ServeHTTP_all run m rs s))"
proof (induction rs arbitrary: s)
  case (Cons er rs)
  obtain e r where er: "er = (e, r)" by (cases er)
  obtain a s' where a: "ServeHTTP (run e) m r s = (a, s')" by (cases "ServeHTTP (run e) m r s")
  then have "keeps s'" using request_keeps [OF Cons.prems, of e r] by simp
  then have "keeps (snd (ServeHTTP_all run m rs s'))" by (rule Cons.IH)
  then show ?case by (cases "ServeHTTP_all run m rs s'") (simp add: er a)
qed simp

end

end
