(* ===== verification/Storage_HTTP.thy ===== *)
theory Storage_HTTP
  imports Storage_API Storage_Theorems HTTP_Serving
begin

text \<open>
  The routes of storage-sim: \<^verbatim>\<open>RegisterRoutes\<close> of \<^verbatim>\<open>storage-sim/internal/handler/storage.go\<close> and
  \<^verbatim>\<open>storage-sim/internal/sim/management.go\<close> on the mux that \<^verbatim>\<open>New\<close> of \<^verbatim>\<open>storage-sim/app.go\<close> builds.
  A handler is entered here by the call it makes of the request: the header, query and path values
  it reads, and the body as \<^verbatim>\<open>encoding/json\<close> decodes it into the handler's struct.
\<close>

record storage_json =
  js_volume :: "string \<Rightarrow> createVolumeRequest option"
  js_extend :: "string \<Rightarrow> int option"
  js_export :: "string \<Rightarrow> exportVolumeRequest option"
  js_snapshot :: "string \<Rightarrow> createSnapshotRequest option"
  js_clone :: "string \<Rightarrow> cloneFromSnapshotRequest option"
  js_migration :: "string \<Rightarrow> startMigrationRequest option"
  js_backend :: "string \<Rightarrow> addBackendRequest option"
  js_state :: "string \<Rightarrow> string option"
  js_config :: "string \<Rightarrow> SimConfig option"

type_synonym storage_handler = "http_request \<Rightarrow> path_values \<Rightarrow> api_call"

abbreviation backend_header :: "http_request \<Rightarrow> string" where
  "backend_header r \<equiv> Header_Get (r_Header r) ''X-Backend-Id''"

definition RegisterRoutes_storage :: "storage_json \<Rightarrow> (string \<times> storage_handler) list" where
  "RegisterRoutes_storage J =
    [(''GET /api/v1/backend/info'', \<lambda>r v. BackendInfo (backend_header r)),
     (''GET /api/v1/backend/health'', \<lambda>r v. BackendHealth (backend_header r)),
     (''POST /api/v1/volumes'', \<lambda>r v. PostVolume (backend_header r) (js_volume J (r_Body r))),
     (''GET /api/v1/volumes/{volume_id}'', \<lambda>r v. GetVolumeCall (PathValue v ''volume_id'')),
     (''GET /api/v1/volumes'', \<lambda>r v. ListVolumesCall (backend_header r) (Query_Get r ''state'')),
     (''DELETE /api/v1/volumes/{volume_id}'', \<lambda>r v. DeleteVolumeCall (PathValue v ''volume_id'')),
     (''PUT /api/v1/volumes/{volume_id}/extend'', \<lambda>r v. PutExtend (PathValue v ''volume_id'') (js_extend J (r_Body r))),
     (''POST /api/v1/volumes/{volume_id}/export'', \<lambda>r v. PostExport (PathValue v ''volume_id'') (js_export J (r_Body r))),
     (''DELETE /api/v1/volumes/{volume_id}/export'', \<lambda>r v. DeleteExport (PathValue v ''volume_id'')),
     (''POST /api/v1/volumes/{volume_id}/snapshots'', \<lambda>r v. PostSnapshot (PathValue v ''volume_id'') (js_snapshot J (r_Body r))),
     (''GET /api/v1/volumes/{volume_id}/snapshots'', \<lambda>r v. ListSnapshotsCall (PathValue v ''volume_id'')),
     (''DELETE /api/v1/snapshots/{snapshot_id}'', \<lambda>r v. DeleteSnapshotCall (PathValue v ''snapshot_id'')),
     (''POST /api/v1/snapshots/{snapshot_id}/clone'', \<lambda>r v. PostClone (PathValue v ''snapshot_id'') (js_clone J (r_Body r))),
     (''POST /api/v1/volumes/{volume_id}/flatten'', \<lambda>r v. PostFlatten (PathValue v ''volume_id'')),
     (''GET /api/v1/operations/{operation_id}'', \<lambda>r v. GetOperationCall (PathValue v ''operation_id'')),
     (''POST /api/v1/migrations'', \<lambda>r v. PostMigration (js_migration J (r_Body r))),
     (''GET /api/v1/migrations/{migration_id}'', \<lambda>r v. GetMigrationCall (PathValue v ''migration_id'')),
     (''DELETE /api/v1/migrations/{migration_id}'', \<lambda>r v. DeleteMigration (PathValue v ''migration_id''))]"

definition RegisterRoutes_sim :: "storage_json \<Rightarrow> (string \<times> storage_handler) list" where
  "RegisterRoutes_sim J =
    [(''POST /sim/backends'', \<lambda>r v. PostBackend (js_backend J (r_Body r))),
     (''GET /sim/backends'', \<lambda>r v. ListBackendsCall),
     (''PUT /sim/backends/{id}/state'', \<lambda>r v. PutBackendState (PathValue v ''id'') (js_state J (r_Body r))),
     (''POST /sim/config'', \<lambda>r v. PostConfig (js_config J (r_Body r))),
     (''GET /sim/stats'', \<lambda>r v. GetStatsCall),
     (''POST /sim/reset'', \<lambda>r v. PostReset)]"

text \<open>\<^verbatim>\<open>New\<close>: an empty store behind both tables of routes; \<open>None\<close> would be a panic of the mux.\<close>

definition New_storage :: "storage_json \<Rightarrow> (storage_handler mux \<times> Store) option" where
  "New_storage J =
     map_option (\<lambda>m. (m, NewStore)) (register_all (RegisterRoutes_storage J @ RegisterRoutes_sim J) [])"

definition run_storage :: "int \<times> string list \<Rightarrow> (storage_handler, response, Store) runner" where
  "run_storage e h r v s = serve (fst e) (snd e) (h r v) s"

section \<open>The routes, read\<close>

definition storage_patterns :: "pattern list" where
  "storage_patterns =
    [pat ''GET'' [Lit ''api'', Lit ''v1'', Lit ''backend'', Lit ''info''],
     pat ''GET'' [Lit ''api'', Lit ''v1'', Lit ''backend'', Lit ''health''],
     pat ''POST'' [Lit ''api'', Lit ''v1'', Lit ''volumes''],
     pat ''GET'' [Lit ''api'', Lit ''v1'', Lit ''volumes'', Wild ''volume_id''],
     pat ''GET'' [Lit ''api'', Lit ''v1'', Lit ''volumes''],
     pat ''DELETE'' [Lit ''api'', Lit ''v1'', Lit ''volumes'', Wild ''volume_id''],
     pat ''PUT'' [Lit ''api'', Lit ''v1'', Lit ''volumes'', Wild ''volume_id'', Lit ''extend''],
     pat ''POST'' [Lit ''api'', Lit ''v1'', Lit ''volumes'', Wild ''volume_id'', Lit ''export''],
     pat ''DELETE'' [Lit ''api'', Lit ''v1'', Lit ''volumes'', Wild ''volume_id'', Lit ''export''],
     pat ''POST'' [Lit ''api'', Lit ''v1'', Lit ''volumes'', Wild ''volume_id'', Lit ''snapshots''],
     pat ''GET'' [Lit ''api'', Lit ''v1'', Lit ''volumes'', Wild ''volume_id'', Lit ''snapshots''],
     pat ''DELETE'' [Lit ''api'', Lit ''v1'', Lit ''snapshots'', Wild ''snapshot_id''],
     pat ''POST'' [Lit ''api'', Lit ''v1'', Lit ''snapshots'', Wild ''snapshot_id'', Lit ''clone''],
     pat ''POST'' [Lit ''api'', Lit ''v1'', Lit ''volumes'', Wild ''volume_id'', Lit ''flatten''],
     pat ''GET'' [Lit ''api'', Lit ''v1'', Lit ''operations'', Wild ''operation_id''],
     pat ''POST'' [Lit ''api'', Lit ''v1'', Lit ''migrations''],
     pat ''GET'' [Lit ''api'', Lit ''v1'', Lit ''migrations'', Wild ''migration_id''],
     pat ''DELETE'' [Lit ''api'', Lit ''v1'', Lit ''migrations'', Wild ''migration_id''],
     pat ''POST'' [Lit ''sim'', Lit ''backends''],
     pat ''GET'' [Lit ''sim'', Lit ''backends''],
     pat ''PUT'' [Lit ''sim'', Lit ''backends'', Wild ''id'', Lit ''state''],
     pat ''POST'' [Lit ''sim'', Lit ''config''],
     pat ''GET'' [Lit ''sim'', Lit ''stats''],
     pat ''POST'' [Lit ''sim'', Lit ''reset'']]"

definition storage_mux :: "storage_json \<Rightarrow> storage_handler mux" where
  "storage_mux J = zip storage_patterns (map snd (RegisterRoutes_storage J @ RegisterRoutes_sim J))"

lemma storage_reads: "reads_as (map fst (RegisterRoutes_storage J @ RegisterRoutes_sim J)) storage_patterns"
proof -
  have "map fst (RegisterRoutes_storage J @ RegisterRoutes_sim J) = map fst (RegisterRoutes_storage undefined @ RegisterRoutes_sim undefined)"
    by (simp add: RegisterRoutes_storage_def RegisterRoutes_sim_def)
  then show ?thesis by (simp only:) code_simp
qed

lemmas storage_registers = register_by [OF storage_reads, folded storage_mux_def]

lemma New_storage_ok: "New_storage J = Some (storage_mux J, NewStore)"
  by (simp add: New_storage_def storage_registers)

section \<open>Every call has an address\<close>

fun address :: "api_call \<Rightarrow> string \<times> string list" where
  "address (BackendInfo bid) = (''GET'', [''api'', ''v1'', ''backend'', ''info''])"
| "address (BackendHealth bid) = (''GET'', [''api'', ''v1'', ''backend'', ''health''])"
| "address (PostVolume bid q) = (''POST'', [''api'', ''v1'', ''volumes''])"
| "address (GetVolumeCall vid) = (''GET'', [''api'', ''v1'', ''volumes'', vid])"
| "address (ListVolumesCall bid st) = (''GET'', [''api'', ''v1'', ''volumes''])"
| "address (DeleteVolumeCall vid) = (''DELETE'', [''api'', ''v1'', ''volumes'', vid])"
| "address (PutExtend vid q) = (''PUT'', [''api'', ''v1'', ''volumes'', vid, ''extend''])"
| "address (PostExport vid q) = (''POST'', [''api'', ''v1'', ''volumes'', vid, ''export''])"
| "address (DeleteExport vid) = (''DELETE'', [''api'', ''v1'', ''volumes'', vid, ''export''])"
| "address (PostSnapshot vid q) = (''POST'', [''api'', ''v1'', ''volumes'', vid, ''snapshots''])"
| "address (ListSnapshotsCall vid) = (''GET'', [''api'', ''v1'', ''volumes'', vid, ''snapshots''])"
| "address (DeleteSnapshotCall sid) = (''DELETE'', [''api'', ''v1'', ''snapshots'', sid])"
| "address (PostClone sid q) = (''POST'', [''api'', ''v1'', ''snapshots'', sid, ''clone''])"
| "address (PostFlatten vid) = (''POST'', [''api'', ''v1'', ''volumes'', vid, ''flatten''])"
| "address (GetOperationCall opID) = (''GET'', [''api'', ''v1'', ''operations'', opID])"
| "address (PostMigration q) = (''POST'', [''api'', ''v1'', ''migrations''])"
| "address (GetMigrationCall mid) = (''GET'', [''api'', ''v1'', ''migrations'', mid])"
| "address (DeleteMigration mid) = (''DELETE'', [''api'', ''v1'', ''migrations'', mid])"
| "address (PostBackend q) = (''POST'', [''sim'', ''backends''])"
| "address ListBackendsCall = (''GET'', [''sim'', ''backends''])"
| "address (PutBackendState bid q) = (''PUT'', [''sim'', ''backends'', bid, ''state''])"
| "address (PostConfig q) = (''POST'', [''sim'', ''config''])"
| "address GetStatsCall = (''GET'', [''sim'', ''stats''])"
| "address PostReset = (''POST'', [''sim'', ''reset''])"

text \<open>The header, the query and the body hold what the call carries beside its path.\<close>

fun carries :: "storage_json \<Rightarrow> http_request \<Rightarrow> api_call \<Rightarrow> bool" where
  "carries J r (BackendInfo bid) \<longleftrightarrow> backend_header r = bid"
| "carries J r (BackendHealth bid) \<longleftrightarrow> backend_header r = bid"
| "carries J r (PostVolume bid q) \<longleftrightarrow> backend_header r = bid \<and> js_volume J (r_Body r) = q"
| "carries J r (ListVolumesCall bid st) \<longleftrightarrow> backend_header r = bid \<and> Query_Get r ''state'' = st"
| "carries J r (PutExtend vid q) \<longleftrightarrow> js_extend J (r_Body r) = q"
| "carries J r (PostExport vid q) \<longleftrightarrow> js_export J (r_Body r) = q"
| "carries J r (PostSnapshot vid q) \<longleftrightarrow> js_snapshot J (r_Body r) = q"
| "carries J r (PostClone sid q) \<longleftrightarrow> js_clone J (r_Body r) = q"
| "carries J r (PostMigration q) \<longleftrightarrow> js_migration J (r_Body r) = q"
| "carries J r (PostBackend q) \<longleftrightarrow> js_backend J (r_Body r) = q"
| "carries J r (PutBackendState bid q) \<longleftrightarrow> js_state J (r_Body r) = q"
| "carries J r (PostConfig q) \<longleftrightarrow> js_config J (r_Body r) = q"
| "carries J r c \<longleftrightarrow> True"

lemma lookup_address:
  assumes "\<forall>x\<in>set (snd (address c)). plain x" "carries J r c"
  shows "\<exists>p h. lookup_mux (storage_mux J) (fst (address c)) (snd (address c)) = Some (p, h) \<and> last (p_segments p) \<noteq> Multi \<and>
    h r (the (match_segments (p_segments p) (snd (address c)))) = c"
  using assms
  by (cases c) (simp_all add: storage_mux_def storage_patterns_def RegisterRoutes_storage_def RegisterRoutes_sim_def
      lookup_mux_def covers_def covers_method_def PathValue_def plain_not_slash)

lemma serve_address:
  assumes "r_Method r = fst (address c)" "r_EscapedPath r = path_of (snd (address c))"
    and "\<forall>x\<in>set (snd (address c)). plain x" "carries J r c"
  shows "ServeHTTP (run_storage e) (storage_mux J) r s = (Answered (fst (serve (fst e) (snd e) c s)), snd (serve (fst e) (snd e) c s))"
proof -
  obtain p h where p: "lookup_mux (storage_mux J) (r_Method r) (snd (address c)) = Some (p, h)" "last (p_segments p) \<noteq> Multi"
    and h: "h r (the (match_segments (p_segments p) (snd (address c)))) = c"
    using lookup_address [OF assms(3,4)] assms(1) by auto
  have "snd (address c) \<noteq> []" by (cases c) simp_all
  then have "findHandler (storage_mux J) r = Handled h (the (match_segments (p_segments p) (snd (address c))))"
    using findHandler_plain [OF assms(2) _ assms(3) p] by blast
  then show ?thesis using h by (simp add: ServeHTTP_def run_storage_def split: prod.splits)
qed

text \<open>C25: Every call of the storage API can be made over HTTP: \<^verbatim>\<open>New\<close> registers its routes without a
  panic, and a request with the method and path of a call, whose names are plain, reaches the handler of exactly
  that call with the values the path, the header, the query and the body carry.\<close>

theorem storage_calls_addressed:
  assumes "r_Method r = fst (address c)" "r_EscapedPath r = path_of (snd (address c))"
    and "\<forall>x\<in>set (snd (address c)). plain x" "carries J r c"
  shows "\<exists>m. New_storage J = Some (m, NewStore) \<and>
    ServeHTTP (run_storage e) m r s = (Answered (fst (serve (fst e) (snd e) c s)), snd (serve (fst e) (snd e) c s))"
  using New_storage_ok serve_address [OF assms] by blast

definition no_json :: storage_json where
  "no_json = \<lparr>js_volume = \<lambda>_. None, js_extend = \<lambda>_. None, js_export = \<lambda>_. None, js_snapshot = \<lambda>_. None, js_clone = \<lambda>_. None,
     js_migration = \<lambda>_. None, js_backend = \<lambda>_. None, js_state = \<lambda>_. None, js_config = \<lambda>_. None\<rparr>"

definition delete_request :: http_request where
  "delete_request = \<lparr>r_Method = ''DELETE'', r_EscapedPath = ''/api/v1/volumes/vol-1/export'', r_Path = ''/api/v1/volumes/vol-1/export'',
     r_RawQuery = [], r_Header = [], r_Body = []\<rparr>"

theorem storage_calls_addressed_witness:
  "\<exists>m. New_storage no_json = Some (m, NewStore) \<and>
    ServeHTTP (run_storage (0, [])) m delete_request NewStore =
      (Answered (fst (serve 0 [] (DeleteExport ''vol-1'') NewStore)), snd (serve 0 [] (DeleteExport ''vol-1'') NewStore))"
  using storage_calls_addressed [of delete_request "DeleteExport ''vol-1''" no_json "(0, [])" NewStore]
  by (simp add: delete_request_def plain_def)

section \<open>The store under any requests\<close>

interpretation storage_http: keeps_under_http run_storage "storage_mux J" consistent
  using exec_consistent requests_of_calls_well_formed
  by unfold_locales (auto simp: run_storage_def serve_store split: option.split)

text \<open>Whatever requests arrive, with any method, path, header and body, the store stays consistent, and the mux
  answers those that reach no handler without changing it.\<close>

theorem storage_http_consistent:
  "\<exists>m. New_storage J = Some (m, NewStore) \<and> consistent (snd (ServeHTTP_all run_storage m rs NewStore))"
  using New_storage_ok storage_http.requests_keep [OF consistent_NewStore] by blast

end
