(* ===== verification/Simulator_HTTP.thy ===== *)
theory Simulator_HTTP
  imports Storage_HTTP Libvirt_Management OVN_Clusters NetBox_Theorems AWX_API Faults Event_Log State_Snapshots Datagen Load_Gen
begin

text \<open>
  The routes of the other simulators, and \<^verbatim>\<open>New\<close> of their \<^verbatim>\<open>app.go\<close>, which builds the empty state
  and registers them: libvirt-sim, ovn-sim, netbox-sim, awx-sim, the common services and the load
  generator. As in \<open>Storage_HTTP\<close> a handler is entered by the call it makes of the request; what
  \<^verbatim>\<open>encoding/json\<close> makes of a body, the clock, the outcome of a listen and the order in which a map
  is met are in the circumstances of the request.
\<close>

section \<open>libvirt-sim\<close>

record libvirt_env =
  le_listen :: "int \<Rightarrow> bool"
  le_order :: "string list"
  le_host :: "string \<Rightarrow> CreateHostRequest option"
  le_state :: "string \<Rightarrow> string option"
  le_config :: "string \<Rightarrow> UpdateHostConfigRequest option"
  le_migration :: "string \<Rightarrow> MigrationConfig option"

datatype libvirt_handler = Management "libvirt_env \<Rightarrow> http_request \<Rightarrow> path_values \<Rightarrow> route" | Healthz

definition RegisterRoutes_lv :: "(string \<times> libvirt_handler) list" where
  "RegisterRoutes_lv =
    [(''POST /sim/hosts'', Management (\<lambda>e r v. CreateHost (le_listen e) (le_host e (r_Body r)))),
     (''GET /sim/hosts'', Management (\<lambda>e r v. ListHostsRoute (le_order e))),
     (''GET /sim/hosts/{host_id}'', Management (\<lambda>e r v. GetHostRoute (PathValue v ''host_id''))),
     (''PUT /sim/hosts/{host_id}/state'', Management (\<lambda>e r v. UpdateHostState (PathValue v ''host_id'') (le_state e (r_Body r)))),
     (''POST /sim/hosts/{host_id}/config'', Management (\<lambda>e r v. UpdateHostConfig (PathValue v ''host_id'') (le_config e (r_Body r)))),
     (''GET /sim/stats'', Management (\<lambda>e r v. GetStatsRoute)),
     (''POST /sim/reset'', Management (\<lambda>e r v. ResetRoute)),
     (''POST /sim/config/migration'', Management (\<lambda>e r v. UpdateMigrationConfig (le_migration e (r_Body r)))),
     (''GET /sim/config/migration'', Management (\<lambda>e r v. GetMigrationConfigRoute))]"

definition New_libvirt :: "(libvirt_handler mux \<times> Plant) option" where
  "New_libvirt =
     map_option (\<lambda>m. (m, NewServer NewStore_lv)) (register_all (RegisterRoutes_lv @ [(''GET /healthz'', Healthz)]) [])"

fun run_libvirt :: "libvirt_env \<Rightarrow> (libvirt_handler, response_lv + nat \<times> string, Plant) runner" where
  "run_libvirt e (Management f) r v p = (case RegisterRoutes (f e r v) p of (b, p') \<Rightarrow> (Inl b, p'))"
| "run_libvirt e Healthz r v p = (Inr healthz, p)"

section \<open>ovn-sim\<close>

record ovn_env =
  oe_listen :: "int \<Rightarrow> bool"
  oe_ids :: "nat \<Rightarrow> string"
  oe_draw :: draw
  oe_order :: "string list"
  oe_cluster :: "string \<Rightarrow> createClusterRequest option"
  oe_connection :: "string \<Rightarrow> createICConnectionRequest option"

datatype ovn_handler = Management_ovn "ovn_env \<Rightarrow> http_request \<Rightarrow> path_values \<Rightarrow> route_ovn" | Healthz_ovn

definition RegisterRoutes_mgmt :: "(string \<times> ovn_handler) list" where
  "RegisterRoutes_mgmt =
    [(''POST /sim/clusters'', Management_ovn (\<lambda>e r v. CreateClusterCall (oe_listen e) (oe_cluster e (r_Body r)))),
     (''GET /sim/clusters'', Management_ovn (\<lambda>e r v. ListClustersCall (oe_order e))),
     (''POST /sim/ports/{uuid}/up'', Management_ovn (\<lambda>e r v. SetPortUpCall (oe_draw e) (oe_order e) (PathValue v ''uuid''))),
     (''POST /sim/ports/{uuid}/down'', Management_ovn (\<lambda>e r v. SetPortDownCall (oe_draw e) (oe_order e) (PathValue v ''uuid''))),
     (''POST /sim/ic/connections'', Management_ovn (\<lambda>e r v. CreateICConnectionCall (oe_listen e) (oe_ids e) (oe_connection e (r_Body r)))),
     (''GET /sim/stats'', Management_ovn (\<lambda>e r v. OVN_Clusters.GetStatsCall)),
     (''POST /sim/reset'', Management_ovn (\<lambda>e r v. ResetCall))]"

definition New_ovn :: "(ovn_handler mux \<times> Manager) option" where
  "New_ovn =
     map_option (\<lambda>m. (m, NewManager)) (register_all (RegisterRoutes_mgmt @ [(''GET /healthz'', Healthz_ovn)]) [])"

text \<open>A management call can make the clusters notify their monitors; the notifications come with the response.\<close>

fun run_ovn :: "ovn_env \<Rightarrow> (ovn_handler, response_ovn \<times> UpdateNotification list + nat \<times> string, Manager) runner" where
  "run_ovn e (Management_ovn f) r v m = (case RegisterRoutes_ovn (f e r v) m of (b, us, m') \<Rightarrow> (Inl (b, us), m'))"
| "run_ovn e Healthz_ovn r v m = (Inr healthz, m)"

section \<open>netbox-sim\<close>

record netbox_env =
  ne_lib :: lib
  ne_clock :: clock
  ne_order :: "int list"
  ne_bulk :: "string \<Rightarrow> bulkLoadRequest option"

type_synonym netbox_handler = "netbox_env \<Rightarrow> http_request \<Rightarrow> route_nb"

definition RegisterRoutes_netbox :: "(string \<times> netbox_handler) list" where
  "RegisterRoutes_netbox =
    [(''GET /api/dcim/sites/'', \<lambda>e r. ListSitesCall (ne_order e)),
     (''GET /api/dcim/locations/'', \<lambda>e r. ListLocationsCall (ne_order e) (Query_Get r ''site_id'') (Query_Get r ''parent_id'')),
     (''GET /api/dcim/racks/'', \<lambda>e r. ListRacksCall (ne_order e) (Query_Get r ''site_id'')),
     (''GET /api/dcim/devices/'', \<lambda>e r. ListDevicesCall (ne_order e) (Query_Get r ''rack_id'') (Query_Get r ''role'')),
     (''POST /sim/bulk-load'', \<lambda>e r. BulkLoadCall (ne_clock e) (ne_bulk e (r_Body r))),
     (''GET /sim/stats'', \<lambda>e r. GetStatsCall_nb),
     (''POST /sim/reset'', \<lambda>e r. ResetCall_nb)]"

definition New_netbox :: "(netbox_handler mux \<times> Store_nb) option" where
  "New_netbox = map_option (\<lambda>m. (m, NewStore_nb)) (register_all RegisterRoutes_netbox [])"

definition run_netbox :: "netbox_env \<Rightarrow> (netbox_handler, response_nb, Store_nb) runner" where
  "run_netbox e h r v s = RegisterRoutes_nb (ne_lib e) (h e r) s"

section \<open>awx-sim\<close>

record awx_env =
  ae_now :: int
  ae_started :: int
  ae_order :: "int list"
  ae_template :: "string \<Rightarrow> createTemplateRequest option"
  ae_launch :: "string \<Rightarrow> launchRequest option"
  ae_callback :: "string \<Rightarrow> CallbackConfig option"

definition New_awx :: "(route_awx mux \<times> System) option" where
  "New_awx = map_option (\<lambda>m. (m, boot_awx)) (register_all RegisterRoutes_awx [])"

definition awx_request :: "awx_env \<Rightarrow> http_request \<Rightarrow> request_awx" where
  "awx_request e r = \<lparr>aq_Method = r_Method r, aq_Path = r_Path r, aq_HasBody = (r_Body r \<noteq> []), aq_Template = ae_template e (r_Body r),
     aq_Launch = ae_launch e (r_Body r), aq_Callback = ae_callback e (r_Body r)\<rparr>"

fun run_awx :: "awx_env \<Rightarrow> (route_awx, response_awx, System) runner" where
  "run_awx e TemplatesRoute r v y = handleJobTemplates (ae_now e) (ae_started e) (ae_order e) (awx_request e r) y"
| "run_awx e JobsRoute r v y = handleJobs (ae_now e) (awx_request e r) y"
| "run_awx e CallbackRoute r v y = handleCallback (awx_request e r) y"
| "run_awx e StatsRoute r v y = (handleStats (awx_request e r) y, y)"
| "run_awx e ResetRoute_awx r v y = handleReset_awx (awx_request e r) y"

section \<open>The common services\<close>

record 'c Common =
  cm_log :: EventLog
  cm_faults :: FaultEngine
  cm_generator :: Generator
  cm_snapshots :: "'c SnapshotManager"

text \<open>\<open>ce_readable\<close>: whether the body can be read to its end.\<close>

record 'c common_env =
  ce_now :: int
  ce_order :: "string list"
  ce_parseTime :: "string \<Rightarrow> int option"
  ce_rule :: "string \<Rightarrow> FaultRule option"
  ce_yaml :: "string \<Rightarrow> string + EnvironmentDef"
  ce_readable :: bool
  ce_components :: "'c Snapshotable"

datatype common_handler =
    Events
  | FaultAdd | FaultList | FaultDelete | FaultClear
  | GenerateEnv | GenerateStatusOf | GenerateReset
  | SnapshotTake | SnapshotRestore | SnapshotList | SnapshotDelete

datatype body_common =
    LogAnswer "nat \<times> body_log" | FaultAnswer "nat \<times> body_fault" | GenAnswer "nat \<times> body_gen" | SnapAnswer "nat \<times> body_st"

definition Register_events :: "(string \<times> common_handler) list" where
  "Register_events = [(''/api/v1/events'', Events)]"

definition RegisterRoutes_fault :: "(string \<times> common_handler) list" where
  "RegisterRoutes_fault =
    [(''POST /api/v1/faults'', FaultAdd), (''GET /api/v1/faults'', FaultList),
     (''DELETE /api/v1/faults/{id}'', FaultDelete), (''DELETE /api/v1/faults'', FaultClear)]"

definition RegisterRoutes_gen :: "(string \<times> common_handler) list" where
  "RegisterRoutes_gen =
    [(''POST /api/v1/generate'', GenerateEnv), (''GET /api/v1/generate/status'', GenerateStatusOf),
     (''POST /api/v1/generate/reset'', GenerateReset)]"

definition RegisterRoutes_snap :: "(string \<times> common_handler) list" where
  "RegisterRoutes_snap =
    [(''POST /api/v1/state/snapshot'', SnapshotTake), (''POST /api/v1/state/restore/{id}'', SnapshotRestore),
     (''GET /api/v1/state/snapshots'', SnapshotList), (''DELETE /api/v1/state/snapshots/{id}'', SnapshotDelete)]"

definition New_common :: "(common_handler mux \<times> 'c Common) option" where
  "New_common =
     map_option (\<lambda>m. (m, \<lparr>cm_log = New_log, cm_faults = New_fault, cm_generator = New_datagen, cm_snapshots = NewManager_st\<rparr>))
       (register_all (Register_events @ RegisterRoutes_fault @ RegisterRoutes_gen @ RegisterRoutes_snap) [])"

definition events_query_of :: "http_request \<Rightarrow> events_query" where
  "events_query_of r = \<lparr>eq_Limit = Query_Get r ''limit'', eq_Offset = Query_Get r ''offset'', eq_After = Query_Get r ''after'',
     eq_Simulator = Query_Get r ''simulator'', eq_HostID = Query_Get r ''host_id'', eq_Operation = Query_Get r ''operation''\<rparr>"

text \<open>\<open>deleteRule\<close> falls back to the rest of the path when the path value is empty, and \<open>clearRules\<close> deletes one
  rule when there is a path value: the routes never lead there, but the code is as it is.\<close>

definition rule_named :: "http_request \<Rightarrow> path_values \<Rightarrow> string" where
  "rule_named r v =
     (if PathValue v ''id'' = [] then TrimPrefix (r_Path r) ''/api/v1/faults/'' else PathValue v ''id'')"

fun run_common :: "'c common_env \<Rightarrow> (common_handler, body_common, 'c Common) runner" where
  "run_common e Events r v c =
     (case handleEvents (ce_parseTime e) (r_Method r) (events_query_of r) (cm_log c) of
        (b, el) \<Rightarrow> (LogAnswer b, c\<lparr>cm_log := el\<rparr>))"
| "run_common e FaultAdd r v c =
     (case addRule (ce_now e) (ce_rule e (r_Body r)) (cm_faults c) of (b, fe) \<Rightarrow> (FaultAnswer b, c\<lparr>cm_faults := fe\<rparr>))"
| "run_common e FaultList r v c = (FaultAnswer (getRules (ce_order e) (cm_faults c)), c)"
| "run_common e FaultDelete r v c =
     (case deleteRule (rule_named r v) (cm_faults c) of (b, fe) \<Rightarrow> (FaultAnswer b, c\<lparr>cm_faults := fe\<rparr>))"
| "run_common e FaultClear r v c =
     (case (if PathValue v ''id'' \<noteq> [] then deleteRule (rule_named r v) (cm_faults c) else clearRules (cm_faults c)) of
        (b, fe) \<Rightarrow> (FaultAnswer b, c\<lparr>cm_faults := fe\<rparr>))"
| "run_common e GenerateEnv r v c =
     (case generate (ce_yaml e) (if ce_readable e then Some (r_Body r) else None) (cm_generator c) of
        (b, g) \<Rightarrow> (GenAnswer b, c\<lparr>cm_generator := g\<rparr>))"
| "run_common e GenerateStatusOf r v c = (GenAnswer (getStatus (cm_generator c)), c)"
| "run_common e GenerateReset r v c =
     (case reset_gen (cm_generator c) of (b, g) \<Rightarrow> (GenAnswer b, c\<lparr>cm_generator := g\<rparr>))"
| "run_common e SnapshotTake r v c =
     (case takeSnapshot (ce_components e) (ce_now e) (ce_order e) (cm_snapshots c) of
        (b, sm) \<Rightarrow> (SnapAnswer b, c\<lparr>cm_snapshots := sm\<rparr>))"
| "run_common e SnapshotRestore r v c =
     (case restoreSnapshot (ce_components e) (ce_order e) (PathValue v ''id'') (cm_snapshots c) of
        (b, sm) \<Rightarrow> (SnapAnswer b, c\<lparr>cm_snapshots := sm\<rparr>))"
| "run_common e SnapshotList r v c = (SnapAnswer (listSnapshots_st (ce_order e) (cm_snapshots c)), c)"
| "run_common e SnapshotDelete r v c =
     (case deleteSnapshot_st (PathValue v ''id'') (cm_snapshots c) of (b, sm) \<Rightarrow> (SnapAnswer b, c\<lparr>cm_snapshots := sm\<rparr>))"

section \<open>The load generator\<close>

record load_env =
  ld_yaml :: "string \<Rightarrow> string + WorkloadDef"
  ld_now :: int
  ld_readable :: bool

datatype load_handler = RunWorkloadOf | GetRunOf

definition RegisterRoutes_load :: "(string \<times> load_handler) list" where
  "RegisterRoutes_load =
    [(''POST /api/v1/workloads/run'', RunWorkloadOf), (''GET /api/v1/workloads/run/{run_id}'', GetRunOf)]"

fun run_load :: "load_env \<Rightarrow> (load_handler, nat \<times> body_load, LoadEngine) runner" where
  "run_load e RunWorkloadOf r v s = runWorkload (ld_yaml e) (ld_now e) (if ld_readable e then Some (r_Body r) else None) s"
| "run_load e GetRunOf r v s = (getRun (PathValue v ''run_id'') s, s)"

section \<open>All tables register\<close>

definition libvirt_patterns :: "pattern list" where
  "libvirt_patterns =
    [pat ''POST'' [Lit ''sim'', Lit ''hosts''],
     pat ''GET'' [Lit ''sim'', Lit ''hosts''],
     pat ''GET'' [Lit ''sim'', Lit ''hosts'', Wild ''host_id''],
     pat ''PUT'' [Lit ''sim'', Lit ''hosts'', Wild ''host_id'', Lit ''state''],
     pat ''POST'' [Lit ''sim'', Lit ''hosts'', Wild ''host_id'', Lit ''config''],
     pat ''GET'' [Lit ''sim'', Lit ''stats''],
     pat ''POST'' [Lit ''sim'', Lit ''reset''],
     pat ''POST'' [Lit ''sim'', Lit ''config'', Lit ''migration''],
     pat ''GET'' [Lit ''sim'', Lit ''config'', Lit ''migration''],
     pat ''GET'' [Lit ''healthz'']]"

definition libvirt_mux :: "libvirt_handler mux" where
  "libvirt_mux = zip libvirt_patterns (map snd (RegisterRoutes_lv @ [(''GET /healthz'', Healthz)]))"

lemma libvirt_reads: "reads_as (map fst (RegisterRoutes_lv @ [(''GET /healthz'', Healthz)])) libvirt_patterns"
  by code_simp

lemmas libvirt_registers = register_by [OF libvirt_reads, folded libvirt_mux_def]

definition ovn_patterns :: "pattern list" where
  "ovn_patterns =
    [pat ''POST'' [Lit ''sim'', Lit ''clusters''],
     pat ''GET'' [Lit ''sim'', Lit ''clusters''],
     pat ''POST'' [Lit ''sim'', Lit ''ports'', Wild ''uuid'', Lit ''up''],
     pat ''POST'' [Lit ''sim'', Lit ''ports'', Wild ''uuid'', Lit ''down''],
     pat ''POST'' [Lit ''sim'', Lit ''ic'', Lit ''connections''],
     pat ''GET'' [Lit ''sim'', Lit ''stats''],
     pat ''POST'' [Lit ''sim'', Lit ''reset''],
     pat ''GET'' [Lit ''healthz'']]"

definition ovn_mux :: "ovn_handler mux" where
  "ovn_mux = zip ovn_patterns (map snd (RegisterRoutes_mgmt @ [(''GET /healthz'', Healthz_ovn)]))"

lemma ovn_reads: "reads_as (map fst (RegisterRoutes_mgmt @ [(''GET /healthz'', Healthz_ovn)])) ovn_patterns"
  by code_simp

lemmas ovn_registers = register_by [OF ovn_reads, folded ovn_mux_def]

definition netbox_patterns :: "pattern list" where
  "netbox_patterns =
    [pat ''GET'' [Lit ''api'', Lit ''dcim'', Lit ''sites'', Multi],
     pat ''GET'' [Lit ''api'', Lit ''dcim'', Lit ''locations'', Multi],
     pat ''GET'' [Lit ''api'', Lit ''dcim'', Lit ''racks'', Multi],
     pat ''GET'' [Lit ''api'', Lit ''dcim'', Lit ''devices'', Multi],
     pat ''POST'' [Lit ''sim'', Lit ''bulk-load''],
     pat ''GET'' [Lit ''sim'', Lit ''stats''],
     pat ''POST'' [Lit ''sim'', Lit ''reset'']]"

definition netbox_mux :: "netbox_handler mux" where
  "netbox_mux = zip netbox_patterns (map snd (RegisterRoutes_netbox))"

lemma netbox_reads: "reads_as (map fst (RegisterRoutes_netbox)) netbox_patterns"
  by code_simp

lemmas netbox_registers = register_by [OF netbox_reads, folded netbox_mux_def]

definition load_patterns :: "pattern list" where
  "load_patterns =
    [pat ''POST'' [Lit ''api'', Lit ''v1'', Lit ''workloads'', Lit ''run''],
     pat ''GET'' [Lit ''api'', Lit ''v1'', Lit ''workloads'', Lit ''run'', Wild ''run_id'']]"

definition load_mux :: "load_handler mux" where
  "load_mux = zip load_patterns (map snd (RegisterRoutes_load))"

lemma load_reads: "reads_as (map fst (RegisterRoutes_load)) load_patterns"
  by code_simp

lemmas load_registers = register_by [OF load_reads, folded load_mux_def]

definition awx_patterns :: "pattern list" where
  "awx_patterns =
    [pat '''' [Lit ''api'', Lit ''v2'', Lit ''job_templates'', Multi],
     pat '''' [Lit ''api'', Lit ''v2'', Lit ''jobs'', Multi],
     pat '''' [Lit ''sim'', Lit ''config'', Lit ''callback''],
     pat '''' [Lit ''sim'', Lit ''config'', Lit ''callback'', Multi],
     pat '''' [Lit ''sim'', Lit ''stats''],
     pat '''' [Lit ''sim'', Lit ''stats'', Multi],
     pat '''' [Lit ''sim'', Lit ''reset''],
     pat '''' [Lit ''sim'', Lit ''reset'', Multi]]"

definition awx_mux :: "route_awx mux" where
  "awx_mux = zip awx_patterns (map snd (RegisterRoutes_awx))"

lemma awx_reads: "reads_as (map fst (RegisterRoutes_awx)) awx_patterns"
  by code_simp

lemmas awx_registers = register_by [OF awx_reads, folded awx_mux_def]

definition common_patterns :: "pattern list" where
  "common_patterns =
    [pat '''' [Lit ''api'', Lit ''v1'', Lit ''events''],
     pat ''POST'' [Lit ''api'', Lit ''v1'', Lit ''faults''],
     pat ''GET'' [Lit ''api'', Lit ''v1'', Lit ''faults''],
     pat ''DELETE'' [Lit ''api'', Lit ''v1'', Lit ''faults'', Wild ''id''],
     pat ''DELETE'' [Lit ''api'', Lit ''v1'', Lit ''faults''],
     pat ''POST'' [Lit ''api'', Lit ''v1'', Lit ''generate''],
     pat ''GET'' [Lit ''api'', Lit ''v1'', Lit ''generate'', Lit ''status''],
     pat ''POST'' [Lit ''api'', Lit ''v1'', Lit ''generate'', Lit ''reset''],
     pat ''POST'' [Lit ''api'', Lit ''v1'', Lit ''state'', Lit ''snapshot''],
     pat ''POST'' [Lit ''api'', Lit ''v1'', Lit ''state'', Lit ''restore'', Wild ''id''],
     pat ''GET'' [Lit ''api'', Lit ''v1'', Lit ''state'', Lit ''snapshots''],
     pat ''DELETE'' [Lit ''api'', Lit ''v1'', Lit ''state'', Lit ''snapshots'', Wild ''id'']]"

definition common_mux :: "common_handler mux" where
  "common_mux = zip common_patterns (map snd (Register_events @ RegisterRoutes_fault @ RegisterRoutes_gen @ RegisterRoutes_snap))"

lemma common_reads: "reads_as (map fst (Register_events @ RegisterRoutes_fault @ RegisterRoutes_gen @ RegisterRoutes_snap)) common_patterns"
  by code_simp

lemmas common_registers = register_by [OF common_reads, folded common_mux_def]


section \<open>Status probes\<close>

definition get_request :: "string list \<Rightarrow> string \<Rightarrow> http_request" where
  "get_request segs q = \<lparr>r_Method = ''GET'', r_EscapedPath = path_of segs, r_Path = path_of segs, r_RawQuery = q,
     r_Header = [], r_Body = []\<rparr>"

lemma get_request_simps [simp]:
  "r_Method (get_request segs q) = ''GET''" "r_EscapedPath (get_request segs q) = path_of segs"
  "r_Path (get_request segs q) = path_of segs" "r_RawQuery (get_request segs q) = q" "r_Body (get_request segs q) = []"
  by (simp_all add: get_request_def)

lemma serve_get:
  assumes "segs \<noteq> []" "\<forall>s\<in>set segs. plain s" "lookup_mux m ''GET'' segs = Some (p, h)" "last (p_segments p) \<noteq> Multi"
  shows "ServeHTTP run m (get_request segs q) s =
    (case run h (get_request segs q) (the (match_segments (p_segments p) segs)) s of (b, s') \<Rightarrow> (Answered b, s'))"
  using findHandler_plain [of "get_request segs q" segs m p h] assms by (simp add: ServeHTTP_def)

abbreviation stats_request :: http_request where
  "stats_request \<equiv> get_request [''sim'', ''stats''] []"

abbreviation events_request :: http_request where
  "events_request \<equiv> get_request [''api'', ''v1'', ''events''] ''limit=1''"

lemma stats_plain: "[''sim'', ''stats''] \<noteq> []" "\<forall>s\<in>set [''sim'', ''stats'']. plain s"
  by (simp_all add: plain_def)

lemmas find_route = lookup_mux_def covers_def covers_method_def

lemma stats_routes:
  "lookup_mux (storage_mux J) ''GET'' [''sim'', ''stats''] = Some (pat ''GET'' [Lit ''sim'', Lit ''stats''], \<lambda>r v. Storage_API.GetStatsCall)"
  "lookup_mux libvirt_mux ''GET'' [''sim'', ''stats''] = Some (pat ''GET'' [Lit ''sim'', Lit ''stats''], Management (\<lambda>e r v. GetStatsRoute))"
  "lookup_mux ovn_mux ''GET'' [''sim'', ''stats''] = Some (pat ''GET'' [Lit ''sim'', Lit ''stats''], Management_ovn (\<lambda>e r v. OVN_Clusters.GetStatsCall))"
  "lookup_mux netbox_mux ''GET'' [''sim'', ''stats''] = Some (pat ''GET'' [Lit ''sim'', Lit ''stats''], \<lambda>e r. GetStatsCall_nb)"
  "lookup_mux awx_mux ''GET'' [''sim'', ''stats''] = Some (pat [] [Lit ''sim'', Lit ''stats''], StatsRoute)"
  by (simp_all add: find_route storage_mux_def storage_patterns_def RegisterRoutes_storage_def RegisterRoutes_sim_def
      libvirt_mux_def libvirt_patterns_def RegisterRoutes_lv_def ovn_mux_def ovn_patterns_def RegisterRoutes_mgmt_def
      netbox_mux_def netbox_patterns_def RegisterRoutes_netbox_def awx_mux_def awx_patterns_def RegisterRoutes_awx_def)

lemma stats_served:
  "ServeHTTP (run_storage es) (storage_mux J) stats_request s = (Answered (handleGetStats s), s)"
  "ServeHTTP (run_libvirt el) libvirt_mux stats_request p = (Answered (Inl (handleGetStats_lv p)), p)"
  "ServeHTTP (run_ovn eo) ovn_mux stats_request m = (Answered (Inl (getStats_ovn m, [])), m)"
  "ServeHTTP (run_netbox en) netbox_mux stats_request t = (Answered (getStats_nb t), t)"
  "ServeHTTP (run_awx ea) awx_mux stats_request y = (Answered (handleStats (awx_request ea stats_request) y), y)"
  by (simp_all add: serve_get [OF stats_plain stats_routes(1)] serve_get [OF stats_plain stats_routes(2)]
      serve_get [OF stats_plain stats_routes(3)] serve_get [OF stats_plain stats_routes(4)]
      serve_get [OF stats_plain stats_routes(5)] run_storage_def run_netbox_def)

lemma events_served:
  "ServeHTTP (run_common e) common_mux events_request c =
     (Answered (LogAnswer (getEvents (ce_parseTime e) (events_query_of events_request) (cm_log c))), c)"
proof -
  have "lookup_mux common_mux ''GET'' [''api'', ''v1'', ''events''] = Some (pat [] [Lit ''api'', Lit ''v1'', Lit ''events''], Events)"
    by (simp add: find_route common_mux_def common_patterns_def Register_events_def RegisterRoutes_fault_def
        RegisterRoutes_gen_def RegisterRoutes_snap_def)
  then show ?thesis
    using serve_get [of "[''api'', ''v1'', ''events'']" common_mux _ Events "run_common e" "''limit=1''" c]
    by (simp add: plain_def handleEvents_def)
qed

lemma events_query_limit: "events_query_of events_request =
  \<lparr>eq_Limit = ''1'', eq_Offset = [], eq_After = [], eq_Simulator = [], eq_HostID = [], eq_Operation = []\<rparr>"
  by code_simp

section \<open>libvirt-sim under any requests\<close>

interpretation libvirt_http: keeps_under_http run_libvirt libvirt_mux served
proof
  fix p h e r v q
  assume "(p, h) \<in> set libvirt_mux" and keeps: "served q"
  show "served (snd (run_libvirt e h r v q))"
  proof (cases h)
    case (Management f)
    then show ?thesis
      using happen_served [OF keeps, of "Http (f e r v)"] by (cases "RegisterRoutes (f e r v) q") simp
  qed (simp add: keeps)
qed

section \<open>The routes of awx-sim as the handlers see them\<close>

lemma handled_entry:
  assumes "findHandler m r = Handled h v"
  shows "\<exists>p. (p, h) \<in> set m \<and> covers p (r_Method r) (path_segments (r_EscapedPath r)) \<and> r_EscapedPath r \<noteq> [] \<and> hd (r_EscapedPath r) = CHR ''/''"
proof -
  let ?path = "cleanPath (r_EscapedPath r)"
  have path: "?path = r_EscapedPath r" and "\<exists>p. lookup_mux m (r_Method r) (path_segments ?path) = Some (p, h)"
    using assms by (auto simp: findHandler_def Let_def split: if_splits option.splits list.splits)
  then obtain p where "(p, h) \<in> set m" "covers p (r_Method r) (path_segments ?path)"
    by (auto simp: lookup_mux_def Let_def find_Some_iff dest!: nth_mem)
  moreover have "?path \<noteq> [] \<and> hd ?path = CHR ''/''"
    by (auto simp: cleanPath_def Clean_def Let_def hd_append hd_path_of path_of_nonempty)
  ultimately show ?thesis using path by metis
qed

definition awx_texts :: "(string list \<times> bool \<times> route_awx) list" where
  "awx_texts =
    [([''api'', ''v2'', ''job_templates''], True, TemplatesRoute), ([''api'', ''v2'', ''jobs''], True, JobsRoute),
     ([''sim'', ''config'', ''callback''], False, CallbackRoute), ([''sim'', ''config'', ''callback''], True, CallbackRoute),
     ([''sim'', ''stats''], False, StatsRoute), ([''sim'', ''stats''], True, StatsRoute),
     ([''sim'', ''reset''], False, ResetRoute_awx), ([''sim'', ''reset''], True, ResetRoute_awx)]"

lemma awx_mux_texts: "awx_mux = map (\<lambda>(ls, below, h). (pat [] (map Lit ls @ (if below then [Multi] else [])), h)) awx_texts"
  by (simp add: awx_mux_def awx_patterns_def RegisterRoutes_awx_def awx_texts_def)

lemma awx_routes_texts: "RegisterRoutes_awx = map (\<lambda>(ls, below, h). (path_of ls @ (if below then ''/'' else []), h)) awx_texts"
  by (simp add: RegisterRoutes_awx_def awx_texts_def)

lemma awx_texts_plain: "(ls, below, h) \<in> set awx_texts \<Longrightarrow> ls \<noteq> [] \<and> (\<forall>l\<in>set ls. plain l)"
  by (auto simp: awx_texts_def plain_def)

lemma awx_pattern_text:
  assumes "(p, h) \<in> set awx_mux" "covers p meth (path_segments path)" "path \<noteq> []" "hd path = CHR ''/''" "PathUnescape path = Some u"
  shows "\<exists>txt. (txt, h) \<in> set RegisterRoutes_awx \<and> pattern_matches txt u"
proof -
  obtain ls below where e: "(ls, below, h) \<in> set awx_texts" "p = pat [] (map Lit ls @ (if below then [Multi] else []))"
    using assms(1) by (auto simp: awx_mux_texts)
  then have plain: "ls \<noteq> []" "\<forall>l\<in>set ls. plain l" using awx_texts_plain by blast+
  then have lits: "\<forall>l\<in>set ls. l \<noteq> ''/''" using plain_not_slash by blast
  have entry: "(path_of ls @ (if below then ''/'' else []), h) \<in> set RegisterRoutes_awx"
    using e(1) by (force simp: awx_routes_texts)
  have "pattern_matches (path_of ls @ (if below then ''/'' else [])) u"
  proof (cases below)
    case True
    then have "match_segments (map Lit ls @ [Multi]) (path_segments path) \<noteq> None"
      using assms(2) e(2) by (simp add: covers_def)
    from decoded_prefix [OF this assms(3-5) lits] show ?thesis using True by (auto simp: pattern_matches_def)
  next
    case False
    then have "match_segments (map Lit ls) (path_segments path) \<noteq> None"
      using assms(2) e(2) by (simp add: covers_def)
    from decoded_exact [OF this assms(3-5) lits] show ?thesis
      using False last_path_of [OF plain] by (simp add: pattern_matches_def)
  qed
  with entry show ?thesis by blast
qed

text \<open>No path has two of the registered texts, so the first that matches is the only one.\<close>

lemma awx_one_text:
  "(t, h) \<in> set RegisterRoutes_awx \<Longrightarrow> pattern_matches t u \<Longrightarrow>
     \<exists>t'. find (\<lambda>(t, _). pattern_matches t u) RegisterRoutes_awx = Some (t', h)"
proof -
  assume t: "(t, h) \<in> set RegisterRoutes_awx" "pattern_matches t u"
  have tab: "list_all (\<lambda>(t, h). list_all (\<lambda>(t', h'). prefix t t' \<or> prefix t' t \<longrightarrow> h = h') RegisterRoutes_awx) RegisterRoutes_awx"
    by code_simp
  have "find (\<lambda>(t, _). pattern_matches t u) RegisterRoutes_awx \<noteq> None" using t by (auto simp: find_None_iff)
  then obtain t' h' where found: "find (\<lambda>(t, _). pattern_matches t u) RegisterRoutes_awx = Some (t', h')" by auto
  then have t': "(t', h') \<in> set RegisterRoutes_awx" "pattern_matches t' u"
    by (auto simp: find_Some_iff dest!: nth_mem)
  have "prefix t u" "prefix t' u" using t(2) t'(2) by (auto simp: pattern_matches_def split: if_splits)
  then have "prefix t t' \<or> prefix t' t" by (rule prefix_same_cases)
  then have "h = h'" using tab t(1) t'(1) by (fastforce simp: list_all_iff)
  then show ?thesis using found by simp
qed

lemma awx_routing_agrees:
  assumes "findHandler awx_mux r = Handled h v" "PathUnescape (r_EscapedPath r) = Some (r_Path r)"
  shows "serve_awx (ae_now e) (ae_started e) (ae_order e) (awx_request e r) y = Some (run_awx e h r v y)"
proof -
  have "\<exists>txt. (txt, h) \<in> set RegisterRoutes_awx \<and> pattern_matches txt (r_Path r)"
    using handled_entry [OF assms(1)] awx_pattern_text assms(2) by blast
  then obtain t where "find (\<lambda>(t, _). pattern_matches t (r_Path r)) RegisterRoutes_awx = Some (t, h)"
    using awx_one_text by blast
  then show ?thesis by (cases h) (simp_all add: serve_awx_def awx_request_def)
qed

end
