(* ===== verification/Dashboard.thy ===== *)
theory Dashboard
  imports Simulator_HTTP
begin

text \<open>
  The dashboard: \<^verbatim>\<open>webui/app.go\<close>, which the unified program starts, and \<^verbatim>\<open>webui/cmd/main.go\<close>, the
  same dashboard as a program of its own. It proxies requests to the simulators, reports which of
  them answer, and serves one page. What the HTTP client of the Go library does with a request,
  and whether it can be built from a URL, are arguments; so are the embedded page and the
  environment variables. An endpoint table is a Go map: the order a loop meets it in is an argument.
\<close>

section \<open>Outgoing requests\<close>

record out_request =
  oq_Method :: string
  oq_URL :: string
  oq_Header :: "(string \<times> string list) list"
  oq_Body :: string

text \<open>\<open>nt_bad\<close>: the error of \<^verbatim>\<open>http.NewRequestWithContext\<close> for a method and a URL, if it has one;
  \<open>nt_do\<close>: the response of \<^verbatim>\<open>client.Do\<close>, or its error.\<close>

record net =
  nt_bad :: "string \<Rightarrow> string \<Rightarrow> string option"
  nt_do :: "out_request \<Rightarrow> string + http_response"

section \<open>Endpoints\<close>

type_synonym Endpoints = "(string, string) gomap"

definition DefaultEndpoints :: Endpoints where
  "DefaultEndpoints = fmap_of_list
     [(''common'', ''http://localhost:8000''), (''libvirt-sim'', ''http://localhost:8100''),
      (''ovn-sim'', ''http://localhost:8200''), (''awx-sim'', ''http://localhost:8300''),
      (''netbox-sim'', ''http://localhost:8400''), (''storage-sim'', ''http://localhost:8500'')]"

section \<open>The proxy\<close>

record proxy =
  px_prefix :: string
  px_baseURL :: string

definition newProxy :: "string \<Rightarrow> string \<Rightarrow> proxy" where
  "newProxy pre base = \<lparr>px_prefix = pre, px_baseURL = base\<rparr>"

text \<open>The URL a request is sent on to; \<open>None\<close> is the panic of a slice out of range.\<close>

definition target_url :: "proxy \<Rightarrow> http_request \<Rightarrow> string option" where
  "target_url p r =
     (if length (r_Path r) < length (px_prefix p) - 1 then None
      else let targetPath = drop (length (px_prefix p) - 1) (r_Path r)
           in Some (px_baseURL p @ targetPath @ (if r_RawQuery r \<noteq> [] then ''?'' @ r_RawQuery r else [])))"

definition unavailable :: http_response where
  "unavailable = json_response 502 (''{'' @ dq @ ''error'' @ dq @ '':'' @ dq @ ''service unavailable'' @ dq @ ''}'')"

definition proxy_ServeHTTP :: "net \<Rightarrow> proxy \<Rightarrow> http_request \<Rightarrow> http_response option" where
  "proxy_ServeHTTP n p r =
     (case target_url p r of
        None \<Rightarrow> None
      | Some url \<Rightarrow>
          Some (case nt_bad n (r_Method r) url of
             Some err \<Rightarrow> http_Error (''proxy error: '' @ err) 502
           | None \<Rightarrow>
               (case nt_do n \<lparr>oq_Method = r_Method r, oq_URL = url, oq_Header = r_Header r, oq_Body = r_Body r\<rparr> of
                  Inl _ \<Rightarrow> unavailable
                | Inr resp \<Rightarrow> resp)))"

section \<open>The status of the simulators\<close>

definition stats_url :: "string \<Rightarrow> string \<Rightarrow> string" where
  "stats_url name base = (if name = ''common'' then base @ ''/api/v1/events?limit=1'' else base @ ''/sim/stats'')"

definition status_of :: "net \<Rightarrow> string \<Rightarrow> string \<Rightarrow> string" where
  "status_of n name base =
     (case nt_bad n ''GET'' (stats_url name base) of
        Some _ \<Rightarrow> ''down''
      | None \<Rightarrow>
          (case nt_do n \<lparr>oq_Method = ''GET'', oq_URL = stats_url name base, oq_Header = [], oq_Body = []\<rparr> of
             Inl _ \<Rightarrow> ''down''
           | Inr resp \<Rightarrow> if hs_Status resp = 200 then ''up'' else ''down''))"

text \<open>One entry; the values are written as they are, without escaping.\<close>

definition status_entry :: "string \<Rightarrow> string \<Rightarrow> string \<Rightarrow> string" where
  "status_entry name url st =
     ''{'' @ dq @ ''name'' @ dq @ '':'' @ dq @ name @ dq @ '','' @ dq @ ''url'' @ dq @ '':'' @ dq @ url @ dq @ '','' @
     dq @ ''status'' @ dq @ '':'' @ dq @ st @ dq @ ''}''"

fun status_loop :: "net \<Rightarrow> Endpoints \<Rightarrow> bool \<Rightarrow> string list \<Rightarrow> string" where
  "status_loop n eps first [] = []"
| "status_loop n eps first (name # names) =
     (case get eps name of
        None \<Rightarrow> status_loop n eps first names
      | Some base \<Rightarrow>
          (if first then [] else '','') @ status_entry name base (status_of n name base) @ status_loop n eps False names)"

definition statusHandler :: "net \<Rightarrow> string list \<Rightarrow> Endpoints \<Rightarrow> http_response" where
  "statusHandler n ks eps =
     json_response 200 (''{'' @ dq @ ''simulators'' @ dq @ '':['' @ status_loop n eps True ks @ '']}'')"

section \<open>The server\<close>

datatype webui_handler = ProxyTo proxy | IndexPage | VersionPage | StatusPage

definition proxyPrefix :: "string \<Rightarrow> string" where
  "proxyPrefix name = ''/proxy/'' @ name @ ''/''"

definition proxy_route :: "string \<Rightarrow> string \<Rightarrow> string \<times> webui_handler" where
  "proxy_route name base = (''GET '' @ proxyPrefix name, ProxyTo (newProxy (proxyPrefix name) base))"

text \<open>The routes in the order \<^verbatim>\<open>New\<close> registers them, the endpoints as the loop over the map meets them.\<close>

definition webui_routes :: "string list \<Rightarrow> Endpoints \<Rightarrow> (string \<times> webui_handler) list" where
  "webui_routes ks eps =
     List.map_filter (\<lambda>name. map_option (proxy_route name) (get eps name)) ks @
     [(''GET /'', IndexPage), (''GET /api/version'', VersionPage), (''GET /api/status'', StatusPage)]"

definition New_webui :: "string list \<Rightarrow> Endpoints \<Rightarrow> webui_handler mux option" where
  "New_webui ks eps = register_all (webui_routes ks eps) []"

record webui_env =
  we_net :: net
  we_page :: "string option"
  we_version :: string
  we_order :: "string list"

definition index_page :: "string option \<Rightarrow> http_request \<Rightarrow> http_response" where
  "index_page page r =
     (if r_Path r \<noteq> ''/'' then http_Error ''404 page not found'' 404
      else case page of
        None \<Rightarrow> http_Error ''internal error'' 500
      | Some text \<Rightarrow> \<lparr>hs_Status = 200, hs_Header = [(''Content-Type'', [''text/html; charset=utf-8''])], hs_Body = text\<rparr>)"

fun run_webui :: "Endpoints \<Rightarrow> webui_env \<Rightarrow> (webui_handler, http_response option, unit) runner" where
  "run_webui eps e (ProxyTo p) r v u = (proxy_ServeHTTP (we_net e) p r, u)"
| "run_webui eps e IndexPage r v u = (Some (index_page (we_page e) r), u)"
| "run_webui eps e VersionPage r v u =
     (Some (json_response 200 (''{'' @ dq @ ''version'' @ dq @ '':'' @ go_quote (we_version e) @ ''}'')), u)"
| "run_webui eps e StatusPage r v u = (Some (statusHandler (we_net e) (we_order e) eps), u)"

section \<open>The dashboard as a program of its own\<close>

definition simulatorEndpoints :: Endpoints where
  "simulatorEndpoints = fmap_of_list
     [(''libvirt-sim'', ''http://localhost:8100''), (''storage-sim'', ''http://localhost:8500''),
      (''ovn-sim'', ''http://localhost:8200''), (''awx-sim'', ''http://localhost:8300''),
      (''netbox-sim'', ''http://localhost:8400''), (''common'', ''http://localhost:8000'')]"

text \<open>\<^verbatim>\<open>envName\<close>, on names of ASCII characters.\<close>

definition env_char :: "char \<Rightarrow> char" where
  "env_char c =
     (if c = CHR ''-'' then CHR ''_''
      else if CHR ''a'' \<le> c \<and> c \<le> CHR ''z'' then char_of (of_char c - 32 :: nat) else c)"

definition envName :: "string \<Rightarrow> string" where
  "envName s = map env_char s"

definition override_endpoint :: "(string \<Rightarrow> string) \<Rightarrow> string \<Rightarrow> string \<Rightarrow> Endpoints \<Rightarrow> Endpoints" where
  "override_endpoint getenv name url eps =
     (let v = getenv (envName name @ ''_URL'') in if v \<noteq> [] then fmupd name v eps else eps)"

definition overridden :: "(string \<Rightarrow> string) \<Rightarrow> Endpoints" where
  "overridden getenv = range_fold (override_endpoint getenv) simulatorEndpoints simulatorEndpoints"

definition dashboard_port :: "(string \<Rightarrow> string) \<Rightarrow> string" where
  "dashboard_port getenv = (let port = getenv ''PORT'' in if port = [] then ''8080'' else port)"

definition proxy_route_any :: "string \<Rightarrow> string \<Rightarrow> string \<times> webui_handler" where
  "proxy_route_any name base = (proxyPrefix name, ProxyTo (newProxy (proxyPrefix name) base))"

text \<open>What \<^verbatim>\<open>main\<close> registers before it serves; \<open>None\<close> is the panic that ends the program.\<close>

definition main_webui :: "string list \<Rightarrow> (string \<Rightarrow> string) \<Rightarrow> webui_handler mux option" where
  "main_webui ks getenv =
     (let eps = overridden getenv in
      register_all
        ([(''GET /'', IndexPage)] @ List.map_filter (\<lambda>name. map_option (proxy_route_any name) (get eps name)) ks @
         [(''GET /api/status'', StatusPage)]) [])"

text \<open>The proxy of the program names the error of the client.\<close>

definition proxy_ServeHTTP_cmd :: "net \<Rightarrow> proxy \<Rightarrow> http_request \<Rightarrow> http_response option" where
  "proxy_ServeHTTP_cmd n p r =
     (case target_url p r of
        None \<Rightarrow> None
      | Some url \<Rightarrow>
          Some (case nt_bad n (r_Method r) url of
             Some err \<Rightarrow> http_Error (''proxy error: '' @ err) 502
           | None \<Rightarrow>
               (case nt_do n \<lparr>oq_Method = r_Method r, oq_URL = url, oq_Header = r_Header r, oq_Body = r_Body r\<rparr> of
                  Inl err \<Rightarrow> json_response 502
                    (''{'' @ dq @ ''error'' @ dq @ '':'' @ dq @ ''service unavailable'' @ dq @ '','' @ dq @ ''detail'' @ dq @ '':'' @
                     dq @ err @ dq @ ''}'')
                | Inr resp \<Rightarrow> resp)))"

record simStatus =
  sm_Name :: string
  sm_URL :: string
  sm_Status :: string

definition probe_simulator :: "net \<Rightarrow> string \<Rightarrow> string \<Rightarrow> simStatus" where
  "probe_simulator n name base =
     (let s = \<lparr>sm_Name = name, sm_URL = base, sm_Status = ''down''\<rparr>;
          statsURL = (if name = ''common'' then base @ ''/api/v1/events?limit=1'' else base @ ''/sim/stats'')
      in case nt_bad n ''GET'' statsURL of
           Some _ \<Rightarrow> s
         | None \<Rightarrow>
             (case nt_do n \<lparr>oq_Method = ''GET'', oq_URL = statsURL, oq_Header = [], oq_Body = []\<rparr> of
                Inl _ \<Rightarrow> s
              | Inr resp \<Rightarrow> if hs_Status resp = 200 then s\<lparr>sm_Status := ''up''\<rparr> else s))"

fun print_results :: "nat \<Rightarrow> simStatus list \<Rightarrow> string" where
  "print_results i [] = []"
| "print_results i (s # rest) =
     (if i > 0 then '','' else []) @ status_entry (sm_Name s) (sm_URL s) (sm_Status s) @ print_results (Suc i) rest"

definition handleAggregatedStatus :: "net \<Rightarrow> string list \<Rightarrow> Endpoints \<Rightarrow> http_response" where
  "handleAggregatedStatus n ks eps =
     (let results = List.map_filter (\<lambda>name. map_option (probe_simulator n name) (get eps name)) ks
      in json_response 200 (''{'' @ dq @ ''simulators'' @ dq @ '':['' @ print_results 0 results @ '']}''))"

section \<open>Both programs report the same status\<close>

lemma status_loop_eq:
  "status_loop n eps first ks =
     print_results (if first then 0 else Suc i) (List.map_filter (\<lambda>name. map_option (probe_simulator n name) (get eps name)) ks)"
proof (induction ks arbitrary: first i)
  case (Cons name ks)
  have entry: "status_entry name base (status_of n name base) =
      status_entry (sm_Name (probe_simulator n name base)) (sm_URL (probe_simulator n name base)) (sm_Status (probe_simulator n name base))" for base
    by (simp add: probe_simulator_def status_of_def stats_url_def Let_def split: option.split sum.split)
  show ?case
    using Cons.IH [of first i] Cons.IH [of False 0] Cons.IH [of False "Suc i"]
    by (auto simp: entry map_filter_simps split: option.splits)
qed (simp add: map_filter_simps)

text \<open>The dashboard of the unified program and the dashboard as a program of its own print the same status report
  for the same endpoints met in the same order, although one writes each entry as it goes and the other collects the
  entries first; and a simulator is reported up exactly when its status URL answers 200.\<close>

theorem status_reports_agree:
  "statusHandler n ks eps = handleAggregatedStatus n ks eps \<and>
   (status_of n name base = ''up'' \<longleftrightarrow>
      nt_bad n ''GET'' (stats_url name base) = None \<and>
      (\<exists>resp. nt_do n \<lparr>oq_Method = ''GET'', oq_URL = stats_url name base, oq_Header = [], oq_Body = []\<rparr> = Inr resp \<and> hs_Status resp = 200))"
  using status_loop_eq [of n eps True ks 0]
  by (simp add: statusHandler_def handleAggregatedStatus_def Let_def status_of_def split: option.split sum.split)

section \<open>The routes of the dashboard\<close>

definition name_ok :: "string \<Rightarrow> bool" where
  "name_ok name \<longleftrightarrow> name \<noteq> [] \<and> CHR ''/'' \<notin> set name \<and> CHR ''{'' \<notin> set name"

definition proxy_pattern :: "string \<Rightarrow> pattern" where
  "proxy_pattern name = pat ''GET'' [Lit ''proxy'', Lit name, Multi]"

lemma split_proxy:
  assumes "name_ok name"
  shows "parse_segments (Split_path (''proxy/'' @ name @ ''/'')) = Some [Lit ''proxy'', Lit name, Multi]"
proof -
  have "Split_path (''proxy/'' @ name @ ''/'') = [''proxy'', name, []]"
    using Split_path_first [of name "[]"] assms by (simp add: name_ok_def)
  then show ?thesis using assms by (simp add: name_ok_def parse_segment_def)
qed

lemma parse_proxy:
  assumes "name_ok name"
  shows "parsePattern (''GET '' @ proxyPrefix name) = Some (proxy_pattern name)"
    "CHR '' '' \<notin> set name \<Longrightarrow> parsePattern (proxyPrefix name) = Some (pat [] [Lit ''proxy'', Lit name, Multi])"
  using split_proxy [OF assms] by (auto simp: parsePattern_def proxy_pattern_def proxyPrefix_def)

definition fixed_routes :: "webui_handler mux" where
  "fixed_routes = [(pat ''GET'' [Multi], IndexPage), (pat ''GET'' [Lit ''api'', Lit ''version''], VersionPage),
     (pat ''GET'' [Lit ''api'', Lit ''status''], StatusPage)]"

definition proxy_entry :: "Endpoints \<Rightarrow> string \<Rightarrow> pattern \<times> webui_handler" where
  "proxy_entry eps name = (proxy_pattern name, ProxyTo (newProxy (proxyPrefix name) (the (get eps name))))"

definition webui_mux :: "string list \<Rightarrow> Endpoints \<Rightarrow> webui_handler mux" where
  "webui_mux ks eps = map (proxy_entry eps) ks @ fixed_routes"

definition names_ok :: "Endpoints \<Rightarrow> bool" where
  "names_ok eps \<longleftrightarrow> (\<forall>name. get eps name \<noteq> None \<longrightarrow> name_ok name)"

lemma webui_parsed:
  assumes "names_ok eps" "iteration_order eps ks"
  shows "parse_all (webui_routes ks eps) = Some (webui_mux ks eps)"
proof -
  have fixed: "parse_all [(''GET /'', IndexPage), (''GET /api/version'', VersionPage), (''GET /api/status'', StatusPage)] = Some fixed_routes"
    by code_simp
  have "\<forall>name\<in>set ks. \<exists>base. get eps name = Some base"
    using assms(2) by (auto simp: iteration_order_def fmlookup_dom'_iff)
  then show ?thesis
    unfolding webui_routes_def webui_mux_def
  proof (induction ks)
    case Nil
    then show ?case using fixed by (simp add: map_filter_simps del: parse_all_simps)
  next
    case (Cons name ks)
    then obtain base where "get eps name = Some base" by auto
    moreover from this have "name_ok name" using assms(1) by (simp add: names_ok_def)
    ultimately show ?case using Cons parse_proxy(1) [of name] by (simp add: map_filter_simps proxy_route_def proxy_entry_def)
  qed
qed

lemma proxy_conflicts:
  "conflictsWith (proxy_pattern a) (proxy_pattern b) \<longleftrightarrow> a = b"
  "x \<in> set fixed_routes \<Longrightarrow> \<not> conflictsWith (proxy_pattern a) (fst x)"
  by (auto simp: conflictsWith_def meet_def narrower_def narrower_method_def proxy_pattern_def fixed_routes_def)

lemma webui_conflict_free: "distinct ks \<Longrightarrow> conflict_free (webui_mux ks eps)"
proof (induction ks)
  case Nil
  have "conflict_free fixed_routes"
    by (simp add: conflict_free_def fixed_routes_def conflictsWith_def meet_def narrower_def narrower_method_def)
  then show ?case by (simp add: webui_mux_def)
next
  case (Cons name ks)
  then show ?case
    using proxy_conflicts by (fastforce simp: webui_mux_def conflict_free_def proxy_entry_def)
qed

lemma New_webui_ok:
  assumes "names_ok eps" "iteration_order eps ks"
  shows "New_webui ks eps = Some (webui_mux ks eps)" "conflict_free (webui_mux ks eps)"
  using webui_parsed [OF assms] webui_conflict_free [of ks eps] assms(2)
  by (simp_all add: New_webui_def registered iteration_order_def)

text \<open>The dashboard registers its routes without a panic in whatever order the loop meets the endpoint map, and the
  order makes no difference to where a request goes.\<close>

theorem dashboard_order_free:
  assumes "names_ok eps" "iteration_order eps ks" "iteration_order eps ks'"
  shows "\<exists>m m'. New_webui ks eps = Some m \<and> New_webui ks' eps = Some m' \<and> (\<forall>r. findHandler m' r = findHandler m r)"
proof -
  have "set ks = set ks'" "distinct ks" "distinct ks'" using assms by (simp_all add: iteration_order_def)
  then have "mset ks' = mset ks" by (simp add: set_eq_iff_mset_eq_distinct)
  then have "mset (webui_routes ks' eps) = mset (webui_routes ks eps)"
    by (simp add: webui_routes_def List.map_filter_def mset_filter)
  then show ?thesis
    using registration_order_free New_webui_ok [OF assms(1,2)] unfolding New_webui_def by blast
qed

section \<open>Where the proxy sends a request\<close>

lemma proxy_entries:
  assumes "(p, h) \<in> set (webui_mux ks eps)" "h = ProxyTo q"
  shows "\<exists>name\<in>set ks. p = proxy_pattern name \<and> q = newProxy (proxyPrefix name) (the (get eps name))"
  using assms by (auto simp: webui_mux_def proxy_entry_def fixed_routes_def)

definition with_query :: "string \<Rightarrow> string \<Rightarrow> string" where
  "with_query url q = url @ (if q \<noteq> [] then ''?'' @ q else [])"

lemma target_of_prefix:
  "r_Path r = proxyPrefix name @ rest \<Longrightarrow>
     target_url (newProxy (proxyPrefix name) base) r = Some (with_query (base @ ''/'' @ rest) (r_RawQuery r))"
  by (simp add: target_url_def newProxy_def proxyPrefix_def with_query_def Let_def)

text \<open>A proxy is only entered with a path below its own prefix, however the path was encoded: the slice that cuts the
  prefix off is never out of range, and the request goes to the base URL of the endpoint of that name, with the rest of
  the decoded path and the query behind it.\<close>

theorem proxy_target:
  assumes "names_ok eps" "iteration_order eps ks" "New_webui ks eps = Some m"
    and "PathUnescape (r_EscapedPath r) = Some (r_Path r)" "findHandler m r = Handled (ProxyTo p) v"
  shows "\<exists>name base rest. get eps name = Some base \<and> p = newProxy (proxyPrefix name) base \<and> r_Path r = proxyPrefix name @ rest \<and>
    target_url p r = Some (with_query (base @ ''/'' @ rest) (r_RawQuery r))"
proof -
  have m: "m = webui_mux ks eps" using New_webui_ok [OF assms(1,2)] assms(3) by simp
  obtain q where q: "(q, ProxyTo p) \<in> set m" "covers q (r_Method r) (path_segments (r_EscapedPath r))"
    "r_EscapedPath r \<noteq> []" "hd (r_EscapedPath r) = CHR ''/''"
    using handled_entry [OF assms(5)] by blast
  then obtain name where name: "name \<in> set ks" "q = proxy_pattern name" "p = newProxy (proxyPrefix name) (the (get eps name))"
    using proxy_entries m by blast
  then obtain base where base: "get eps name = Some base"
    using assms(2) by (auto simp: iteration_order_def fmlookup_dom'_iff)
  then have ok: "name_ok name" using assms(1) by (simp add: names_ok_def)
  then have slash: "\<forall>l\<in>set [''proxy'', name]. l \<noteq> ''/''" by (auto simp: name_ok_def)
  have "match_segments (map Lit [''proxy'', name] @ [Multi]) (path_segments (r_EscapedPath r)) \<noteq> None"
    using q(2) name(2) by (simp add: covers_def proxy_pattern_def)
  from decoded_prefix [OF this q(3,4) assms(4) slash]
  obtain rest where "r_Path r = proxyPrefix name @ rest" by (auto simp: proxyPrefix_def)
  then show ?thesis using target_of_prefix [of r name rest base] base name(3) by auto
qed

lemma proxy_lookup:
  assumes "names_ok eps" "iteration_order eps ks" "get eps name = Some base"
  shows "lookup_mux (webui_mux ks eps) ''GET'' (''proxy'' # name # x # xs) =
    Some (proxy_pattern name, ProxyTo (newProxy (proxyPrefix name) base))"
proof -
  have "(proxy_pattern name, ProxyTo (newProxy (proxyPrefix name) base)) \<in> set (webui_mux ks eps)"
    using assms by (force simp: webui_mux_def proxy_entry_def iteration_order_def fmlookup_dom'_iff)
  moreover have "covers (proxy_pattern name) ''GET'' (''proxy'' # name # x # xs)"
    by (simp add: covers_def covers_method_def proxy_pattern_def)
  moreover have "\<forall>(q, g)\<in>set (webui_mux ks eps). covers q ''GET'' (''proxy'' # name # x # xs) \<longrightarrow> narrower (proxy_pattern name) q"
    by (auto simp: webui_mux_def fixed_routes_def proxy_entry_def proxy_pattern_def covers_def narrower_def narrower_method_def
        split: if_splits)
  ultimately show ?thesis by (simp add: lookup_iff [OF New_webui_ok(2) [OF assms(1,2)]])
qed

lemma proxied_request:
  assumes "names_ok eps" "iteration_order eps ks" "get eps name = Some base" "plain name" "segs \<noteq> []" "\<forall>s\<in>set segs. plain s"
    and "r_Method r = ''GET''" "r_EscapedPath r = path_of (''proxy'' # name # segs)"
  shows "findHandler (webui_mux ks eps) r = Handled (ProxyTo (newProxy (proxyPrefix name) base)) []"
proof -
  let ?all = "''proxy'' # name # segs" and ?h = "(proxy_pattern name, ProxyTo (newProxy (proxyPrefix name) base))"
  have plain: "?all \<noteq> []" "\<forall>s\<in>set ?all. plain s" using assms by (auto simp: plain_def)
  obtain x xs where segs: "segs = x # xs" using assms(5) by (cases segs) auto
  have look: "lookup_mux (webui_mux ks eps) ''GET'' (?all @ ys) = Some ?h" for ys
    using proxy_lookup [OF assms(1-3), of x "xs @ ys"] segs by simp
  have deep: "\<not> exactMatch (Some ?h) (path_of ?all @ ''/'')"
    using count_slashes [OF plain(2)] assms(5) by (simp add: exactMatch_def proxy_pattern_def)
  have "findHandler (webui_mux ks eps) r = Handled (snd ?h) (the (match_segments (p_segments (proxy_pattern name)) ?all))"
    by (rule findHandler_below [OF assms(8) plain]) (use look [of "[]"] look [of "[''/'']"] deep assms(7) in \<open>simp_all only: append_Nil2 snd_conv not_False_eq_True\<close>)
  then show ?thesis by (simp add: proxy_pattern_def segs)
qed


section \<open>The endpoints of the unified program\<close>

definition sample_net :: net where
  "sample_net = \<lparr>nt_bad = \<lambda>_ _. None, nt_do = \<lambda>q. Inr \<lparr>hs_Status = 200, hs_Header = [], hs_Body = oq_URL q\<rparr>\<rparr>"

definition sample_env :: webui_env where
  "sample_env = \<lparr>we_net = sample_net, we_page = Some ''page'', we_version = ''dev'', we_order = [''common'', ''ovn-sim'']\<rparr>"

definition six_names :: "string list" where
  "six_names = [''common'', ''libvirt-sim'', ''ovn-sim'', ''awx-sim'', ''netbox-sim'', ''storage-sim'']"

lemma default_names: "fmdom' DefaultEndpoints = set six_names"
  by (simp add: DefaultEndpoints_def six_names_def)

lemma six_names_ok: "names_ok DefaultEndpoints" "iteration_order DefaultEndpoints six_names" "iteration_order DefaultEndpoints (rev six_names)"
proof -
  have "\<forall>name\<in>set six_names. name_ok name" by (simp add: six_names_def name_ok_def)
  then show "names_ok DefaultEndpoints"
    using default_names by (metis names_ok_def fmdom'_notD)
  have "distinct six_names" by (simp add: six_names_def)
  then show "iteration_order DefaultEndpoints six_names" "iteration_order DefaultEndpoints (rev six_names)"
    by (simp_all add: iteration_order_def default_names)
qed

theorem dashboard_order_free_witness:
  "\<exists>m m'. New_webui six_names DefaultEndpoints = Some m \<and> New_webui (rev six_names) DefaultEndpoints = Some m' \<and>
     (\<forall>r. findHandler m' r = findHandler m r)"
  by (rule dashboard_order_free [OF six_names_ok])

definition encoded_request :: http_request where
  "encoded_request = \<lparr>r_Method = ''GET'', r_EscapedPath = ''/proxy/ovn%2Dsim/sim/%73tats'', r_Path = ''/proxy/ovn-sim/sim/stats'',
     r_RawQuery = [], r_Header = [], r_Body = []\<rparr>"

definition ovn_proxy :: proxy where
  "ovn_proxy = newProxy (proxyPrefix ''ovn-sim'') ''http://localhost:8200''"

lemma encoded_handled: "findHandler (webui_mux six_names DefaultEndpoints) encoded_request = Handled (ProxyTo ovn_proxy) []"
  by code_simp

theorem proxy_target_witness:
  "\<exists>name base rest. get DefaultEndpoints name = Some base \<and> ovn_proxy = newProxy (proxyPrefix name) base \<and>
    r_Path encoded_request = proxyPrefix name @ rest \<and>
    target_url ovn_proxy encoded_request = Some (with_query (base @ ''/'' @ rest) (r_RawQuery encoded_request))"
proof (rule proxy_target [OF six_names_ok(1,2)])
  show "New_webui six_names DefaultEndpoints = Some (webui_mux six_names DefaultEndpoints)"
    using New_webui_ok six_names_ok by blast
  show "PathUnescape (r_EscapedPath encoded_request) = Some (r_Path encoded_request)" by code_simp
qed (rule encoded_handled)

definition proxied_stats :: http_request where
  "proxied_stats = \<lparr>r_Method = ''GET'', r_EscapedPath = ''/proxy/ovn-sim/sim/stats'', r_Path = ''/proxy/ovn-sim/sim/stats'',
     r_RawQuery = ''x=1'', r_Header = [], r_Body = []\<rparr>"


text \<open>The proxy builds the URL from the decoded path: an encoded question mark in a name turns into the start of a query.\<close>

definition question_request :: http_request where
  "question_request = \<lparr>r_Method = ''GET'', r_EscapedPath = ''/proxy/storage-sim/api/v1/volumes/a%3Fb'',
     r_Path = ''/proxy/storage-sim/api/v1/volumes/a?b'', r_RawQuery = [], r_Header = [], r_Body = []\<rparr>"

lemma proxy_decodes_path:
  "PathUnescape (r_EscapedPath question_request) = Some (r_Path question_request) \<and>
   (\<exists>p. findHandler (webui_mux six_names DefaultEndpoints) question_request = Handled (ProxyTo p) [] \<and>
        target_url p question_request = Some ''http://localhost:8500/api/v1/volumes/a?b'')"
proof -
  let ?p = "newProxy (proxyPrefix ''storage-sim'') ''http://localhost:8500''"
  have "PathUnescape (r_EscapedPath question_request) = Some (r_Path question_request)" by code_simp
  moreover have "findHandler (webui_mux six_names DefaultEndpoints) question_request = Handled (ProxyTo ?p) []" by code_simp
  moreover have "target_url ?p question_request = Some ''http://localhost:8500/api/v1/volumes/a?b''" by code_simp
  ultimately show ?thesis by blast
qed

section \<open>The dashboard as a program of its own does not start\<close>

interpretation override_loop: order_free_loop "override_endpoint getenv"
  by unfold_locales (auto simp: override_endpoint_def Let_def fmupd_reorder_neq)

lemma overridden_dom: "fmdom' (overridden getenv) = fmdom' simulatorEndpoints"
proof -
  have "fmdom' (loop_over (override_endpoint getenv) simulatorEndpoints ks eps) = fmdom' eps"
    if "fmdom' simulatorEndpoints \<subseteq> fmdom' eps" for ks eps
    using that
  proof (induction ks arbitrary: eps)
    case (Cons k ks)
    have "fmdom' (override_endpoint getenv k url eps) = fmdom' eps" if "get simulatorEndpoints k = Some url" for url
      using that Cons.prems fmdom'I [OF that] by (auto simp: override_endpoint_def Let_def)
    then show ?case using Cons by (auto split: option.splits)
  qed simp
  then show ?thesis by (simp add: overridden_def range_fold_def)
qed

lemma simulator_names: "name \<in> fmdom' simulatorEndpoints \<Longrightarrow> name_ok name \<and> CHR '' '' \<notin> set name"
  by (auto simp: simulatorEndpoints_def name_ok_def fmlookup_dom'_iff fmlookup_of_list split: if_splits)

text \<open>The dashboard as a program of its own never serves: its page is registered for GET of every path and its proxies for
  every method of their path, neither pattern is the more specific one, and the mux panics on the first proxy, whatever
  the environment and whatever the order of the map.\<close>

theorem standalone_dashboard_panics:
  assumes "iteration_order (overridden getenv) ks"
  shows "main_webui ks getenv = None"
proof -
  have "set ks = fmdom' simulatorEndpoints" using assms by (simp add: iteration_order_def overridden_dom)
  moreover have "fmdom' simulatorEndpoints \<noteq> {}" by (simp add: simulatorEndpoints_def)
  ultimately obtain name rest where ks: "ks = name # rest" "name \<in> fmdom' simulatorEndpoints" by (cases ks) auto
  then obtain base where base: "get (overridden getenv) name = Some base"
    using overridden_dom by (metis fmlookup_dom'_iff)
  have page: "HandleFunc ''GET /'' IndexPage [] = Some [(pat ''GET'' [Multi], IndexPage)]" by code_simp
  have "conflictsWith (pat [] [Lit ''proxy'', Lit name, Multi]) (pat ''GET'' [Multi])"
    by (simp add: conflictsWith_def meet_def narrower_def narrower_method_def)
  then have "HandleFunc (proxyPrefix name) h [(pat ''GET'' [Multi], IndexPage)] = None" for h
    using parse_proxy(2) [of name] simulator_names [OF ks(2)] by (simp add: HandleFunc_def)
  then show ?thesis using page by (simp add: main_webui_def Let_def ks(1) base map_filter_simps proxy_route_any_def)
qed

theorem standalone_dashboard_panics_witness: "main_webui six_names (\<lambda>_. []) = None"
proof (rule standalone_dashboard_panics)
  show "iteration_order (overridden (\<lambda>_. [])) six_names"
    unfolding iteration_order_def overridden_dom
    by (simp add: six_names_def simulatorEndpoints_def) auto
qed

section \<open>The simulators behind the dashboard\<close>

text \<open>The states of the six simulators, and the circumstances in which each handles a request.\<close>

record 'c fleet =
  fl_storage :: Store
  fl_libvirt :: Plant
  fl_ovn :: Manager
  fl_netbox :: Store_nb
  fl_awx :: System
  fl_common :: "'c Common"
  fl_json :: storage_json
  fl_env_storage :: "int \<times> string list"
  fl_env_libvirt :: libvirt_env
  fl_env_ovn :: ovn_env
  fl_env_netbox :: netbox_env
  fl_env_awx :: awx_env
  fl_env_common :: "'c common_env"

text \<open>The status a client sees; \<open>None\<close> when the handler panics and the connection is closed.\<close>

fun answer_status :: "('b \<Rightarrow> nat option) \<Rightarrow> 'b http_answer \<Rightarrow> nat option" where
  "answer_status f (Answered b) = f b"
| "answer_status f (RedirectAnswer _ _) = Some 301"
| "answer_status f (MethodNotAllowedAnswer _) = Some 405"
| "answer_status f NotFoundAnswer = Some 404"

fun common_status :: "body_common \<Rightarrow> nat" where
  "common_status (LogAnswer b) = fst b"
| "common_status (FaultAnswer b) = fst b"
| "common_status (GenAnswer b) = fst b"
| "common_status (SnapAnswer b) = fst b"

definition fleet_status :: "'c fleet \<Rightarrow> string \<Rightarrow> http_request \<Rightarrow> nat option" where
  "fleet_status fl name r =
     (if name = ''storage-sim'' then
        answer_status (Some \<circ> status) (fst (ServeHTTP (run_storage (fl_env_storage fl)) (storage_mux (fl_json fl)) r (fl_storage fl)))
      else if name = ''libvirt-sim'' then
        answer_status (\<lambda>b. Some (case b of Inl x \<Rightarrow> fst x | Inr x \<Rightarrow> fst x))
          (fst (ServeHTTP (run_libvirt (fl_env_libvirt fl)) libvirt_mux r (fl_libvirt fl)))
      else if name = ''ovn-sim'' then
        answer_status (\<lambda>b. Some (case b of Inl x \<Rightarrow> fst (fst x) | Inr x \<Rightarrow> fst x))
          (fst (ServeHTTP (run_ovn (fl_env_ovn fl)) ovn_mux r (fl_ovn fl)))
      else if name = ''netbox-sim'' then
        answer_status (map_option fst) (fst (ServeHTTP (run_netbox (fl_env_netbox fl)) netbox_mux r (fl_netbox fl)))
      else if name = ''awx-sim'' then
        answer_status (Some \<circ> fst) (fst (ServeHTTP (run_awx (fl_env_awx fl)) awx_mux r (fl_awx fl)))
      else if name = ''common'' then
        answer_status (Some \<circ> common_status) (fst (ServeHTTP (run_common (fl_env_common fl)) common_mux r (fl_common fl)))
      else None)"

definition probe_of :: "string \<Rightarrow> http_request" where
  "probe_of name = (if name = ''common'' then events_request else stats_request)"

text \<open>The network delivers the probes: for each endpoint the request can be built, and is answered with the status the
  simulator of that name gives.\<close>

definition delivers :: "net \<Rightarrow> 'c fleet \<Rightarrow> Endpoints \<Rightarrow> bool" where
  "delivers n fl eps \<longleftrightarrow>
     (\<forall>name base. get eps name = Some base \<longrightarrow>
        nt_bad n ''GET'' (stats_url name base) = None \<and>
        (\<exists>resp. nt_do n \<lparr>oq_Method = ''GET'', oq_URL = stats_url name base, oq_Header = [], oq_Body = []\<rparr> = Inr resp \<and>
           fleet_status fl name (probe_of name) = Some (hs_Status resp)))"

lemma events_status: "fst (getEvents parseTime (events_query_of events_request) el) = 200"
proof -
  have "Atoi ''1'' = Some 1" by code_simp
  then show ?thesis
    by (simp add: events_query_limit getEvents_def parseFilterFromQuery_def parse_count_def split: prod.split)
qed

lemma probes_ok: "name \<in> set six_names \<Longrightarrow> fleet_status fl name (probe_of name) = Some 200"
  by (auto simp: six_names_def fleet_status_def probe_of_def stats_served events_served events_status handleGetStats_def
      handleGetStats_lv_def getStats_ovn_def getStats_nb_def handleStats_def writeJSON_def writeJSON_lv_def writeJSON_ovn_def
      writeJSON_nb_def writeJSON_awx_def awx_request_def)

fun comma_separated :: "string list \<Rightarrow> string" where
  "comma_separated [] = []"
| "comma_separated [x] = x"
| "comma_separated (x # y # zs) = x @ '','' @ comma_separated (y # zs)"

lemma comma_separated_first: "(if xs = [] then [] else '','') @ comma_separated xs = concat (map (\<lambda>x. '','' @ x) xs)"
  by (induction xs rule: comma_separated.induct) auto

definition entry_of :: "net \<Rightarrow> Endpoints \<Rightarrow> string \<Rightarrow> string" where
  "entry_of n eps name = status_entry name (the (get eps name)) (status_of n name (the (get eps name)))"

lemma status_loop_rest:
  "\<forall>name\<in>set ks. get eps name \<noteq> None \<Longrightarrow> status_loop n eps False ks = concat (map (\<lambda>name. '','' @ entry_of n eps name) ks)"
  by (induction ks) (auto simp: entry_of_def)

lemma status_loop_known:
  assumes "\<forall>name\<in>set ks. get eps name \<noteq> None"
  shows "status_loop n eps True ks = comma_separated (map (entry_of n eps) ks)"
proof (cases ks)
  case (Cons k ks')
  have "comma_separated (map (entry_of n eps) ks) = entry_of n eps k @ concat (map (\<lambda>name. '','' @ entry_of n eps name) ks')"
    using comma_separated_first [of "map (entry_of n eps) ks'"] by (cases ks') (auto simp: Cons comp_def)
  then show ?thesis using assms status_loop_rest [of ks' eps n] by (auto simp: Cons entry_of_def)
qed simp



end
