(* ===== verification/Postgres_Admin.thy ===== *)
theory Postgres_Admin
  imports HTTP_Serving Go_Values
begin

text \<open>
  The embedded PostgreSQL server with its management API: \<^verbatim>\<open>postgres/app.go\<close>. The database itself
  is code the repository only calls: what a query gives, and whether the server starts and stops,
  are arguments. The queries whose text is fixed are named; those whose text is put together from
  a table name are kept as text, because their quoting matters.
\<close>

section \<open>Reading numbers\<close>

text \<open>\<^verbatim>\<open>fmt.Sscanf(s, "%d", &n)\<close>: spaces are skipped, a newline is an error, and what follows the number is left alone.\<close>

fun skip_space :: "string \<Rightarrow> string option" where
  "skip_space [] = Some []"
| "skip_space (c # s) =
     (if c = CHR 13 \<and> s \<noteq> [] \<and> hd s = CHR 10 then skip_space s
      else if c = CHR 10 then None
      else if c = CHR '' '' \<or> c = CHR 9 \<or> c = CHR 11 \<or> c = CHR 12 \<or> c = CHR 13 then skip_space s
      else Some (c # s))"

definition is_digit :: "char \<Rightarrow> bool" where
  "is_digit c \<longleftrightarrow> CHR ''0'' \<le> c \<and> c \<le> CHR ''9''"

definition number_token :: "string \<Rightarrow> string" where
  "number_token t =
     (case t of
        [] \<Rightarrow> []
      | c # s \<Rightarrow> if c = CHR ''-'' \<or> c = CHR ''+'' then c # takeWhile is_digit s else takeWhile is_digit t)"

definition Sscanf_int :: "string \<Rightarrow> int option" where
  "Sscanf_int s = Option.bind (skip_space s) (\<lambda>t. Atoi (number_token t))"

definition Sscanf_uint32 :: "string \<Rightarrow> int option" where
  "Sscanf_uint32 s =
     Option.bind (skip_space s) (\<lambda>t. Option.bind (digits_value (takeWhile is_digit t)) (\<lambda>n. if n < 4294967296 then Some (int n) else None))"

section \<open>The server\<close>

record Config =
  cf_Port :: int
  cf_Database :: string
  cf_Username :: string
  cf_Password :: string
  cf_DataDir :: string

definition DefaultConfig :: Config where
  "DefaultConfig = \<lparr>cf_Port = 5432, cf_Database = ''cirrus'', cf_Username = ''cirrus'', cf_Password = ''cirrus'', cf_DataDir = []\<rparr>"

text \<open>\<open>pg_created\<close> and \<open>pg_serving\<close>: whether the fields \<^verbatim>\<open>db\<close> and \<^verbatim>\<open>httpServer\<close> are set.\<close>

record pg_server =
  pg_config :: Config
  pg_mgmtPort :: string
  pg_connURL :: string
  pg_tmpDataDir :: string
  pg_created :: bool
  pg_serving :: bool

definition env_or :: "(string \<Rightarrow> string) \<Rightarrow> string \<Rightarrow> string \<Rightarrow> string" where
  "env_or getenv key def = (let v = getenv key in if v \<noteq> [] then v else def)"

definition New_postgres :: "(string \<Rightarrow> string) \<Rightarrow> string \<Rightarrow> string \<Rightarrow> pg_server" where
  "New_postgres getenv port mgmtPort =
     (let cfg = DefaultConfig;
          cfg = (case Sscanf_uint32 port of Some p \<Rightarrow> if p > 0 then cfg\<lparr>cf_Port := p\<rparr> else cfg | None \<Rightarrow> cfg);
          cfg = cfg\<lparr>cf_Database := env_or getenv ''POSTGRES_DATABASE'' (cf_Database cfg)\<rparr>;
          cfg = cfg\<lparr>cf_Username := env_or getenv ''POSTGRES_USERNAME'' (cf_Username cfg)\<rparr>;
          cfg = cfg\<lparr>cf_Password := env_or getenv ''POSTGRES_PASSWORD'' (cf_Password cfg)\<rparr>;
          cfg = cfg\<lparr>cf_DataDir := env_or getenv ''POSTGRES_DATA_DIR'' (cf_DataDir cfg)\<rparr>
      in \<lparr>pg_config = cfg, pg_mgmtPort = mgmtPort, pg_connURL = [], pg_tmpDataDir = [], pg_created = False, pg_serving = False\<rparr>)"

text \<open>What the machine holds: the temporary directories that exist, and the data directory of the database process if one runs.\<close>

record machine =
  mc_dirs :: "string list"
  mc_database :: "string option"

text \<open>What the embedded-postgres library and the operating system do: the URL of a configuration, the name of a new temporary
  directory (\<open>None\<close> if it cannot be made), whether the database starts, and the error of stopping it, given whether it was started.\<close>

record pg_lib =
  pl_url :: "Config \<Rightarrow> string"
  pl_mkdir :: "string option"
  pl_starts :: bool
  pl_stop :: "bool \<Rightarrow> string option"

definition Start_postgres :: "pg_lib \<Rightarrow> pg_server \<times> machine \<Rightarrow> pg_server \<times> machine" where
  "Start_postgres l sm =
     (let (s, m) = sm in
      let made = (if cf_DataDir (pg_config s) \<noteq> [] then Some (cf_DataDir (pg_config s), s, m)
                  else case pl_mkdir l of
                    None \<Rightarrow> None
                  | Some tmp \<Rightarrow> Some (tmp @ ''/data'', s\<lparr>pg_tmpDataDir := tmp\<rparr>, m\<lparr>mc_dirs := tmp # mc_dirs m\<rparr>))
      in case made of
           None \<Rightarrow> (s, m)
         | Some (dataDir, s1, m1) \<Rightarrow>
             let s2 = s1\<lparr>pg_connURL := pl_url l (pg_config s1), pg_created := True\<rparr>
             in if \<not> pl_starts l then (s2, m1)
                else (s2\<lparr>pg_serving := True\<rparr>, m1\<lparr>mc_database := Some dataDir\<rparr>))"

definition Shutdown_postgres :: "pg_lib \<Rightarrow> pg_server \<times> machine \<Rightarrow> string option \<times> pg_server \<times> machine" where
  "Shutdown_postgres l sm =
     (let (s, m) = sm in
      if \<not> pg_created s then (None, s, m)
      else case pl_stop l (mc_database m \<noteq> None) of
        Some err \<Rightarrow> (Some (''stop postgres: '' @ err), s, m)
      | None \<Rightarrow>
          (None, s, m\<lparr>mc_database := None,
                    mc_dirs := (if pg_tmpDataDir s \<noteq> [] then removeAll (pg_tmpDataDir s) (mc_dirs m) else mc_dirs m)\<rparr>))"

definition ConnectionURL :: "pg_server \<Rightarrow> string" where
  "ConnectionURL s = pg_connURL s"

section \<open>Queries\<close>

datatype sql_value = SqlNull | SqlInt int | SqlBytes string | SqlText string | SqlBool bool

text \<open>\<open>rs_err\<close> is the error, if any, after which no further row is delivered.\<close>

record result_set =
  rs_columns :: "string + string list"
  rs_rows :: "sql_value list list"
  rs_err :: "string option"

datatype sql =
    CountTables
  | DatabaseSize
  | ListTablesSQL
  | TableExists string
  | ColumnsOf string
  | RawSQL string

record pg_db =
  pd_open :: "string \<Rightarrow> string option"
  pd_query :: "sql \<Rightarrow> string + result_set"

datatype message_pg = DatabaseError string | NoRows | ScanFailed | TableNotFound string | TableNameRequired

text \<open>\<^verbatim>\<open>QueryRow\<close>: the first row.\<close>

definition QueryRow :: "pg_db \<Rightarrow> sql \<Rightarrow> message_pg + sql_value list" where
  "QueryRow d q =
     (case pd_query d q of
        Inl e \<Rightarrow> Inl (DatabaseError e)
      | Inr rs \<Rightarrow>
          (case rs_rows rs of
             row # _ \<Rightarrow> Inr row
           | [] \<Rightarrow> Inl (case rs_err rs of Some e \<Rightarrow> DatabaseError e | None \<Rightarrow> NoRows)))"

text \<open>\<^verbatim>\<open>Scan\<close> into an integer, a string, a truth value, and a pointer to a string.\<close>

fun scan_int :: "sql_value \<Rightarrow> int option" where
  "scan_int (SqlInt n) = Some n"
| "scan_int (SqlBytes b) = Atoi b"
| "scan_int (SqlText t) = Atoi t"
| "scan_int _ = None"

fun scan_string :: "sql_value \<Rightarrow> string option" where
  "scan_string (SqlText t) = Some t"
| "scan_string (SqlBytes b) = Some b"
| "scan_string (SqlInt n) = Some (fmt_0d 0 n)"
| "scan_string (SqlBool b) = Some (if b then ''true'' else ''false'')"
| "scan_string SqlNull = None"

definition ParseBool :: "string \<Rightarrow> bool option" where
  "ParseBool t =
     (if t \<in> set [''1'', ''t'', ''T'', ''TRUE'', ''true'', ''True''] then Some True
      else if t \<in> set [''0'', ''f'', ''F'', ''FALSE'', ''false'', ''False''] then Some False else None)"

fun scan_bool :: "sql_value \<Rightarrow> bool option" where
  "scan_bool (SqlBool b) = Some b"
| "scan_bool (SqlInt n) = (if n = 1 then Some True else if n = 0 then Some False else None)"
| "scan_bool (SqlText t) = ParseBool t"
| "scan_bool (SqlBytes t) = ParseBool t"
| "scan_bool SqlNull = None"

fun scan_pointer :: "sql_value \<Rightarrow> string option option" where
  "scan_pointer SqlNull = Some None"
| "scan_pointer v = map_option Some (scan_string v)"

definition scan_one :: "(sql_value \<Rightarrow> 'a option) \<Rightarrow> message_pg + sql_value list \<Rightarrow> message_pg + 'a" where
  "scan_one f row =
     (case row of
        Inl e \<Rightarrow> Inl e
      | Inr [v] \<Rightarrow> (case f v of Some x \<Rightarrow> Inr x | None \<Rightarrow> Inl ScanFailed)
      | Inr _ \<Rightarrow> Inl ScanFailed)"

section \<open>Handlers\<close>

record tableInfo =
  ti_Name :: string
  ti_ColumnCount :: int
  ti_RowCount :: int

record columnInfo =
  ci_Name :: string
  ci_Type :: string
  ci_Nullable :: string
  ci_Default :: "string option"

record tablePage =
  tp_table :: string
  tp_columns :: "string list"
  tp_total :: int
  tp_limit :: int
  tp_offset :: int
  tp_rows :: "(string, sql_value) gomap list"

datatype body_pg =
    ErrorBody_pg message_pg
  | StatsBody_pg string int int string string
  | TablesBody "tableInfo list"
  | PageBody tablePage
  | SchemaBody string "columnInfo list"

type_synonym response_pg = "nat \<times> body_pg"

definition writeJSON_pg :: "nat \<Rightarrow> body_pg \<Rightarrow> response_pg" where
  "writeJSON_pg st b = (st, b)"

definition writeError_pg :: "nat \<Rightarrow> message_pg \<Rightarrow> response_pg" where
  "writeError_pg st msg = (st, ErrorBody_pg msg)"

definition openDB :: "pg_db \<Rightarrow> pg_server \<Rightarrow> string option" where
  "openDB d s = pd_open d (pg_connURL s @ ''?sslmode=disable'')"

definition handleStats_pg :: "pg_db \<Rightarrow> pg_server \<Rightarrow> response_pg" where
  "handleStats_pg d s =
     (case openDB d s of
        Some e \<Rightarrow> writeError_pg 500 (DatabaseError e)
      | None \<Rightarrow>
          (case scan_one scan_int (QueryRow d CountTables) of
             Inl e \<Rightarrow> writeError_pg 500 e
           | Inr tableCount \<Rightarrow>
               let dbSize = (case scan_one scan_string (QueryRow d DatabaseSize) of Inl _ \<Rightarrow> ''unknown'' | Inr sz \<Rightarrow> sz)
               in writeJSON_pg 200 (StatsBody_pg (cf_Database (pg_config s)) (cf_Port (pg_config s)) tableCount dbSize (pg_connURL s))))"

definition count_rows :: "string \<Rightarrow> sql" where
  "count_rows name = RawSQL (''SELECT count(*) FROM '' @ go_quote name)"

text \<open>The number of rows stays 0 when it cannot be read.\<close>

definition row_count :: "pg_db \<Rightarrow> string \<Rightarrow> int" where
  "row_count d name = (case scan_one scan_int (QueryRow d (count_rows name)) of Inr n \<Rightarrow> n | Inl _ \<Rightarrow> 0)"

definition table_info :: "pg_db \<Rightarrow> sql_value list \<Rightarrow> tableInfo option" where
  "table_info d row =
     (case row of
        [a, b] \<Rightarrow>
          (case (scan_string a, scan_int b) of
             (Some name, Some n) \<Rightarrow> Some \<lparr>ti_Name = name, ti_ColumnCount = n, ti_RowCount = row_count d name\<rparr>
           | _ \<Rightarrow> None)
      | _ \<Rightarrow> None)"

definition handleListTables :: "pg_db \<Rightarrow> pg_server \<Rightarrow> response_pg" where
  "handleListTables d s =
     (case openDB d s of
        Some e \<Rightarrow> writeError_pg 500 (DatabaseError e)
      | None \<Rightarrow>
          (case pd_query d ListTablesSQL of
             Inl e \<Rightarrow> writeError_pg 500 (DatabaseError e)
           | Inr rs \<Rightarrow> writeJSON_pg 200 (TablesBody (List.map_filter (table_info d) (rs_rows rs)))))"

definition page_limit :: "string \<Rightarrow> int" where
  "page_limit v =
     (if v = [] then 100
      else let limit = (case Sscanf_int v of Some n \<Rightarrow> n | None \<Rightarrow> 100) in if limit \<le> 0 \<or> limit > 1000 then 100 else limit)"

definition page_offset :: "string \<Rightarrow> int" where
  "page_offset v = (if v = [] then 0 else case Sscanf_int v of Some n \<Rightarrow> n | None \<Rightarrow> 0)"

definition select_rows :: "string \<Rightarrow> int \<Rightarrow> int \<Rightarrow> sql" where
  "select_rows name limit offset =
     RawSQL (''SELECT * FROM '' @ go_quote name @ '' LIMIT '' @ fmt_0d 0 limit @ '' OFFSET '' @ fmt_0d 0 offset)"

definition cell :: "sql_value \<Rightarrow> sql_value" where
  "cell v = (case v of SqlBytes b \<Rightarrow> SqlText b | _ \<Rightarrow> v)"

text \<open>A row as a map from columns; of two columns with one name the later one stays.\<close>

definition row_map :: "string list \<Rightarrow> sql_value list \<Rightarrow> (string, sql_value) gomap option" where
  "row_map columns row =
     (if length row \<noteq> length columns then None
      else Some (fold (\<lambda>(col, v) m. fmupd col (cell v) m) (zip columns row) fmempty))"

definition handleGetTable :: "pg_db \<Rightarrow> string \<Rightarrow> string \<Rightarrow> string \<Rightarrow> pg_server \<Rightarrow> response_pg" where
  "handleGetTable d tableName limitArg offsetArg s =
     (if tableName = [] then writeError_pg 400 TableNameRequired
      else case openDB d s of
        Some e \<Rightarrow> writeError_pg 500 (DatabaseError e)
      | None \<Rightarrow>
          (case scan_one scan_bool (QueryRow d (TableExists tableName)) of
             Inl _ \<Rightarrow> writeError_pg 404 (TableNotFound tableName)
           | Inr exists \<Rightarrow>
               if \<not> exists then writeError_pg 404 (TableNotFound tableName)
               else
                 let totalCount = row_count d tableName; limit = page_limit limitArg; offset = page_offset offsetArg in
                 case pd_query d (select_rows tableName limit offset) of
                   Inl e \<Rightarrow> writeError_pg 500 (DatabaseError e)
                 | Inr rs \<Rightarrow>
                     (case rs_columns rs of
                        Inl e \<Rightarrow> writeError_pg 500 (DatabaseError e)
                      | Inr columns \<Rightarrow>
                          writeJSON_pg 200 (PageBody \<lparr>tp_table = tableName, tp_columns = columns, tp_total = totalCount,
                            tp_limit = limit, tp_offset = offset, tp_rows = List.map_filter (row_map columns) (rs_rows rs)\<rparr>))))"

definition column_info :: "sql_value list \<Rightarrow> columnInfo option" where
  "column_info row =
     (case row of
        [a, b, c, e] \<Rightarrow>
          (case (scan_string a, scan_string b, scan_string c, scan_pointer e) of
             (Some name, Some ty, Some nullable, Some def) \<Rightarrow>
               Some \<lparr>ci_Name = name, ci_Type = ty, ci_Nullable = nullable, ci_Default = def\<rparr>
           | _ \<Rightarrow> None)
      | _ \<Rightarrow> None)"

definition handleGetSchema_pg :: "pg_db \<Rightarrow> string \<Rightarrow> pg_server \<Rightarrow> response_pg" where
  "handleGetSchema_pg d tableName s =
     (if tableName = [] then writeError_pg 400 TableNameRequired
      else case openDB d s of
        Some e \<Rightarrow> writeError_pg 500 (DatabaseError e)
      | None \<Rightarrow>
          (case pd_query d (ColumnsOf tableName) of
             Inl e \<Rightarrow> writeError_pg 500 (DatabaseError e)
           | Inr rs \<Rightarrow> writeJSON_pg 200 (SchemaBody tableName (List.map_filter column_info (rs_rows rs)))))"

section \<open>Routes\<close>

type_synonym pg_handler = "pg_db \<Rightarrow> http_request \<Rightarrow> path_values \<Rightarrow> pg_server \<Rightarrow> response_pg"

definition postgres_routes :: "(string \<times> pg_handler) list" where
  "postgres_routes =
    [(''GET /sim/stats'', \<lambda>d r v s. handleStats_pg d s),
     (''GET /sim/tables'', \<lambda>d r v s. handleListTables d s),
     (''GET /sim/tables/{name}'', \<lambda>d r v s. handleGetTable d (PathValue v ''name'') (Query_Get r ''limit'') (Query_Get r ''offset'') s),
     (''GET /sim/tables/{name}/schema'', \<lambda>d r v s. handleGetSchema_pg d (PathValue v ''name'') s)]"

definition run_postgres :: "pg_db \<Rightarrow> (pg_handler, response_pg, pg_server) runner" where
  "run_postgres d h r v s = (h d r v s, s)"

section \<open>Pages\<close>

lemma page_limit_range: "1 \<le> page_limit v" "page_limit v \<le> 1000"
  by (auto simp: page_limit_def Let_def split: option.splits)

lemma digits_token: "number_token (show_base 10 k) = show_base 10 k" "skip_space (show_base 10 k) = Some (show_base 10 k)"
proof -
  obtain c cs where s: "show_base 10 k = c # cs"
    using digits_rev_nonempty [of 10 k] by (cases "show_base 10 k") (auto simp: show_base_def)
  have all: "\<forall>x\<in>set (show_base 10 k). is_digit x" using show_base_chars by (auto simp: is_digit_def)
  then have "is_digit c" by (simp add: s)
  then have "c \<noteq> CHR ''-''" "c \<noteq> CHR ''+''" "c \<noteq> CHR '' ''" "c \<noteq> CHR 9" "c \<noteq> CHR 10" "c \<noteq> CHR 11" "c \<noteq> CHR 12" "c \<noteq> CHR 13"
    by (auto simp: is_digit_def less_eq_char_def)
  moreover have "takeWhile is_digit (show_base 10 k) = show_base 10 k" using all by (simp add: takeWhile_eq_all_conv)
  ultimately show "number_token (show_base 10 k) = show_base 10 k" "skip_space (show_base 10 k) = Some (show_base 10 k)"
    by (simp_all add: s number_token_def)
qed

lemma number_token_fmt: "skip_space (fmt_0d 0 n) = Some (fmt_0d 0 n)" "number_token (fmt_0d 0 n) = fmt_0d 0 n"
proof -
  have "\<forall>x\<in>set (show_base 10 k). is_digit x" for k using show_base_chars by (auto simp: is_digit_def)
  then have "takeWhile is_digit (show_base 10 k) = show_base 10 k" for k by (simp add: takeWhile_eq_all_conv)
  then show "skip_space (fmt_0d 0 n) = Some (fmt_0d 0 n)" "number_token (fmt_0d 0 n) = fmt_0d 0 n"
    using digits_token by (simp_all add: fmt_0d_def zero_pad_def number_token_def [of "CHR ''-'' # _"])
qed

lemma Sscanf_fmt: "MinInt64 \<le> n \<Longrightarrow> n \<le> MaxInt64 \<Longrightarrow> Sscanf_int (fmt_0d 0 n) = Some n"
  by (simp add: Sscanf_int_def number_token_fmt Atoi_fmt)

lemma fmt_nonempty: "fmt_0d 0 n \<noteq> []"
  by (simp add: fmt_0d_def zero_pad_def show_base_def digits_rev_nonempty)

lemma page_asked: "1 \<le> n \<Longrightarrow> n \<le> 1000 \<Longrightarrow> page_limit (fmt_0d 0 n) = n" "0 \<le> n \<Longrightarrow> n \<le> MaxInt64 \<Longrightarrow> page_offset (fmt_0d 0 n) = n"
  by (simp_all add: page_limit_def page_offset_def Sscanf_fmt fmt_nonempty)

text \<open>What the code relies on of the database for one table: it can be opened, the table is there, it can be counted, and a query
  with \<^verbatim>\<open>LIMIT\<close> and \<^verbatim>\<open>OFFSET\<close> gives that part of its rows, in one order that does not change between queries.\<close>

definition holds_table :: "pg_db \<Rightarrow> pg_server \<Rightarrow> string \<Rightarrow> string list \<Rightarrow> sql_value list list \<Rightarrow> bool" where
  "holds_table d s name cols contents \<longleftrightarrow>
     name \<noteq> [] \<and> openDB d s = None \<and> (\<forall>row\<in>set contents. length row = length cols) \<and>
     pd_query d (TableExists name) = Inr \<lparr>rs_columns = Inr [''exists''], rs_rows = [[SqlBool True]], rs_err = None\<rparr> \<and>
     pd_query d (count_rows name) = Inr \<lparr>rs_columns = Inr [''count''], rs_rows = [[SqlInt (int (length contents))]], rs_err = None\<rparr> \<and>
     (\<forall>limit offset. pd_query d (select_rows name (int limit) (int offset)) =
        Inr \<lparr>rs_columns = Inr cols, rs_rows = take limit (drop offset contents), rs_err = None\<rparr>)"

definition the_row :: "string list \<Rightarrow> sql_value list \<Rightarrow> (string, sql_value) gomap" where
  "the_row cols row = fold (\<lambda>(col, v) m. fmupd col (cell v) m) (zip cols row) fmempty"

lemma page_served:
  assumes "holds_table d s name cols contents" "1 \<le> n" "n \<le> 1000" "int k \<le> MaxInt64"
  shows "handleGetTable d name (fmt_0d 0 (int n)) (fmt_0d 0 (int k)) s =
    (200, PageBody \<lparr>tp_table = name, tp_columns = cols, tp_total = int (length contents), tp_limit = int n, tp_offset = int k,
       tp_rows = map (the_row cols) (take n (drop k contents))\<rparr>)"
proof -
  have rows: "List.map_filter (row_map cols) (take n (drop k contents)) = map (the_row cols) (take n (drop k contents))"
  proof -
    have "\<forall>row\<in>set (take n (drop k contents)). row_map cols row = Some (the_row cols row)"
      using assms(1) by (auto simp: holds_table_def row_map_def the_row_def dest!: in_set_takeD in_set_dropD)
    then show ?thesis by (induction "take n (drop k contents)") (auto simp: List.map_filter_def)
  qed
  have "page_limit (fmt_0d 0 (int n)) = int n" "page_offset (fmt_0d 0 (int k)) = int k" using page_asked assms by simp_all
  then show ?thesis
    using assms(1) rows
    by (simp add: handleGetTable_def holds_table_def QueryRow_def scan_one_def row_count_def writeJSON_pg_def)
qed

definition page_rows :: "response_pg \<Rightarrow> (string, sql_value) gomap list" where
  "page_rows r = (case snd r of PageBody p \<Rightarrow> tp_rows p | _ \<Rightarrow> [])"

lemma takes_and_drops: "concat (map (\<lambda>i. take n (drop (i * n) xs)) [0..<k]) = take (k * n) xs"
proof (induction k)
  case (Suc k)
  have "take (Suc k * n) xs = take (k * n) xs @ take n (drop (k * n) xs)"
    using take_add [of "k * n" n xs] by (simp add: add.commute)
  then show ?case using Suc by simp
qed simp


definition sample_pg :: pg_server where
  "sample_pg = New_postgres (\<lambda>_. []) ''5433'' ''8600''"

text \<open>A database with one table \<^verbatim>\<open>t\<close> of three rows, which reads the limit and the offset off the text of a query.\<close>

definition contents_pg :: "sql_value list list" where
  "contents_pg = [[SqlInt 1, SqlBytes ''a''], [SqlInt 2, SqlText ''b''], [SqlInt 3, SqlNull]]"

definition select_pg :: "string \<Rightarrow> string + result_set" where
  "select_pg t =
     (let rest = drop (length (''SELECT * FROM '' @ go_quote ''t'' @ '' LIMIT '')) t; l = takeWhile is_digit rest;
          k = drop (length l + length '' OFFSET '') rest
      in case (digits_value l, digits_value k) of
           (Some a, Some b) \<Rightarrow> Inr \<lparr>rs_columns = Inr [''id'', ''name''], rs_rows = take a (drop b contents_pg), rs_err = None\<rparr>
         | _ \<Rightarrow> Inl ''syntax error'')"

fun query_pg :: "sql \<Rightarrow> string + result_set" where
  "query_pg (TableExists n) = Inr \<lparr>rs_columns = Inr [''exists''], rs_rows = [[SqlBool (n = ''t'')]], rs_err = None\<rparr>"
| "query_pg (RawSQL t) =
     (if RawSQL t = count_rows ''t'' then Inr \<lparr>rs_columns = Inr [''count''], rs_rows = [[SqlInt 3]], rs_err = None\<rparr> else select_pg t)"
| "query_pg _ = Inl ''not supported''"

definition sample_db :: pg_db where
  "sample_db = \<lparr>pd_open = \<lambda>_. None, pd_query = query_pg\<rparr>"

lemma sample_select: "pd_query sample_db (select_rows ''t'' (int a) (int b)) =
  Inr \<lparr>rs_columns = Inr [''id'', ''name''], rs_rows = take a (drop b contents_pg), rs_err = None\<rparr>"
proof -
  have digits: "\<forall>x\<in>set (show_base 10 k). is_digit x" for k using show_base_chars by (auto simp: is_digit_def)
  have "\<not> is_digit (CHR '' '')" by (simp add: is_digit_def less_eq_char_def)
  then have "takeWhile is_digit (show_base 10 a @ '' OFFSET '' @ show_base 10 b) = show_base 10 a"
    using digits [of a] by (simp add: takeWhile_append)
  then show ?thesis
    by (simp add: sample_db_def select_rows_def count_rows_def select_pg_def fmt_0d_def zero_pad_def digits_value_show Let_def)
qed

lemma sample_holds: "holds_table sample_db sample_pg ''t'' [''id'', ''name''] contents_pg"
  by (simp add: holds_table_def sample_select) (simp add: sample_db_def openDB_def contents_pg_def count_rows_def)


section \<open>Quoting\<close>

text \<open>How SQL quotes a name: a double quote is doubled, everything else stands for itself.\<close>

definition sql_identifier :: "string \<Rightarrow> string" where
  "sql_identifier name = dq @ concat (map (\<lambda>c. if c = CHR 34 then [CHR 34, CHR 34] else [c]) name) @ dq"

definition ordinary :: "string \<Rightarrow> bool" where
  "ordinary name \<longleftrightarrow> list_all (\<lambda>c. 32 \<le> (of_char c :: nat) \<and> (of_char c :: nat) \<noteq> 127 \<and> c \<noteq> CHR 34 \<and> c \<noteq> CHR 92) name"

lemma ordinary_char:
  assumes "32 \<le> (of_char c :: nat)" "(of_char c :: nat) \<noteq> 127" "c \<noteq> CHR 34" "c \<noteq> CHR 92"
  shows "quote_char c = [c]"
proof -
  have not: "c \<noteq> x" if "(of_char x :: nat) < 32" for x using that assms(1) by auto
  have "c \<noteq> CHR 7" "c \<noteq> CHR 8" "c \<noteq> CHR 9" "c \<noteq> CHR 10" "c \<noteq> CHR 11" "c \<noteq> CHR 12" "c \<noteq> CHR 13"
    by (rule not, simp)+
  then show ?thesis using assms by (simp add: quote_char_def Let_def)
qed

lemma go_quote_ordinary: "ordinary name \<Longrightarrow> go_quote name = sql_identifier name"
  unfolding go_quote_def sql_identifier_def ordinary_def
  by (induction name) (auto simp: ordinary_char)

text \<open>A table whose name holds a double quote is quoted the Go way, which SQL reads as the end of the name.\<close>

lemma go_quote_is_not_sql:
  "go_quote [CHR ''a'', CHR 34, CHR ''b''] = [CHR 34, CHR ''a'', CHR 92, CHR 34, CHR ''b'', CHR 34] \<and>
   sql_identifier [CHR ''a'', CHR 34, CHR ''b''] = [CHR 34, CHR ''a'', CHR 34, CHR 34, CHR ''b'', CHR 34]"
  by (simp add: go_quote_def sql_identifier_def quote_char_def dq_def)

section \<open>Start and shutdown\<close>

text \<open>A start that succeeds and a shutdown that succeeds leave the machine as it was: no database, no temporary directory.\<close>

lemma start_then_shutdown:
  assumes "pl_starts l" "pl_stop l True = None" "mc_database m = None"
    and "pl_mkdir l = Some tmp" "tmp \<noteq> []" "tmp \<notin> set (mc_dirs m)" "pg_tmpDataDir s = []"
  shows "case Shutdown_postgres l (Start_postgres l (s, m)) of (err, s', m') \<Rightarrow> err = None \<and> m' = m"
  using assms by (auto simp: Start_postgres_def Shutdown_postgres_def Let_def removeAll_id)

text \<open>A start that fails leaves a temporary directory behind for good: the database was never started, so stopping it is an error
  of the library, and the directory is only removed behind that.\<close>

lemma failed_start_leaves_directory:
  assumes "\<not> pl_starts l" "pl_stop l False = Some err" "mc_database m = None"
    and "pl_mkdir l = Some tmp" "cf_DataDir (pg_config s) = []"
  shows "case Shutdown_postgres l (Start_postgres l (s, m)) of (e, s', m') \<Rightarrow> e \<noteq> None \<and> tmp \<in> set (mc_dirs m')"
  using assms by (simp add: Start_postgres_def Shutdown_postgres_def Let_def)

section \<open>Every request is answered\<close>

definition postgres_patterns :: "pattern list" where
  "postgres_patterns =
    [pat ''GET'' [Lit ''sim'', Lit ''stats''], pat ''GET'' [Lit ''sim'', Lit ''tables''],
     pat ''GET'' [Lit ''sim'', Lit ''tables'', Wild ''name''], pat ''GET'' [Lit ''sim'', Lit ''tables'', Wild ''name'', Lit ''schema'']]"

lemma postgres_reads: "reads_as (map fst postgres_routes) postgres_patterns"
  by code_simp

definition postgres_mux :: "pg_handler mux" where
  "postgres_mux = zip postgres_patterns (map snd postgres_routes)"

lemmas postgres_registers = register_by [OF postgres_reads, folded postgres_mux_def]

text \<open>An error status comes with an error body, and a success never does.\<close>

lemma pg_status:
  "fst (handleStats_pg d s) \<in> {200, 500}" "fst (handleListTables d s) \<in> {200, 500}"
  "fst (handleGetTable d n a b s) \<in> {200, 400, 404, 500}" "fst (handleGetSchema_pg d n s) \<in> {200, 400, 500}"
  by (auto simp: handleStats_pg_def handleListTables_def handleGetTable_def handleGetSchema_pg_def writeError_pg_def writeJSON_pg_def
      Let_def split: option.splits sum.splits)

end
