(* ===== verification/Processes.thy ===== *)
theory Processes
  imports Dashboard Postgres_Admin Seeding
begin

text \<open>
  The unified binary: \<^verbatim>\<open>cmd/cirrus-sim/main.go\<close> with the \<^verbatim>\<open>Start\<close> and \<^verbatim>\<open>Shutdown\<close> methods of the
  simulators it runs. The main goroutine is the list of the calls it has still to make; beside it
  run the goroutines of the HTTP servers, the RPC connections of libvirt-sim, the requests in
  flight and the timer of the shutdown, each a step of its own. What happens in between is any
  interleaving of these steps.
\<close>

section \<open>Ports and endpoints\<close>

definition envOrDefault :: "(string \<Rightarrow> string) \<Rightarrow> string \<Rightarrow> string \<Rightarrow> string" where
  "envOrDefault getenv key def = (let v = getenv key in if v \<noteq> [] then v else def)"

text \<open>The variables of the flags. \<open>flags\<close> gives the flags that stand on the command line.\<close>

record flag_settings =
  st_common :: string
  st_libvirt :: string
  st_ovn :: string
  st_awx :: string
  st_netbox :: string
  st_storage :: string
  st_dashboard :: string
  st_postgres :: string
  st_postgresMgmt :: string
  st_envFile :: string

definition flag_String :: "(string \<Rightarrow> string option) \<Rightarrow> string \<Rightarrow> string \<Rightarrow> string" where
  "flag_String flags name def = (case flags name of Some v \<Rightarrow> v | None \<Rightarrow> def)"

definition read_settings :: "(string \<Rightarrow> string option) \<Rightarrow> (string \<Rightarrow> string) \<Rightarrow> flag_settings" where
  "read_settings flags getenv =
    \<lparr>st_common = flag_String flags ''common'' (envOrDefault getenv ''COMMON_PORT'' ''8000''),
     st_libvirt = flag_String flags ''libvirt'' (envOrDefault getenv ''LIBVIRT_SIM_PORT'' ''8100''),
     st_ovn = flag_String flags ''ovn'' (envOrDefault getenv ''OVN_SIM_PORT'' ''8200''),
     st_awx = flag_String flags ''awx'' (envOrDefault getenv ''AWX_SIM_PORT'' ''8300''),
     st_netbox = flag_String flags ''netbox'' (envOrDefault getenv ''NETBOX_SIM_PORT'' ''8400''),
     st_storage = flag_String flags ''storage'' (envOrDefault getenv ''STORAGE_SIM_PORT'' ''8500''),
     st_dashboard = flag_String flags ''dashboard'' (envOrDefault getenv ''DASHBOARD_PORT'' ''8080''),
     st_postgres = flag_String flags ''postgres'' (envOrDefault getenv ''POSTGRES_PORT'' ''5432''),
     st_postgresMgmt = flag_String flags ''postgres-mgmt'' (envOrDefault getenv ''POSTGRES_MGMT_PORT'' ''8600''),
     st_envFile = flag_String flags ''env'' (envOrDefault getenv ''CIRRUS_SIM_ENV'' [])\<rparr>"

definition localhost :: "string \<Rightarrow> string" where
  "localhost port = ''http://localhost:'' @ port"

definition endpoints :: "flag_settings \<Rightarrow> Endpoints" where
  "endpoints c = fmap_of_list
    [(''common'', localhost (st_common c)),
     (''libvirt-sim'', localhost (st_libvirt c)),
     (''ovn-sim'', localhost (st_ovn c)),
     (''awx-sim'', localhost (st_awx c)),
     (''netbox-sim'', localhost (st_netbox c)),
     (''storage-sim'', localhost (st_storage c)),
     (''postgres'', localhost (st_postgresMgmt c))]"

text \<open>With no flag and no variable set these are the dashboard's own default endpoints and the database's.\<close>

lemma endpoints_default:
  "endpoints (read_settings (\<lambda>_. None) (\<lambda>_. [])) = fmupd ''postgres'' ''http://localhost:8600'' DefaultEndpoints"
  by (rule fmap_ext)
     (auto simp: endpoints_def DefaultEndpoints_def read_settings_def flag_String_def envOrDefault_def localhost_def)

lemma endpoints_names_ok: "names_ok (endpoints c)"
proof -
  have "fmdom' (endpoints c) = set (six_names @ [''postgres''])" by (simp add: endpoints_def six_names_def)
  moreover have "\<forall>name\<in>set (six_names @ [''postgres'']). name_ok name" by (simp add: six_names_def name_ok_def)
  ultimately show ?thesis by (metis names_ok_def fmdom'_notD)
qed

lemma unified_dashboard_built: "iteration_order (endpoints c) ks \<Longrightarrow> New_webui ks (endpoints c) \<noteq> None"
  using New_webui_ok(1) [OF endpoints_names_ok] by simp

section \<open>The process\<close>

text \<open>The simulators, in the order of the slice \<^verbatim>\<open>sims\<close>.\<close>

datatype sim = Postgres | CommonSim | LibvirtSim | OvnSim | AwxSim | NetboxSim | StorageSim | DashboardSim

definition sims :: "sim list" where
  "sims = [Postgres, CommonSim, LibvirtSim, OvnSim, AwxSim, NetboxSim, StorageSim, DashboardSim]"

text \<open>
  The calls of the main goroutine. \<open>CloseHTTP\<close> and \<open>AwaitHTTP\<close> are the two parts of
  \<^verbatim>\<open>http.Server.Shutdown\<close>: the listener and the idle connections are closed, then it waits for the
  other connections until the context ends. \<open>Reported\<close> is what the loop does with the result.
\<close>

datatype action =
    StartSim sim
  | SeedEnv
  | NotifyContext
  | AwaitSignal
  | StopRPC
  | AwaitRPC
  | ResetClusters
  | CloseHTTP sim
  | AwaitHTTP sim
  | StopDatabase
  | Reported sim

definition Shutdown_pg :: "action list" where
  "Shutdown_pg = [CloseHTTP Postgres, AwaitHTTP Postgres, StopDatabase]"

definition Shutdown_common :: "action list" where
  "Shutdown_common = [CloseHTTP CommonSim, AwaitHTTP CommonSim]"

definition Shutdown_libvirt :: "action list" where
  "Shutdown_libvirt = [StopRPC, AwaitRPC, CloseHTTP LibvirtSim, AwaitHTTP LibvirtSim]"

definition Shutdown_ovn :: "action list" where
  "Shutdown_ovn = [ResetClusters, CloseHTTP OvnSim, AwaitHTTP OvnSim]"

definition Shutdown_awx :: "action list" where
  "Shutdown_awx = [CloseHTTP AwxSim, AwaitHTTP AwxSim]"

definition Shutdown_netbox :: "action list" where
  "Shutdown_netbox = [CloseHTTP NetboxSim, AwaitHTTP NetboxSim]"

definition Shutdown_storage :: "action list" where
  "Shutdown_storage = [CloseHTTP StorageSim, AwaitHTTP StorageSim]"

definition Shutdown_webui :: "action list" where
  "Shutdown_webui = [CloseHTTP DashboardSim, AwaitHTTP DashboardSim]"

fun Shutdown_calls :: "sim \<Rightarrow> action list" where
  "Shutdown_calls Postgres = Shutdown_pg"
| "Shutdown_calls CommonSim = Shutdown_common"
| "Shutdown_calls LibvirtSim = Shutdown_libvirt"
| "Shutdown_calls OvnSim = Shutdown_ovn"
| "Shutdown_calls AwxSim = Shutdown_awx"
| "Shutdown_calls NetboxSim = Shutdown_netbox"
| "Shutdown_calls StorageSim = Shutdown_storage"
| "Shutdown_calls DashboardSim = Shutdown_webui"

lemmas shutdown_methods [simp] = Shutdown_pg_def Shutdown_common_def Shutdown_libvirt_def Shutdown_ovn_def Shutdown_awx_def
  Shutdown_netbox_def Shutdown_storage_def Shutdown_webui_def

definition shutdown_loop :: "sim list \<Rightarrow> action list" where
  "shutdown_loop ns = concat (map (\<lambda>n. Shutdown_calls n @ [Reported n]) (rev ns))"

definition main_calls :: "action list" where
  "main_calls = map StartSim sims @ [SeedEnv, NotifyContext, AwaitSignal] @ shutdown_loop sims"

text \<open>
  A server between \<^verbatim>\<open>New\<close> and its end: \<open>Spawned\<close> when its goroutine exists and has not yet
  asked for the port. A server that was shut down never listens again.
\<close>

datatype http_phase = Fresh | Spawned | Listening | ListenFailed_http | Closed

datatype main_phase = Calling "action list" | Exited nat | Killed

text \<open>
  \<open>p_active\<close>: the connections of each HTTP server that are not idle. \<open>p_conns\<close>: the RPC
  connections of libvirt-sim whose goroutine runs. \<open>p_err\<close>: the result of the \<^verbatim>\<open>Shutdown\<close> in
  progress. \<open>p_log\<close>: what the shutdown loop has logged, \<open>True\<close> for \<^verbatim>\<open>stopped\<close>.
\<close>

record process =
  p_main :: main_phase
  p_http :: "sim \<Rightarrow> http_phase"
  p_active :: "sim \<Rightarrow> nat"
  p_conns :: nat
  p_sims :: Simulators
  p_pg :: pg_server
  p_machine :: machine
  p_signalled :: bool
  p_expired :: bool
  p_err :: bool
  p_log :: "(sim \<times> bool) list"

text \<open>What the process finds around it, the same throughout a run.\<close>

record start_env =
  bo_flags :: "string \<Rightarrow> string option"
  bo_getenv :: "string \<Rightarrow> string"
  bo_pg :: pg_lib
  bo_lib :: lib
  bo_clock :: clock
  bo_listen :: "int \<Rightarrow> bool"
  bo_yaml :: "string \<Rightarrow> string + EnvironmentDef"
  bo_file :: "string \<Rightarrow> string option"

abbreviation conf :: "start_env \<Rightarrow> flag_settings" where
  "conf b \<equiv> read_settings (bo_flags b) (bo_getenv b)"

text \<open>The process when every \<^verbatim>\<open>New\<close> has returned.\<close>

definition started :: "start_env \<Rightarrow> process" where
  "started b =
    \<lparr>p_main = Calling main_calls, p_http = (\<lambda>_. Fresh), p_active = (\<lambda>_. 0), p_conns = 0, p_sims = no_simulators,
     p_pg = New_postgres (bo_getenv b) (st_postgres (conf b)) (st_postgresMgmt (conf b)),
     p_machine = \<lparr>mc_dirs = [], mc_database = None\<rparr>,
     p_signalled = False, p_expired = False, p_err = False, p_log = []\<rparr>"

text \<open>\<^verbatim>\<open>main\<close> up to there: \<open>None\<close> stands for a command line that cannot be parsed.\<close>

definition main_cirrus :: "bool option \<Rightarrow> start_env \<Rightarrow> process" where
  "main_cirrus showVersion b =
     (case showVersion of
        None \<Rightarrow> (started b)\<lparr>p_main := Exited 2\<rparr>
      | Some True \<Rightarrow> (started b)\<lparr>p_main := Exited 0\<rparr>
      | Some False \<Rightarrow> started b)"

definition set_http :: "sim \<Rightarrow> http_phase \<Rightarrow> process \<Rightarrow> process" where
  "set_http n h s = s\<lparr>p_http := (p_http s)(n := h)\<rparr>"

text \<open>\<^verbatim>\<open>Start\<close>: PostgreSQL is started before the method returns, the other servers by their goroutine.\<close>

definition Start_pg :: "start_env \<Rightarrow> process \<Rightarrow> process" where
  "Start_pg b s =
     (case Start_postgres (bo_pg b) (p_pg s, p_machine s) of
        (pg, m) \<Rightarrow> (if pg_serving pg then set_http Postgres Spawned else id) (s\<lparr>p_pg := pg, p_machine := m\<rparr>))"

definition Start_common :: "process \<Rightarrow> process" where
  "Start_common = set_http CommonSim Spawned"

definition Start_libvirt :: "process \<Rightarrow> process" where
  "Start_libvirt = set_http LibvirtSim Spawned"

definition Start_ovn :: "process \<Rightarrow> process" where
  "Start_ovn = set_http OvnSim Spawned"

definition Start_awx :: "process \<Rightarrow> process" where
  "Start_awx = set_http AwxSim Spawned"

definition Start_netbox :: "process \<Rightarrow> process" where
  "Start_netbox = set_http NetboxSim Spawned"

definition Start_storage :: "process \<Rightarrow> process" where
  "Start_storage = set_http StorageSim Spawned"

definition Start_webui :: "process \<Rightarrow> process" where
  "Start_webui = set_http DashboardSim Spawned"

fun Start_sim :: "start_env \<Rightarrow> sim \<Rightarrow> process \<Rightarrow> process" where
  "Start_sim b Postgres = Start_pg b"
| "Start_sim b CommonSim = Start_common"
| "Start_sim b LibvirtSim = Start_libvirt"
| "Start_sim b OvnSim = Start_ovn"
| "Start_sim b AwxSim = Start_awx"
| "Start_sim b NetboxSim = Start_netbox"
| "Start_sim b StorageSim = Start_storage"
| "Start_sim b DashboardSim = Start_webui"

lemmas start_methods [simp] = Start_common_def Start_libvirt_def Start_ovn_def Start_awx_def Start_netbox_def Start_storage_def Start_webui_def
  Start_pg_def

text \<open>
  One call of the main goroutine: \<open>None\<close> while it blocks. \<^verbatim>\<open>Wait\<close> of the RPC server waits for the
  accept loops and the connections; \<^verbatim>\<open>Reset\<close> of the cluster manager closes the connections it waits for.
  PostgreSQL has no HTTP server to close when it was never started, and ignores the result of closing it.
\<close>

fun do_call :: "start_env \<Rightarrow> action \<Rightarrow> process \<Rightarrow> process option" where
  "do_call b (StartSim n) s = Some (Start_sim b n s)"
| "do_call b SeedEnv s =
     (if st_envFile (conf b) = [] then Some s
      else case seedFromEnvFile (bo_lib b) (bo_clock b) (bo_listen b) (bo_getenv b) (bo_yaml b)
                  (bo_file b (st_envFile (conf b))) (p_sims s) of
        (None, ss) \<Rightarrow> Some (s\<lparr>p_sims := ss\<rparr>)
      | (Some e, ss) \<Rightarrow> Some (s\<lparr>p_sims := ss, p_main := Exited 1\<rparr>))"
| "do_call b NotifyContext s = Some s"
| "do_call b AwaitSignal s = (if p_signalled s then Some s else None)"
| "do_call b StopRPC s = Some (s\<lparr>p_sims := (p_sims s)\<lparr>si_libvirt := StopAll (si_libvirt (p_sims s))\<rparr>\<rparr>)"
| "do_call b AwaitRPC s =
     (if p_conns s = 0 \<and> w_listeners (si_libvirt (p_sims s)) = fmempty then Some s else None)"
| "do_call b ResetClusters s = Some (s\<lparr>p_sims := (p_sims s)\<lparr>si_ovn := Reset_ovn (si_ovn (p_sims s))\<rparr>\<rparr>)"
| "do_call b (CloseHTTP n) s =
     (if n = Postgres \<and> \<not> pg_serving (p_pg s) then Some s else Some (set_http n Closed s))"
| "do_call b (AwaitHTTP n) s =
     (if p_active s n = 0 then Some (s\<lparr>p_err := False\<rparr>)
      else if p_expired s then Some (s\<lparr>p_err := n \<noteq> Postgres\<rparr>)
      else None)"
| "do_call b StopDatabase s =
     (case Shutdown_postgres (bo_pg b) (p_pg s, p_machine s) of
        (err, pg, m) \<Rightarrow> Some (s\<lparr>p_pg := pg, p_machine := m, p_err := (err \<noteq> None)\<rparr>))"
| "do_call b (Reported n) s = Some (s\<lparr>p_log := p_log s @ [(n, \<not> p_err s)]\<rparr>)"

section \<open>Steps\<close>

text \<open>
  \<open>Main\<close>: the next call. \<open>Serves\<close>: the goroutine of a server asks for its port. \<open>Signal\<close>: SIGINT
  or SIGTERM, which kills the process until \<^verbatim>\<open>NotifyContext\<close> has been called and is kept for it
  afterwards. \<open>TimeOver\<close>: the ten seconds of the shutdown are over. \<open>Begins\<close>, \<open>Ends\<close>: a connection
  becomes busy and idle. \<open>Manages\<close>, \<open>Manages_ovn\<close>, \<open>Stores\<close>, \<open>Inventories\<close>: a request on a busy connection is served.
  \<open>Connects\<close>, \<open>Talks\<close>, \<open>Disconnects\<close>: an RPC client of libvirt-sim.
\<close>

datatype process_label =
    Main
  | Serves sim bool
  | Signal
  | TimeOver
  | Begins sim
  | Ends sim
  | Manages libvirt_env http_request
  | Manages_ovn ovn_env http_request
  | Stores storage_json "int \<times> string list" http_request
  | Inventories netbox_env http_request
  | Connects
  | Talks environment "reason \<Rightarrow> string" string conn "byte list"
  | Disconnects

fun remaining :: "main_phase \<Rightarrow> action list" where
  "remaining (Calling as) = as"
| "remaining _ = []"

definition alive :: "process \<Rightarrow> bool" where
  "alive s \<longleftrightarrow> (\<exists>as. p_main s = Calling as)"

text \<open>After the last call \<^verbatim>\<open>main\<close> returns and the process exits with status 0.\<close>

definition Main_step :: "start_env \<Rightarrow> process \<Rightarrow> process option" where
  "Main_step b s =
     (case p_main s of
        Calling (a # as) \<Rightarrow> do_call b a (s\<lparr>p_main := Calling as\<rparr>)
      | Calling [] \<Rightarrow> Some (s\<lparr>p_main := Exited 0\<rparr>)
      | _ \<Rightarrow> None)"

fun perform :: "start_env \<Rightarrow> process_label \<Rightarrow> process \<Rightarrow> process option" where
  "perform b Main s = Main_step b s"
| "perform b (Serves n ok) s =
     (if p_http s n = Spawned then Some (set_http n (if ok then Listening else ListenFailed_http) s) else None)"
| "perform b Signal s =
     Some (if NotifyContext \<in> set (remaining (p_main s)) then s\<lparr>p_main := Killed\<rparr> else s\<lparr>p_signalled := True\<rparr>)"
| "perform b TimeOver s =
     (if AwaitSignal \<in> set (remaining (p_main s)) then None else Some (s\<lparr>p_expired := True\<rparr>))"
| "perform b (Begins n) s =
     (if p_http s n = Listening then Some (s\<lparr>p_active := (p_active s)(n := Suc (p_active s n))\<rparr>) else None)"
| "perform b (Ends n) s =
     (if p_active s n > 0 then Some (s\<lparr>p_active := (p_active s)(n := p_active s n - 1)\<rparr>) else None)"
| "perform b (Manages e r) s =
     (if p_active s LibvirtSim > 0
      then Some (s\<lparr>p_sims := (p_sims s)\<lparr>si_libvirt := snd (ServeHTTP (run_libvirt e) libvirt_mux r (si_libvirt (p_sims s)))\<rparr>\<rparr>) else None)"
| "perform b (Manages_ovn e r) s =
     (if p_active s OvnSim > 0
      then Some (s\<lparr>p_sims := (p_sims s)\<lparr>si_ovn := snd (ServeHTTP (run_ovn e) ovn_mux r (si_ovn (p_sims s)))\<rparr>\<rparr>) else None)"
| "perform b (Stores J e r) s =
     (if p_active s StorageSim > 0
      then Some (s\<lparr>p_sims := (p_sims s)\<lparr>si_storage := snd (ServeHTTP (run_storage e) (storage_mux J) r (si_storage (p_sims s)))\<rparr>\<rparr>) else None)"
| "perform b (Inventories e r) s =
     (if p_active s NetboxSim > 0
      then Some (s\<lparr>p_sims := (p_sims s)\<lparr>si_netbox := snd (ServeHTTP (run_netbox e) netbox_mux r (si_netbox (p_sims s)))\<rparr>\<rparr>) else None)"
| "perform b (Talks env tx hid c stream) s =
     (if p_conns s > 0
      then Some (s\<lparr>p_sims := (p_sims s)\<lparr>si_libvirt := happen (Connection env tx hid c stream) (si_libvirt (p_sims s))\<rparr>\<rparr>) else None)"
| "perform b Connects s =
     (if w_listeners (si_libvirt (p_sims s)) \<noteq> fmempty then Some (s\<lparr>p_conns := Suc (p_conns s)\<rparr>) else None)"
| "perform b Disconnects s = (if p_conns s > 0 then Some (s\<lparr>p_conns := p_conns s - 1\<rparr>) else None)"

definition takes :: "start_env \<Rightarrow> process_label \<Rightarrow> process \<Rightarrow> process option" where
  "takes b l s = (if alive s then perform b l s else None)"

inductive step_process :: "start_env \<Rightarrow> process \<Rightarrow> process_label \<Rightarrow> process \<Rightarrow> bool" for b where
  "takes b l s = Some t \<Longrightarrow> step_process b s l t"

inductive_simps step_process_iff: "step_process b s l t"

abbreviation run_process :: "start_env \<Rightarrow> process \<Rightarrow> process_label list \<Rightarrow> process \<Rightarrow> bool" where
  "run_process b \<equiv> guarded_run (step_process b) (\<lambda>s l. True)"

interpretation process_play: playable "step_process b" "takes b" for b
  by unfold_locales (simp add: step_process_iff)

section \<open>How far the main goroutine has come\<close>

text \<open>No call is made twice, so what lies behind the next call is determined by it.\<close>

lemma main_calls_unfold:
  "main_calls =
    [StartSim Postgres, StartSim CommonSim, StartSim LibvirtSim, StartSim OvnSim, StartSim AwxSim, StartSim NetboxSim,
     StartSim StorageSim, StartSim DashboardSim, SeedEnv, NotifyContext, AwaitSignal,
     CloseHTTP DashboardSim, AwaitHTTP DashboardSim, Reported DashboardSim,
     CloseHTTP StorageSim, AwaitHTTP StorageSim, Reported StorageSim,
     CloseHTTP NetboxSim, AwaitHTTP NetboxSim, Reported NetboxSim,
     CloseHTTP AwxSim, AwaitHTTP AwxSim, Reported AwxSim,
     ResetClusters, CloseHTTP OvnSim, AwaitHTTP OvnSim, Reported OvnSim,
     StopRPC, AwaitRPC, CloseHTTP LibvirtSim, AwaitHTTP LibvirtSim, Reported LibvirtSim,
     CloseHTTP CommonSim, AwaitHTTP CommonSim, Reported CommonSim,
     CloseHTTP Postgres, AwaitHTTP Postgres, StopDatabase, Reported Postgres]"
  by (simp add: main_calls_def shutdown_loop_def sims_def)

lemma made_once:
  assumes "main_calls = ms @ a # as"
  shows "a \<notin> set ms"
proof -
  have "distinct main_calls" by (simp add: main_calls_unfold)
  then show ?thesis unfolding assms by simp
qed

lemma made_before:
  assumes "main_calls = ms @ a # as"
  shows "ms = takeWhile (\<lambda>x. x \<noteq> a) main_calls"
  unfolding assms using made_once [OF assms] by (subst takeWhile_append2) auto

lemma calls_in_order:
  assumes "main_calls = ms @ a # as"
  shows "a = StartSim n \<Longrightarrow> CloseHTTP n \<notin> set ms \<and> StopDatabase \<notin> set ms"
    "a = AwaitHTTP n \<Longrightarrow> CloseHTTP n \<in> set ms \<and> StopDatabase \<notin> set ms"
    "a = CloseHTTP n \<Longrightarrow> StartSim n \<in> set ms \<and> StopDatabase \<notin> set ms"
    "a = StopDatabase \<Longrightarrow> StartSim Postgres \<in> set ms \<and> Reported Postgres \<notin> set ms \<and> CloseHTTP Postgres \<in> set ms"
    "a = Reported n \<Longrightarrow> StopDatabase \<in> set ms \<longleftrightarrow> n = Postgres"
    "a = Reported n \<Longrightarrow> AwaitHTTP n \<in> set ms \<and> Reported n \<notin> set ms"
  unfolding made_before [OF assms] by (cases n; simp add: main_calls_unfold)+

text \<open>The database and its directory are where the calls made so far have put them.\<close>

definition pg_initial :: "start_env \<Rightarrow> pg_server \<times> machine" where
  "pg_initial b = (p_pg (started b), p_machine (started b))"

definition pg_at :: "start_env \<Rightarrow> action list \<Rightarrow> pg_server \<times> machine" where
  "pg_at b ms =
     (let s0 = pg_initial b; s1 = Start_postgres (bo_pg b) s0
      in if StopDatabase \<in> set ms then snd (Shutdown_postgres (bo_pg b) s1) else if StartSim Postgres \<in> set ms then s1 else s0)"

definition stop_error :: "start_env \<Rightarrow> bool" where
  "stop_error b \<longleftrightarrow> fst (Shutdown_postgres (bo_pg b) (Start_postgres (bo_pg b) (pg_initial b))) \<noteq> None"

fun reported :: "action list \<Rightarrow> sim list" where
  "reported [] = []"
| "reported (Reported n # as) = n # reported as"
| "reported (a # as) = reported as"

lemma reported_append [simp]: "reported (as @ bs) = reported as @ reported bs"
  by (induction as rule: reported.induct) simp_all

lemma reported_main: "reported main_calls = rev sims"
  by (simp add: main_calls_unfold sims_def)

text \<open>What holds when the calls \<open>ms\<close> have been made.\<close>

definition after_calls :: "start_env \<Rightarrow> action list \<Rightarrow> process \<Rightarrow> bool" where
  "after_calls b ms s \<longleftrightarrow>
     map fst (p_log s) = reported ms \<and>
     (p_pg s, p_machine s) = pg_at b ms \<and>
     (p_http s Postgres = Fresh \<longleftrightarrow> \<not> pg_serving (p_pg s)) \<and>
     (\<forall>n. p_http s n = Closed \<longrightarrow> CloseHTTP n \<in> set ms) \<and>
     (\<forall>n. CloseHTTP n \<in> set ms \<longrightarrow> p_http s n = Closed \<or> n = Postgres \<and> p_http s n = Fresh) \<and>
     (\<forall>n. p_http s n = Fresh \<longrightarrow> p_active s n = 0) \<and>
     (p_expired s \<or> (\<forall>n. AwaitHTTP n \<in> set ms \<longrightarrow> p_active s n = 0)) \<and>
     (StopDatabase \<in> set ms \<longrightarrow> p_err s = stop_error b) \<and>
     (p_expired s \<or> StopDatabase \<in> set ms \<or> \<not> p_err s) \<and>
     (\<forall>ok. (Postgres, ok) \<in> set (p_log s) \<longrightarrow> ok = (\<not> stop_error b)) \<and>
     (p_expired s \<or> (\<forall>n ok. (n, ok) \<in> set (p_log s) \<longrightarrow> n \<noteq> Postgres \<longrightarrow> ok))"

lemma Start_serving_Fresh: "\<not> pg_serving (fst (pg_initial b))" "pg_at b [] = pg_initial b"
  by (simp_all add: pg_initial_def started_def New_postgres_def Let_def pg_at_def)

lemma after_calls_started: "after_calls b [] (started b)"
  using Start_serving_Fresh(1) [of b]
  by (simp add: after_calls_def started_def pg_at_def pg_initial_def New_postgres_def Let_def)



text \<open>Every call of the main goroutine leads from one to the next.\<close>

lemma postgres_started:
  "StartSim Postgres \<in> set ms \<Longrightarrow> StopDatabase \<notin> set ms \<Longrightarrow> pg_at b ms = Start_postgres (bo_pg b) (pg_initial b)"
  "StartSim Postgres \<notin> set ms \<Longrightarrow> StopDatabase \<notin> set ms \<Longrightarrow> pg_at b ms = pg_initial b"
  by (simp_all add: pg_at_def)

lemma Shutdown_serving: "pg_serving (fst (snd (Shutdown_postgres l sm))) = pg_serving (fst sm)"
  by (cases sm) (simp add: Shutdown_postgres_def Let_def split: option.split)

lemma call_start:
  assumes "after_calls b ms s" "main_calls = ms @ StartSim n # as"
  shows "after_calls b (ms @ [StartSim n]) (Start_sim b n s)"
proof (cases "n = Postgres")
  case True
  have first: "StartSim Postgres \<notin> set ms" "StopDatabase \<notin> set ms" "CloseHTTP Postgres \<notin> set ms"
    using made_once [OF assms(2)] calls_in_order(1) [OF assms(2)] True by simp_all
  have pg: "(p_pg s, p_machine s) = pg_initial b" using assms(1) first by (simp add: after_calls_def postgres_started)
  then have "pg_serving (p_pg s) = pg_serving (fst (pg_initial b))" by (metis fst_conv)
  then have fresh: "p_http s Postgres = Fresh" using assms(1) Start_serving_Fresh(1) [of b] by (simp add: after_calls_def)
  obtain pg m where st: "Start_postgres (bo_pg b) (pg_initial b) = (pg, m)" by fastforce
  have "pg_at b (ms @ [StartSim Postgres]) = (pg, m)" using first st by (simp add: pg_at_def)
  then show ?thesis
    using assms(1) first fresh unfolding True Start_sim.simps start_methods pg st after_calls_def
    by (auto simp: set_http_def)
next
  case False
  then have "Start_sim b n s = set_http n Spawned s" by (cases n) simp_all
  then show ?thesis
    using assms(1) calls_in_order(1) [OF assms(2)] False by (auto simp: after_calls_def set_http_def pg_at_def)
qed

lemma call_close:
  assumes "after_calls b ms s" "main_calls = ms @ CloseHTTP n # as"
  shows "after_calls b (ms @ [CloseHTTP n]) (if n = Postgres \<and> \<not> pg_serving (p_pg s) then s else set_http n Closed s)"
  using assms(1) calls_in_order(3) [OF assms(2)] by (auto simp: after_calls_def set_http_def pg_at_def)

lemma call_await:
  assumes "after_calls b ms s" "main_calls = ms @ AwaitHTTP n # as"
  shows "p_active s n = 0 \<Longrightarrow> after_calls b (ms @ [AwaitHTTP n]) (s\<lparr>p_err := False\<rparr>)"
    "p_expired s \<Longrightarrow> after_calls b (ms @ [AwaitHTTP n]) (s\<lparr>p_err := e\<rparr>)"
  using assms(1) calls_in_order(2) [OF assms(2)] by (auto simp: after_calls_def pg_at_def)

lemma call_stop:
  assumes "after_calls b ms s" "main_calls = ms @ StopDatabase # as"
  shows "after_calls b (ms @ [StopDatabase])
    (case Shutdown_postgres (bo_pg b) (p_pg s, p_machine s) of (err, pg, m) \<Rightarrow> s\<lparr>p_pg := pg, p_machine := m, p_err := (err \<noteq> None)\<rparr>)"
proof -
  have no: "StopDatabase \<notin> set ms" using made_once [OF assms(2)] .
  have pg: "(p_pg s, p_machine s) = Start_postgres (bo_pg b) (pg_initial b)"
    using assms(1) calls_in_order(4) [OF assms(2)] no by (simp add: after_calls_def postgres_started)
  obtain err pg m where sh: "Shutdown_postgres (bo_pg b) (p_pg s, p_machine s) = (err, pg, m)" by (metis prod_cases3)
  have "pg_serving pg = pg_serving (p_pg s)" using Shutdown_serving [of "bo_pg b" "(p_pg s, p_machine s)"] sh by simp
  moreover have "Reported Postgres \<notin> set ms" using calls_in_order(4) [OF assms(2)] by simp
  ultimately show ?thesis
    using assms(1) no sh pg by (auto simp: after_calls_def pg_at_def stop_error_def)
qed

lemma call_report:
  assumes "after_calls b ms s" "main_calls = ms @ Reported n # as"
  shows "after_calls b (ms @ [Reported n]) (s\<lparr>p_log := p_log s @ [(n, \<not> p_err s)]\<rparr>)"
  using assms(1) calls_in_order(5,6) [OF assms(2)] by (auto simp: after_calls_def pg_at_def)

definition keeps_order :: "start_env \<Rightarrow> process \<Rightarrow> bool" where
  "keeps_order b s \<longleftrightarrow>
     (case p_main s of
        Calling as \<Rightarrow> \<exists>ms. main_calls = ms @ as \<and> after_calls b ms s
      | Exited code \<Rightarrow> after_calls b (if code = 0 then main_calls else map StartSim sims) s
      | Killed \<Rightarrow> True)"

text \<open>The calls that touch neither the HTTP servers nor the database nor the log.\<close>

definition silent :: "action \<Rightarrow> bool" where
  "silent a \<longleftrightarrow> a \<in> {SeedEnv, NotifyContext, AwaitSignal, StopRPC, AwaitRPC, ResetClusters}"

lemma after_silent: "silent a \<Longrightarrow> after_calls b (ms @ [a]) s \<longleftrightarrow> after_calls b ms s"
proof -
  assume a: "silent a"
  then have "pg_at b (ms @ [a]) = pg_at b ms" "reported (ms @ [a]) = reported ms"
    by (auto simp: silent_def pg_at_def Let_def)
  moreover have "CloseHTTP n \<in> set (ms @ [a]) \<longleftrightarrow> CloseHTTP n \<in> set ms" "AwaitHTTP n \<in> set (ms @ [a]) \<longleftrightarrow> AwaitHTTP n \<in> set ms"
    "StopDatabase \<in> set (ms @ [a]) \<longleftrightarrow> StopDatabase \<in> set ms" for n
    using a by (auto simp: silent_def)
  ultimately show ?thesis by (simp only: after_calls_def)
qed

lemma after_calls_cong:
  "after_calls b ms (s\<lparr>p_main := x\<rparr>) \<longleftrightarrow> after_calls b ms s"
  "after_calls b ms (s\<lparr>p_sims := y\<rparr>) \<longleftrightarrow> after_calls b ms s"
  "after_calls b ms (s\<lparr>p_signalled := z\<rparr>) \<longleftrightarrow> after_calls b ms s"
  "after_calls b ms (s\<lparr>p_conns := k\<rparr>) \<longleftrightarrow> after_calls b ms s"
  by (simp_all add: after_calls_def)

lemma do_call_after:
  assumes "main_calls = ms @ a # as" "after_calls b ms s" "do_call b a s = Some t" "p_main s = Calling as"
  shows "p_main t = Calling as \<and> after_calls b (ms @ [a]) t \<or> a = SeedEnv \<and> p_main t = Exited 1 \<and> after_calls b ms t"
proof (cases a)
  case (StartSim n)
  have "p_main (Start_sim b n s) = p_main s" by (cases n) (simp_all add: set_http_def split: prod.split)
  then show ?thesis using assms call_start [of b ms s n as] StartSim by simp
next
  case SeedEnv
  then show ?thesis
    using assms by (auto simp: silent_def after_silent after_calls_cong split: if_splits prod.splits option.splits)
next
  case (CloseHTTP n)
  then show ?thesis using assms call_close [of b ms s n as] by (auto simp: set_http_def split: if_splits)
next
  case (AwaitHTTP n)
  then show ?thesis using assms call_await [of b ms s n as] by (auto split: if_splits)
next
  case StopDatabase
  then show ?thesis using assms call_stop [of b ms s as] by (auto split: prod.splits)
next
  case (Reported n)
  then show ?thesis using assms call_report [of b ms s n as] by auto
qed (use assms in \<open>auto simp: silent_def after_silent after_calls_cong split: if_splits\<close>)

lemma seeding_place: "main_calls = ms @ SeedEnv # as \<Longrightarrow> ms = map StartSim sims"
  by (drule made_before) (simp add: main_calls_unfold sims_def)

lemma Main_step_orderly:
  assumes "keeps_order b s" "Main_step b s = Some t"
  shows "keeps_order b t"
proof (cases "p_main s")
  case (Calling cs)
  then obtain ms where ms: "main_calls = ms @ cs" "after_calls b ms s" using assms(1) by (auto simp: keeps_order_def)
  show ?thesis
  proof (cases cs)
    case Nil
    then show ?thesis using ms Calling assms(2) by (auto simp: Main_step_def keeps_order_def after_calls_cong)
  next
    case (Cons a as)
    have call: "do_call b a (s\<lparr>p_main := Calling as\<rparr>) = Some t" using Cons Calling assms(2) by (simp add: Main_step_def)
    have "main_calls = ms @ a # as" using ms(1) Cons by simp
    then show ?thesis
      using do_call_after [OF _ _ call] ms(2) seeding_place by (fastforce simp: keeps_order_def after_calls_cong)
  qed
qed (use assms(2) in \<open>simp_all add: Main_step_def\<close>)

text \<open>The other steps keep what holds after the calls made so far.\<close>

lemma closed_before_awaited:
  assumes "main_calls = ms @ as" "AwaitHTTP n \<in> set ms"
  shows "CloseHTTP n \<in> set ms"
proof -
  obtain xs ys where ms: "ms = xs @ AwaitHTTP n # ys" using assms(2) by (meson split_list)
  then have "main_calls = xs @ AwaitHTTP n # (ys @ as)" using assms(1) by simp
  from calls_in_order(2) [OF this] ms show ?thesis by simp
qed

lemma busy_after:
  assumes "after_calls b ms s" "main_calls = ms @ as" "p_http s n = Listening"
  shows "after_calls b ms (s\<lparr>p_active := (p_active s)(n := Suc (p_active s n))\<rparr>)"
proof -
  have "CloseHTTP n \<notin> set ms" using assms(1,3) by (auto simp: after_calls_def)
  then have "AwaitHTTP n \<notin> set ms" using closed_before_awaited [OF assms(2)] by blast
  then show ?thesis using assms(1,3) by (simp add: after_calls_def) blast
qed

lemma served_after:
  assumes "after_calls b ms s" "p_http s n = Spawned" "h \<noteq> Closed" "h \<noteq> Fresh"
  shows "after_calls b ms (set_http n h s)"
proof -
  have "CloseHTTP n \<notin> set ms" using assms(1,2) by (auto simp: after_calls_def)
  then show ?thesis using assms by (simp add: after_calls_def set_http_def) (metis http_phase.distinct(1))
qed

lemma idle_after: "after_calls b ms s \<Longrightarrow> after_calls b ms (s\<lparr>p_active := (p_active s)(n := p_active s n - 1)\<rparr>)"
  by (auto simp: after_calls_def)

lemma expired_after: "after_calls b ms s \<Longrightarrow> after_calls b ms (s\<lparr>p_expired := True\<rparr>)"
  by (simp add: after_calls_def)

lemma others_after:
  assumes "after_calls b ms s" "main_calls = ms @ as" "perform b l s = Some t" "l \<noteq> Main"
  shows "after_calls b ms t \<and> (p_main t = p_main s \<or> p_main t = Killed)"
proof (cases l)
  case (Serves n ok)
  then show ?thesis
    using assms(3) served_after [OF assms(1), of n "if ok then Listening else ListenFailed_http"]
    by (auto simp: set_http_def split: if_splits)
next
  case (Begins n)
  then show ?thesis using assms(3) busy_after [OF assms(1,2), of n] by (auto split: if_splits)
next
  case (Ends n)
  then show ?thesis using assms(3) idle_after [OF assms(1), of n] by (auto split: if_splits)
next
  case TimeOver
  then show ?thesis using assms(3) expired_after [OF assms(1)] by (auto split: if_splits)
qed (use assms(1,3,4) in \<open>auto simp: after_calls_cong split: if_splits\<close>)

interpretation orderly_process: kept_by_steps "step_process b" "\<lambda>s l. True" "keeps_order b" for b
proof unfold_locales
  fix s l t assume s: "keeps_order b s" and "step_process b s l t"
  then have l: "alive s" "perform b l s = Some t" by (auto simp: step_process_iff takes_def split: if_splits)
  show "keeps_order b t"
  proof (cases "l = Main")
    case True
    then show ?thesis using s l Main_step_orderly by simp
  next
    case False
    from l(1) obtain as where as: "p_main s = Calling as" by (auto simp: alive_def)
    then obtain ms where "main_calls = ms @ as" "after_calls b ms s" using s by (auto simp: keeps_order_def)
    then show ?thesis using others_after [OF _ _ l(2) False, of ms as] as by (auto simp: keeps_order_def)
  qed
qed

lemma orderly_runs: "run_process b (started b) ls t \<Longrightarrow> keeps_order b t"
  by (rule orderly_process.run_keeps) (auto simp: keeps_order_def started_def after_calls_cong after_calls_started [unfolded started_def])

section \<open>The end of the process\<close>

lemma stopped_prefix:
  assumes "main_calls = ms @ as"
  shows "reported ms = take (length (reported ms)) (rev sims)"
  unfolding reported_main [symmetric] assms by simp

text \<open>A database that was stopped without an error is gone, and so is its directory.\<close>

lemma Shutdown_postgres_clean:
  assumes "Shutdown_postgres l (Start_postgres l (s, m)) = (None, s', m')"
    and "mc_dirs m = []" "mc_database m = None" "pg_tmpDataDir s = []" "\<not> pg_created s" "pl_mkdir l \<noteq> Some []"
  shows "mc_database m' = None \<and> mc_dirs m' = []"
  using assms
  by (cases "pl_mkdir l") (auto simp: Shutdown_postgres_def Start_postgres_def Let_def split: if_splits option.splits)

lemma stopped_database:
  assumes "\<not> stop_error b" "pl_mkdir (bo_pg b) \<noteq> Some []"
  shows "mc_database (snd (pg_at b main_calls)) = None \<and> mc_dirs (snd (pg_at b main_calls)) = []"
proof -
  obtain s' m' where sh: "Shutdown_postgres (bo_pg b) (Start_postgres (bo_pg b) (pg_initial b)) = (None, s', m')"
    using assms(1) unfolding stop_error_def by (metis prod_cases3 fst_conv)
  moreover have "StopDatabase \<in> set main_calls" by (simp add: main_calls_unfold)
  ultimately have "snd (pg_at b main_calls) = m'" by (simp add: pg_at_def)
  moreover have "mc_database m' = None \<and> mc_dirs m' = []"
    by (rule Shutdown_postgres_clean [OF sh [unfolded pg_initial_def]])
       (simp_all add: started_def New_postgres_def Let_def assms(2))
  ultimately show ?thesis by simp
qed


text \<open>A process whose environment cannot be seeded exits with status 1 with every server as it was, and with the
  database it started still running and its directory in place.\<close>

theorem failed_seeding_leaves_database:
  assumes "run_process b (started b) ls t" "p_main t = Exited 1"
  shows "p_log t = [] \<and> (\<forall>n. p_http t n \<noteq> Closed) \<and>
    p_machine t = snd (Start_postgres (bo_pg b) (p_pg (started b), p_machine (started b)))"
proof -
  have a: "after_calls b (map StartSim sims) t" using orderly_runs [OF assms(1)] assms(2) by (simp add: keeps_order_def)
  have "StopDatabase \<notin> set (map StartSim sims)" "StartSim Postgres \<in> set (map StartSim sims)" "reported (map StartSim sims) = []"
    "CloseHTTP n \<notin> set (map StartSim sims)" for n
    by (simp_all add: sims_def)
  moreover from this have "pg_at b (map StartSim sims) = Start_postgres (bo_pg b) (pg_initial b)" by (simp add: pg_at_def)
  moreover have "(p_pg t, p_machine t) = pg_at b (map StartSim sims)" using a by (simp add: after_calls_def)
  ultimately show ?thesis using a by (simp add: after_calls_def pg_initial_def) (metis snd_conv)
qed

section \<open>A client that stays connected\<close>

lemma waiting_calls:
  assumes "main_calls = ms @ AwaitRPC # as"
  shows "NotifyContext \<notin> set as" "ms = map StartSim sims @ [SeedEnv, NotifyContext, AwaitSignal] @
    shutdown_loop [OvnSim, AwxSim, NetboxSim, StorageSim, DashboardSim] @ [StopRPC]"
proof -
  have "NotifyContext \<in> set ms" "distinct main_calls" unfolding made_before [OF assms] by (simp_all add: main_calls_unfold)
  then show "NotifyContext \<notin> set as" unfolding assms by auto
qed (simp add: made_before [OF assms] main_calls_unfold sims_def shutdown_loop_def)

definition waits_for_clients :: "process \<Rightarrow> process \<Rightarrow> bool" where
  "waits_for_clients s t \<longleftrightarrow>
     p_main t = p_main s \<and> p_conns t \<ge> p_conns s \<and> p_log t = p_log s \<and> p_machine t = p_machine s \<and>
     (\<forall>n. p_http s n \<noteq> Closed \<longrightarrow> p_http t n \<noteq> Closed)"

interpretation client_blocks: kept_by_steps "step_process b" "\<lambda>s l. l \<noteq> Disconnects"
  "\<lambda>t. p_main s = Calling (AwaitRPC # as) \<and> NotifyContext \<notin> set as \<and> p_conns s > 0 \<and> waits_for_clients s t" for b s as
proof unfold_locales
  fix t l u
  assume t: "p_main s = Calling (AwaitRPC # as) \<and> NotifyContext \<notin> set as \<and> p_conns s > 0 \<and> waits_for_clients s t"
    and l: "l \<noteq> Disconnects" "step_process b t l u"
  then have "perform b l t = Some u" by (auto simp: step_process_iff takes_def split: if_splits)
  then show "p_main s = Calling (AwaitRPC # as) \<and> NotifyContext \<notin> set as \<and> p_conns s > 0 \<and> waits_for_clients s u"
    using t l(1) by (cases l) (auto simp: waits_for_clients_def Main_step_def set_http_def split: if_splits)
qed

text \<open>C23: While a client of libvirt-sim stays connected the shutdown does not go past libvirt-sim: whatever else happens (further signals
  and the end of the ten seconds included), the process does not exit, only the five simulators behind libvirt-sim are stopped,
  and the servers in front of it and the database go on running.\<close>

theorem open_connection_blocks_shutdown:
  assumes "run_process b (started b) ls s" "p_main s = Calling (AwaitRPC # as)" "p_conns s > 0"
    and "guarded_run (step_process b) (\<lambda>s l. l \<noteq> Disconnects) s ks t"
  shows "p_main t = Calling (AwaitRPC # as) \<and> p_machine t = p_machine s \<and>
    map fst (p_log t) = [DashboardSim, StorageSim, NetboxSim, AwxSim, OvnSim] \<and>
    p_http t LibvirtSim \<noteq> Closed \<and> p_http t CommonSim \<noteq> Closed \<and> p_http t Postgres \<noteq> Closed"
proof -
  obtain ms where ms: "main_calls = ms @ AwaitRPC # as" "after_calls b ms s"
    using orderly_runs [OF assms(1)] assms(2) by (auto simp: keeps_order_def)
  have at: "reported ms = [DashboardSim, StorageSim, NetboxSim, AwxSim, OvnSim]"
    "CloseHTTP LibvirtSim \<notin> set ms" "CloseHTTP CommonSim \<notin> set ms" "CloseHTTP Postgres \<notin> set ms"
    unfolding waiting_calls(2) [OF ms(1)] by (simp_all add: shutdown_loop_def sims_def)
  have "waits_for_clients s s" by (simp add: waits_for_clients_def)
  then have "waits_for_clients s t"
    using client_blocks.run_keeps [OF assms(4), of s as] assms(2,3) waiting_calls(1) [OF ms(1)] by simp
  then show ?thesis using ms(2) at assms(2) unfolding waits_for_clients_def after_calls_def by metis
qed

section \<open>The shutdown comes to an end\<close>

text \<open>Every call of the main goroutine is made at most once, whatever runs beside it.\<close>

fun main_left :: "main_phase \<Rightarrow> nat" where
  "main_left (Calling as) = Suc (length as)"
| "main_left _ = 0"

lemma Start_sims: "p_sims (Start_sim b n s) = p_sims s" "p_main (Start_sim b n s) = p_main s"
  by (cases n; simp add: set_http_def split: prod.split)+

lemma do_call_main: "do_call b a s = Some t \<Longrightarrow> p_main t = p_main s \<or> p_main t = Exited 1"
  by (cases a) (auto simp: set_http_def Start_sims split: if_splits prod.splits option.splits)

lemma step_main_left:
  assumes "step_process b s l t"
  shows "main_left (p_main t) + (if l = Main then 1 else 0) \<le> main_left (p_main s)"
proof -
  from assms have l: "alive s" "perform b l s = Some t" by (auto simp: step_process_iff takes_def split: if_splits)
  then obtain as where as: "p_main s = Calling as" by (auto simp: alive_def)
  show ?thesis
  proof (cases "l = Main")
    case True
    then show ?thesis using l(2) as by (cases as) (auto simp: Main_step_def dest!: do_call_main)
  next
    case False
    then show ?thesis using l(2) as by (cases l) (auto simp: set_http_def split: if_splits)
  qed
qed

lemma main_calls_bounded:
  "guarded_run (step_process b) allowed s ls t \<Longrightarrow>
     length (filter (\<lambda>l. l = Main) ls) + main_left (p_main t) \<le> main_left (p_main s)"
  by (induction rule: guarded_run.induct) (auto dest!: step_main_left split: if_splits)

text \<open>Whatever the main goroutine waits for comes when the signal is sent, the clients go and the time runs out.\<close>

definition rpc_closes :: "action list \<Rightarrow> process \<Rightarrow> bool" where
  "rpc_closes as s \<longleftrightarrow>
     AwaitRPC \<in> set as \<longrightarrow> StopRPC \<in> set as \<or> w_listeners (si_libvirt (p_sims s)) = fmempty"


lemma do_call_closes:
  assumes "do_call b a s = Some t" "rpc_closes (a # as) s" "a = SeedEnv \<longrightarrow> StopRPC \<in> set as"
  shows "rpc_closes as t"
  using assms
  by (cases a) (auto simp: rpc_closes_def Start_sims StopAll_def set_http_def split: if_splits prod.splits)

lemma one_call:
  assumes "p_main s = Calling (a # as)" "do_call b a (s\<lparr>p_main := Calling as\<rparr>) = Some t"
  shows "step_process b s Main t"
  using assms by (simp add: step_process_iff takes_def alive_def Main_step_def)

lemma run_one: "step_process b s l t \<Longrightarrow> run_process b s [l] t"
  by (auto simp: guarded_run_Cons)

lemma all_disconnect:
  "alive s \<Longrightarrow> run_process b s (replicate (p_conns s) Disconnects) (s\<lparr>p_conns := 0\<rparr>)"
proof (induction "p_conns s" arbitrary: s)
  case 0
  then show ?case by simp
next
  case (Suc k)
  let ?u = "s\<lparr>p_conns := k\<rparr>"
  have "step_process b s Disconnects ?u" using Suc(2,3) by (simp add: step_process_iff takes_def Suc(2) [symmetric])
  moreover have "run_process b ?u (replicate k Disconnects) (s\<lparr>p_conns := 0\<rparr>)" using Suc(1) [of ?u] Suc(3) by (simp add: alive_def)
  ultimately show ?case using Suc(2) [symmetric] by (auto simp: guarded_run_Cons)
qed

definition patient :: "process_label list \<Rightarrow> bool" where
  "patient ks \<longleftrightarrow> set ks \<subseteq> {Main, Signal, TimeOver, Disconnects}"

lemma calls_left:
  assumes "main_calls = ms @ a # as"
  shows "a = AwaitSignal \<Longrightarrow> NotifyContext \<notin> set as" "a = AwaitHTTP n \<Longrightarrow> AwaitSignal \<notin> set as" "a = SeedEnv \<Longrightarrow> StopRPC \<in> set as"
    "a = AwaitRPC \<Longrightarrow> StopRPC \<notin> set as" "a \<notin> set as"
proof -
  have split: "x \<in> set ms \<Longrightarrow> x \<notin> set as" "x \<in> set main_calls \<Longrightarrow> x \<noteq> a \<Longrightarrow> x \<notin> set ms \<Longrightarrow> x \<in> set as" for x
  proof -
    have "distinct main_calls" by (simp add: main_calls_unfold)
    then show "x \<in> set ms \<Longrightarrow> x \<notin> set as" unfolding assms by auto
    show "x \<in> set main_calls \<Longrightarrow> x \<noteq> a \<Longrightarrow> x \<notin> set ms \<Longrightarrow> x \<in> set as" unfolding assms by auto
  qed
  note ms = made_before [OF assms]
  show "a = AwaitSignal \<Longrightarrow> NotifyContext \<notin> set as" by (rule split(1)) (simp add: ms main_calls_unfold)
  show "a = AwaitHTTP n \<Longrightarrow> AwaitSignal \<notin> set as" by (rule split(1)) (cases n; simp add: ms main_calls_unfold)
  show "a = SeedEnv \<Longrightarrow> StopRPC \<in> set as" by (rule split(2)) (simp_all add: ms main_calls_unfold)
  show "a = AwaitRPC \<Longrightarrow> StopRPC \<notin> set as" by (rule split(1)) (simp add: ms main_calls_unfold)
  have "distinct main_calls" by (simp add: main_calls_unfold)
  then show "a \<notin> set as" unfolding assms by simp
qed

text \<open>What the next call waits for can be brought about without touching anything else.\<close>

lemma call_enabled:
  assumes "main_calls = ms @ a # as" "p_main s = Calling (a # as)" "rpc_closes (a # as) s"
  shows "\<exists>ks u. patient ks \<and> run_process b s ks u \<and> p_main u = Calling (a # as) \<and> rpc_closes (a # as) u \<and>
    do_call b a (u\<lparr>p_main := Calling as\<rparr>) \<noteq> None"
proof (cases a)
  case AwaitSignal
  let ?u = "s\<lparr>p_signalled := True\<rparr>"
  have "step_process b s Signal ?u"
    using assms(2) AwaitSignal calls_left(1) [OF assms(1)] by (simp add: step_process_iff takes_def alive_def)
  then show ?thesis
    using assms AwaitSignal by (intro exI [of _ "[Signal]"] exI [of _ ?u]) (simp add: run_one patient_def rpc_closes_def)
next
  case AwaitRPC
  let ?u = "s\<lparr>p_conns := 0\<rparr>"
  have "w_listeners (si_libvirt (p_sims s)) = fmempty"
    using assms(3) AwaitRPC calls_left(4) [OF assms(1)] by (simp add: rpc_closes_def)
  then show ?thesis
    using all_disconnect [of s b] assms AwaitRPC
    by (intro exI [of _ "replicate (p_conns s) Disconnects"] exI [of _ ?u]) (auto simp: patient_def rpc_closes_def alive_def)
next
  case (AwaitHTTP n)
  let ?u = "s\<lparr>p_expired := True\<rparr>"
  have "step_process b s TimeOver ?u"
    using assms(2) AwaitHTTP calls_left(2) [OF assms(1)] by (simp add: step_process_iff takes_def alive_def)
  then show ?thesis
    using assms AwaitHTTP by (intro exI [of _ "[TimeOver]"] exI [of _ ?u]) (simp add: run_one patient_def rpc_closes_def)
qed (use assms in \<open>auto simp: patient_def split: prod.splits option.splits intro!: exI [of _ "[]"] exI [of _ s]\<close>)

lemma call_made:
  assumes "main_calls = ms @ a # as" "p_main s = Calling (a # as)" "rpc_closes (a # as) s"
  shows "\<exists>ks t. patient ks \<and> run_process b s ks t \<and> (p_main t = Calling as \<and> rpc_closes as t \<or> a = SeedEnv \<and> p_main t = Exited 1)"
proof -
  from call_enabled [OF assms, of b] obtain ks u t where u: "patient ks" "run_process b s ks u" "p_main u = Calling (a # as)"
    "rpc_closes (a # as) u" "do_call b a (u\<lparr>p_main := Calling as\<rparr>) = Some t" by auto
  have "run_process b s (ks @ [Main]) t" using u(2) run_one [OF one_call [OF u(3,5)]] by (auto simp: guarded_run_append)
  moreover have "rpc_closes as t"
    using do_call_closes [OF u(5)] u(4) calls_left(3) [OF assms(1)] by (simp add: rpc_closes_def)
  moreover have "p_main t = Calling as \<or> a = SeedEnv \<and> p_main t = Exited 1"
    using u(5) by (cases a) (auto simp: set_http_def Start_sims split: if_splits prod.splits option.splits)
  ultimately show ?thesis using u(1) by (intro exI [of _ "ks @ [Main]"] exI [of _ t]) (auto simp: patient_def)
qed

lemma calls_finish:
  "main_calls = ms @ as \<Longrightarrow> p_main s = Calling as \<Longrightarrow> rpc_closes as s \<Longrightarrow>
     \<exists>ks t. patient ks \<and> run_process b s ks t \<and> (p_main t = Exited 0 \<or> SeedEnv \<in> set as \<and> p_main t = Exited 1)"
proof (induction as arbitrary: ms s)
  case Nil
  have "step_process b s Main (s\<lparr>p_main := Exited 0\<rparr>)" using Nil by (simp add: step_process_iff takes_def alive_def Main_step_def)
  then show ?case by (intro exI [of _ "[Main]"] exI [of _ "s\<lparr>p_main := Exited 0\<rparr>"]) (simp add: run_one patient_def)
next
  case (Cons a as)
  from call_made [OF Cons.prems, of b] obtain ks u where ks: "patient ks" "run_process b s ks u"
    and u: "p_main u = Calling as \<and> rpc_closes as u \<or> a = SeedEnv \<and> p_main u = Exited 1" by blast
  show ?case
  proof (cases "p_main u = Calling as \<and> rpc_closes as u")
    case True
    with Cons.IH [of "ms @ [a]" u] Cons.prems(1) obtain ks' t where "patient ks'" "run_process b u ks' t"
      "p_main t = Exited 0 \<or> SeedEnv \<in> set as \<and> p_main t = Exited 1" by auto
    then show ?thesis
      using ks by (intro exI [of _ "ks @ ks'"] exI [of _ t]) (auto simp: patient_def guarded_run_append)
  next
    case False
    then show ?thesis using u ks by auto
  qed
qed


section \<open>What the simulators keep\<close>

lemma SeedHost_served: "served p \<Longrightarrow> served (snd (SeedHost listen cfg p))"
  by (auto simp: SeedHost_def StartListener_def served_def Let_def host_from_def rollback AddHost_def RemoveHost_def fmdrop_absent
      fmmap_fmupd split: prod.splits sum.splits if_splits)

lemma seed_hosts_served: "served p \<Longrightarrow> served (snd (seed_hosts listen hs p))"
proof (induction hs arbitrary: p)
  case (Cons h hs)
  then show ?case
    using SeedHost_served [OF Cons.prems, of listen "seed_host_config h"] by (auto split: prod.split bool.split)
qed simp

lemma seed_backends_consistent: "consistent s \<Longrightarrow> consistent (snd (seed_backends bs s))"
proof (induction bs arbitrary: s)
  case (Cons b bs)
  have "consistent (snd (SeedBackend (backend_config b) s))"
    using exec_consistent [OF Cons.prems, of "AddBackendReq (backend_from (backend_config b))" 0]
    by (auto simp: SeedBackend_def backend_from_def split: prod.splits sum.splits)
  then show ?case using Cons.IH by (auto split: prod.split bool.split)
qed simp

lemma seeding_keeps:
  assumes "seedFromEnvFile l clk listen getenv yaml file ss = (e, ss')"
  shows "served (si_libvirt ss) \<Longrightarrow> served (si_libvirt ss')" "consistent (si_storage ss) \<Longrightarrow> consistent (si_storage ss')"
  using assms seed_hosts_served [of "si_libvirt ss" listen] seed_backends_consistent [of "si_storage ss"]
  by (auto simp: seedFromEnvFile_def Let_def split: option.splits sum.splits prod.splits) (metis snd_conv)+

definition upright :: "process \<Rightarrow> bool" where
  "upright s \<longleftrightarrow> consistent (si_storage (p_sims s)) \<and>
     (StopRPC \<in> set (remaining (p_main s)) \<or> p_main s = Exited 1 \<longrightarrow> served (si_libvirt (p_sims s)))"

lemma do_call_upright:
  assumes "main_calls = ms @ a # as" "do_call b a s = Some t" "p_main s = Calling as" "consistent (si_storage (p_sims s))"
    and "StopRPC \<in> set (a # as) \<longrightarrow> served (si_libvirt (p_sims s))"
  shows "upright t"
proof (cases a)
  case SeedEnv
  then show ?thesis
    using assms calls_left(3) [OF assms(1)] seeding_keeps
    by (auto simp: upright_def split: if_splits prod.splits option.splits)
next
  case StopRPC
  have "StopRPC \<notin> set as" using calls_left(5) [OF assms(1)] StopRPC by simp
  then show ?thesis using assms StopRPC by (auto simp: upright_def)
qed (use assms in \<open>auto simp: upright_def Start_sims set_http_def split: if_splits prod.splits\<close>)

lemma others_upright:
  assumes "upright s" "perform b l s = Some t" "l \<noteq> Main" "alive s"
  shows "upright t"
proof (cases l)
  case (Manages e r)
  then show ?thesis using assms libvirt_http.request_keeps by (auto simp: upright_def split: if_splits)
next
  case (Stores J e r)
  then show ?thesis
    using assms storage_http.request_keeps [of "si_storage (p_sims s)" e J r] by (auto simp: upright_def split: if_splits)
next
  case (Talks env tx hid c stream)
  then show ?thesis
    using assms happen_served [of "si_libvirt (p_sims s)" "Connection env tx hid c stream"] by (auto simp: upright_def split: if_splits)
qed (use assms in \<open>auto simp: upright_def set_http_def alive_def split: if_splits\<close>)

interpretation upright_process: kept_by_steps "step_process b" "\<lambda>s l. True" "\<lambda>s. keeps_order b s \<and> upright s" for b
proof unfold_locales
  fix s l t assume s: "keeps_order b s \<and> upright s" and step: "step_process b s l t"
  then have l: "alive s" "perform b l s = Some t" by (auto simp: step_process_iff takes_def split: if_splits)
  have "upright t"
  proof (cases "l = Main")
    case True
    from l(1) s obtain ms cs where cs: "p_main s = Calling cs" "main_calls = ms @ cs" by (auto simp: alive_def keeps_order_def)
    show ?thesis
    proof (cases cs)
      case Nil
      then show ?thesis using True l(2) cs s by (auto simp: Main_step_def upright_def)
    next
      case (Cons a as)
      then have "do_call b a (s\<lparr>p_main := Calling as\<rparr>) = Some t" using True l(2) cs by (simp add: Main_step_def)
      from do_call_upright [OF cs(2) [unfolded Cons] this] show ?thesis using s cs Cons by (simp add: upright_def)
    qed
  next
    case False
    then show ?thesis using others_upright s l by blast
  qed
  then show "keeps_order b t \<and> upright t" using s step orderly_process.step_keeps by blast
qed


section \<open>Concrete runs\<close>

definition embedded_pg :: pg_lib where
  "embedded_pg = \<lparr>pl_url = (\<lambda>c. ''postgresql://localhost''), pl_mkdir = Some ''/tmp/pg'', pl_starts = True, pl_stop = (\<lambda>_. None)\<rparr>"

definition sample_boot :: "string \<Rightarrow> start_env" where
  "sample_boot file = \<lparr>bo_flags = [''env'' \<mapsto> file], bo_getenv = (\<lambda>_. []), bo_pg = embedded_pg, bo_lib = plain_lib, bo_clock = (\<lambda>_. 0),
     bo_listen = (\<lambda>_. True), bo_yaml = tiny_yaml, bo_file = (\<lambda>_. None)\<rparr>"

lemma sample_boot_fields:
  "bo_pg (sample_boot f) = embedded_pg" "st_envFile (conf (sample_boot f)) = f" "bo_file (sample_boot f) = (\<lambda>_. None)"
  by (simp_all add: sample_boot_def read_settings_def flag_String_def)

lemma embedded_pg_runs:
  "pg_serving (fst (Start_postgres embedded_pg (p_pg (started (sample_boot f)), \<lparr>mc_dirs = [], mc_database = None\<rparr>)))"
  by (simp add: embedded_pg_def Start_postgres_def Let_def split: option.split)

lemmas process_rules = takes_def alive_def Main_step_def set_http_def sample_boot_fields

lemma up_to_seeding:
  "\<exists>pg m. play (takes (sample_boot f)) (\<lambda>s l. True) (replicate 8 Main) (started (sample_boot f)) =
     Some (started (sample_boot f) \<lparr>p_main := Calling (drop 8 main_calls), p_http := (\<lambda>_. Spawned), p_pg := pg, p_machine := m\<rparr>) \<and>
     Start_postgres embedded_pg (p_pg (started (sample_boot f)), \<lparr>mc_dirs = [], mc_database = None\<rparr>) = (pg, m)"
proof -
  obtain pg m where pg: "Start_postgres embedded_pg (p_pg (started (sample_boot f)), \<lparr>mc_dirs = [], mc_database = None\<rparr>) = (pg, m)" by fastforce
  then have "pg_serving pg" using embedded_pg_runs [of f] by simp
  moreover have "p_machine (started (sample_boot f)) = \<lparr>mc_dirs = [], mc_database = None\<rparr>" 
    "p_main (started (sample_boot f)) = Calling main_calls" "p_http (started (sample_boot f)) = (\<lambda>_. Fresh)" by (simp_all add: started_def)
  moreover have "(\<lambda>_. Fresh)(Postgres := Spawned, CommonSim := Spawned, LibvirtSim := Spawned, OvnSim := Spawned, AwxSim := Spawned,
    NetboxSim := Spawned, StorageSim := Spawned, DashboardSim := Spawned) = (\<lambda>_. Spawned)"
    by (rule ext, rule sim.exhaust) auto
  ultimately show ?thesis using pg by (simp add: process_rules main_calls_unfold numeral_eq_Suc)
qed

abbreviation plays :: "string \<Rightarrow> process_label list \<Rightarrow> process option" where
  "plays f ls \<equiv> play (takes (sample_boot f)) (\<lambda>s l. True) ls (started (sample_boot f))"

lemma play_append:
  "play f allowed (ls @ ms) s = (case play f allowed ls s of None \<Rightarrow> None | Some t \<Rightarrow> play f allowed ms t)"
  by (induction ls arbitrary: s) (simp_all split: option.split)

text \<open>A run with an environment file that cannot be read.\<close>

lemma failing_run:
  "\<exists>t. plays ''env.yaml'' (replicate 9 Main) = Some t \<and> p_main t = Exited 1"
proof -
  have "replicate 9 Main = replicate 8 Main @ [Main]" by (simp add: numeral_eq_Suc)
  then show ?thesis
    using up_to_seeding [of "''env.yaml''"]
    by (auto simp: play_append process_rules main_calls_unfold seedFromEnvFile_def)
qed

lemma machine_started:
  "snd (Start_postgres embedded_pg (p_pg (started (sample_boot f)), p_machine (started (sample_boot f)))) =
     \<lparr>mc_dirs = [''/tmp/pg''], mc_database = Some ''/tmp/pg/data''\<rparr>"
  by (auto simp: started_def Start_postgres_def Let_def embedded_pg_def New_postgres_def env_or_def DefaultConfig_def
      sample_boot_def split: option.splits)

theorem failed_seeding_leaves_database_witness:
  "\<exists>t::process. p_main t = Exited 1 \<and> p_log t = [] \<and> (\<forall>n. p_http t n \<noteq> Closed) \<and>
     p_machine t = \<lparr>mc_dirs = [''/tmp/pg''], mc_database = Some ''/tmp/pg/data''\<rparr>"
proof -
  obtain t where t: "run_process (sample_boot ''env.yaml'') (started (sample_boot ''env.yaml'')) (replicate 9 Main) t" "p_main t = Exited 1"
    using failing_run process_play.play_run by metis
  from failed_seeding_leaves_database [OF t] have "p_log t = []" "\<forall>n. p_http t n \<noteq> Closed"
    "p_machine t = \<lparr>mc_dirs = [''/tmp/pg''], mc_database = Some ''/tmp/pg/data''\<rparr>"
    using machine_started [of "''env.yaml''"] by (simp_all add: sample_boot_fields)
  with t(2) show ?thesis by blast
qed

text \<open>A run in which a host is added, a client connects to it and stays.\<close>

definition host_env :: libvirt_env where
  "host_env = \<lparr>le_listen = \<lambda>_. True, le_order = [], le_host = \<lambda>_. Some (small_request ''h1'' 16509), le_state = \<lambda>_. None, le_config = \<lambda>_. None,
     le_migration = \<lambda>_. None\<rparr>"

definition post_host :: http_request where
  "post_host = \<lparr>r_Method = ''POST'', r_EscapedPath = path_of [''sim'', ''hosts''], r_Path = path_of [''sim'', ''hosts''], r_RawQuery = [], r_Header = [],
     r_Body = ''{}''\<rparr>"

abbreviation one_host :: process_label where
  "one_host \<equiv> Manages host_env post_host"

lemma one_host_listens: "w_listeners (snd (ServeHTTP (run_libvirt host_env) libvirt_mux post_host (si_libvirt no_simulators))) = fmupd ''h1'' 16509 fmempty"
proof -
  have "lookup_mux libvirt_mux ''POST'' [''sim'', ''hosts''] =
      Some (pat ''POST'' [Lit ''sim'', Lit ''hosts''], Management (\<lambda>e r v. CreateHost (le_listen e) (le_host e (r_Body r))))"
    by (simp add: find_route libvirt_mux_def libvirt_patterns_def RegisterRoutes_lv_def)
  then have "findHandler libvirt_mux post_host = Handled (Management (\<lambda>e r v. CreateHost (le_listen e) (le_host e (r_Body r)))) []"
    using findHandler_plain [of post_host "[''sim'', ''hosts'']" libvirt_mux] by (simp add: post_host_def plain_def)
  then show ?thesis
    by (simp add: ServeHTTP_def host_env_def small_request_def no_simulators_def handleCreateHost_def AddHost_def StartListener_def NewServer_def
        NewStore_lv_def Let_def host_of_def)
qed

definition client_run :: "process_label list" where
  "client_run = replicate 8 Main @ [Main, Main, Serves LibvirtSim True, Begins LibvirtSim, one_host, Connects, Signal] @ replicate 18 Main"

lemma client_connected:
  "\<exists>s. plays [] client_run = Some s \<and> p_main s = Calling (drop 28 main_calls) \<and> p_conns s = 1 \<and> p_active s = (\<lambda>_. 0)(LibvirtSim := 1) \<and>
     \<not> p_expired s \<and> w_listeners (si_libvirt (p_sims s)) = fmempty \<and> pg_serving (p_pg s)"
proof -
  have "p_sims (started (sample_boot [])) = no_simulators" "p_active (started (sample_boot [])) = (\<lambda>_. 0)" "p_conns (started (sample_boot [])) = 0"
    "\<not> p_expired (started (sample_boot []))"
    by (simp_all add: started_def)
  moreover obtain pg m where up: "plays [] (replicate 8 Main) =
      Some (started (sample_boot []) \<lparr>p_main := Calling (drop 8 main_calls), p_http := (\<lambda>_. Spawned), p_pg := pg, p_machine := m\<rparr>)"
    and "pg_serving pg"
    using up_to_seeding [of "[]"] embedded_pg_runs [of "[]"] by (metis fst_conv)
  ultimately show ?thesis
    unfolding client_run_def play_append up option.case
    by (simp add: process_rules main_calls_unfold one_host_listens numeral_eq_Suc StopAll_def)
qed

theorem open_connection_blocks_shutdown_witness:
  "\<exists>s t. plays [] client_run = Some s \<and> guarded_run (step_process (sample_boot [])) (\<lambda>s l. l \<noteq> Disconnects) s [Signal, TimeOver] t \<and>
     p_main t = Calling (drop 28 main_calls) \<and> p_machine t = p_machine s \<and>
     map fst (p_log t) = [DashboardSim, StorageSim, NetboxSim, AwxSim, OvnSim] \<and>
     p_http t LibvirtSim \<noteq> Closed \<and> p_http t CommonSim \<noteq> Closed \<and> p_http t Postgres \<noteq> Closed"
proof -
  obtain s where s: "plays [] client_run = Some s" "p_main s = Calling (drop 28 main_calls)" "p_conns s = 1" using client_connected by blast
  have main: "p_main s = Calling (AwaitRPC # drop 29 main_calls)" "drop 28 main_calls = AwaitRPC # drop 29 main_calls"
    using s(2) by (simp_all add: main_calls_unfold)
  have "NotifyContext \<notin> set (drop 28 main_calls)" "AwaitSignal \<notin> set (drop 28 main_calls)" by (simp_all add: main_calls_unfold)
  then obtain t where t: "guarded_run (step_process (sample_boot [])) (\<lambda>s l. l \<noteq> Disconnects) s [Signal, TimeOver] t"
    using s(2) by (simp add: guarded_run_Cons step_process_iff takes_def alive_def)
  have "0 < p_conns s" using s(3) by simp
  from open_connection_blocks_shutdown [OF s(1) [unfolded process_play.play_run] main(1) this t] s(1) t main(2)
  show ?thesis by metis
qed

text \<open>The client leaves and the request ends.\<close>

definition graceful_run :: "process_label list" where
  "graceful_run = client_run @ [Disconnects, Ends LibvirtSim] @ replicate 12 Main"

lemma graceful_end:
  "\<exists>t. plays [] graceful_run = Some t \<and> p_main t = Exited 0 \<and> \<not> p_expired t \<and> (Postgres, True) \<in> set (p_log t)"
proof -
  obtain s where s: "plays [] client_run = Some s" "p_main s = Calling (drop 28 main_calls)" "p_conns s = 1" "p_active s = (\<lambda>_. 0)(LibvirtSim := 1)"
     "\<not> p_expired s" "w_listeners (si_libvirt (p_sims s)) = fmempty" "pg_serving (p_pg s)"
    using client_connected by blast
  obtain pg m where "Shutdown_postgres embedded_pg (p_pg s, p_machine s) = (None, pg, m)"
    by (cases "pg_created (p_pg s)") (simp_all add: Shutdown_postgres_def embedded_pg_def)
  with s(2-) show ?thesis
    unfolding graceful_run_def play_append s(1) option.case
    by (simp add: process_rules main_calls_unfold numeral_eq_Suc)
qed




end
