(* ===== verification/Standalone.thy ===== *)
theory Standalone
  imports Processes
begin

text \<open>
  The binaries that run one simulator each: \<^verbatim>\<open>cmd/main.go\<close> of awx-sim, common, libvirt-sim, load-gen,
  netbox-sim, ovn-sim and storage-sim. A program is its port, the application it builds (\<open>None\<close> when
  registering the routes panics) and the calls of its main goroutine. The dashboard's binary is in
  \<open>Dashboard\<close>.
\<close>

section \<open>The programs\<close>

text \<open>
  \<open>Spawn_server\<close>: the goroutine that serves, and exits with status 1 if it cannot. \<open>Await_server\<close>: the two
  binaries that serve in the main goroutine wait in \<^verbatim>\<open>ListenAndServe\<close>, which returns as soon as the server
  is closed; \<open>Spawn_stopper\<close> is the goroutine that closes it. \<open>Await_shutdown\<close> carries whether an error
  of \<^verbatim>\<open>Shutdown\<close> ends the program with status 1. \<open>Does\<close> and \<open>Waits\<close> are the calls on the state
  of the simulator and its RPC connections.
\<close>

datatype 'w call_sa =
    Notify_signals
  | Spawn_server
  | Spawn_stopper
  | Await_server
  | Await_signal
  | Close_server
  | Await_shutdown bool
  | Does "'w \<Rightarrow> 'w"
  | Waits "'w \<Rightarrow> bool"

record ('a, 'w) program =
  pr_port :: string
  pr_app :: "'a option"
  pr_calls :: "'w call_sa list"

definition served_apart :: "bool \<Rightarrow> 'w call_sa list" where
  "served_apart fails = [Notify_signals, Spawn_server, Await_signal, Close_server, Await_shutdown fails]"

definition main_awx :: "(string \<Rightarrow> string) \<Rightarrow> (route_awx mux \<times> System, 'w) program" where
  "main_awx getenv = \<lparr>pr_port = envOrDefault getenv ''PORT'' ''8300'', pr_app = New_awx, pr_calls = served_apart False\<rparr>"

definition main_common :: "(string \<Rightarrow> string) \<Rightarrow> (common_handler mux \<times> 'c Common, 'w) program" where
  "main_common getenv = \<lparr>pr_port = envOrDefault getenv ''PORT'' ''8000'', pr_app = New_common, pr_calls = served_apart True\<rparr>"

definition main_load :: "(string \<Rightarrow> string) \<Rightarrow> (load_handler mux \<times> LoadEngine, 'w) program" where
  "main_load getenv =
    \<lparr>pr_port = envOrDefault getenv ''PORT'' ''8600'', pr_app = map_option (\<lambda>m. (m, New_load)) (register_all RegisterRoutes_load []),
     pr_calls = served_apart False\<rparr>"

definition main_netbox :: "(string \<Rightarrow> string) \<Rightarrow> (netbox_handler mux \<times> Store_nb, 'w) program" where
  "main_netbox getenv = \<lparr>pr_port = envOrDefault getenv ''PORT'' ''8400'', pr_app = New_netbox, pr_calls = served_apart False\<rparr>"

text \<open>storage-sim asks for the signals only when its server already runs.\<close>

definition main_storage :: "storage_json \<Rightarrow> (string \<Rightarrow> string) \<Rightarrow> (storage_handler mux \<times> Store, 'w) program" where
  "main_storage J getenv =
    \<lparr>pr_port = envOrDefault getenv ''STORAGE_SIM_PORT'' ''8500'', pr_app = New_storage J,
     pr_calls = [Spawn_server, Notify_signals, Await_signal, Close_server, Await_shutdown False]\<rparr>"

text \<open>The state of libvirt-sim with the number of its RPC connections.\<close>

definition main_libvirt :: "(string \<Rightarrow> string) \<Rightarrow> (libvirt_handler mux \<times> Plant, Plant \<times> nat) program" where
  "main_libvirt getenv =
    \<lparr>pr_port = envOrDefault getenv ''MANAGEMENT_PORT'' ''8100'', pr_app = New_libvirt,
     pr_calls = [Notify_signals, Spawn_stopper, Spawn_server, Await_server,
                 Does (\<lambda>(p, n). (StopAll p, n)), Waits (\<lambda>(p, n). w_listeners p = fmempty \<and> n = 0)]\<rparr>"

definition main_ovn :: "(string \<Rightarrow> string) \<Rightarrow> (ovn_handler mux \<times> Manager, Manager) program" where
  "main_ovn getenv =
    \<lparr>pr_port = envOrDefault getenv ''MANAGEMENT_PORT'' ''8200'', pr_app = New_ovn,
     pr_calls = [Notify_signals, Spawn_stopper, Spawn_server, Await_server, Does Reset_ovn]\<rparr>"

section \<open>Their runs\<close>

datatype 'w phase_sa = Doing "'w call_sa list" | Exits nat | Killed_sa | Panicked

text \<open>\<open>sa_asked\<close>: whether the program receives signals. \<open>sa_stopper\<close>: whether the stopping goroutine exists.\<close>

record 'w standalone =
  sa_main :: "'w phase_sa"
  sa_http :: http_phase
  sa_active :: nat
  sa_asked :: bool
  sa_signalled :: bool
  sa_stopper :: bool
  sa_expired :: bool
  sa_world :: 'w

definition launched :: "('a, 'w) program \<Rightarrow> 'w \<Rightarrow> 'w standalone" where
  "launched p w =
    \<lparr>sa_main = (if pr_app p = None then Panicked else Doing (pr_calls p)), sa_http = Fresh, sa_active = 0, sa_asked = False,
     sa_signalled = False, sa_stopper = False, sa_expired = False, sa_world = w\<rparr>"

fun do_sa :: "'w call_sa \<Rightarrow> 'w standalone \<Rightarrow> 'w standalone option" where
  "do_sa Notify_signals s = Some (s\<lparr>sa_asked := True\<rparr>)"
| "do_sa Spawn_server s = Some (if sa_http s = Fresh then s\<lparr>sa_http := Spawned\<rparr> else s)"
| "do_sa Spawn_stopper s = Some (s\<lparr>sa_stopper := True\<rparr>)"
| "do_sa Await_server s = (if sa_http s = Closed then Some s else None)"
| "do_sa Await_signal s = (if sa_signalled s then Some s else None)"
| "do_sa Close_server s = Some (s\<lparr>sa_http := Closed\<rparr>)"
| "do_sa (Await_shutdown fails) s =
     (if sa_active s = 0 then Some s
      else if sa_expired s then Some (if fails then s\<lparr>sa_main := Exits 1\<rparr> else s)
      else None)"
| "do_sa (Does f) s = Some (s\<lparr>sa_world := f (sa_world s)\<rparr>)"
| "do_sa (Waits c) s = (if c (sa_world s) then Some s else None)"

text \<open>
  \<open>Proceeds\<close>: the main goroutine. \<open>Binds\<close>: the server asks for its port. \<open>Interrupts\<close>: a signal. \<open>Stops\<close>: the
  stopping goroutine closes the server. \<open>TimesOut\<close>: the shutdown's context ends. \<open>Opens\<close>, \<open>Finishes\<close>: a
  request. \<open>Affects\<close>: the work of the simulator on its own state.
\<close>

datatype 'w label_sa = Proceeds | Binds bool | Interrupts | Stops | TimesOut | Opens | Finishes | Affects "'w \<Rightarrow> 'w"

fun perform_sa :: "'w label_sa \<Rightarrow> 'w standalone \<Rightarrow> 'w standalone option" where
  "perform_sa Proceeds s =
     (case sa_main s of
        Doing (c # cs) \<Rightarrow> do_sa c (s\<lparr>sa_main := Doing cs\<rparr>)
      | _ \<Rightarrow> Some (s\<lparr>sa_main := Exits 0\<rparr>))"
| "perform_sa (Binds ok) s =
     (if sa_http s \<noteq> Spawned then None
      else if ok then Some (s\<lparr>sa_http := Listening\<rparr>)
      else Some (s\<lparr>sa_http := ListenFailed_http, sa_main := Exits 1\<rparr>))"
| "perform_sa Interrupts s = Some (if sa_asked s then s\<lparr>sa_signalled := True\<rparr> else s\<lparr>sa_main := Killed_sa\<rparr>)"
| "perform_sa Stops s = (if sa_stopper s \<and> sa_signalled s then Some (s\<lparr>sa_http := Closed\<rparr>) else None)"
| "perform_sa TimesOut s = (if sa_http s = Closed then Some (s\<lparr>sa_expired := True\<rparr>) else None)"
| "perform_sa Opens s = (if sa_http s = Listening then Some (s\<lparr>sa_active := Suc (sa_active s)\<rparr>) else None)"
| "perform_sa Finishes s = (if sa_active s > 0 then Some (s\<lparr>sa_active := sa_active s - 1\<rparr>) else None)"
| "perform_sa (Affects f) s = Some (s\<lparr>sa_world := f (sa_world s)\<rparr>)"

definition takes_sa :: "'w label_sa \<Rightarrow> 'w standalone \<Rightarrow> 'w standalone option" where
  "takes_sa l s = (case sa_main s of Doing _ \<Rightarrow> perform_sa l s | _ \<Rightarrow> None)"

inductive step_sa :: "'w standalone \<Rightarrow> 'w label_sa \<Rightarrow> 'w standalone \<Rightarrow> bool" where
  "takes_sa l s = Some t \<Longrightarrow> step_sa s l t"

inductive_simps step_sa_iff: "step_sa s l t"

abbreviation run_sa :: "'w standalone \<Rightarrow> 'w label_sa list \<Rightarrow> 'w standalone \<Rightarrow> bool" where
  "run_sa \<equiv> guarded_run step_sa (\<lambda>s l. True)"

interpretation standalone_play: playable step_sa takes_sa
  by unfold_locales (simp add: step_sa_iff)

section \<open>The programs that serve in a goroutine\<close>

text \<open>A program of this kind comes to its end through the last two calls.\<close>

definition closes_last :: "bool \<Rightarrow> 'w call_sa list \<Rightarrow> bool" where
  "closes_last fails cs \<longleftrightarrow>
     (\<exists>before. cs = before @ [Close_server, Await_shutdown fails] \<and> set before \<subseteq> {Notify_signals, Spawn_server, Await_signal})"

definition graceful :: "bool \<Rightarrow> 'w standalone \<Rightarrow> bool" where
  "graceful fails s \<longleftrightarrow>
     (case sa_main s of
        Doing cs \<Rightarrow>
          \<not> sa_stopper s \<and>
          (if cs = [] then sa_http s = Closed \<and> (sa_active s = 0 \<or> sa_expired s \<and> \<not> fails)
           else if cs = [Await_shutdown fails] then sa_http s = Closed else closes_last fails cs)
      | Exits code \<Rightarrow>
          if code = 0 then sa_http s = Closed \<and> (sa_active s = 0 \<or> sa_expired s \<and> \<not> fails)
          else code = 1 \<and> (sa_http s = ListenFailed_http \<or> fails \<and> sa_expired s \<and> sa_active s > 0)
      | Killed_sa \<Rightarrow> \<not> sa_asked s
      | Panicked \<Rightarrow> False)"

lemma closes_last_Cons:
  "closes_last fails (c # cs) \<Longrightarrow>
     c = Close_server \<and> cs = [Await_shutdown fails] \<or> c \<in> {Notify_signals, Spawn_server, Await_signal} \<and> closes_last fails cs"
  unfolding closes_last_def by (auto simp: Cons_eq_append_conv)

lemma closes_last_not [simp]: "\<not> closes_last fails []" "\<not> closes_last fails [Await_shutdown f]"
  by (auto simp: closes_last_def Cons_eq_append_conv)

lemma graceful_goes:
  assumes "graceful fails s" "takes_sa Proceeds s = Some t"
  shows "graceful fails t"
proof -
  obtain cs where cs: "sa_main s = Doing cs" using assms(2) by (auto simp: takes_sa_def split: phase_sa.splits)
  consider "cs = []" | "cs = [Await_shutdown fails]" | c rest where "cs = c # rest" "closes_last fails cs"
    using assms(1) cs by (cases cs) (auto simp: graceful_def split: if_splits)
  then show ?thesis
  proof cases
    case 3
    then show ?thesis
      using assms cs closes_last_Cons [of fails c rest]
      by (auto simp: graceful_def takes_sa_def split: if_splits)
  qed (use assms cs in \<open>auto simp: graceful_def takes_sa_def split: if_splits\<close>)
qed

interpretation apart_runs: kept_by_steps step_sa "\<lambda>s l. True" "graceful fails" for fails
proof unfold_locales
  fix s l t assume s: "graceful fails s" "step_sa s l t"
  then have l: "takes_sa l s = Some t" by (simp add: step_sa_iff)
  then obtain cs where cs: "sa_main s = Doing cs" by (auto simp: takes_sa_def split: phase_sa.splits)
  show "graceful fails t"
  proof (cases l)
    case Proceeds
    then show ?thesis using graceful_goes s(1) l by blast
  qed (use s(1) l cs in \<open>auto simp: graceful_def takes_sa_def split: if_splits\<close>)
qed

lemma launched_graceful:
  assumes "closes_last fails (pr_calls p)" "pr_app p \<noteq> None"
  shows "graceful fails (launched p w)"
proof -
  have "pr_calls p \<noteq> []" "pr_calls p \<noteq> [Await_shutdown fails]" using assms(1) by auto
  then show ?thesis using assms by (simp add: graceful_def launched_def)
qed

lemma programs_close_last:
  "closes_last False (pr_calls (main_awx getenv))" "closes_last False (pr_calls (main_load getenv))"
  "closes_last False (pr_calls (main_netbox getenv))" "closes_last False (pr_calls (main_storage J getenv))"
  "closes_last True (pr_calls (main_common getenv))"
proof -
  have "closes_last fails (served_apart fails)" for fails
    unfolding closes_last_def served_apart_def by (rule exI [of _ "[Notify_signals, Spawn_server, Await_signal]"]) simp
  then show "closes_last False (pr_calls (main_awx getenv))" "closes_last False (pr_calls (main_load getenv))"
    "closes_last False (pr_calls (main_netbox getenv))" "closes_last True (pr_calls (main_common getenv))"
    by (simp_all add: main_awx_def main_load_def main_netbox_def main_common_def)
  show "closes_last False (pr_calls (main_storage J getenv))"
    unfolding closes_last_def main_storage_def by (rule exI [of _ "[Spawn_server, Notify_signals, Await_signal]"]) simp
qed

lemma programs_built:
  "pr_app (main_awx getenv) \<noteq> None" "pr_app (main_load getenv) \<noteq> None" "pr_app (main_netbox getenv) \<noteq> None"
  "pr_app (main_storage J getenv) \<noteq> None" "pr_app (main_common getenv) \<noteq> None"
  "pr_app (main_libvirt getenv) \<noteq> None" "pr_app (main_ovn getenv) \<noteq> None"
  by (simp_all add: main_awx_def main_load_def main_netbox_def main_storage_def main_common_def main_libvirt_def main_ovn_def
      New_storage_ok New_libvirt_def New_ovn_def New_netbox_def New_awx_def New_common_def
      libvirt_registers ovn_registers netbox_registers awx_registers common_registers load_registers)



section \<open>The programs that serve in the main goroutine\<close>

text \<open>
  ovn-sim and libvirt-sim return from \<^verbatim>\<open>main\<close> as soon as their server is closed: the goroutine that waits for the
  requests in flight is not waited for, and such a request is cut off although the time of the shutdown is not over.
\<close>

lemma serving_in_main_cuts_requests:
  "\<exists>t. run_sa (launched (main_ovn getenv) m) [Proceeds, Proceeds, Proceeds, Binds True, Opens, Interrupts, Stops, Proceeds, Proceeds, Proceeds] t \<and>
     sa_main t = Exits 0 \<and> sa_active t = 1 \<and> \<not> sa_expired t"
  "w_listeners p = fmempty \<Longrightarrow>
   \<exists>t. run_sa (launched (main_libvirt getenv) (p, 0)) [Proceeds, Proceeds, Proceeds, Binds True, Opens, Interrupts, Stops, Proceeds, Proceeds, Proceeds, Proceeds] t \<and>
     sa_main t = Exits 0 \<and> sa_active t = 1 \<and> \<not> sa_expired t"
proof -
  have "pr_app (main_ovn getenv) \<noteq> None" "pr_app (main_libvirt getenv) \<noteq> None" by (rule programs_built)+
  then show "\<exists>t. run_sa (launched (main_ovn getenv) m) [Proceeds, Proceeds, Proceeds, Binds True, Opens, Interrupts, Stops, Proceeds, Proceeds, Proceeds] t \<and>
      sa_main t = Exits 0 \<and> sa_active t = 1 \<and> \<not> sa_expired t"
    "w_listeners p = fmempty \<Longrightarrow>
     \<exists>t. run_sa (launched (main_libvirt getenv) (p, 0)) [Proceeds, Proceeds, Proceeds, Binds True, Opens, Interrupts, Stops, Proceeds, Proceeds, Proceeds, Proceeds] t \<and>
      sa_main t = Exits 0 \<and> sa_active t = 1 \<and> \<not> sa_expired t"
    by (simp_all add: standalone_play.play_run [symmetric] launched_def main_ovn_def main_libvirt_def takes_sa_def StopAll_def)
qed

section \<open>The dashboard\<close>

text \<open>\<^verbatim>\<open>webui/cmd/main.go\<close> is written like the programs of the simulators, but its routes conflict: it never serves.\<close>

definition main_dashboard :: "string list \<Rightarrow> (string \<Rightarrow> string) \<Rightarrow> (webui_handler mux, 'w) program" where
  "main_dashboard ks getenv = \<lparr>pr_port = dashboard_port getenv, pr_app = main_webui ks getenv, pr_calls = served_apart False\<rparr>"

lemma dashboard_never_serves:
  assumes "iteration_order (overridden getenv) ks" "run_sa (launched (main_dashboard ks getenv) w) ls t"
  shows "ls = [] \<and> sa_main t = Panicked"
  using assms(2) standalone_dashboard_panics [OF assms(1)]
  by (cases ls) (auto simp: launched_def main_dashboard_def guarded_run_Cons step_sa_iff takes_sa_def)

text \<open>A load generator on its default port and the unified binary's database interface on its own want the same port.\<close>

lemma default_ports_collide:
  "pr_port (main_load (\<lambda>_. [])) = st_postgresMgmt (read_settings (\<lambda>_. None) (\<lambda>_. []))"
  by (simp add: main_load_def read_settings_def flag_String_def envOrDefault_def)

end
