(* ===== verification/Accept_Loops.thy ===== *)
theory Accept_Loops
  imports Prelude
begin

text \<open>
  The accept loops of the two TCP servers: \<^verbatim>\<open>acceptLoop\<close> of \<^verbatim>\<open>libvirt-sim/internal/rpc/server.go\<close> and of
  \<^verbatim>\<open>ovn-sim/internal/ovsdb/server.go\<close>. What \<^verbatim>\<open>Accept\<close> returns, one after the other, is the argument; the
  result is the connections that are handed to a goroutine, and whether the loop has returned.
\<close>

text \<open>An error, with what the loops ask of it: whether the context is done by then, whether it is a
  \<^verbatim>\<open>net.OpError\<close>, and whether it is temporary.\<close>

record accept_error =
  ae_done :: bool
  ae_op :: bool
  ae_temporary :: bool

datatype 'c accepted = Accepts 'c | Fails accept_error

text \<open>libvirt-sim: every error ends the loop; the three branches differ in what is logged.\<close>

fun acceptLoop_lv :: "'c accepted list \<Rightarrow> 'c list \<times> bool" where
  "acceptLoop_lv [] = ([], False)"
| "acceptLoop_lv (Accepts c # rest) = (case acceptLoop_lv rest of (cs, returned) \<Rightarrow> (c # cs, returned))"
| "acceptLoop_lv (Fails e # rest) =
     (if ae_done e then ([], True)
      else if ae_op e \<and> \<not> ae_temporary e then ([], True)
      else ([], True))"

text \<open>ovn-sim: an error other than a closed listener is logged and the loop goes on.\<close>

fun acceptLoop_db :: "'c accepted list \<Rightarrow> 'c list \<times> bool" where
  "acceptLoop_db [] = ([], False)"
| "acceptLoop_db (Accepts c # rest) = (case acceptLoop_db rest of (cs, returned) \<Rightarrow> (c # cs, returned))"
| "acceptLoop_db (Fails e # rest) =
     (if ae_done e then ([], True)
      else if ae_op e \<and> \<not> ae_temporary e then ([], True)
      else acceptLoop_db rest)"

section \<open>Which connections are served\<close>

text \<open>An error that says that the server is to stop: the context is done or the listener is closed.\<close>

fun is_conn :: "'c accepted \<Rightarrow> bool" where
  "is_conn (Accepts _) = True"
| "is_conn (Fails _) = False"

fun final :: "'c accepted \<Rightarrow> bool" where
  "final (Accepts _) = False"
| "final (Fails e) \<longleftrightarrow> ae_done e \<or> ae_op e \<and> \<not> ae_temporary e"

fun conns_of :: "'c accepted list \<Rightarrow> 'c list" where
  "conns_of [] = []"
| "conns_of (Accepts c # as) = c # conns_of as"
| "conns_of (Fails _ # as) = conns_of as"

text \<open>
  ovn-sim serves every connection that arrives before it is told to stop and returns then;
  libvirt-sim serves those before the first error of any kind.
\<close>

theorem accept_loops_serve:
  "acceptLoop_db as = (conns_of (takeWhile (\<lambda>a. \<not> final a) as), list_ex final as)"
  "acceptLoop_lv as = (conns_of (takeWhile is_conn as), \<not> list_all is_conn as)"
proof -
  show "acceptLoop_db as = (conns_of (takeWhile (\<lambda>a. \<not> final a) as), list_ex final as)"
    by (induction as rule: acceptLoop_db.induct) auto
  show "acceptLoop_lv as = (conns_of (takeWhile is_conn as), \<not> list_all is_conn as)"
    by (induction as rule: acceptLoop_lv.induct) auto
qed

text \<open>So one temporary error (no file descriptor was free, say) makes a host of libvirt-sim unreachable for good while
  its listener is still registered and its port open; the same errors leave ovn-sim serving.\<close>

theorem temporary_error_silences_host:
  assumes "\<not> ae_done e" "ae_temporary e"
  shows "acceptLoop_lv (map Accepts cs @ Fails e # as) = (cs, True) \<and>
    acceptLoop_db (map Accepts cs @ Fails e # as) = (cs @ fst (acceptLoop_db as), snd (acceptLoop_db as))"
  using assms by (induction cs) (auto split: prod.split)

end
